(* ===== verification/Prelude.thy ===== *)
theory Prelude
  imports Main "HOL-Library.Word" "HOL-Library.List_Lexorder"
begin

text \<open>
  Shared vocabulary of the development: the machine integers and byte strings of the Go
  sources, \<^verbatim>\<open>bytes.Compare\<close>, call-back driven iteration, and generic lemmas on
  lists that the component theories share.
\<close>

named_theorems wf_intros \<open>introduction rules of the components' invariants\<close>
named_theorems go_simps \<open>unfoldings of the Go primitives to the library's operations\<close>

subsection \<open>Machine integers and byte strings\<close>

type_synonym u8 = "8 word"
type_synonym u64 = "64 word"
type_synonym bytes = "8 word list"

text \<open>\<^verbatim>\<open>bytes.Compare\<close>: lexicographic, a proper prefix is smaller.\<close>

fun bytesCompare :: "bytes \<Rightarrow> bytes \<Rightarrow> int" where
  "bytesCompare [] [] = 0"
| "bytesCompare [] (b # bs) = -1"
| "bytesCompare (a # as) [] = 1"
| "bytesCompare (a # as) (b # bs) =
     (if a < b then -1 else if b < a then 1 else bytesCompare as bs)"

lemma bytesCompare_less [go_simps]: "bytesCompare a b < 0 \<longleftrightarrow> a < b"
  by (induction a b rule: bytesCompare.induct) auto

lemma bytesCompare_greater [go_simps]: "0 < bytesCompare a b \<longleftrightarrow> b < a"
  by (induction a b rule: bytesCompare.induct) auto

lemma bytesCompare_eq [go_simps]: "bytesCompare a b = 0 \<longleftrightarrow> a = b"
  by (induction a b rule: bytesCompare.induct) (auto simp: not_less_iff_gr_or_eq)

lemma bytesCompare_ge [go_simps]: "0 \<le> bytesCompare a b \<longleftrightarrow> b \<le> a"
  using bytesCompare_less [of a b] by (simp add: not_less [symmetric])

lemma bytesCompare_le [go_simps]: "bytesCompare a b \<le> 0 \<longleftrightarrow> a \<le> b"
  using bytesCompare_greater [of a b] by (simp add: not_less [symmetric])

lemma Nil_le_bytes [simp]: "([] :: bytes) \<le> k"
  by simp

subsection \<open>Faults\<close>

text \<open>\<^verbatim>\<open>log.Fatalf\<close> ends the process and a panic unwinds it; both are the left summand of
  an operation's result.\<close>

datatype fault = Fatalf | Panic

fun sbind :: "'e + 'a \<Rightarrow> ('a \<Rightarrow> 'e + 'b) \<Rightarrow> 'e + 'b" where
  "sbind (Inl e) f = Inl e"
| "sbind (Inr a) f = f a"

lemma sbind_Inr_iff: "sbind m f = Inr b \<longleftrightarrow> (\<exists>a. m = Inr a \<and> f a = Inr b)"
  by (cases m) auto

lemma sbind_cong [fundef_cong]: "m = m' \<Longrightarrow> (\<And>a. m' = Inr a \<Longrightarrow> f a = g a) \<Longrightarrow> sbind m f = sbind m' g"
  by (cases m') auto

text \<open>An operation that may also return an error value.\<close>

datatype ('e, 'a) outcome = Return 'a | Fail 'e | Crash fault

subsection \<open>Iteration with a call-back\<close>

text \<open>
  The containers of the code are traversed with a closure that returns \<^verbatim>\<open>false\<close> to stop.
  The closure's captured variables are the state \<^typ>\<open>'s\<close>.
\<close>

fun iterate :: "('i \<Rightarrow> 's \<Rightarrow> bool \<times> 's) \<Rightarrow> 'i list \<Rightarrow> 's \<Rightarrow> 's" where
  "iterate f [] s = s"
| "iterate f (x # xs) s = (case f x s of (True, s') \<Rightarrow> iterate f xs s' | (False, s') \<Rightarrow> s')"

lemma iterate_collect:
  "iterate (\<lambda>x acc. if P x then (True, acc @ [x]) else (False, acc)) xs acc = acc @ takeWhile P xs"
  by (induction xs arbitrary: acc) auto

lemma iterate_collect_until:
  "iterate (\<lambda>x acc. if Q x then (False, acc) else (True, acc @ [x])) xs acc =
   acc @ takeWhile (\<lambda>x. \<not> Q x) xs"
  by (induction xs arbitrary: acc) auto

lemma iterate_first:
  "iterate (\<lambda>x _. (False, Some x)) xs None = (case xs of [] \<Rightarrow> None | x # _ \<Rightarrow> Some x)"
  by (cases xs) auto

lemma iterate_find:
  "iterate (\<lambda>x r. if P x then (False, Some x) else (True, r)) xs None = find P xs"
  by (induction xs) auto

subsection \<open>Words\<close>

lemma unat_plus1: "(w :: 'a :: len word) + 1 \<noteq> 0 \<Longrightarrow> unat (w + 1) = Suc (unat w)"
  using unatSuc [of w] by (simp add: add.commute)

lemma less_plus1_iff: "(c :: 'a :: len word) + 1 \<noteq> 0 \<Longrightarrow> d < c + 1 \<longleftrightarrow> d \<le> c"
  by (auto simp: word_less_nat_alt word_le_nat_alt unat_plus1)

lemma unat_of_nat_u64: "m < 2 ^ 64 \<Longrightarrow> unat (of_nat m :: u64) = m"
  by (simp add: unsigned_of_nat take_bit_nat_eq_self)

lemma less_plus1_nz: "(a :: 'a :: len word) < b \<Longrightarrow> a + 1 \<noteq> 0"
proof
  assume "a < b" "a + 1 = 0"
  then have "a = - 1" by (simp add: add_eq_0_iff2)
  with \<open>a < b\<close> show False using word_order.extremum_strict [of b] by simp
qed

lemma unat_pred: "(w :: 'a :: len word) \<noteq> 0 \<Longrightarrow> unat (w - 1) = unat w - 1"
  by (rule unat_minus_one)

lemma le_pred_iff: "(w :: 'a :: len word) \<noteq> 0 \<Longrightarrow> a \<le> w - 1 \<longleftrightarrow> a < w"
  using unat_pred [of w] unat_gt_0 [of w] by (auto simp: word_le_nat_alt word_less_nat_alt)

lemma append_less_same [simp]: "zs @ xs < zs @ ys \<longleftrightarrow> xs < (ys :: 'a :: linorder list)"
  by (induction zs) auto

lemma append_le_same [simp]: "zs @ xs \<le> zs @ ys \<longleftrightarrow> xs \<le> (ys :: 'a :: linorder list)"
  by (induction zs) auto

text \<open>The indices of a loop \<^verbatim>\<open>for i := lo; i < hi; i++\<close> over unsigned integers.\<close>

function u64_range :: "u64 \<Rightarrow> u64 \<Rightarrow> u64 list" where
  "u64_range lo hi = (if lo < hi then lo # u64_range (lo + 1) hi else [])"
  by auto
termination
proof (relation "measure (\<lambda>(lo, hi). unat hi - unat lo)")
  fix lo hi :: u64
  assume "lo < hi"
  then show "((lo + 1, hi), lo, hi) \<in> measure (\<lambda>(lo, hi). unat hi - unat lo)"
    using unat_plus1 [OF less_plus1_nz [OF \<open>lo < hi\<close>]] by (simp add: word_less_nat_alt)
qed simp

declare u64_range.simps [simp del]

lemma set_u64_range [simp]: "set (u64_range lo hi) = {i. lo \<le> i \<and> i < hi}"
proof (induction lo hi rule: u64_range.induct)
  case (1 lo hi)
  have "lo + 1 \<le> i \<longleftrightarrow> lo < i" if "lo < hi" for i
    using less_plus1_nz [OF that] unat_plus1 [of lo] by (auto simp: word_le_nat_alt word_less_nat_alt)
  with 1 show ?case
    by (subst u64_range.simps) (auto simp: order.order_iff_strict [of lo])
qed

subsection \<open>Lists\<close>

lemma hd_dropWhile_eq_find: "(case dropWhile (\<lambda>x. \<not> P x) xs of [] \<Rightarrow> None | x # _ \<Rightarrow> Some x) = find P xs"
  by (induction xs) auto

lemma sorted_wrt_takeWhile: "sorted_wrt R xs \<Longrightarrow> sorted_wrt R (takeWhile P xs)"
  by (metis sorted_wrt_append takeWhile_dropWhile_id)

lemma sorted_wrt_dropWhile: "sorted_wrt R xs \<Longrightarrow> sorted_wrt R (dropWhile P xs)"
  by (metis sorted_wrt_append takeWhile_dropWhile_id)

lemma sorted_wrt_filter_any: "sorted_wrt R xs \<Longrightarrow> sorted_wrt R (filter P xs)"
  by (rule sorted_wrt_filter)

text \<open>On a list sorted by \<open>R\<close>, cutting at a predicate that is closed under \<open>R\<close> is filtering.\<close>

lemma takeWhile_eq_filter_sorted:
  assumes "sorted_wrt R xs" "\<And>x y. R x y \<Longrightarrow> P y \<Longrightarrow> P x"
  shows "takeWhile P xs = filter P xs"
  using assms(1) by (induction xs) (auto simp: empty_filter_conv dest: assms(2))

lemma dropWhile_eq_filter_sorted:
  assumes "sorted_wrt R xs" "\<And>x y. R x y \<Longrightarrow> P y \<Longrightarrow> P x"
  shows "dropWhile P xs = filter (\<lambda>x. \<not> P x) xs"
  using assms(1) by (induction xs) (auto intro!: filter_True [symmetric] dest: assms(2))

end
