(* ===== verification/Btree.thy ===== *)
theory Btree
  imports Prelude
begin

text \<open>
  The interface of the vendored \<^verbatim>\<open>google/btree\<close> package that the trees of
  \<^verbatim>\<open>pkg/util\<close> are built on.  A tree is its in-order list of items; the item type's
  \<^verbatim>\<open>Less\<close> method is an argument.  The locale \<open>item_order\<close> states what the package asks
  of \<^verbatim>\<open>Less\<close> (a strict weak order) and proves the laws of the operations once; the
  item types of the code interpret it.
\<close>

subsection \<open>Operations\<close>

fun replaceOrInsert :: "('i \<Rightarrow> 'i \<Rightarrow> bool) \<Rightarrow> 'i \<Rightarrow> 'i list \<Rightarrow> 'i list" where
  "replaceOrInsert lt x [] = [x]"
| "replaceOrInsert lt x (y # ys) =
     (if lt x y then x # y # ys
      else if lt y x then y # replaceOrInsert lt x ys
      else x # ys)"

fun deleteItem :: "('i \<Rightarrow> 'i \<Rightarrow> bool) \<Rightarrow> 'i \<Rightarrow> 'i list \<Rightarrow> 'i option \<times> 'i list" where
  "deleteItem lt x [] = (None, [])"
| "deleteItem lt x (y # ys) =
     (if lt x y then (None, y # ys)
      else if lt y x then (let (r, zs) = deleteItem lt x ys in (r, y # zs))
      else (Some y, ys))"

text \<open>The traversals, each with a call-back over its captured state.\<close>

definition ascendGreaterOrEqual ::
  "('i \<Rightarrow> 'i \<Rightarrow> bool) \<Rightarrow> 'i \<Rightarrow> ('i \<Rightarrow> 's \<Rightarrow> bool \<times> 's) \<Rightarrow> 'i list \<Rightarrow> 's \<Rightarrow> 's" where
  "ascendGreaterOrEqual lt pivot f ts s = iterate f (dropWhile (\<lambda>y. lt y pivot) ts) s"

definition descendLessOrEqual ::
  "('i \<Rightarrow> 'i \<Rightarrow> bool) \<Rightarrow> 'i \<Rightarrow> ('i \<Rightarrow> 's \<Rightarrow> bool \<times> 's) \<Rightarrow> 'i list \<Rightarrow> 's \<Rightarrow> 's" where
  "descendLessOrEqual lt pivot f ts s = iterate f (rev (takeWhile (\<lambda>y. \<not> lt pivot y) ts)) s"

definition descendRange ::
  "('i \<Rightarrow> 'i \<Rightarrow> bool) \<Rightarrow> 'i \<Rightarrow> 'i \<Rightarrow> ('i \<Rightarrow> 's \<Rightarrow> bool \<times> 's) \<Rightarrow> 'i list \<Rightarrow> 's \<Rightarrow> 's" where
  "descendRange lt le gt f ts s =
     iterate f (takeWhile (\<lambda>y. lt gt y) (rev (takeWhile (\<lambda>y. \<not> lt le y) ts))) s"

definition descend :: "('i \<Rightarrow> 's \<Rightarrow> bool \<times> 's) \<Rightarrow> 'i list \<Rightarrow> 's \<Rightarrow> 's" where
  "descend f ts s = iterate f (rev ts) s"

subsection \<open>Laws under a strict weak order\<close>

locale item_order =
  fixes lt :: "'i \<Rightarrow> 'i \<Rightarrow> bool"
  assumes lt_irrefl: "\<not> lt x x"
    and lt_trans: "lt x y \<Longrightarrow> lt y z \<Longrightarrow> lt x z"
    and lt_weak: "lt x z \<Longrightarrow> lt x y \<or> lt y z"
begin

lemma lt_asym: "lt x y \<Longrightarrow> \<not> lt y x"
  using lt_irrefl lt_trans by blast

lemma lt_below: "lt y z \<Longrightarrow> \<not> lt y x \<Longrightarrow> lt x z"
  using lt_weak by blast

lemma set_replaceOrInsert:
  "sorted_wrt lt ts \<Longrightarrow> set (replaceOrInsert lt x ts) = insert x {y \<in> set ts. lt x y \<or> lt y x}"
proof (induction ts)
  case (Cons y ys)
  have "lt x z" if "z \<in> set ys" "lt x y \<or> \<not> lt y x" for z
    using Cons.prems that lt_trans lt_below by (metis list.set_intros(2) sorted_wrt.simps(2))
  with Cons show ?case by auto
qed simp

lemma sorted_replaceOrInsert:
  "sorted_wrt lt ts \<Longrightarrow> sorted_wrt lt (replaceOrInsert lt x ts)"
proof (induction ts)
  case (Cons y ys)
  have "lt x z" if "z \<in> set ys" "lt x y \<or> \<not> lt y x" for z
    using Cons.prems that lt_trans lt_below by (metis sorted_wrt.simps(2))
  with Cons show ?case by (auto simp: set_replaceOrInsert)
qed simp

lemma deleteItem_filter:
  "sorted_wrt lt ts \<Longrightarrow> snd (deleteItem lt x ts) = filter (\<lambda>y. lt x y \<or> lt y x) ts"
proof (induction ts)
  case (Cons y ys)
  have later: "filter (\<lambda>z. lt x z \<or> lt z x) ys = ys" if "\<not> lt y x"
    using Cons.prems that lt_below by (intro filter_True) auto
  show ?case
    using Cons lt_asym later by (auto simp: case_prod_beta Let_def)
qed simp

lemma set_deleteItem:
  "sorted_wrt lt ts \<Longrightarrow> set (snd (deleteItem lt x ts)) = {y \<in> set ts. lt x y \<or> lt y x}"
  by (simp add: deleteItem_filter)

lemma sorted_deleteItem:
  "sorted_wrt lt ts \<Longrightarrow> sorted_wrt lt (snd (deleteItem lt x ts))"
  by (simp add: deleteItem_filter sorted_wrt_filter)

lemma deleteItem_None: "sorted_wrt lt ts \<Longrightarrow>
    fst (deleteItem lt x ts) = None \<longleftrightarrow> (\<forall>y \<in> set ts. lt x y \<or> lt y x)"
proof (induction ts)
  case (Cons y ys)
  have "lt x z" if "z \<in> set ys" "lt x y \<or> \<not> lt y x" for z
    using Cons.prems that lt_trans lt_below by (metis sorted_wrt.simps(2))
  with Cons show ?case by (auto simp: case_prod_beta Let_def)
qed simp

lemma fold_deleteItem: "sorted_wrt lt ts \<Longrightarrow>
    fold (\<lambda>x t. snd (deleteItem lt x t)) xs ts = filter (\<lambda>y. \<forall>x \<in> set xs. lt x y \<or> lt y x) ts"
proof (induction xs arbitrary: ts)
  case (Cons x xs)
  then show ?case
    by (simp add: deleteItem_filter sorted_wrt_filter conj_commute)
qed simp

lemma from_pivot: "sorted_wrt lt ts \<Longrightarrow>
    dropWhile (\<lambda>y. lt y p) ts = filter (\<lambda>y. \<not> lt y p) ts"
  by (rule dropWhile_eq_filter_sorted [where R = lt]) (auto intro: lt_trans)

lemma upto_pivot: "sorted_wrt lt ts \<Longrightarrow>
    takeWhile (\<lambda>y. \<not> lt p y) ts = filter (\<lambda>y. \<not> lt p y) ts"
  by (rule takeWhile_eq_filter_sorted [where R = lt]) (auto intro: lt_trans)

lemma distinct_sorted: "sorted_wrt lt ts \<Longrightarrow> distinct ts"
  using lt_irrefl by (induction ts) auto

end

end
