(* ===== verification/Metapb.thy ===== *)
theory Metapb
  imports Prelude
begin

text \<open>
  The metadata messages of \<^verbatim>\<open>pkg/pb/metapb\<close>: peers, cell epochs, cells and stores.
  Message pointers of the generated structs are values here; a nil byte slice and an empty
  one are both the empty list, as the code only ever tests their length.
\<close>

record Peer =
  p_ID :: u64
  p_StoreID :: u64

record CellEpoch =
  e_ConfVer :: u64
  e_CellVer :: u64

record Cell =
  c_ID :: u64
  c_Start :: bytes
  c_End :: bytes
  c_Epoch :: CellEpoch
  c_Peers :: "Peer list"

datatype StoreState = UP | Down | Tombstone

record Store =
  s_ID :: u64
  s_Address :: bytes
  s_State :: StoreState
  s_ClientAddress :: bytes
  s_Lables :: "(string \<times> string) list"

text \<open>The zero value of \<^verbatim>\<open>metapb.Cell\<close>.\<close>

definition emptyCell :: Cell where
  "emptyCell = \<lparr>c_ID = 0, c_Start = [], c_End = [],
     c_Epoch = \<lparr>e_ConfVer = 0, e_CellVer = 0\<rparr>, c_Peers = []\<rparr>"

subsection \<open>Key ranges\<close>

text \<open>A cell owns the keys from its start key up to, and without, its end key; an empty end
  key is positive infinity.\<close>

definition covers :: "Cell \<Rightarrow> bytes \<Rightarrow> bool" where
  "covers c k \<longleftrightarrow> c_Start c \<le> k \<and> (c_End c = [] \<or> k < c_End c)"

definition valid_range :: "Cell \<Rightarrow> bool" where
  "valid_range c \<longleftrightarrow> c_End c = [] \<or> c_Start c < c_End c"

definition overlap :: "Cell \<Rightarrow> Cell \<Rightarrow> bool" where
  "overlap c d \<longleftrightarrow> (\<exists>k. covers c k \<and> covers d k)"

lemma overlap_sym: "overlap c d \<longleftrightarrow> overlap d c"
  by (auto simp: overlap_def)

lemma covers_start [simp]: "valid_range c \<Longrightarrow> covers c (c_Start c)"
  by (auto simp: covers_def valid_range_def)

lemma overlap_refl: "valid_range c \<Longrightarrow> overlap c c"
  using covers_start overlap_def by blast

lemma overlap_code:
  assumes "valid_range c" "valid_range d"
  shows "overlap c d \<longleftrightarrow>
    (c_End d = [] \<or> c_Start c < c_End d) \<and> (c_End c = [] \<or> c_Start d < c_End c)"
proof
  assume "overlap c d"
  then show "(c_End d = [] \<or> c_Start c < c_End d) \<and> (c_End c = [] \<or> c_Start d < c_End c)"
    by (auto simp: overlap_def covers_def)
next
  assume "(c_End d = [] \<or> c_Start c < c_End d) \<and> (c_End c = [] \<or> c_Start d < c_End c)"
  then have "covers c (max (c_Start c) (c_Start d)) \<and> covers d (max (c_Start c) (c_Start d))"
    using assms by (auto simp: covers_def valid_range_def max_def)
  then show "overlap c d" by (auto simp: overlap_def)
qed

end
