(* ===== verification/Cell_Tree.thy ===== *)
theory Cell_Tree
  imports Btree Metapb
begin

text \<open>
  \<^verbatim>\<open>pkg/util/cell_tree.go\<close>: the index from keys to cells.  The tree's items are ordered by
  start key, the greatest first.  The invariant \<open>cells_wf\<close> says that the ranges are not
  empty and do not overlap; \<open>owner\<close> is the abstract view, a partial function from keys to
  the cell that owns them, and every operation is shown to implement its specification on
  that view.
\<close>

type_synonym CellTree = "Cell list"

definition NewCellTree :: CellTree where
  "NewCellTree = []"

definition CellItem_Less :: "Cell \<Rightarrow> Cell \<Rightarrow> bool" where
  "CellItem_Less r other = (bytesCompare (c_Start r) (c_Start other) > 0)"

definition CellItem_Contains :: "Cell \<Rightarrow> bytes \<Rightarrow> bool" where
  "CellItem_Contains r key =
     (bytesCompare key (c_Start r) \<ge> 0 \<and>
      (length (c_End r) = 0 \<or> bytesCompare key (c_End r) < 0))"

definition CellTree_length :: "CellTree \<Rightarrow> nat" where
  "CellTree_length t = length t"

definition CellTree_find :: "CellTree \<Rightarrow> Cell \<Rightarrow> Cell option" where
  "CellTree_find t cell =
     (let result = ascendGreaterOrEqual CellItem_Less cell (\<lambda>i _. (False, Some i)) t None
      in case result of
           None \<Rightarrow> None
         | Some r \<Rightarrow> if \<not> CellItem_Contains r (c_Start cell) then None else Some r)"

definition CellTree_Update :: "CellTree \<Rightarrow> Cell \<Rightarrow> CellTree" where
  "CellTree_Update t cell =
     (let item = cell;
          result = (case CellTree_find t cell of None \<Rightarrow> item | Some r \<Rightarrow> r);
          overlaps = descendLessOrEqual CellItem_Less result
            (\<lambda>over acc.
               if length (c_End cell) > 0 \<and> bytesCompare (c_End cell) (c_Start over) \<le> 0
               then (False, acc) else (True, acc @ [over])) t [];
          t' = fold (\<lambda>it tr. snd (deleteItem CellItem_Less it tr)) overlaps t
      in replaceOrInsert CellItem_Less item t')"

definition CellTree_Remove :: "CellTree \<Rightarrow> Cell \<Rightarrow> bool \<times> CellTree" where
  "CellTree_Remove t cell =
     (case CellTree_find t cell of
        None \<Rightarrow> (False, t)
      | Some r \<Rightarrow> if c_ID r \<noteq> c_ID cell then (False, t)
                  else (True, snd (deleteItem CellItem_Less r t)))"

definition CellTree_Ascend :: "CellTree \<Rightarrow> (Cell \<Rightarrow> 's \<Rightarrow> bool \<times> 's) \<Rightarrow> 's \<Rightarrow> 's" where
  "CellTree_Ascend t fn s = descend fn t s"

definition CellTree_NextCell :: "CellTree \<Rightarrow> bytes \<Rightarrow> Cell option" where
  "CellTree_NextCell t start =
     descendLessOrEqual CellItem_Less (emptyCell\<lparr>c_Start := start\<rparr>)
       (\<lambda>item value. if bytesCompare (c_Start item) start > 0
                      then (False, Some item) else (True, value)) t None"

definition CellTree_AscendRange ::
  "CellTree \<Rightarrow> bytes \<Rightarrow> bytes \<Rightarrow> (Cell \<Rightarrow> 's \<Rightarrow> bool \<times> 's) \<Rightarrow> 's \<Rightarrow> 's" where
  "CellTree_AscendRange t start stop fn s =
     descendRange CellItem_Less (emptyCell\<lparr>c_Start := start\<rparr>) (emptyCell\<lparr>c_Start := stop\<rparr>) fn t s"

definition CellTree_Search :: "CellTree \<Rightarrow> bytes \<Rightarrow> Cell" where
  "CellTree_Search t key =
     (case CellTree_find t (emptyCell\<lparr>c_Start := key\<rparr>) of None \<Rightarrow> emptyCell | Some r \<Rightarrow> r)"

subsection \<open>Invariant and abstract view\<close>

definition below :: "Cell \<Rightarrow> Cell \<Rightarrow> bool" where
  "below hi lo \<longleftrightarrow> c_Start lo < c_Start hi \<and> c_End lo \<noteq> [] \<and> c_End lo \<le> c_Start hi"

definition cells_wf :: "CellTree \<Rightarrow> bool" where
  "cells_wf t \<longleftrightarrow> sorted_wrt below t \<and> (\<forall>c \<in> set t. valid_range c)"

definition owner :: "CellTree \<Rightarrow> bytes \<Rightarrow> Cell option" where
  "owner t k = find (\<lambda>c. covers c k) t"

interpretation cell_items: item_order CellItem_Less
  by unfold_locales (auto simp: CellItem_Less_def go_simps)

lemma CellItem_Less_iff [simp]: "CellItem_Less a b \<longleftrightarrow> c_Start b < c_Start a"
  by (simp add: CellItem_Less_def go_simps)

lemma CellItem_Contains_iff [simp]: "CellItem_Contains c k \<longleftrightarrow> covers c k"
  by (auto simp: CellItem_Contains_def covers_def go_simps)

lemma cells_wf_Nil [simp, wf_intros]: "cells_wf []"
  by (simp add: cells_wf_def)

lemma cells_wf_sorted: "cells_wf t \<Longrightarrow> sorted_wrt CellItem_Less t"
  unfolding cells_wf_def using sorted_wrt_mono_rel [of t below CellItem_Less] by (simp add: below_def)

lemma cells_wf_valid: "cells_wf t \<Longrightarrow> c \<in> set t \<Longrightarrow> valid_range c"
  by (simp add: cells_wf_def)

lemma below_no_overlap: "below hi lo \<Longrightarrow> \<not> overlap hi lo"
  by (auto simp: below_def overlap_def covers_def)

lemma no_overlap_below:
  "valid_range a \<Longrightarrow> valid_range b \<Longrightarrow> \<not> overlap a b \<Longrightarrow> c_Start b < c_Start a \<Longrightarrow> below a b"
  by (auto simp: overlap_code below_def not_less valid_range_def)

lemma cells_wf_Cons [simp]:
  "cells_wf (a # t) \<longleftrightarrow> cells_wf t \<and> valid_range a \<and> (\<forall>b \<in> set t. below a b)"
  by (auto simp: cells_wf_def)

lemma below_iff:
  "valid_range a \<Longrightarrow> valid_range b \<Longrightarrow> below a b \<longleftrightarrow> CellItem_Less a b \<and> \<not> overlap a b"
  by (metis CellItem_Less_iff below_def below_no_overlap no_overlap_below)



lemma pairwise_overlap_insert: "pairwise (\<lambda>c d. \<not> overlap c d) (insert a S) \<longleftrightarrow>
      (\<forall>d \<in> S. d \<noteq> a \<longrightarrow> \<not> overlap a d) \<and> pairwise (\<lambda>c d. \<not> overlap c d) S"
proof -
  have "(\<not> overlap a y \<and> \<not> overlap y a) \<longleftrightarrow> \<not> overlap a y" for y
    by (simp add: overlap_sym [of y a])
  then show ?thesis unfolding pairwise_insert by blast
qed

lemma cells_wf_alt:
  "cells_wf t \<longleftrightarrow> sorted_wrt CellItem_Less t \<and> (\<forall>c \<in> set t. valid_range c) \<and>
     pairwise (\<lambda>c d. \<not> overlap c d) (set t)"
proof (induction t)
  case (Cons a t)
  have "(\<forall>b\<in>set t. below a b) \<longleftrightarrow>
      (\<forall>b\<in>set t. CellItem_Less a b) \<and> (\<forall>d\<in>set t. d \<noteq> a \<longrightarrow> \<not> overlap a d)"
    if "valid_range a" "\<forall>b\<in>set t. valid_range b"
    using that by (metis below_iff CellItem_Less_iff less_irrefl)
  then show ?case
    unfolding cells_wf_Cons Cons.IH sorted_wrt.simps list.set pairwise_overlap_insert by blast
qed simp

lemma cells_wf_same_owner:
  "cells_wf t \<Longrightarrow> c \<in> set t \<Longrightarrow> d \<in> set t \<Longrightarrow> overlap c d \<Longrightarrow> c = d"
  unfolding cells_wf_alt pairwise_def by blast

lemma owner_Some: "cells_wf t \<Longrightarrow> owner t k = Some c \<longleftrightarrow> c \<in> set t \<and> covers c k"
proof
  assume "owner t k = Some c"
  then show "c \<in> set t \<and> covers c k"
    unfolding owner_def by (metis find_Some_iff nth_mem)
next
  assume wf: "cells_wf t" and c: "c \<in> set t \<and> covers c k"
  then obtain d where d: "owner t k = Some d"
    unfolding owner_def by (metis find_None_iff option.exhaust)
  then have "d \<in> set t \<and> covers d k"
    unfolding owner_def by (metis find_Some_iff nth_mem)
  with c have "d = c" using wf cells_wf_same_owner overlap_def by metis
  with d show "owner t k = Some c" by simp
qed

lemma owner_eqI:
  assumes "\<And>c. c \<in> set t \<and> covers c k \<longleftrightarrow> r = Some c" "cells_wf t"
  shows "owner t k = r"
  using assms owner_Some [OF assms(2), of k] by (metis not_Some_eq)

lemma owner_None: "owner t k = None \<longleftrightarrow> (\<forall>c \<in> set t. \<not> covers c k)"
  by (auto simp: owner_def find_None_iff)

text \<open>The lookup of the code only inspects the cell with the greatest start key at or below
  the wanted one; under the invariant that is the owner.\<close>

lemma CellTree_find_owner: "cells_wf t \<Longrightarrow> CellTree_find t c = owner t (c_Start c)"
proof (induction t)
  case (Cons a t)
  show ?case
  proof (cases "c_Start c < c_Start a")
    case True
    then have "\<not> covers a (c_Start c)" by (auto simp: covers_def)
    with True show ?thesis
      using Cons by (simp add: CellTree_find_def ascendGreaterOrEqual_def owner_def)
  next
    case False
    have "\<not> covers d (c_Start c)" if "d \<in> set t" for d
      using Cons.prems that False by (force simp: below_def covers_def)
    then have "find (\<lambda>d. covers d (c_Start c)) t = None"
      by (simp add: find_None_iff)
    then show ?thesis
      using False by (auto simp: CellTree_find_def ascendGreaterOrEqual_def owner_def)
  qed
qed (simp add: CellTree_find_def ascendGreaterOrEqual_def owner_def)

text \<open>The cells an update walks over are the ones that overlap the new cell.\<close>

lemma walked_overlap:
  assumes wf: "cells_wf t" and c: "valid_range c" and y: "y \<in> set t"
    and r: "r = (case owner t (c_Start c) of None \<Rightarrow> c | Some r \<Rightarrow> r)"
  shows "c_Start r \<le> c_Start y \<and> (c_End c = [] \<or> c_Start y < c_End c) \<longleftrightarrow> overlap c y"
proof (cases "owner t (c_Start c)")
  case None
  then have "\<not> covers y (c_Start c)" using y by (simp add: owner_None)
  with None r show ?thesis
    using overlap_code [OF c cells_wf_valid [OF wf y]] cells_wf_valid [OF wf y]
    by (auto simp: covers_def not_less valid_range_def)
next
  case (Some d)
  then have d: "d \<in> set t" "covers d (c_Start c)"
    using owner_Some [OF wf] by blast+
  have "r = d" using Some r by simp
  have dy: "d = y \<or> below d y \<or> below y d"
    using wf y d(1) unfolding cells_wf_def by (induction t) auto
  show ?thesis
    using d \<open>r = d\<close> dy overlap_code [OF c cells_wf_valid [OF wf y]] cells_wf_valid [OF wf d(1)] cells_wf_valid [OF wf y]
    by (auto simp: below_def covers_def not_less valid_range_def)
qed

lemma CellTree_Update_filter:
  assumes wf: "cells_wf t" and c: "valid_range c"
  shows "CellTree_Update t c =
    replaceOrInsert CellItem_Less c (filter (\<lambda>y. \<not> overlap c y) t)"
proof -
  define r where "r = (case owner t (c_Start c) of None \<Rightarrow> c | Some r \<Rightarrow> r)"
  define Q where "Q = (\<lambda>y :: Cell. length (c_End c) > 0 \<and> bytesCompare (c_End c) (c_Start y) \<le> 0)"
  define os where "os = takeWhile (\<lambda>y. \<not> Q y) (rev (takeWhile (\<lambda>y. \<not> CellItem_Less r y) t))"
  have srt: "sorted_wrt CellItem_Less t" by (rule cells_wf_sorted [OF wf])
  have rsrt: "sorted_wrt (\<lambda>a b. CellItem_Less b a) (rev (filter (\<lambda>y. \<not> CellItem_Less r y) t))"
    unfolding sorted_wrt_rev by (rule sorted_wrt_filter [OF srt])
  have "os = filter (\<lambda>y. \<not> Q y) (rev (filter (\<lambda>y. \<not> CellItem_Less r y) t))"
    unfolding os_def cell_items.upto_pivot [OF srt]
    by (rule takeWhile_eq_filter_sorted [OF rsrt]) (auto simp: Q_def go_simps)
  then have "set os = {y \<in> set t. overlap c y}"
    using walked_overlap [OF wf c _ r_def] by (auto simp: Q_def go_simps not_less not_le)
  moreover have "y = z" if "y \<in> set t" "z \<in> set t" "\<not> (CellItem_Less z y \<or> CellItem_Less y z)" for y z
    using srt that by (induction t) auto
  ultimately have "filter (\<lambda>y. \<forall>x\<in>set os. CellItem_Less x y \<or> CellItem_Less y x) t =
      filter (\<lambda>y. \<not> overlap c y) t"
    by (intro filter_cong refl) (auto simp: overlap_def)
  then show ?thesis
    unfolding CellTree_Update_def CellTree_find_owner [OF wf] descendLessOrEqual_def
      iterate_collect_until Let_def
    using cell_items.fold_deleteItem [OF srt, of os] by (simp add: os_def Q_def r_def)
qed

lemma CellTree_Update_set:
  assumes "cells_wf t" "valid_range c"
  shows "set (CellTree_Update t c) = insert c {d \<in> set t. \<not> overlap c d}"
proof -
  have "c_Start c < c_Start d \<or> c_Start d < c_Start c" if "d \<in> set t" "\<not> overlap c d" for d
    using that assms cells_wf_valid covers_start overlap_def by (metis linorder_less_linear)
  then show ?thesis
    using assms cells_wf_sorted [of t]
    by (auto simp: CellTree_Update_filter cell_items.set_replaceOrInsert sorted_wrt_filter)
qed

lemma CellTree_Update_wf [wf_intros]:
  assumes "cells_wf t" "valid_range c"
  shows "cells_wf (CellTree_Update t c)"
  unfolding cells_wf_alt CellTree_Update_set [OF assms] pairwise_overlap_insert
  using assms cells_wf_sorted [of t]
  by (auto simp: CellTree_Update_filter cell_items.sorted_replaceOrInsert sorted_wrt_filter
      cells_wf_valid cells_wf_alt pairwise_def)

subsection \<open>Properties\<close>

text \<open>C22: updating the tree with a cell keeps its ranges disjoint and changes the key-to-cell
  function exactly as documented: the new cell owns its whole range, every cell that overlapped
  it is gone with all of its keys, and every other key keeps its owner.\<close>

theorem Update_refines:
  assumes "cells_wf t" and "valid_range c"
  shows "cells_wf (CellTree_Update t c) \<and>
    owner (CellTree_Update t c) k =
      (if covers c k then Some c
       else case owner t k of
              None \<Rightarrow> None
            | Some d \<Rightarrow> if overlap c d then None else Some d)"
proof -
  have "owner (CellTree_Update t c) k = (if covers c k then Some c
      else case owner t k of None \<Rightarrow> None | Some d \<Rightarrow> if overlap c d then None else Some d)"
  proof (rule owner_eqI)
    fix e
    have "e \<in> set (CellTree_Update t c) \<and> covers e k \<longleftrightarrow>
        e = c \<and> covers c k \<or> owner t k = Some e \<and> \<not> overlap c e"
      using CellTree_Update_set [OF assms] owner_Some [OF assms(1), of k e] by auto
    moreover have "owner t k = Some e \<Longrightarrow> covers c k \<Longrightarrow> overlap c e"
      using owner_Some [OF assms(1), of k e] overlap_def by blast
    ultimately show "e \<in> set (CellTree_Update t c) \<and> covers e k \<longleftrightarrow> (if covers c k then Some c
      else case owner t k of None \<Rightarrow> None | Some d \<Rightarrow> if overlap c d then None else Some d) = Some e"
      by (cases "owner t k") auto
  qed (rule CellTree_Update_wf [OF assms])
  then show ?thesis using CellTree_Update_wf [OF assms] by simp
qed

definition demo_cell :: "u64 \<Rightarrow> bytes \<Rightarrow> bytes \<Rightarrow> Cell" where
  "demo_cell i s e = emptyCell\<lparr>c_ID := i, c_Start := s, c_End := e\<rparr>"

theorem Update_refines_witness:
  "owner (CellTree_Update [demo_cell 2 [5] [], demo_cell 1 [] [5]] (demo_cell 3 [2] [7])) [6] =
     Some (demo_cell 3 [2] [7])"
  using Update_refines [of "[demo_cell 2 [5] [], demo_cell 1 [] [5]]" "demo_cell 3 [2] [7]" "[6]"]
  by (simp add: demo_cell_def emptyCell_def below_def valid_range_def covers_def)

text \<open>\<^verbatim>\<open>Search\<close> returns the owner of a key, and the zero cell when no cell owns it,
  although it only inspects one item of the tree.\<close>

theorem Search_owner:
  assumes "cells_wf t"
  shows "CellTree_Search t k = (case owner t k of None \<Rightarrow> emptyCell | Some c \<Rightarrow> c)"
  using CellTree_find_owner [OF assms] by (simp add: CellTree_Search_def)

theorem Search_owner_witness:
  "CellTree_Search [demo_cell 2 [5] [], demo_cell 1 [] [5]] [4, 9] = demo_cell 1 [] [5]"
  using Search_owner [of "[demo_cell 2 [5] [], demo_cell 1 [] [5]]" "[4, 9]"]
  by (simp add: demo_cell_def emptyCell_def below_def valid_range_def covers_def owner_def)

lemma CellTree_Remove_eq:
  assumes "cells_wf t"
  shows "CellTree_Remove t c =
    (case owner t (c_Start c) of
       None \<Rightarrow> (False, t)
     | Some r \<Rightarrow> if c_ID r = c_ID c then (True, filter (\<lambda>d. d \<noteq> r) t) else (False, t))"
proof (cases "owner t (c_Start c)")
  case (Some r)
  have srt: "sorted_wrt CellItem_Less t" by (rule cells_wf_sorted [OF assms])
  have "r \<in> set t" using Some owner_Some [OF assms] by blast
  then have "c_Start r < c_Start d \<or> c_Start d < c_Start r \<longleftrightarrow> d \<noteq> r" if "d \<in> set t" for d
    using srt that by (induction t) auto
  then have "snd (deleteItem CellItem_Less r t) = filter (\<lambda>d. d \<noteq> r) t"
    unfolding cell_items.deleteItem_filter [OF srt] by (intro filter_cong) auto
  then show ?thesis
    using Some CellTree_find_owner [OF assms] by (simp add: CellTree_Remove_def)
qed (simp add: CellTree_Remove_def CellTree_find_owner [OF assms])

lemma CellTree_Remove_wf [wf_intros]: "cells_wf t \<Longrightarrow> cells_wf (snd (CellTree_Remove t c))"
  by (auto simp: CellTree_Remove_eq cells_wf_def sorted_wrt_filter split: option.splits)

text \<open>\<^verbatim>\<open>Remove\<close> deletes the owner of the given cell's start key when the identifiers
  agree and nothing else; otherwise it reports \<^verbatim>\<open>false\<close> and leaves the tree unchanged.\<close>

theorem Remove_exact:
  assumes "cells_wf t"
  shows "CellTree_Remove t c =
    (case owner t (c_Start c) of
       None \<Rightarrow> (False, t)
     | Some r \<Rightarrow> if c_ID r = c_ID c then (True, filter (\<lambda>d. d \<noteq> r) t) else (False, t))"
  using assms by (rule CellTree_Remove_eq)

theorem Remove_exact_witness:
  "CellTree_Remove [demo_cell 2 [5] [], demo_cell 1 [] [5]] (demo_cell 1 [3] []) =
     (True, [demo_cell 2 [5] []])"
  using Remove_exact [of "[demo_cell 2 [5] [], demo_cell 1 [] [5]]" "demo_cell 1 [3] []"]
  by (simp add: demo_cell_def emptyCell_def below_def valid_range_def covers_def owner_def)

end
