(* ===== verification/Bytes_Util.thy ===== *)
theory Bytes_Util
  imports Prelude
begin

text \<open>
  \<^verbatim>\<open>pkg/util/bytes.go\<close>: big-endian encoding of 64-bit integers, and the conversion of
  floating point numbers to integers that sort in the same order.  Parsing a float is
  \<^verbatim>\<open>strconv.ParseFloat\<close>'s work and a parameter; the bit manipulation on the IEEE-754
  pattern is the code's.
\<close>

unbundle bit_operations_syntax

subsection \<open>Big-endian integers\<close>

text \<open>\<^verbatim>\<open>binary.BigEndian\<close>: the least significant byte is written last.\<close>

fun be_bytes :: "nat \<Rightarrow> u64 \<Rightarrow> bytes" where
  "be_bytes 0 v = []"
| "be_bytes (Suc n) v = be_bytes n (v div 256) @ [ucast v]"

definition be_word :: "bytes \<Rightarrow> u64" where
  "be_word bs = foldl (\<lambda>acc b. acc * 256 + ucast b) 0 bs"

definition Uint64ToBytes :: "u64 \<Rightarrow> bytes" where
  "Uint64ToBytes v = be_bytes 8 v"

definition BytesToUint64 :: "bytes \<Rightarrow> u64 option" where
  "BytesToUint64 b = (if length b \<noteq> 8 then None else Some (be_word b))"

subsection \<open>Sortable floating point numbers\<close>

definition Float32ToSortableUint64 :: "(string \<Rightarrow> 'e + 32 word) \<Rightarrow> string \<Rightarrow> 'e + u64" where
  "Float32ToSortableUint64 parse32 valS =
     (case parse32 valS of
        Inl err \<Rightarrow> Inl err
      | Inr bits \<Rightarrow>
          (let int0 = bits
           in Inr (ucast ((int0 XOR (signed_drop_bit 31 int0 AND 0x7fffffff)) XOR 0x80000000))))"

definition Float64ToSortableUint64 :: "(string \<Rightarrow> 'e + u64) \<Rightarrow> string \<Rightarrow> 'e + u64" where
  "Float64ToSortableUint64 parse64 valS =
     (case parse64 valS of
        Inl err \<Rightarrow> Inl err
      | Inr bits \<Rightarrow>
          (let int0 = bits
           in Inr ((int0 XOR (signed_drop_bit 63 int0 AND 0x7fffffffffffffff))
                    XOR 0x8000000000000000)))"

subsection \<open>Big-endian laws\<close>

definition be_val :: "bytes \<Rightarrow> nat" where
  "be_val bs = foldl (\<lambda>a b. 256 * a + unat b) 0 bs"

lemma be_val_snoc [simp]: "be_val (bs @ [b]) = 256 * be_val bs + unat b"
  by (simp add: be_val_def)

lemma be_val_Nil [simp]: "be_val [] = 0"
  by (simp add: be_val_def)

lemma foldl_be_val: "foldl (\<lambda>a b. 256 * a + unat b) n bs = n * 256 ^ length bs + be_val (bs :: bytes)"
proof (induction bs arbitrary: n rule: rev_induct)
  case (snoc b bs)
  then show ?case by (simp add: algebra_simps)
qed simp

lemma be_val_Cons: "be_val (b # bs) = unat b * 256 ^ length bs + be_val bs"
  using foldl_be_val [of "unat b" bs] by (simp add: be_val_def)

lemma be_val_bound: "be_val bs < 256 ^ length bs"
proof (induction bs)
  case (Cons b bs)
  have "unat b \<le> 255" using unsigned_less [of b, where 'a = nat] by simp
  then have "unat b * 256 ^ length bs \<le> 255 * 256 ^ length bs" by (rule mult_le_mono1)
  with Cons show ?case unfolding be_val_Cons length_Cons power_Suc by linarith
qed simp

lemma be_val_less: "length xs = length ys \<Longrightarrow> xs < ys \<longleftrightarrow> be_val xs < be_val ys"
proof (induction xs ys rule: list_induct2)
  case (Cons x xs y ys)
  have bx: "be_val xs < 256 ^ length ys" and by': "be_val ys < 256 ^ length ys"
    using be_val_bound [of xs] be_val_bound [of ys] Cons.hyps by auto
  have step: "unat a * 256 ^ length ys + 256 ^ length ys \<le> unat b * 256 ^ length ys" if "a < b" for a b :: u8
  proof -
    have "Suc (unat a) \<le> unat b" using that by (simp add: word_less_nat_alt)
    then have "Suc (unat a) * 256 ^ length ys \<le> unat b * 256 ^ length ys" by (rule mult_le_mono1)
    then show ?thesis by simp
  qed
  show ?case
    using Cons bx by' step [of x y] step [of y x]
    by (cases x y rule: linorder_cases) (auto simp: be_val_Cons)
qed simp

lemma be_val_inj: "length xs = length ys \<Longrightarrow> be_val xs = be_val ys \<Longrightarrow> xs = ys"
  using be_val_less [of xs ys] be_val_less [of ys xs] by (metis less_irrefl linorder_neqE)

lemma length_be_bytes [simp]: "length (be_bytes n v) = n"
  by (induction n v rule: be_bytes.induct) auto

lemma be_val_be_bytes: "be_val (be_bytes n v) = unat v mod 256 ^ n"
proof (induction n v rule: be_bytes.induct)
  case (2 n v)
  have "unat (v div 256) = unat v div 256" by (simp add: unat_div)
  moreover have "unat (ucast v :: u8) = unat v mod 256" by (simp add: unsigned_ucast_eq take_bit_eq_mod)
  ultimately show ?case
    using 2 by (simp add: mod_mult2_eq mult.commute)
qed simp

lemma be_word_be_val: "be_word bs = of_nat (be_val bs)"
proof (induction bs rule: rev_induct)
  case (snoc b bs)
  have "(ucast b :: u64) = of_nat (unat b)" by simp
  with snoc show ?case by (simp add: be_word_def be_val_def mult.commute)
qed (simp add: be_word_def)

lemma length_Uint64ToBytes [simp]: "length (Uint64ToBytes v) = 8"
  by (simp add: Uint64ToBytes_def)

lemma be_val_Uint64ToBytes [simp]: "be_val (Uint64ToBytes v) = unat v"
  using unsigned_less [of v, where 'a = nat] by (simp add: Uint64ToBytes_def be_val_be_bytes)

lemma be_word_Uint64ToBytes [simp]: "be_word (Uint64ToBytes v) = v"
  by (simp add: be_word_be_val)

lemma Uint64ToBytes_inject [simp]: "Uint64ToBytes a = Uint64ToBytes b \<longleftrightarrow> a = b"
  by (metis be_word_Uint64ToBytes)

lemma Uint64ToBytes_less [simp]: "Uint64ToBytes a < Uint64ToBytes b \<longleftrightarrow> a < b"
  by (simp add: be_val_less word_less_nat_alt)

lemma Uint64ToBytes_le [simp]: "Uint64ToBytes a \<le> Uint64ToBytes b \<longleftrightarrow> a \<le> b"
  by (simp add: le_less)

subsection \<open>IEEE-754 order\<close>

text \<open>The value of a binary64 pattern in units of \<open>2 ^ -1074\<close>, the smallest subnormal; the
  infinities are the patterns with the greatest exponent and no fraction.\<close>

definition f64_exp :: "u64 \<Rightarrow> nat" where
  "f64_exp b = unat b div 2 ^ 52 mod 2 ^ 11"

definition f64_frac :: "u64 \<Rightarrow> nat" where
  "f64_frac b = unat b mod 2 ^ 52"

definition f64_magnitude :: "u64 \<Rightarrow> nat" where
  "f64_magnitude b =
     (if f64_exp b = 0 then f64_frac b else (2 ^ 52 + f64_frac b) * 2 ^ (f64_exp b - 1))"

definition f64_scaled :: "u64 \<Rightarrow> int" where
  "f64_scaled b = (if bit b 63 then - int (f64_magnitude b) else int (f64_magnitude b))"

definition sortable64 :: "u64 \<Rightarrow> u64" where
  "sortable64 b = (b XOR (signed_drop_bit 63 b AND 0x7fffffffffffffff)) XOR 0x8000000000000000"

lemma bit63_iff: "bit (b :: u64) 63 \<longleftrightarrow> 2 ^ 63 \<le> unat b"
proof -
  have "bit b 63 \<longleftrightarrow> bit (unat b) 63" by (simp add: bit_unsigned_iff)
  also have "\<dots> \<longleftrightarrow> odd (unat b div 2 ^ 63)" by (simp add: bit_iff_odd)
  also have "unat b div 2 ^ 63 < 2"
    using unsigned_less [of b, where 'a = nat] by (simp add: less_mult_imp_div_less)
  then have "odd (unat b div 2 ^ 63) \<longleftrightarrow> unat b div 2 ^ 63 \<noteq> 0"
    by (auto simp: less_2_cases_iff)
  also have "\<dots> \<longleftrightarrow> 2 ^ 63 \<le> unat b" by (simp add: div_eq_0_iff not_less)
  finally show ?thesis .
qed

lemma signed_drop_sign: "signed_drop_bit 63 (b :: u64) = (if bit b 63 then - 1 else 0)"
  by (rule bit_word_eqI) (auto simp: bit_simps Suc_le_eq dest: le_antisym)

lemma sortable64_neg: "bit b 63 \<Longrightarrow> sortable64 b = NOT b"
proof -
  assume "bit b 63"
  then have "sortable64 b = b XOR (0x7fffffffffffffff XOR 0x8000000000000000)"
    by (simp add: sortable64_def signed_drop_sign xor.assoc)
  also have "(0x7fffffffffffffff XOR 0x8000000000000000 :: u64) = - 1" by simp
  finally show ?thesis by (simp only: bit.xor_one_right)
qed

lemma sortable64_pos: "\<not> bit b 63 \<Longrightarrow> sortable64 b = b + 0x8000000000000000"
proof -
  assume nb: "\<not> bit b 63"
  have "b AND push_bit 63 1 = 0"
  proof (rule bit_word_eqI)
    fix n :: nat
    assume "n < LENGTH(64)"
    then have "63 \<le> n \<longrightarrow> n = 63" by simp
    with nb show "bit (b AND push_bit 63 1) n = bit (0 :: u64) n"
      by (auto simp: bit_and_iff bit_push_bit_iff simp del: push_bit_of_1 push_bit_numeral)
  qed
  then have "b AND 0x8000000000000000 = 0" by simp
  then show ?thesis
    using nb by (simp add: sortable64_def signed_drop_sign disjunctive_xor_eq_or disjunctive_add_eq_or)
qed

lemma unat_NOT: "unat (NOT (b :: u64)) = 2 ^ 64 - 1 - unat b"
proof -
  have "unat b \<le> 2 ^ 64 - 1" using unsigned_less [of b, where 'a = nat] by simp
  then have "(of_nat (2 ^ 64 - 1 - unat b) :: u64) = of_nat (2 ^ 64 - 1) - b"
    by (subst of_nat_diff) simp_all
  also have "\<dots> = NOT b" by (simp add: not_eq_complement)
  finally have "unat (NOT b) = unat (of_nat (2 ^ 64 - 1 - unat b) :: u64)" by simp
  also have "\<dots> = 2 ^ 64 - 1 - unat b"
    by (simp add: unsigned_of_nat take_bit_nat_eq_self_iff)
  finally show ?thesis .
qed

lemma unat_sortable64:
  "unat (sortable64 b) = (if bit b 63 then 2 ^ 64 - 1 - unat b else unat b + 2 ^ 63)"
proof (cases "bit b 63")
  case True
  then show ?thesis by (simp add: sortable64_neg unat_NOT)
next
  case False
  then have "unat b + 2 ^ 63 < 2 ^ 64" by (simp add: bit63_iff)
  then show ?thesis using False by (simp add: sortable64_pos unat_word_ariths)
qed

text \<open>Below the sign bit the magnitude grows strictly with the pattern, read as an integer.\<close>

definition mag :: "nat \<Rightarrow> nat" where
  "mag m = (if m div 2 ^ 52 = 0 then m mod 2 ^ 52 else (2 ^ 52 + m mod 2 ^ 52) * 2 ^ (m div 2 ^ 52 - 1))"

lemma mag_Suc: "mag m < mag (Suc m)"
proof (cases "Suc (m mod 2 ^ 52) = 2 ^ 52")
  case True
  then have "Suc m div 2 ^ 52 = Suc (m div 2 ^ 52)" "Suc m mod 2 ^ 52 = 0"
    by (simp_all add: div_Suc mod_Suc)
  then show ?thesis
    using True by (cases "m div 2 ^ 52") (simp_all add: mag_def)
next
  case False
  then have "Suc m div 2 ^ 52 = m div 2 ^ 52" "Suc m mod 2 ^ 52 = Suc (m mod 2 ^ 52)"
    by (simp_all add: div_Suc mod_Suc)
  then show ?thesis by (simp add: mag_def)
qed

lemma mag_less_iff: "mag m < mag n \<longleftrightarrow> m < n"
  using strict_mono_less [of mag m n] mag_Suc by (simp add: strict_mono_Suc_iff)

lemma f64_magnitude_mag: "f64_magnitude b = mag (unat b mod 2 ^ 63)"
proof -
  have "unat b mod 2 ^ 63 div 2 ^ 52 = unat b div 2 ^ 52 mod 2 ^ 11"
    using mod_mult2_eq [of "unat b" "2 ^ 52" "2 ^ 11"] by simp
  moreover have "unat b mod 2 ^ 63 mod 2 ^ 52 = unat b mod 2 ^ 52"
    by (simp add: mod_mod_cancel)
  ultimately show ?thesis
    by (simp add: f64_magnitude_def f64_exp_def f64_frac_def mag_def)
qed

lemma unat_sign_split: "unat (b :: u64) = (if bit b 63 then 2 ^ 63 else 0) + unat b mod 2 ^ 63"
proof (cases "bit b 63")
  case True
  then have "unat b div 2 ^ 63 = 1"
    using unsigned_less [of b, where 'a = nat] by (simp add: bit63_iff div_nat_eqI)
  then show ?thesis using True div_mult_mod_eq [of "unat b" "2 ^ 63"] by simp
qed (simp add: bit63_iff)

lemma f64_scaled_sortable:
  assumes "f64_scaled a < f64_scaled b"
  shows "sortable64 a < sortable64 b"
proof -
  have m: "unat a mod 2 ^ 63 < 2 ^ 63" "unat b mod 2 ^ 63 < 2 ^ 63" by simp_all
  have "unat (sortable64 a) < unat (sortable64 b)"
    using assms m unat_sign_split [of a] unat_sign_split [of b]
    unfolding unat_sortable64 f64_scaled_def f64_magnitude_mag
    by (auto simp: mag_less_iff split: if_splits)
  then show ?thesis by (simp add: word_less_nat_alt)
qed

subsection \<open>Properties\<close>

text \<open>The big-endian encoding decodes to the value it was made from, is refused at any
  other length, and compares as byte strings exactly as the integers compare.\<close>

theorem Uint64ToBytes_roundtrip:
  "BytesToUint64 (Uint64ToBytes a) = Some a \<and>
   (bytesCompare (Uint64ToBytes a) (Uint64ToBytes b) < 0 \<longleftrightarrow> a < b) \<and>
   (BytesToUint64 bs = None \<longleftrightarrow> length bs \<noteq> 8)"
  by (simp add: BytesToUint64_def go_simps)

text \<open>Whenever two strings parse to binary64 patterns whose IEEE values are ordered, the
  sortable integers are ordered the same way, for either sign and for subnormals and
  infinities as well.\<close>

theorem Float64_sortable_order:
  assumes "parse64 x = Inr a" and "parse64 y = Inr b" and "f64_scaled a < f64_scaled b"
  shows "\<exists>u v. Float64ToSortableUint64 parse64 x = Inr u \<and>
    Float64ToSortableUint64 parse64 y = Inr v \<and> u < v"
  using assms f64_scaled_sortable [OF assms(3)]
  by (simp add: Float64ToSortableUint64_def sortable64_def)

text \<open>The patterns of -1.0 and 0.5.\<close>

theorem Float64_sortable_order_witness:
  "\<exists>u v. Float64ToSortableUint64
        (\<lambda>s. if s = ''-1'' then Inr 0xBFF0000000000000 else (Inr 0x3FE0000000000000 :: unit + u64)) ''-1'' = Inr u \<and>
     Float64ToSortableUint64
        (\<lambda>s. if s = ''-1'' then Inr 0xBFF0000000000000 else (Inr 0x3FE0000000000000 :: unit + u64)) ''0.5'' = Inr v \<and>
     u < v"
  by (rule Float64_sortable_order [of _ _ "0xBFF0000000000000" _ "0x3FE0000000000000"])
    (simp_all add: f64_scaled_def f64_magnitude_def f64_exp_def f64_frac_def)

end
