(* ===== verification/Offset_Queue.thy ===== *)
theory Offset_Queue
  imports Prelude
begin

text \<open>
  \<^verbatim>\<open>pkg/util/queue_offset.go\<close>: the event queue a watcher reads by offset.  The abstract
  view is the full history of added items; the queue keeps the suffix that starts at
  \<^verbatim>\<open>start\<close>, and a read acknowledges everything up to its offset.
\<close>

record 'a OffsetQueue =
  oq_start :: u64
  oq_end :: u64
  oq_items :: "'a list"

definition NewOffsetQueue :: "'a OffsetQueue" where
  "NewOffsetQueue = \<lparr>oq_start = 0, oq_end = 0, oq_items = []\<rparr>"

definition getMaxOffset0 :: "'a OffsetQueue \<Rightarrow> u64" where
  "getMaxOffset0 q = (if oq_end q = 0 then 0 else oq_end q - 1)"

definition OQ_GetMaxOffset :: "'a OffsetQueue \<Rightarrow> u64" where
  "OQ_GetMaxOffset q = getMaxOffset0 q"

definition OQ_Add :: "'a OffsetQueue \<Rightarrow> 'a \<Rightarrow> u64 \<times> 'a OffsetQueue" where
  "OQ_Add q item =
     (let q' = q\<lparr>oq_end := oq_end q + 1, oq_items := oq_items q @ [item]\<rparr>
      in (getMaxOffset0 q', q'))"

text \<open>The loop over the offsets of the queue; an access outside the items panics.\<close>

definition OQ_collect :: "'a OffsetQueue \<Rightarrow> u64 \<Rightarrow> fault + 'a list" where
  "OQ_collect q offset =
     fold (\<lambda>i acc. case acc of
         Inl f \<Rightarrow> Inl f
       | Inr value \<Rightarrow>
           if length (oq_items q) \<le> i - unat (oq_start q) then Inl Panic
           else if of_nat i \<le> offset then Inr value
           else Inr (value @ [oq_items q ! (i - unat (oq_start q))]))
       [unat (oq_start q) ..< unat (oq_end q)] (Inr [])"

definition OQ_Get :: "'a OffsetQueue \<Rightarrow> u64 \<Rightarrow> fault + ('a list \<times> u64) \<times> 'a OffsetQueue" where
  "OQ_Get q offset =
     (let max = getMaxOffset0 q
      in if offset > max then Inl Panic
         else if offset < oq_start q \<or> (offset = oq_start q \<and> oq_start q = 0)
         then Inr ((oq_items q, max), q)
         else case OQ_collect q offset of
                Inl f \<Rightarrow> Inl f
              | Inr value \<Rightarrow>
                  (let old = oq_start q; q1 = q\<lparr>oq_start := offset + 1\<rparr>
                   in Inr ((value, max),
                       if oq_start q1 < oq_end q1
                       then q1\<lparr>oq_items := drop (unat (oq_start q1 - old)) (oq_items q1)\<rparr>
                       else q1\<lparr>oq_items := []\<rparr>)))"

subsection \<open>Invariant and abstract view\<close>

text \<open>\<open>oq_view h q\<close>: the queue holds the part of the history \<open>h\<close> from its start on.\<close>

definition oq_view :: "'a list \<Rightarrow> 'a OffsetQueue \<Rightarrow> bool" where
  "oq_view h q \<longleftrightarrow> oq_start q \<le> oq_end q \<and> unat (oq_end q) = length h \<and>
     oq_items q = drop (unat (oq_start q)) h"

lemma oq_view_new: "oq_view [] NewOffsetQueue"
  by (simp add: oq_view_def NewOffsetQueue_def)

lemma oq_view_add:
  assumes "oq_view h q" and "oq_end q + 1 \<noteq> 0"
  shows "oq_view (h @ [x]) (snd (OQ_Add q x)) \<and> unat (fst (OQ_Add q x)) = length h"
proof -
  have e: "unat (oq_end q + 1) = Suc (unat (oq_end q))" by (rule unat_plus1 [OF assms(2)])
  have "oq_start q \<le> oq_end q + 1"
    using assms(1) e unfolding oq_view_def word_le_nat_alt by linarith
  moreover have "unat (oq_start q) \<le> length h"
    using assms(1) unfolding oq_view_def word_le_nat_alt by linarith
  moreover have "oq_end q + 1 - 1 = oq_end q" by (rule add_diff_cancel_right')
  ultimately show ?thesis
    using assms e unfolding oq_view_def OQ_Add_def getMaxOffset0_def Let_def by simp
qed

lemma OQ_collect_fold:
  fixes offset :: u64
  assumes "length xs = n" "s + n < 2 ^ 64" "\<forall>i < n. its ! i = xs ! i" "n \<le> length its"
  shows "fold (\<lambda>i acc. case acc of
         Inl f \<Rightarrow> Inl f
       | Inr value \<Rightarrow>
           if length its \<le> i - s then Inl Panic
           else if of_nat i \<le> offset then Inr value
           else Inr (value @ [its ! (i - s)])) [s ..< s + n] (Inr acc) =
    (Inr (acc @ drop (Suc (unat offset) - s) xs) :: fault + 'a list)"
  using assms
proof (induction n arbitrary: xs)
  case (Suc n)
  have drp: "drop k (butlast xs) @ (if k \<le> n then [last xs] else []) = drop k xs" for k
    using Suc.prems(1) by (cases xs rule: rev_cases) auto
  have le: "(of_nat (s + n) :: u64) \<le> offset \<longleftrightarrow> s + n \<le> unat offset"
    using unat_of_nat_u64 [of "s + n"] Suc.prems(2) unfolding word_le_nat_alt by simp
  have "its ! n = last xs"
    using Suc.prems(1,3) by (cases xs rule: rev_cases) (auto simp: nth_append)
  moreover have "\<forall>i < n. its ! i = butlast xs ! i"
    using Suc.prems(1,3) by (simp add: nth_butlast)
  moreover have "Suc (unat offset) - s \<le> n \<longleftrightarrow> \<not> s + n \<le> unat offset" by auto
  ultimately show ?case
    using Suc.IH [of "butlast xs"] Suc.prems le drp [of "Suc (unat offset) - s"]
    by (cases "s + n \<le> unat offset") (simp_all del: of_nat_add)
qed simp

lemma OQ_collect_view:
  assumes "oq_view h q" and that: "oq_start q \<le> offset"
  shows "OQ_collect q offset = Inr (drop (Suc (unat offset)) h)"
proof -
  have n: "unat (oq_end q) = unat (oq_start q) + length (oq_items q)"
    using assms by (simp add: oq_view_def word_le_nat_alt)
  have "Suc (unat offset) - unat (oq_start q) + unat (oq_start q) = Suc (unat offset)"
    using that by (simp add: word_le_nat_alt)
  then have "drop (Suc (unat offset) - unat (oq_start q)) (oq_items q) = drop (Suc (unat offset)) h"
    using assms by (simp add: oq_view_def)
  then show ?thesis
    using OQ_collect_fold [of "oq_items q" "length (oq_items q)" "unat (oq_start q)" "oq_items q" offset "[]"]
      unsigned_less [of "oq_end q", where 'a = nat]
    by (simp add: OQ_collect_def n)
qed

lemma OQ_Get_view:
  assumes "oq_view h q" and "oq_end q \<noteq> 0" and "offset \<le> getMaxOffset0 q"
  shows "\<exists>value q'. OQ_Get q offset = Inr ((value, getMaxOffset0 q), q') \<and> oq_view h q' \<and>
    (oq_start q' = oq_start q \<or> oq_start q' = offset + 1) \<and>
    value = (if offset < oq_start q \<or> offset = 0 \<and> oq_start q = 0
             then drop (unat (oq_start q)) h else drop (Suc (unat offset)) h)"
proof (cases "offset < oq_start q \<or> offset = 0 \<and> oq_start q = 0")
  case True
  then show ?thesis using assms by (auto simp: OQ_Get_def Let_def oq_view_def)
next
  case False
  then have st: "oq_start q \<le> offset" by auto
  have off: "offset < oq_end q"
    using assms(2,3) by (simp add: getMaxOffset0_def le_pred_iff)
  have nz: "unat (offset + 1) = Suc (unat offset)"
    by (intro unat_plus1 less_plus1_nz [OF off])
  have le: "offset + 1 \<le> oq_end q"
    using off nz by (simp add: word_le_nat_alt word_less_nat_alt)
  have "unat (offset + 1 - oq_start q) + unat (oq_start q) = Suc (unat offset)"
    using nz st by (simp add: unat_sub_if' word_le_nat_alt)
  then have "drop (unat (offset + 1 - oq_start q)) (oq_items q) = drop (Suc (unat offset)) h"
    using assms(1) by (simp add: oq_view_def)
  then show ?thesis
    using False assms OQ_collect_view [OF assms(1) st] le nz
    by (auto simp: OQ_Get_def Let_def oq_view_def not_less word_le_nat_alt word_less_nat_alt)
qed

subsection \<open>Properties\<close>

text \<open>Reading a queue that holds the history \<open>h\<close> at an offset that has been handed out
  never panics and returns the greatest offset together with exactly the items after the given
  offset, or everything that is still held when the offset lies before the start of the queue;
  the items up to the offset are dropped and the rest of the history stays readable.\<close>

theorem OQ_Get_correct:
  assumes "oq_view h q" and "oq_end q \<noteq> 0" and "offset \<le> getMaxOffset0 q"
  shows "\<exists>value q'. OQ_Get q offset = Inr ((value, getMaxOffset0 q), q') \<and> oq_view h q' \<and>
    value = (if offset < oq_start q \<or> offset = 0 \<and> oq_start q = 0
             then drop (unat (oq_start q)) h else drop (Suc (unat offset)) h)"
  using OQ_Get_view [OF assms] by blast

theorem OQ_Get_correct_witness:
  "\<exists>value q'. OQ_Get \<lparr>oq_start = 1, oq_end = 3, oq_items = [''b'', ''c'']\<rparr> 1 =
      Inr ((value, 2), q') \<and> value = [''c'']"
  using OQ_Get_correct [of "[''a'', ''b'', ''c'']" "\<lparr>oq_start = 1, oq_end = 3, oq_items = [''b'', ''c'']\<rparr>" 1]
  by (auto simp: oq_view_def getMaxOffset0_def)

end
