(* ===== verification/Job_Machine.thy ===== *)
theory Job_Machine
  imports Prelude
begin

text \<open>
  \<^verbatim>\<open>pkg/util/task.go\<close>: the life of a job of a named worker.  The worker's loop body is cut
  where it releases the job's lock: \<open>job_begin\<close> up to the call of the job's function and
  \<open>job_end\<close> after it; between the two, and before and after, another goroutine may call
  \<^verbatim>\<open>Cancel\<close>.  The step relation interleaves them and the invariant is proved by rule
  induction.
\<close>

datatype JobState = J_Pending | J_Running | J_Cancelling | J_Cancelled | J_Finished | J_Failed

record 'r Job =
  jb_state :: JobState
  jb_result :: "'r option"
  jb_needRelease :: bool

datatype job_error = ErrJobCancelled | ErrOther

definition newJob :: "'r Job" where
  "newJob = \<lparr>jb_state = J_Pending, jb_result = None, jb_needRelease = True\<rparr>"

definition job_reset :: "'r Job \<Rightarrow> 'r Job" where
  "job_reset job = job\<lparr>jb_state := J_Pending, jb_result := None, jb_needRelease := True\<rparr>"

definition IsNotComplete :: "'r Job \<Rightarrow> bool" where
  "IsNotComplete job \<longleftrightarrow> jb_state job = J_Pending \<or> jb_state job = J_Running \<or> jb_state job = J_Cancelling"

definition IsComplete :: "'r Job \<Rightarrow> bool" where
  "IsComplete job \<longleftrightarrow> \<not> IsNotComplete job"

definition SetResult :: "'r \<Rightarrow> 'r Job \<Rightarrow> 'r Job" where
  "SetResult r job = job\<lparr>jb_result := Some r\<rparr>"

definition GetResult :: "'r Job \<Rightarrow> 'r option" where
  "GetResult job = jb_result job"

definition Cancel :: "'r Job \<Rightarrow> 'r Job" where
  "Cancel job = (if jb_state job = J_Pending then job\<lparr>jb_state := J_Cancelling\<rparr> else job)"

definition IsCancelling :: "'r Job \<Rightarrow> bool" where
  "IsCancelling job \<longleftrightarrow> jb_state job = J_Cancelling"

definition IsCancelled :: "'r Job \<Rightarrow> bool" where
  "IsCancelled job \<longleftrightarrow> jb_state job = J_Cancelled"

definition IsFinished :: "'r Job \<Rightarrow> bool" where
  "IsFinished job \<longleftrightarrow> jb_state job = J_Finished"

definition IsFailed :: "'r Job \<Rightarrow> bool" where
  "IsFailed job \<longleftrightarrow> jb_state job = J_Failed"

text \<open>The worker's switch on the state; the flag says whether the job's function is called.\<close>

definition job_begin :: "'r Job \<Rightarrow> bool \<times> 'r Job" where
  "job_begin job =
     (case jb_state job of
        J_Pending \<Rightarrow> (True, job\<lparr>jb_state := J_Running\<rparr>)
      | J_Cancelling \<Rightarrow> (False, job\<lparr>jb_state := J_Cancelled\<rparr>)
      | _ \<Rightarrow> (False, job))"

definition job_end :: "job_error option \<Rightarrow> 'r Job \<Rightarrow> 'r Job" where
  "job_end err job =
     (case err of
        Some e \<Rightarrow> if e = ErrJobCancelled then job\<lparr>jb_state := J_Cancelled\<rparr> else job\<lparr>jb_state := J_Failed\<rparr>
      | None \<Rightarrow> if jb_state job = J_Cancelling then job\<lparr>jb_state := J_Cancelled\<rparr>
                else job\<lparr>jb_state := J_Finished\<rparr>)"

subsection \<open>Interleaving with cancellation\<close>

datatype phase = Queued | Executing | Done

record 'r jobsys =
  js_job :: "'r Job"
  js_phase :: phase
  js_runs :: nat

definition submitted :: "'r jobsys" where
  "submitted = \<lparr>js_job = newJob\<lparr>jb_needRelease := False\<rparr>, js_phase = Queued, js_runs = 0\<rparr>"

inductive job_step :: "'r jobsys \<Rightarrow> 'r jobsys \<Rightarrow> bool" where
  cancel: "job_step s (s\<lparr>js_job := Cancel (js_job s)\<rparr>)"
| take_run: "js_phase s = Queued \<Longrightarrow> job_begin (js_job s) = (True, j) \<Longrightarrow>
    job_step s (s\<lparr>js_job := j, js_phase := Executing, js_runs := Suc (js_runs s)\<rparr>)"
| take_skip: "js_phase s = Queued \<Longrightarrow> job_begin (js_job s) = (False, j) \<Longrightarrow>
    job_step s (s\<lparr>js_job := j, js_phase := Done\<rparr>)"
| set_result: "js_phase s = Executing \<Longrightarrow> job_step s (s\<lparr>js_job := SetResult r (js_job s)\<rparr>)"
| finish: "js_phase s = Executing \<Longrightarrow>
    job_step s (s\<lparr>js_job := job_end err (js_job s), js_phase := Done\<rparr>)"

inductive_cases job_stepE: "job_step s t"

inductive job_reachable :: "'r jobsys \<Rightarrow> bool" where
  init: "job_reachable submitted"
| step: "job_reachable s \<Longrightarrow> job_step s t \<Longrightarrow> job_reachable t"

definition job_inv :: "'r jobsys \<Rightarrow> bool" where
  "job_inv s \<longleftrightarrow> (case js_phase s of
      Queued \<Rightarrow> (jb_state (js_job s) = J_Pending \<or> jb_state (js_job s) = J_Cancelling) \<and> js_runs s = 0
    | Executing \<Rightarrow> jb_state (js_job s) = J_Running \<and> js_runs s = 1
    | Done \<Rightarrow> IsComplete (js_job s) \<and> js_runs s \<le> 1 \<and>
        (jb_state (js_job s) = J_Finished \<or> jb_state (js_job s) = J_Failed \<longrightarrow> js_runs s = 1))"

lemma job_inv_step: "job_step s t \<Longrightarrow> job_inv s \<Longrightarrow> job_inv t"
  by (erule job_stepE)
    (auto simp: job_inv_def Cancel_def SetResult_def job_begin_def job_end_def IsComplete_def IsNotComplete_def
      split: phase.splits JobState.splits option.splits if_splits)

lemma job_inv_init: "job_inv submitted"
  by (simp add: submitted_def newJob_def job_inv_def)

lemma job_inv_reachable: "job_reachable s \<Longrightarrow> job_inv s"
  by (induction rule: job_reachable.induct) (auto intro: job_inv_init job_inv_step)

text \<open>Once a job is cancelled on the queue it stays so until a worker takes it off without running it.\<close>

definition job_cancelled_inv :: "'r jobsys \<Rightarrow> bool" where
  "job_cancelled_inv s \<longleftrightarrow> js_runs s = 0 \<and>
     (js_phase s = Queued \<and> IsCancelling (js_job s) \<or> js_phase s = Done \<and> IsCancelled (js_job s))"

lemma job_cancelled_step: "job_step s t \<Longrightarrow> job_cancelled_inv s \<Longrightarrow> job_cancelled_inv t"
  by (erule job_stepE)
    (auto simp: job_cancelled_inv_def Cancel_def job_begin_def IsCancelling_def IsCancelled_def)

lemma job_cancelled_run: "job_step\<^sup>*\<^sup>* s t \<Longrightarrow> job_cancelled_inv s \<Longrightarrow> job_cancelled_inv t"
  by (induction rule: rtranclp_induct) (auto intro: job_cancelled_step)

lemma cancel_queued:
  "job_inv s \<Longrightarrow> js_phase s = Queued \<Longrightarrow> job_cancelled_inv (s\<lparr>js_job := Cancel (js_job s)\<rparr>)"
  by (auto simp: job_inv_def job_cancelled_inv_def Cancel_def IsCancelling_def)

text \<open>C34: a job's function runs at most once, a job that was taken off the queue ends in one of
  the three complete states, and a job only finishes or fails if its function ran.  A job that is
  cancelled while it waits on the queue never runs, however the run goes on: no step of the worker
  calls its function, and once taken off it is Cancelled.  While the function runs the state is
  always Running: \<^verbatim>\<open>Cancel\<close> only changes a pending job, so the function can never see
  \<^verbatim>\<open>IsCancelling\<close> and a running job cannot be cancelled from outside.\<close>

theorem job_runs_once:
  assumes "job_reachable s"
  shows "js_runs s \<le> 1 \<and>
    (js_phase s = Executing \<longrightarrow> jb_state (js_job s) = J_Running \<and> \<not> IsCancelling (js_job s)) \<and>
    (js_phase s = Done \<longrightarrow> IsComplete (js_job s)) \<and>
    (IsFinished (js_job s) \<or> IsFailed (js_job s) \<longrightarrow> js_runs s = 1) \<and>
    (js_phase s = Queued \<longrightarrow> (\<forall>t. job_step\<^sup>*\<^sup>* (s\<lparr>js_job := Cancel (js_job s)\<rparr>) t \<longrightarrow>
       js_runs t = 0 \<and> js_phase t \<noteq> Executing \<and> (js_phase t = Done \<longrightarrow> IsCancelled (js_job t))))"
proof -
  have inv: "job_inv s" by (rule job_inv_reachable [OF assms])
  have "js_runs t = 0 \<and> js_phase t \<noteq> Executing \<and> (js_phase t = Done \<longrightarrow> IsCancelled (js_job t))"
    if "js_phase s = Queued" "job_step\<^sup>*\<^sup>* (s\<lparr>js_job := Cancel (js_job s)\<rparr>) t" for t
    using job_cancelled_run [OF that(2) cancel_queued [OF inv that(1)]] by (auto simp: job_cancelled_inv_def)
  then show ?thesis
    using inv by (auto simp: job_inv_def IsCancelling_def IsFinished_def IsFailed_def split: phase.splits)
qed

lemma demo_run: "job_reachable \<lparr>js_job = \<lparr>jb_state = J_Running, jb_result = (None :: nat option), jb_needRelease = False\<rparr>,
    js_phase = Executing, js_runs = 1\<rparr>"
  using job_reachable.step [OF job_reachable.init job_step.take_run [of submitted]]
  by (simp add: submitted_def newJob_def job_begin_def)

definition demo_cancelled :: "nat jobsys" where
  "demo_cancelled = submitted\<lparr>js_job := Cancel (js_job submitted)\<rparr>"

lemma demo_skip: "job_step demo_cancelled (demo_cancelled\<lparr>js_job := snd (job_begin (js_job demo_cancelled)), js_phase := Done\<rparr>)"
  by (rule job_step.take_skip) (simp_all add: demo_cancelled_def submitted_def newJob_def Cancel_def job_begin_def)

theorem job_runs_once_witness:
  "\<not> IsCancelling (Cancel \<lparr>jb_state = J_Running, jb_result = (None :: nat option), jb_needRelease = False\<rparr>) \<and>
   IsCancelled (snd (job_begin (js_job demo_cancelled)))"
proof -
  have "\<not> IsCancelling (Cancel \<lparr>jb_state = J_Running, jb_result = (None :: nat option), jb_needRelease = False\<rparr>)"
    using job_runs_once [OF job_reachable.step [OF demo_run job_step.cancel]] by simp
  moreover have "IsCancelled (snd (job_begin (js_job demo_cancelled)))"
    using job_runs_once [OF job_reachable.init, where 'a = nat] demo_skip
    by (auto simp: demo_cancelled_def [symmetric] submitted_def [THEN arg_cong [where f = js_phase]])
  ultimately show ?thesis ..
qed

end
