(* ===== verification/Raft_Msgs.thy ===== *)
theory Raft_Msgs
  imports Metapb
begin

text \<open>
  The messages of \<^verbatim>\<open>pkg/pb/raftcmdpb\<close>, \<^verbatim>\<open>pkg/pb/mraft\<close> and \<^verbatim>\<open>pkg/pb/errorpb\<close> and the
  parts of etcd's \<^verbatim>\<open>raftpb\<close> that the raft store reads and writes.  A marshalled body is the
  message it encodes: the code only marshals a value and unmarshals it as the same type.
\<close>

subsection \<open>Errors\<close>

datatype ErrorDetail =
    NoDetail
  | NotLeader u64 Peer
  | CellNotFound u64
  | KeyNotInCell bytes u64 bytes bytes
  | StaleEpoch "Cell list"
  | ServerIsBusy
  | StaleCommand
  | StoreNotMatch
  | RaftEntryTooLarge u64 u64

record Error =
  er_Message :: string
  er_Detail :: ErrorDetail

definition noError :: Error where
  "noError = \<lparr>er_Message = [], er_Detail = NoDetail\<rparr>"

subsection \<open>Requests and responses\<close>

text \<open>The command types are the numbers of the protocol.\<close>

type_synonym CMDType = int

abbreviation (input) CMD_Invalid :: CMDType where "CMD_Invalid \<equiv> 0"
abbreviation (input) CMD_RaftError :: CMDType where "CMD_RaftError \<equiv> 1"
abbreviation (input) CMD_Snap :: CMDType where "CMD_Snap \<equiv> 2"
abbreviation (input) CMD_Ping :: CMDType where "CMD_Ping \<equiv> 100"
abbreviation (input) CMD_Del :: CMDType where "CMD_Del \<equiv> 101"
abbreviation (input) CMD_Set :: CMDType where "CMD_Set \<equiv> 200"
abbreviation (input) CMD_Get :: CMDType where "CMD_Get \<equiv> 201"
abbreviation (input) CMD_MSet :: CMDType where "CMD_MSet \<equiv> 202"
abbreviation (input) CMD_MGet :: CMDType where "CMD_MGet \<equiv> 203"
abbreviation (input) CMD_Incrby :: CMDType where "CMD_Incrby \<equiv> 204"
abbreviation (input) CMD_Decrby :: CMDType where "CMD_Decrby \<equiv> 205"
abbreviation (input) CMD_GetSet :: CMDType where "CMD_GetSet \<equiv> 206"
abbreviation (input) CMD_Append :: CMDType where "CMD_Append \<equiv> 207"
abbreviation (input) CMD_Setnx :: CMDType where "CMD_Setnx \<equiv> 208"
abbreviation (input) CMD_StrLen :: CMDType where "CMD_StrLen \<equiv> 209"
abbreviation (input) CMD_Incr :: CMDType where "CMD_Incr \<equiv> 210"
abbreviation (input) CMD_Decr :: CMDType where "CMD_Decr \<equiv> 211"
abbreviation (input) CMD_SetRange :: CMDType where "CMD_SetRange \<equiv> 212"
abbreviation (input) CMD_MSetNX :: CMDType where "CMD_MSetNX \<equiv> 213"
abbreviation (input) CMD_HSet :: CMDType where "CMD_HSet \<equiv> 300"
abbreviation (input) CMD_HGet :: CMDType where "CMD_HGet \<equiv> 301"
abbreviation (input) CMD_HDel :: CMDType where "CMD_HDel \<equiv> 302"
abbreviation (input) CMD_HExists :: CMDType where "CMD_HExists \<equiv> 303"
abbreviation (input) CMD_HKeys :: CMDType where "CMD_HKeys \<equiv> 304"
abbreviation (input) CMD_HVals :: CMDType where "CMD_HVals \<equiv> 305"
abbreviation (input) CMD_HGetAll :: CMDType where "CMD_HGetAll \<equiv> 306"
abbreviation (input) CMD_HLen :: CMDType where "CMD_HLen \<equiv> 307"
abbreviation (input) CMD_HMGet :: CMDType where "CMD_HMGet \<equiv> 308"
abbreviation (input) CMD_HMSet :: CMDType where "CMD_HMSet \<equiv> 309"
abbreviation (input) CMD_HSetNX :: CMDType where "CMD_HSetNX \<equiv> 310"
abbreviation (input) CMD_HStrLen :: CMDType where "CMD_HStrLen \<equiv> 311"
abbreviation (input) CMD_HIncrBy :: CMDType where "CMD_HIncrBy \<equiv> 312"
abbreviation (input) CMD_HScanGet :: CMDType where "CMD_HScanGet \<equiv> 313"
abbreviation (input) CMD_LIndex :: CMDType where "CMD_LIndex \<equiv> 400"
abbreviation (input) CMD_LInsert :: CMDType where "CMD_LInsert \<equiv> 401"
abbreviation (input) CMD_LLEN :: CMDType where "CMD_LLEN \<equiv> 402"
abbreviation (input) CMD_LPop :: CMDType where "CMD_LPop \<equiv> 403"
abbreviation (input) CMD_LPush :: CMDType where "CMD_LPush \<equiv> 404"
abbreviation (input) CMD_LPushX :: CMDType where "CMD_LPushX \<equiv> 405"
abbreviation (input) CMD_LRange :: CMDType where "CMD_LRange \<equiv> 406"
abbreviation (input) CMD_LRem :: CMDType where "CMD_LRem \<equiv> 407"
abbreviation (input) CMD_LSet :: CMDType where "CMD_LSet \<equiv> 408"
abbreviation (input) CMD_LTrim :: CMDType where "CMD_LTrim \<equiv> 409"
abbreviation (input) CMD_RPop :: CMDType where "CMD_RPop \<equiv> 410"
abbreviation (input) CMD_RPopLPush :: CMDType where "CMD_RPopLPush \<equiv> 411"
abbreviation (input) CMD_RPush :: CMDType where "CMD_RPush \<equiv> 412"
abbreviation (input) CMD_RPushX :: CMDType where "CMD_RPushX \<equiv> 413"
abbreviation (input) CMD_SAdd :: CMDType where "CMD_SAdd \<equiv> 500"
abbreviation (input) CMD_SCard :: CMDType where "CMD_SCard \<equiv> 501"
abbreviation (input) CMD_SRem :: CMDType where "CMD_SRem \<equiv> 502"
abbreviation (input) CMD_SMembers :: CMDType where "CMD_SMembers \<equiv> 503"
abbreviation (input) CMD_SIsMember :: CMDType where "CMD_SIsMember \<equiv> 504"
abbreviation (input) CMD_SPop :: CMDType where "CMD_SPop \<equiv> 505"
abbreviation (input) CMD_ZAdd :: CMDType where "CMD_ZAdd \<equiv> 600"
abbreviation (input) CMD_ZCard :: CMDType where "CMD_ZCard \<equiv> 601"
abbreviation (input) CMD_ZCount :: CMDType where "CMD_ZCount \<equiv> 602"
abbreviation (input) CMD_ZIncrBy :: CMDType where "CMD_ZIncrBy \<equiv> 603"
abbreviation (input) CMD_ZLexCount :: CMDType where "CMD_ZLexCount \<equiv> 604"
abbreviation (input) CMD_ZRange :: CMDType where "CMD_ZRange \<equiv> 605"
abbreviation (input) CMD_ZRangeByLex :: CMDType where "CMD_ZRangeByLex \<equiv> 606"
abbreviation (input) CMD_ZRangeByScore :: CMDType where "CMD_ZRangeByScore \<equiv> 607"
abbreviation (input) CMD_ZRank :: CMDType where "CMD_ZRank \<equiv> 608"
abbreviation (input) CMD_ZRem :: CMDType where "CMD_ZRem \<equiv> 609"
abbreviation (input) CMD_ZRemRangeByLex :: CMDType where "CMD_ZRemRangeByLex \<equiv> 611"
abbreviation (input) CMD_ZRemRangeByRank :: CMDType where "CMD_ZRemRangeByRank \<equiv> 612"
abbreviation (input) CMD_ZRemRangeByScore :: CMDType where "CMD_ZRemRangeByScore \<equiv> 613"
abbreviation (input) CMD_ZScore :: CMDType where "CMD_ZScore \<equiv> 614"
abbreviation (input) CMD_Lock :: CMDType where "CMD_Lock \<equiv> 700"
abbreviation (input) CMD_Unlock :: CMDType where "CMD_Unlock \<equiv> 701"
abbreviation (input) CMD_Lockable :: CMDType where "CMD_Lockable \<equiv> 702"

record Request =
  rq_UUID :: bytes
  rq_Type :: CMDType
  rq_Cmd :: "bytes list"
  rq_Epoch :: u64
  rq_SessionID :: u64

record Response =
  rs_UUID :: bytes
  rs_Type :: CMDType
  rs_ErrorResult :: "bytes option"
  rs_ErrorResults :: "bytes list"
  rs_StatusResult :: "bytes option"
  rs_IntegerResult :: "int option"
  rs_BulkResult :: "bytes option"
  rs_HasEmptyBulkResult :: "bool option"
  rs_SliceArrayResult :: "bytes list"
  rs_HasEmptySliceArrayResult :: "bool option"
  rs_FvPairArrayResult :: "(bytes \<times> bytes) list"
  rs_HasEmptyFVPairArrayResult :: "bool option"
  rs_ScorePairArrayResult :: "(u64 \<times> bytes) list"
  rs_HasEmptyScorePairArrayResult :: "bool option"
  rs_Withscores :: "bool option"
  rs_OriginRequest :: "Request option"
  rs_SessionID :: u64
  rs_Error :: Error

text \<open>\<^verbatim>\<open>pool.AcquireResponse\<close> hands out a zeroed message.\<close>

definition AcquireResponse :: Response where
  "AcquireResponse = \<lparr>rs_UUID = [], rs_Type = CMD_Invalid, rs_ErrorResult = None, rs_ErrorResults = [],
     rs_StatusResult = None, rs_IntegerResult = None, rs_BulkResult = None,
     rs_HasEmptyBulkResult = None, rs_SliceArrayResult = [], rs_HasEmptySliceArrayResult = None,
     rs_FvPairArrayResult = [], rs_HasEmptyFVPairArrayResult = None,
     rs_ScorePairArrayResult = [], rs_HasEmptyScorePairArrayResult = None, rs_Withscores = None,
     rs_OriginRequest = None, rs_SessionID = 0, rs_Error = noError\<rparr>"

datatype ConfChangeType = AddNode | RemoveNode

text \<open>An admin request with its body; the request's type is its constructor.\<close>

datatype AdminRequest =
    InvalidAdmin
  | ChangePeer ConfChangeType Peer
  | Split bytes u64 "u64 list"
  | RaftLogGC u64 u64
  | TransferLeader Peer
  | ComputeHash
  | VerifyHash

datatype AdminResponse =
    ChangePeerRsp Cell
  | SplitRsp Cell Cell
  | RaftLogGCRsp
  | TransferLeaderRsp

record RaftRequestHeader =
  rh_CellId :: u64
  rh_Peer :: Peer
  rh_ReadQuorum :: bool
  rh_UUID :: bytes
  rh_CellEpoch :: CellEpoch
  rh_Term :: u64

record RaftCMDRequest =
  rc_Header :: "RaftRequestHeader option"
  rc_Requests :: "Request list"
  rc_AdminRequest :: "AdminRequest option"

record RaftResponseHeader =
  ph_Error :: Error
  ph_UUID :: "bytes option"
  ph_CurrentTerm :: u64

record RaftCMDResponse =
  rr_Header :: "RaftResponseHeader option"
  rr_Responses :: "Response list"
  rr_AdminResponse :: "AdminResponse option"

subsection \<open>Raft log and persistent states\<close>

datatype EntryType = EntryNormal | EntryConfChange

record ConfChange =
  cc_Type :: ConfChangeType
  cc_NodeID :: u64
  cc_Context :: RaftCMDRequest

datatype EntryData = NoData | CmdData RaftCMDRequest | ConfData ConfChange

record Entry =
  en_Term :: u64
  en_Index :: u64
  en_Type :: EntryType
  en_Data :: EntryData

record HardState =
  hs_Term :: u64
  hs_Vote :: u64
  hs_Commit :: u64

record RaftLocalState =
  rl_HardState :: HardState
  rl_LastIndex :: u64

record RaftTruncatedState =
  tr_Index :: u64
  tr_Term :: u64

record RaftApplyState =
  as_AppliedIndex :: u64
  as_TruncatedState :: RaftTruncatedState

datatype PeerState = PS_Normal | PS_Applying | PS_Tombstone

record CellLocalState =
  cl_State :: PeerState
  cl_Cell :: Cell

subsection \<open>Snapshots and messages between stores\<close>

record SnapshotMessageHeader =
  sh_Cell :: Cell
  sh_FromPeer :: Peer
  sh_ToPeer :: Peer
  sh_Term :: u64
  sh_Index :: u64

datatype SnapshotState = Accept | Reject | Received

record Snapshot =
  sn_Index :: u64
  sn_Term :: u64
  sn_Data :: "SnapshotMessageHeader option"

datatype MessageType =
    MsgHup | MsgBeat | MsgProp | MsgApp | MsgAppResp | MsgVote | MsgVoteResp | MsgSnap
  | MsgHeartbeat | MsgHeartbeatResp | MsgUnreachable | MsgSnapStatus | MsgCheckQuorum
  | MsgTransferLeader | MsgTimeoutNow | MsgReadIndex | MsgReadIndexResp | MsgPreVote | MsgPreVoteResp

record Message =
  mg_Type :: MessageType
  mg_To :: u64
  mg_From :: u64
  mg_Term :: u64
  mg_Index :: u64
  mg_Commit :: u64
  mg_Entries :: "Entry list"
  mg_Snapshot :: Snapshot

record RaftMessage =
  rm_CellID :: u64
  rm_FromPeer :: Peer
  rm_ToPeer :: Peer
  rm_Message :: Message
  rm_CellEpoch :: CellEpoch
  rm_IsTombstone :: bool
  rm_Start :: bytes
  rm_End :: bytes

text \<open>What the metadata engine stores under the keys of \<^verbatim>\<open>keys.go\<close>.\<close>

datatype stored =
    SCell CellLocalState
  | SRaft RaftLocalState
  | SApply RaftApplyState
  | SEntry Entry

end
