(* ===== verification/Raft_Keys.thy ===== *)
theory Raft_Keys
  imports Bytes_Util Metapb
begin

text \<open>
  \<^verbatim>\<open>pkg/raftstore/keys.go\<close>: the layout of the engines' key space.  Local keys start with
  \<open>0x01\<close>, user data with \<open>'z'\<close>; a cell's raft log, raft state and apply state live under its
  raft prefix, its local state under its meta prefix.  The lemmas show that the layout is
  injective, ordered and that the parts do not mix.
\<close>

definition cellStateSuffix :: u8 where "cellStateSuffix = 0x01"
definition raftLogSuffix :: u8 where "raftLogSuffix = 0x01"
definition raftStateSuffix :: u8 where "raftStateSuffix = 0x02"
definition applyStateSuffix :: u8 where "applyStateSuffix = 0x03"

definition localPrefix :: u8 where "localPrefix = 0x01"
definition maxKey :: bytes where "maxKey = []"
definition minKey :: bytes where "minKey = [0xff]"
definition storeIdentKey :: bytes where "storeIdentKey = [localPrefix, 0x01]"

definition dataPrefix :: u8 where "dataPrefix = 0x7a"
definition dataPrefixKey :: bytes where "dataPrefixKey = [dataPrefix]"
definition dataMinKey :: bytes where "dataMinKey = [dataPrefix]"
definition dataMaxKey :: bytes where "dataMaxKey = [dataPrefix + 1]"

definition cellRaftPrefixKey :: bytes where "cellRaftPrefixKey = [localPrefix, 0x02]"
definition cellMetaPrefixKey :: bytes where "cellMetaPrefixKey = [localPrefix, 0x03]"
definition cellMetaMinKey :: bytes where "cellMetaMinKey = [localPrefix, 0x03]"
definition cellMetaMaxKey :: bytes where "cellMetaMaxKey = [localPrefix, 0x03 + 1]"
definition cellDocIDPrefixKey :: bytes where "cellDocIDPrefixKey = [localPrefix, 0x04]"
definition idxReqQueueKey :: bytes where "idxReqQueueKey = [localPrefix, 0x05]"

definition getCellMetaKey :: "u64 \<Rightarrow> u8 \<Rightarrow> bytes" where
  "getCellMetaKey cellID suffix = cellMetaPrefixKey @ Uint64ToBytes cellID @ [suffix]"

definition getCellStateKey :: "u64 \<Rightarrow> bytes" where
  "getCellStateKey cellID = getCellMetaKey cellID cellStateSuffix"

definition getCellMetaPrefix :: "u64 \<Rightarrow> bytes" where
  "getCellMetaPrefix cellID = cellMetaPrefixKey @ Uint64ToBytes cellID"

definition hasPrefix :: "bytes \<Rightarrow> bytes \<Rightarrow> bool" where
  "hasPrefix s p = (length p \<le> length s \<and> take (length p) s = p)"

definition decodeCellMetaKey :: "bytes \<Rightarrow> (u64 \<times> u8) option" where
  "decodeCellMetaKey key =
     (let prefixLen = length cellMetaPrefixKey; keyLen = length key
      in if prefixLen + 9 \<noteq> length key then None
         else if \<not> hasPrefix key cellMetaPrefixKey then None
         else Some (be_word (take 8 (drop prefixLen key)), last key))"

definition getDataKey :: "bytes \<Rightarrow> bytes" where
  "getDataKey key = dataPrefixKey @ key"

definition getOriginKey :: "bytes \<Rightarrow> fault + bytes" where
  "getOriginKey key =
     (if length key < length dataPrefixKey then Inl Panic else Inr (drop (length dataPrefixKey) key))"

definition getDataEndKey :: "bytes \<Rightarrow> bytes" where
  "getDataEndKey endKey = (if length endKey = 0 then dataMaxKey else getDataKey endKey)"

definition encStartKey :: "Cell \<Rightarrow> fault + bytes" where
  "encStartKey cell =
     (if length (c_Peers cell) = 0 then Inl Fatalf else Inr (getDataKey (c_Start cell)))"

definition encEndKey :: "Cell \<Rightarrow> fault + bytes" where
  "encEndKey cell =
     (if length (c_Peers cell) = 0 then Inl Fatalf else Inr (getDataEndKey (c_End cell)))"

definition getCellIDKey :: "u64 \<Rightarrow> u8 \<Rightarrow> nat \<Rightarrow> u64 \<Rightarrow> bytes" where
  "getCellIDKey cellID suffix extraCap extra =
     cellRaftPrefixKey @ Uint64ToBytes cellID @ [suffix] @
     (if extraCap > 0 then Uint64ToBytes extra else [])"

definition getRaftStateKey :: "u64 \<Rightarrow> bytes" where
  "getRaftStateKey cellID = getCellIDKey cellID raftStateSuffix 0 0"

definition getApplyStateKey :: "u64 \<Rightarrow> bytes" where
  "getApplyStateKey cellID = getCellIDKey cellID applyStateSuffix 0 0"

definition getCellRaftPrefix :: "u64 \<Rightarrow> bytes" where
  "getCellRaftPrefix cellID = cellRaftPrefixKey @ Uint64ToBytes cellID"

definition getRaftLogKey :: "u64 \<Rightarrow> u64 \<Rightarrow> bytes" where
  "getRaftLogKey cellID logIndex = getCellIDKey cellID raftLogSuffix 8 logIndex"

definition getDocIDKey :: "u64 \<Rightarrow> bytes" where
  "getDocIDKey docID = cellDocIDPrefixKey @ Uint64ToBytes docID"

definition getRaftLogIndex :: "bytes \<Rightarrow> u64 option" where
  "getRaftLogIndex key =
     (let expectKeyLen = length cellRaftPrefixKey + 8 * 2 + 1
      in if length key \<noteq> expectKeyLen then None
         else Some (be_word (drop (length cellRaftPrefixKey + 9) key)))"

lemmas key_consts = cellStateSuffix_def raftLogSuffix_def raftStateSuffix_def applyStateSuffix_def
  localPrefix_def dataPrefix_def dataPrefixKey_def dataMinKey_def dataMaxKey_def
  cellRaftPrefixKey_def cellMetaPrefixKey_def cellMetaMinKey_def cellMetaMaxKey_def
  cellDocIDPrefixKey_def storeIdentKey_def idxReqQueueKey_def

lemmas key_defs = getCellMetaKey_def getCellStateKey_def getCellMetaPrefix_def getDataKey_def
  getCellIDKey_def getRaftStateKey_def getApplyStateKey_def getCellRaftPrefix_def
  getRaftLogKey_def getDocIDKey_def

subsection \<open>Order of concatenated keys\<close>

lemma append_less_length:
  "length p = length q \<Longrightarrow> (p @ a :: bytes) < q @ b \<longleftrightarrow> p < q \<or> p = q \<and> a < b"
  by (induction p q rule: list_induct2) auto

lemma append_le_length:
  "length p = length q \<Longrightarrow> (p @ a :: bytes) \<le> q @ b \<longleftrightarrow> p < q \<or> p = q \<and> a \<le> b"
  by (auto simp: le_less append_less_length)

lemma id_append_less:
  "(Uint64ToBytes i @ a) < Uint64ToBytes j @ b \<longleftrightarrow> i < j \<or> i = j \<and> a < b"
  by (simp add: append_less_length)

lemma id_append_le:
  "(Uint64ToBytes i @ a) \<le> Uint64ToBytes j @ b \<longleftrightarrow> i < j \<or> i = j \<and> a \<le> b"
  by (simp add: append_le_length)

lemma id_less_append: "Uint64ToBytes i < Uint64ToBytes j @ b \<longleftrightarrow> i < j \<or> i = j \<and> b \<noteq> []"
  using id_append_less [of i "[]" j b] by (cases b) auto

lemma id_append_less': "Uint64ToBytes i @ a < Uint64ToBytes j \<longleftrightarrow> i < j"
  using id_append_less [of i a j "[]"] by simp

lemma id_le_append: "Uint64ToBytes i \<le> Uint64ToBytes j @ b \<longleftrightarrow> i \<le> j"
  using id_append_le [of i "[]" j b] by (auto simp: order.order_iff_strict [of i j])

lemmas key_order = id_append_less id_append_le id_less_append id_append_less' id_le_append

lemma getDataKey_less [simp]: "getDataKey a < getDataKey b \<longleftrightarrow> a < b"
  by (simp add: getDataKey_def)

lemma getDataKey_le [simp]: "getDataKey a \<le> getDataKey b \<longleftrightarrow> a \<le> b"
  by (simp add: getDataKey_def)

lemma getDataKey_max [simp]: "getDataKey k < dataMaxKey"
  by (simp add: getDataKey_def key_consts)

lemma getRaftLogKey_less [simp]:
  "getRaftLogKey c i < getRaftLogKey d j \<longleftrightarrow> c < d \<or> c = d \<and> i < j"
  by (simp add: key_defs key_consts key_order)

lemma getRaftLogKey_le [simp]:
  "getRaftLogKey c i \<le> getRaftLogKey d j \<longleftrightarrow> c < d \<or> c = d \<and> i \<le> j"
  by (simp add: key_defs key_consts key_order)

lemma getRaftLogKey_inject [simp]: "getRaftLogKey c i = getRaftLogKey d j \<longleftrightarrow> c = d \<and> i = j"
  by (simp add: key_defs key_consts)

lemma getRaftLogIndex_key [simp]: "getRaftLogIndex (getRaftLogKey c i) = Some i"
  by (simp add: getRaftLogIndex_def key_defs key_consts)

subsection \<open>Properties\<close>

text \<open>C33: the encoded bounds of an initialised cell enclose exactly the data keys of the keys
  the cell owns, also for a cell without an upper bound, so a range operation of the data
  engine between them touches the cell's keys and no others.\<close>

theorem enc_range_exact:
  assumes "c_Peers c \<noteq> []"
  shows "\<exists>s e. encStartKey c = Inr s \<and> encEndKey c = Inr e \<and>
    (s \<le> getDataKey k \<and> getDataKey k < e \<longleftrightarrow> covers c k) \<and> e \<le> dataMaxKey"
  using assms
  by (cases "c_End c = []")
    (simp_all add: encStartKey_def encEndKey_def getDataEndKey_def covers_def less_imp_le)

theorem enc_range_exact_witness:
  "\<exists>s e. encStartKey (emptyCell\<lparr>c_Start := [3], c_Peers := [\<lparr>p_ID = 1, p_StoreID = 1\<rparr>]\<rparr>) = Inr s \<and>
     encEndKey (emptyCell\<lparr>c_Start := [3], c_Peers := [\<lparr>p_ID = 1, p_StoreID = 1\<rparr>]\<rparr>) = Inr e \<and>
     (s \<le> getDataKey [4] \<and> getDataKey [4] < e \<longleftrightarrow>
        covers (emptyCell\<lparr>c_Start := [3], c_Peers := [\<lparr>p_ID = 1, p_StoreID = 1\<rparr>]\<rparr>) [4]) \<and>
     e \<le> dataMaxKey"
  by (rule enc_range_exact) simp

text \<open>The raft keys of a cell are disjoint from those of every other cell and from the
  cell metadata and the user data: a key of the form the code builds lies between the raft
  prefixes of a cell and of its successor only if it belongs to that cell.\<close>

theorem raft_prefix_isolates:
  assumes "c + 1 \<noteq> 0"
  shows "(getCellRaftPrefix c \<le> getRaftLogKey d i \<and> getRaftLogKey d i < getCellRaftPrefix (c + 1) \<longleftrightarrow> d = c) \<and>
    (getCellRaftPrefix c \<le> getRaftStateKey d \<and> getRaftStateKey d < getCellRaftPrefix (c + 1) \<longleftrightarrow> d = c) \<and>
    (getCellRaftPrefix c \<le> getApplyStateKey d \<and> getApplyStateKey d < getCellRaftPrefix (c + 1) \<longleftrightarrow> d = c) \<and>
    \<not> getCellStateKey d < getCellRaftPrefix (c + 1) \<and> \<not> getDataKey k < getCellRaftPrefix (c + 1)"
proof -
  have "c \<le> d \<and> d < c + 1 \<longleftrightarrow> d = c" for d
    using less_plus1_iff [OF assms, of d] by auto
  then show ?thesis by (simp add: key_defs key_consts key_order)
qed

theorem raft_prefix_isolates_witness:
  "\<not> (getCellRaftPrefix 7 \<le> getRaftLogKey 8 5 \<and> getRaftLogKey 8 5 < getCellRaftPrefix (7 + 1))"
  using raft_prefix_isolates [of 7 8 5] by simp

text \<open>Log keys sort by cell and then by index, and the index, like the cell identifier and
  the suffix of a metadata key, is recovered from the key.\<close>

theorem key_roundtrip:
  "(bytesCompare (getRaftLogKey c i) (getRaftLogKey c j) < 0 \<longleftrightarrow> i < j) \<and>
   getRaftLogIndex (getRaftLogKey c i) = Some i \<and>
   decodeCellMetaKey (getCellMetaKey c x) = Some (c, x) \<and>
   getOriginKey (getDataKey k) = Inr k"
  by (simp add: go_simps decodeCellMetaKey_def hasPrefix_def getOriginKey_def getRaftLogIndex_def
      key_defs key_consts key_order)

end
