(* ===== verification/Kv_Tree.thy ===== *)
theory Kv_Tree
  imports Btree
begin

text \<open>
  \<^verbatim>\<open>pkg/util/kv_tree.go\<close>: an ordered map from byte strings to values, the store behind the
  in-memory engines.  The value type is left open, so that the engines can hold typed
  messages.  The abstract view is the partial function \<open>kv_map\<close>; the locale
  \<open>ordered_kv\<close> is the contract the engines' clients rely on, and the tree interprets it.
\<close>

record 'v treeItem =
  ti_key :: bytes
  ti_value :: "'v option"

type_synonym 'v KVTree = "'v treeItem list"

definition treeItem_Less :: "'v treeItem \<Rightarrow> 'v treeItem \<Rightarrow> bool" where
  "treeItem_Less item other = (bytesCompare (ti_key other) (ti_key item) > 0)"

definition treeItem_Equals :: "'v treeItem \<Rightarrow> 'v treeItem \<Rightarrow> bool" where
  "treeItem_Equals item other = (bytesCompare (ti_key other) (ti_key item) = 0)"

definition NewKVTree :: "'v KVTree" where
  "NewKVTree = []"

text \<open>An item made for a lookup has a key and the nil value.\<close>

definition key_item :: "bytes \<Rightarrow> 'v treeItem" where
  "key_item k = \<lparr>ti_key = k, ti_value = None\<rparr>"

text \<open>The value put is not nil: an item with a nil value, which \<open>key_item\<close> is, reads back as absent.\<close>

definition KV_Put :: "'v KVTree \<Rightarrow> bytes \<Rightarrow> 'v \<Rightarrow> 'v KVTree" where
  "KV_Put kv key value = replaceOrInsert treeItem_Less \<lparr>ti_key = key, ti_value = Some value\<rparr> kv"

definition KV_Delete :: "'v KVTree \<Rightarrow> bytes \<Rightarrow> bool \<times> 'v KVTree" where
  "KV_Delete kv key =
     (let (r, kv') = deleteItem treeItem_Less (key_item key) kv in (r \<noteq> None, kv'))"

definition KV_RangeDelete :: "'v KVTree \<Rightarrow> bytes \<Rightarrow> bytes \<Rightarrow> 'v KVTree" where
  "KV_RangeDelete kv start stop =
     (let items = ascendGreaterOrEqual treeItem_Less (key_item start)
            (\<lambda>target acc. if bytesCompare (ti_key target) stop < 0
                           then (True, acc @ [target]) else (False, acc)) kv []
      in fold (\<lambda>target t. snd (deleteItem treeItem_Less target t)) items kv)"

definition KV_Get :: "'v KVTree \<Rightarrow> bytes \<Rightarrow> 'v option" where
  "KV_Get kv key =
     (let item = key_item key;
          result = ascendGreaterOrEqual treeItem_Less item (\<lambda>i _. (False, Some i)) kv None
      in case result of
           None \<Rightarrow> None
         | Some r \<Rightarrow> if \<not> treeItem_Equals r item then None else ti_value r)"

definition KV_Seek :: "'v KVTree \<Rightarrow> bytes \<Rightarrow> (bytes \<times> 'v option) option" where
  "KV_Seek kv key =
     (let result = ascendGreaterOrEqual treeItem_Less (key_item key) (\<lambda>i _. (False, Some i)) kv None
      in case result of None \<Rightarrow> None | Some r \<Rightarrow> Some (ti_key r, ti_value r))"

text \<open>The handler of a scan returns whether to continue, or an error.\<close>

fun scan_items :: "(bytes \<Rightarrow> 'v option \<Rightarrow> 's \<Rightarrow> ('e + bool) \<times> 's) \<Rightarrow> 'v treeItem list \<Rightarrow> 's \<Rightarrow> 'e option \<times> 's" where
  "scan_items h [] s = (None, s)"
| "scan_items h (x # xs) s =
     (case h (ti_key x) (ti_value x) s of
        (Inl err, s') \<Rightarrow> (Some err, s')
      | (Inr c, s') \<Rightarrow> if \<not> c then (None, s') else scan_items h xs s')"

definition KV_Scan ::
  "'v KVTree \<Rightarrow> bytes \<Rightarrow> bytes \<Rightarrow> (bytes \<Rightarrow> 'v option \<Rightarrow> 's \<Rightarrow> ('e + bool) \<times> 's) \<Rightarrow> 's \<Rightarrow> 'e option \<times> 's" where
  "KV_Scan kv start stop handler s =
     (let items = ascendGreaterOrEqual treeItem_Less (key_item start)
            (\<lambda>target acc. if bytesCompare (ti_key target) stop \<le> 0
                           then (True, acc @ [target]) else (False, acc)) kv []
      in scan_items handler items s)"

subsection \<open>Invariant and abstract view\<close>

definition kv_wf :: "'v KVTree \<Rightarrow> bool" where
  "kv_wf kv \<longleftrightarrow> sorted_wrt treeItem_Less kv \<and> (\<forall>i \<in> set kv. ti_value i \<noteq> None)"

definition kv_map :: "'v KVTree \<Rightarrow> bytes \<rightharpoonup> 'v" where
  "kv_map kv k = (case find (\<lambda>i. ti_key i = k) kv of None \<Rightarrow> None | Some i \<Rightarrow> ti_value i)"

lemma treeItem_Less_iff [simp]: "treeItem_Less a b \<longleftrightarrow> ti_key a < ti_key b"
  by (simp add: treeItem_Less_def go_simps)

lemma treeItem_Equals_iff [simp]: "treeItem_Equals a b \<longleftrightarrow> ti_key a = ti_key b"
  by (auto simp: treeItem_Equals_def go_simps)

lemma ti_key_key_item [simp]: "ti_key (key_item k) = k"
  by (simp add: key_item_def)

interpretation kv_items: item_order "treeItem_Less :: 'v treeItem \<Rightarrow> 'v treeItem \<Rightarrow> bool"
  by unfold_locales auto

lemma kv_wf_Nil [simp, wf_intros]: "kv_wf []"
  by (simp add: kv_wf_def)

lemma kv_wf_Cons:
  "kv_wf (x # xs) \<longleftrightarrow> kv_wf xs \<and> ti_value x \<noteq> None \<and> (\<forall>y \<in> set xs. ti_key x < ti_key y)"
  by (auto simp: kv_wf_def)

lemma kv_map_Nil [simp]: "kv_map [] = Map.empty"
  by (rule ext) (simp add: kv_map_def)

lemma kv_map_Cons [simp]: "kv_map (x # xs) k = (if ti_key x = k then ti_value x else kv_map xs k)"
  by (simp add: kv_map_def)

lemma kv_map_absent: "(\<And>y. y \<in> set kv \<Longrightarrow> ti_key y \<noteq> k) \<Longrightarrow> kv_map kv k = None"
  by (induction kv) auto

lemma kv_map_filter:
  "kv_map (filter (\<lambda>i. P (ti_key i)) kv) k = (if P k then kv_map kv k else None)"
  by (induction kv) (auto intro: kv_map_absent)

lemma kv_wf_filter: "kv_wf kv \<Longrightarrow> kv_wf (filter P kv)"
  by (auto simp: kv_wf_def sorted_wrt_filter)

lemma KV_Put_wf [wf_intros]: "kv_wf kv \<Longrightarrow> kv_wf (KV_Put kv k v)"
  unfolding kv_wf_def KV_Put_def
  by (auto simp: kv_items.sorted_replaceOrInsert kv_items.set_replaceOrInsert)

lemma KV_Put_map: "kv_map (KV_Put kv k v) = (kv_map kv)(k \<mapsto> v)" if "kv_wf kv"
  using that
proof (induction kv)
  case (Cons x xs)
  have "kv_map xs k = None" if "k \<le> ti_key x"
    using Cons.prems that by (intro kv_map_absent) (force simp: kv_wf_Cons)
  with Cons show ?case
    by (auto simp: KV_Put_def kv_wf_Cons fun_eq_iff)
qed (auto simp: KV_Put_def fun_eq_iff)

lemma KV_Delete_filter:
  "kv_wf kv \<Longrightarrow> snd (KV_Delete kv k) = filter (\<lambda>i. ti_key i \<noteq> k) kv"
  unfolding KV_Delete_def kv_wf_def
  by (auto simp: kv_items.deleteItem_filter case_prod_beta neq_iff intro!: filter_cong)

lemma KV_Delete_map: "kv_wf kv \<Longrightarrow> kv_map (snd (KV_Delete kv k)) = (kv_map kv)(k := None)"
  by (auto simp: KV_Delete_filter kv_map_filter [where P = "\<lambda>i. i \<noteq> k"] fun_eq_iff)

lemma kv_map_None: "kv_wf kv \<Longrightarrow> kv_map kv k = None \<longleftrightarrow> (\<forall>i \<in> set kv. ti_key i \<noteq> k)"
  by (induction kv) (auto simp: kv_wf_Cons)

lemma KV_Delete_found: "kv_wf kv \<Longrightarrow> fst (KV_Delete kv k) \<longleftrightarrow> kv_map kv k \<noteq> None"
  unfolding KV_Delete_def
  using kv_items.deleteItem_None [of kv "key_item k"]
  by (auto simp: kv_map_None case_prod_beta kv_wf_def neq_iff)

lemma range_items:
  assumes "kv_wf kv" and "\<And>a b. a < b \<Longrightarrow> P b \<Longrightarrow> P a"
  shows "ascendGreaterOrEqual treeItem_Less (key_item start)
      (\<lambda>target acc. if P (ti_key target) then (True, acc @ [target]) else (False, acc)) kv [] =
    filter (\<lambda>i. start \<le> ti_key i \<and> P (ti_key i)) kv"
proof -
  have srt: "sorted_wrt treeItem_Less kv" using assms(1) by (simp add: kv_wf_def)
  then have "takeWhile (\<lambda>i. P (ti_key i)) (filter (\<lambda>y. \<not> treeItem_Less y (key_item start)) kv) =
      filter (\<lambda>i. P (ti_key i)) (filter (\<lambda>y. \<not> treeItem_Less y (key_item start)) kv)"
    using assms(2) sorted_wrt_filter
    by (intro takeWhile_eq_filter_sorted [where R = treeItem_Less]) (auto simp: sorted_wrt_filter)
  then show ?thesis
    unfolding ascendGreaterOrEqual_def iterate_collect kv_items.from_pivot [OF srt]
    by (simp add: not_less conj_commute)
qed

lemma KV_RangeDelete_filter:
  assumes "kv_wf kv"
  shows "KV_RangeDelete kv s e = filter (\<lambda>i. \<not> (s \<le> ti_key i \<and> ti_key i < e)) kv"
proof -
  have srt: "sorted_wrt treeItem_Less kv" using assms by (simp add: kv_wf_def)
  have "(\<forall>x \<in> set kv. s \<le> ti_key x \<and> ti_key x < e \<longrightarrow> ti_key x < ti_key y \<or> ti_key y < ti_key x) \<longleftrightarrow>
      \<not> (s \<le> ti_key y \<and> ti_key y < e)" if "y \<in> set kv" for y
    using that by (auto simp: neq_iff [symmetric])
  then show ?thesis
    unfolding KV_RangeDelete_def bytesCompare_less
    by (subst range_items [OF assms])
      (auto simp: kv_items.fold_deleteItem [OF srt] Let_def intro!: filter_cong)
qed

lemma KV_RangeDelete_wf [wf_intros]: "kv_wf kv \<Longrightarrow> kv_wf (KV_RangeDelete kv s e)"
  by (simp add: KV_RangeDelete_filter kv_wf_filter)

lemma KV_RangeDelete_map:
  "kv_wf kv \<Longrightarrow> kv_map (KV_RangeDelete kv s e) = (\<lambda>k. if s \<le> k \<and> k < e then None else kv_map kv k)"
  unfolding KV_RangeDelete_filter
  using kv_map_filter [where P = "\<lambda>k. \<not> (s \<le> k \<and> k < e)" and kv = kv] by (auto simp: fun_eq_iff)

lemma KV_Delete_wf [wf_intros]: "kv_wf kv \<Longrightarrow> kv_wf (snd (KV_Delete kv k))"
  by (simp add: KV_Delete_filter kv_wf_filter)

lemma KV_Get_map: "kv_wf kv \<Longrightarrow> KV_Get kv k = kv_map kv k"
proof (induction kv)
  case (Cons x xs)
  have "kv_map xs k = None" if "k \<le> ti_key x"
    using Cons.prems that by (intro kv_map_absent) (force simp: kv_wf_Cons)
  with Cons show ?case
    by (auto simp: KV_Get_def ascendGreaterOrEqual_def kv_wf_Cons Let_def)
qed (simp add: KV_Get_def ascendGreaterOrEqual_def)

lemma KV_Scan_filter:
  assumes "kv_wf kv"
  shows "KV_Scan kv s e h st = scan_items h (filter (\<lambda>i. s \<le> ti_key i \<and> ti_key i \<le> e) kv) st"
  unfolding KV_Scan_def bytesCompare_le
  by (subst range_items [OF assms]) auto

lemma KV_Seek_filter:
  assumes "kv_wf kv"
  shows "KV_Seek kv k = (case filter (\<lambda>i. k \<le> ti_key i) kv of [] \<Rightarrow> None | i # _ \<Rightarrow> Some (ti_key i, ti_value i))"
proof -
  have "dropWhile (\<lambda>y. treeItem_Less y (key_item k)) kv = filter (\<lambda>i. k \<le> ti_key i) kv"
    using assms kv_items.from_pivot [of kv "key_item k"] by (simp add: kv_wf_def not_less)
  then show ?thesis
    unfolding KV_Seek_def ascendGreaterOrEqual_def iterate_first by (auto split: list.splits)
qed

subsection \<open>The engines' contract\<close>

text \<open>What a client of an ordered engine relies on: point reads see the last write, deletes
  and range deletes remove exactly the named keys.\<close>

locale ordered_kv =
  fixes ok :: "'t \<Rightarrow> bool"
    and get :: "'t \<Rightarrow> bytes \<Rightarrow> 'v option"
    and put :: "'t \<Rightarrow> bytes \<Rightarrow> 'v \<Rightarrow> 't"
    and del :: "'t \<Rightarrow> bytes \<Rightarrow> 't"
    and rdel :: "'t \<Rightarrow> bytes \<Rightarrow> bytes \<Rightarrow> 't"
  assumes ok_put: "ok t \<Longrightarrow> ok (put t k v)"
    and ok_del: "ok t \<Longrightarrow> ok (del t k)"
    and ok_rdel: "ok t \<Longrightarrow> ok (rdel t s e)"
    and get_put: "ok t \<Longrightarrow> get (put t k v) j = (if j = k then Some v else get t j)"
    and get_del: "ok t \<Longrightarrow> get (del t k) j = (if j = k then None else get t j)"
    and get_rdel: "ok t \<Longrightarrow> get (rdel t s e) j = (if s \<le> j \<and> j < e then None else get t j)"
begin

lemma get_put_same: "ok t \<Longrightarrow> get (put t k v) k = Some v"
  by (simp add: get_put)

lemma get_put_other: "ok t \<Longrightarrow> j \<noteq> k \<Longrightarrow> get (put t k v) j = get t j"
  by (simp add: get_put)

lemma ok_puts: "ok t \<Longrightarrow> ok (fold (\<lambda>(k, v) t. put t k v) kvs t)"
  by (induction kvs arbitrary: t) (auto simp: ok_put)

lemma get_puts:
  "ok t \<Longrightarrow> get (fold (\<lambda>(k, v) t. put t k v) kvs t) j =
     (case map_of (rev kvs) j of None \<Rightarrow> get t j | Some v \<Rightarrow> Some v)"
  by (induction kvs arbitrary: t) (auto simp: ok_put get_put map_add_def split: option.splits)

lemma ok_dels: "ok t \<Longrightarrow> ok (fold (\<lambda>k t. del t k) ks t)"
  by (induction ks arbitrary: t) (auto simp: ok_del)

lemma get_dels:
  "ok t \<Longrightarrow> get (fold (\<lambda>k t. del t k) ks t) j = (if j \<in> set ks then None else get t j)"
  by (induction ks arbitrary: t) (auto simp: ok_del get_del)

end

interpretation kvt: ordered_kv kv_wf KV_Get KV_Put "\<lambda>t k. snd (KV_Delete t k)" KV_RangeDelete
  by unfold_locales
    (auto simp: KV_Get_map KV_Put_map KV_Delete_map KV_RangeDelete_map wf_intros)

subsection \<open>Properties\<close>

text \<open>C23: the tree implements an ordered map.  Every operation keeps the invariant, reads see
  the abstract map, writes and deletes update it pointwise, a range delete removes exactly the
  keys of the half-open range, a delete reports whether the key was there.\<close>

theorem KVTree_refines_map:
  assumes "kv_wf kv"
  shows "KV_Get kv = kv_map kv \<and>
    kv_wf (KV_Put kv k v) \<and> kv_map (KV_Put kv k v) = (kv_map kv)(k \<mapsto> v) \<and>
    kv_wf (snd (KV_Delete kv k)) \<and> kv_map (snd (KV_Delete kv k)) = (kv_map kv)(k := None) \<and>
    (fst (KV_Delete kv k) \<longleftrightarrow> k \<in> dom (kv_map kv)) \<and>
    kv_wf (KV_RangeDelete kv s e) \<and>
    kv_map (KV_RangeDelete kv s e) = (\<lambda>k. if s \<le> k \<and> k < e then None else kv_map kv k)"
  using assms
  by (simp add: KV_Get_map KV_Put_map KV_Delete_map KV_RangeDelete_map KV_Delete_found wf_intros
      fun_eq_iff domIff)

theorem KVTree_refines_map_witness:
  "kv_map (KV_RangeDelete (KV_Put (KV_Put NewKVTree [1] (10 :: int)) [2] 20) [1] [2]) =
     (\<lambda>k. if [1] \<le> k \<and> k < [2] then None else kv_map (KV_Put (KV_Put NewKVTree [1] 10) [2] 20) k)"
  using KVTree_refines_map [of "KV_Put (KV_Put NewKVTree [1] (10 :: int)) [2] 20" "[]" 0 "[1]" "[2]"]
  by (simp add: NewKVTree_def wf_intros)

end
