(* ===== verification/Memory_Engine.thy ===== *)
theory Memory_Engine
  imports Kv_Tree Bytes_Util
begin

text \<open>
  \<^verbatim>\<open>pkg/storage/memory_driver.go\<close>, \<^verbatim>\<open>memory_engine_meta.go\<close> and
  \<^verbatim>\<open>memory_engine_data.go\<close>: write batches over the metadata engine, and the snapshot files of
  the data engine.  A batch is a list of operations that \<^verbatim>\<open>Write\<close> replays in order.
\<close>

datatype 'v opt = OptSet bytes 'v | OptDelete bytes

type_synonym 'v WriteBatch = "'v opt list"

definition wb_Delete :: "'v WriteBatch \<Rightarrow> bytes \<Rightarrow> 'v WriteBatch" where
  "wb_Delete wb key = wb @ [OptDelete key]"

definition wb_Set :: "'v WriteBatch \<Rightarrow> bytes \<Rightarrow> 'v \<Rightarrow> 'v WriteBatch" where
  "wb_Set wb key value = wb @ [OptSet key value]"

definition apply_opt :: "'v opt \<Rightarrow> 'v KVTree \<Rightarrow> 'v KVTree" where
  "apply_opt o' kv = (case o' of OptDelete key \<Rightarrow> snd (KV_Delete kv key) | OptSet key value \<Rightarrow> KV_Put kv key value)"

definition driver_Write :: "'v KVTree \<Rightarrow> 'v WriteBatch \<Rightarrow> 'v KVTree" where
  "driver_Write meta wb = fold apply_opt wb meta"

subsection \<open>Snapshot files of the data engine\<close>

definition Int2Bytes :: "nat \<Rightarrow> bytes" where
  "Int2Bytes v = be_bytes 4 (of_nat v)"

definition Byte2Int :: "bytes \<Rightarrow> nat" where
  "Byte2Int data = be_val (take 4 data)"

text \<open>The file is the concatenation of the records of the scanned keys; a value is written as
  its length and its bytes, nil as the empty string.\<close>

definition snap_record :: "bytes \<Rightarrow> bytes option \<Rightarrow> bytes" where
  "snap_record key value =
     (let v = (case value of None \<Rightarrow> [] | Some v \<Rightarrow> v)
      in Int2Bytes (length key) @ Int2Bytes (length v) @ key @ v)"

definition CreateSnapshot :: "bytes KVTree \<Rightarrow> bytes \<Rightarrow> bytes \<Rightarrow> bytes" where
  "CreateSnapshot kv start stop =
     snd (KV_Scan kv start stop
            (\<lambda>key value f. (Inr True :: unit + bool, f @ snap_record key value)) [])"

text \<open>\<^verbatim>\<open>ReadBytes(n)\<close> of the buffer: \<open>n\<close> bytes, zero filled when the buffer holds fewer.\<close>

definition ReadBytes :: "nat \<Rightarrow> bytes \<Rightarrow> bytes \<times> bytes" where
  "ReadBytes n buf = (take n buf @ replicate (n - length buf) 0, drop n buf)"

function ApplySnapshot :: "bytes KVTree \<Rightarrow> bytes \<Rightarrow> bytes KVTree" where
  "ApplySnapshot kv buf =
     (if length buf > 8 then
        (let (v, buf1) = ReadBytes 4 buf;
             keySize = Byte2Int v;
             (v', buf2) = ReadBytes 4 buf1;
             valueSize = Byte2Int v';
             (key, buf3) = ReadBytes keySize buf2;
             (value, buf4) = ReadBytes valueSize buf3
         in ApplySnapshot (KV_Put kv key value) buf4)
      else kv)"
  by auto
termination
  by (relation "measure (\<lambda>(kv, buf). length buf)") (auto simp: ReadBytes_def)

declare ApplySnapshot.simps [simp del]

subsection \<open>Write batches\<close>

fun opt_key :: "'v opt \<Rightarrow> bytes" where
  "opt_key (OptSet k v) = k"
| "opt_key (OptDelete k) = k"

fun opt_value :: "'v opt \<Rightarrow> 'v option" where
  "opt_value (OptSet k v) = Some v"
| "opt_value (OptDelete k) = None"

lemma apply_opt_wf [wf_intros]: "kv_wf kv \<Longrightarrow> kv_wf (apply_opt o' kv)"
  by (cases o') (auto simp: apply_opt_def wf_intros)

lemma apply_opt_map:
  "kv_wf kv \<Longrightarrow> kv_map (apply_opt o' kv) = (kv_map kv)(opt_key o' := opt_value o')"
  by (cases o') (auto simp: apply_opt_def KV_Put_map KV_Delete_map)

lemma driver_Write_wf [wf_intros]: "kv_wf kv \<Longrightarrow> kv_wf (driver_Write kv wb)"
  unfolding driver_Write_def by (induction wb arbitrary: kv) (auto simp: wf_intros)

lemma driver_Write_append: "driver_Write kv (wb @ wb') = driver_Write (driver_Write kv wb) wb'"
  by (simp add: driver_Write_def)

lemma driver_Write_Nil [simp]: "driver_Write kv [] = kv"
  by (simp add: driver_Write_def)

lemma driver_Write_map:
  "kv_wf kv \<Longrightarrow> kv_map (driver_Write kv wb) k =
     (case find (\<lambda>o'. opt_key o' = k) (rev wb) of None \<Rightarrow> kv_map kv k | Some o' \<Rightarrow> opt_value o')"
proof (induction wb rule: rev_induct)
  case (snoc x wb)
  then show ?case
    by (simp add: driver_Write_append driver_Write_wf) (simp add: driver_Write_def apply_opt_map
      driver_Write_wf [unfolded driver_Write_def])
qed simp

lemma driver_Write_untouched:
  "kv_wf kv \<Longrightarrow> (\<And>o'. o' \<in> set wb \<Longrightarrow> opt_key o' \<noteq> k) \<Longrightarrow> kv_map (driver_Write kv wb) k = kv_map kv k"
  by (simp add: driver_Write_map) (metis (mono_tags, lifting) find_None_iff option.simps(4) set_rev)

lemma driver_Write_Set: "kv_wf kv \<Longrightarrow>
    kv_map (driver_Write kv (wb_Set wb k v)) = (kv_map (driver_Write kv wb))(k \<mapsto> v)"
  by (simp add: wb_Set_def driver_Write_append driver_Write_wf)
    (simp add: driver_Write_def apply_opt_map driver_Write_wf [unfolded driver_Write_def])

lemma driver_Write_Delete: "kv_wf kv \<Longrightarrow>
    kv_map (driver_Write kv (wb_Delete wb k)) = (kv_map (driver_Write kv wb))(k := None)"
  by (simp add: wb_Delete_def driver_Write_append driver_Write_wf)
    (simp add: driver_Write_def apply_opt_map driver_Write_wf [unfolded driver_Write_def])

subsection \<open>Snapshot round trip\<close>

lemma scan_collect:
  "scan_items (\<lambda>key value f. (Inr True, f @ g key value)) xs acc =
     (None, acc @ concat (map (\<lambda>i. g (ti_key i) (ti_value i)) xs))"
  by (induction xs arbitrary: acc) auto

lemma length_Int2Bytes [simp]: "length (Int2Bytes n) = 4"
  by (simp add: Int2Bytes_def)

lemma Byte2Int_Int2Bytes: "n < 2 ^ 32 \<Longrightarrow> Byte2Int (Int2Bytes n) = n"
  using unat_of_nat_u64 [of n] by (simp add: Byte2Int_def Int2Bytes_def be_val_be_bytes)

lemma ReadBytes_append: "length a = n \<Longrightarrow> ReadBytes n (a @ b) = (a, b)"
  by (auto simp: ReadBytes_def)

lemma ApplySnapshot_record:
  assumes "length k < 2 ^ 32" "length v < 2 ^ 32" "k \<noteq> [] \<or> v \<noteq> [] \<or> rest \<noteq> []"
  shows "ApplySnapshot kv (snap_record k (Some v) @ rest) = ApplySnapshot (KV_Put kv k v) rest"
proof -
  have "length (snap_record k (Some v) @ rest) > 8"
    using assms(3) by (auto simp: snap_record_def)
  then show ?thesis
    using assms(1,2)
    by (subst ApplySnapshot.simps)
      (simp add: snap_record_def ReadBytes_append Byte2Int_Int2Bytes)
qed

lemma ApplySnapshot_records:
  assumes "\<And>i. i \<in> set xs \<Longrightarrow> ti_key i \<noteq> [] \<and> length (ti_key i) < 2 ^ 32 \<and>
      (\<exists>v. ti_value i = Some v \<and> length v < 2 ^ 32)"
  shows "ApplySnapshot kv (concat (map (\<lambda>i. snap_record (ti_key i) (ti_value i)) xs)) =
    fold (\<lambda>i kv. KV_Put kv (ti_key i) (the (ti_value i))) xs kv"
  using assms
proof (induction xs arbitrary: kv)
  case (Cons i xs)
  from Cons.prems [of i] obtain v where "ti_value i = Some v" "ti_key i \<noteq> []"
    "length (ti_key i) < 2 ^ 32" "length v < 2 ^ 32" by auto
  then show ?case using Cons by (simp add: ApplySnapshot_record)
qed (simp add: ApplySnapshot.simps)

lemma fold_Put_map:
  "kv_wf kv \<Longrightarrow> kv_wf xs \<Longrightarrow>
   kv_map (fold (\<lambda>i kv. KV_Put kv (ti_key i) (the (ti_value i))) xs kv) = kv_map kv ++ kv_map xs"
proof (induction xs arbitrary: kv)
  case (Cons x xs)
  have "kv_map xs (ti_key x) = None"
    using Cons.prems(2) by (intro kv_map_absent) (auto simp: kv_wf_Cons)
  with Cons show ?case
    by (auto simp: kv_wf_Cons KV_Put_map wf_intros map_add_def fun_eq_iff split: option.splits)
qed simp

subsection \<open>Properties\<close>

text \<open>C35: applying a snapshot file restores exactly the scanned part of the source tree and
  leaves every other key of the target alone.  The scanned part includes the end key itself,
  because the scan of the tree is inclusive: a snapshot of the data of a cell also carries the
  first key of the next cell when that key exists.\<close>

theorem snapshot_roundtrip:
  assumes "kv_wf kv" and "kv_wf t"
    and "\<forall>i \<in> set kv. ti_key i \<noteq> [] \<and> length (ti_key i) < 2 ^ 32 \<and>
      length (the (ti_value i)) < 2 ^ 32"
  shows "kv_map (ApplySnapshot t (CreateSnapshot kv s e)) k =
    (if s \<le> k \<and> k \<le> e \<and> k \<in> dom (kv_map kv) then kv_map kv k else kv_map t k)"
proof -
  define xs where "xs = filter (\<lambda>i. s \<le> ti_key i \<and> ti_key i \<le> e) kv"
  have wf: "kv_wf xs" using assms(1) by (simp add: xs_def kv_wf_filter)
  have "CreateSnapshot kv s e = concat (map (\<lambda>i. snap_record (ti_key i) (ti_value i)) xs)"
    by (simp add: CreateSnapshot_def KV_Scan_filter [OF assms(1)] scan_collect xs_def)
  moreover have "ti_key i \<noteq> [] \<and> length (ti_key i) < 2 ^ 32 \<and>
      (\<exists>v. ti_value i = Some v \<and> length v < 2 ^ 32)" if "i \<in> set xs" for i
    using that bspec [OF assms(3), of i] wf by (fastforce simp: xs_def kv_wf_def)
  ultimately have "kv_map (ApplySnapshot t (CreateSnapshot kv s e)) = kv_map t ++ kv_map xs"
    by (simp add: ApplySnapshot_records fold_Put_map assms(2) wf)
  moreover have "kv_map xs k = (if s \<le> k \<and> k \<le> e then kv_map kv k else None)"
    using kv_map_filter [where P = "\<lambda>k. s \<le> k \<and> k \<le> e" and kv = kv] by (simp add: xs_def)
  ultimately show ?thesis by (auto simp: map_add_def split: option.splits)
qed

theorem snapshot_roundtrip_witness:
  "kv_map (ApplySnapshot NewKVTree (CreateSnapshot (KV_Put (KV_Put NewKVTree [122, 1] [10]) [122, 2] [20]) [122, 1] [122, 2])) [122, 2] =
     Some [20]"
  using snapshot_roundtrip [of "KV_Put (KV_Put NewKVTree [122, 1] [10]) [122, 2] [20]" NewKVTree
      "[122, 1]" "[122, 2]" "[122, 2]"]
  by (simp add: NewKVTree_def KV_Put_def kv_wf_Cons dom_def)

end
