(* ===== verification/Raft_Util.thy ===== *)
theory Raft_Util
  imports Raft_Msgs Raft_Keys Memory_Engine
begin

text \<open>
  \<^verbatim>\<open>pkg/raftstore/util.go\<close>, \<^verbatim>\<open>errors.go\<close> and \<^verbatim>\<open>cmd.go\<close>: peers and epochs of a cell, the
  records a new cell is bootstrapped with, and how a command is answered.  A command's
  call-back is a token; answering it is an event that carries the token and the response.
\<close>

subsection \<open>Cells, peers and epochs\<close>

definition isEpochStale :: "CellEpoch \<Rightarrow> CellEpoch \<Rightarrow> bool" where
  "isEpochStale epoch checkEpoch =
     (e_CellVer epoch < e_CellVer checkEpoch \<or> e_ConfVer epoch < e_ConfVer checkEpoch)"

fun findPeer_in :: "Peer list \<Rightarrow> u64 \<Rightarrow> Peer option" where
  "findPeer_in [] storeID = None"
| "findPeer_in (peer # ps) storeID =
     (if p_StoreID peer = storeID then Some peer else findPeer_in ps storeID)"

definition findPeer :: "Cell \<Rightarrow> u64 \<Rightarrow> Peer option" where
  "findPeer cell storeID = findPeer_in (c_Peers cell) storeID"

definition removePeer :: "Cell \<Rightarrow> u64 \<Rightarrow> Cell" where
  "removePeer cell storeID =
     cell\<lparr>c_Peers := fold (\<lambda>peer newPeers. if p_StoreID peer \<noteq> storeID then newPeers @ [peer] else newPeers)
                       (c_Peers cell) []\<rparr>"

definition newPeer :: "u64 \<Rightarrow> u64 \<Rightarrow> Peer" where
  "newPeer peerID storeID = \<lparr>p_ID = peerID, p_StoreID = storeID\<rparr>"

definition removedPeers :: "Cell \<Rightarrow> Cell \<Rightarrow> u64 list" where
  "removedPeers new old =
     fold (\<lambda>o' ids. if \<not> list_ex (\<lambda>n. p_ID n = p_ID o') (c_Peers new) then ids @ [p_ID o'] else ids)
       (c_Peers old) []"

definition checkKeyInCell :: "bytes \<Rightarrow> Cell \<Rightarrow> Error option" where
  "checkKeyInCell key cell =
     (if bytesCompare key (c_Start cell) \<ge> 0 \<and>
         (length (c_End cell) = 0 \<or> bytesCompare key (c_End cell) < 0) then None
      else Some \<lparr>er_Message = ''key not in cell'',
                 er_Detail = KeyNotInCell key (c_ID cell) (c_Start cell) (c_End cell)\<rparr>)"

definition newChangePeerRequest :: "ConfChangeType \<Rightarrow> Peer \<Rightarrow> AdminRequest" where
  "newChangePeerRequest changeType peer = ChangePeer changeType peer"

definition newTransferLeaderRequest :: "Peer \<Rightarrow> AdminRequest" where
  "newTransferLeaderRequest peer = TransferLeader peer"

definition newCompactLogRequest :: "u64 \<Rightarrow> u64 \<Rightarrow> AdminRequest" where
  "newCompactLogRequest index t = RaftLogGC index t"

definition HasOverlap :: "Cell \<Rightarrow> Cell \<Rightarrow> fault + bool" where
  "HasOverlap c1 c2 =
     (case (encStartKey c1, encEndKey c2) of
        (Inr s1, Inr e2) \<Rightarrow>
          if bytesCompare s1 e2 < 0 then
            (case (encEndKey c1, encStartKey c2) of
               (Inr e1, Inr s2) \<Rightarrow> Inr (bytesCompare e1 s2 > 0)
             | _ \<Rightarrow> Inl Fatalf)
          else Inr False
      | _ \<Rightarrow> Inl Fatalf)"

definition StalEpoch :: "CellEpoch \<Rightarrow> CellEpoch \<Rightarrow> bool" where
  "StalEpoch target check =
     (e_ConfVer target < e_ConfVer check \<or> e_CellVer target < e_CellVer check)"

text \<open>\<^verbatim>\<open>checkEpoch\<close> of \<^verbatim>\<open>store_check.go\<close>: which version of the epoch a request is checked
  against depends on its kind.\<close>

definition checkEpoch :: "Cell \<Rightarrow> RaftCMDRequest \<Rightarrow> bool" where
  "checkEpoch cell req =
     (let (checkVer, checkConfVer) =
            (case rc_AdminRequest req of
               Some (Split _ _ _) \<Rightarrow> (True, False)
             | Some (ChangePeer _ _) \<Rightarrow> (False, True)
             | Some (TransferLeader _) \<Rightarrow> (True, True)
             | Some _ \<Rightarrow> (False, False)
             | None \<Rightarrow> (True, False))
      in if \<not> checkConfVer \<and> \<not> checkVer then True
         else case rc_Header req of
                None \<Rightarrow> False
              | Some h \<Rightarrow>
                  \<not> (checkConfVer \<and> e_ConfVer (rh_CellEpoch h) < e_ConfVer (c_Epoch cell) \<or>
                     checkVer \<and> e_CellVer (rh_CellEpoch h) < e_CellVer (c_Epoch cell)))"

subsection \<open>Bootstrap records\<close>

definition raftInitLogTerm :: u64 where "raftInitLogTerm = 5"
definition raftInitLogIndex :: u64 where "raftInitLogIndex = 5"

definition initRaftLocalState :: RaftLocalState where
  "initRaftLocalState = \<lparr>rl_HardState = \<lparr>hs_Term = raftInitLogTerm, hs_Vote = 0, hs_Commit = raftInitLogIndex\<rparr>,
     rl_LastIndex = raftInitLogIndex\<rparr>"

definition initRaftApplyState :: RaftApplyState where
  "initRaftApplyState = \<lparr>as_AppliedIndex = raftInitLogIndex,
     as_TruncatedState = \<lparr>tr_Index = raftInitLogIndex, tr_Term = raftInitLogTerm\<rparr>\<rparr>"

definition SaveCell :: "stored KVTree \<Rightarrow> Cell \<Rightarrow> stored KVTree" where
  "SaveCell driver cell =
     (let wb = wb_Set [] (getCellStateKey (c_ID cell)) (SCell \<lparr>cl_State = PS_Normal, cl_Cell = cell\<rparr>);
          wb = wb_Set wb (getRaftStateKey (c_ID cell)) (SRaft initRaftLocalState);
          wb = wb_Set wb (getApplyStateKey (c_ID cell)) (SApply initRaftApplyState)
      in driver_Write driver wb)"

definition DeleteCell :: "u64 \<Rightarrow> stored WriteBatch \<Rightarrow> stored WriteBatch" where
  "DeleteCell id' wb =
     wb_Delete (wb_Delete (wb_Delete wb (getCellStateKey id')) (getRaftStateKey id')) (getApplyStateKey id')"

subsection \<open>Error responses\<close>

definition buildTerm :: "u64 \<Rightarrow> RaftCMDResponse \<Rightarrow> RaftCMDResponse" where
  "buildTerm t resp =
     (case rr_Header resp of None \<Rightarrow> resp | Some h \<Rightarrow> resp\<lparr>rr_Header := Some (h\<lparr>ph_CurrentTerm := t\<rparr>)\<rparr>)"

definition buildUUID :: "bytes option \<Rightarrow> RaftCMDResponse \<Rightarrow> RaftCMDResponse" where
  "buildUUID uuid resp =
     (case rr_Header resp of
        None \<Rightarrow> resp
      | Some h \<Rightarrow> if ph_UUID h \<noteq> None then resp\<lparr>rr_Header := Some (h\<lparr>ph_UUID := uuid\<rparr>)\<rparr> else resp)"

definition errorBaseResp :: "bytes option \<Rightarrow> u64 \<Rightarrow> RaftCMDResponse" where
  "errorBaseResp uuid currentTerm =
     buildUUID uuid (buildTerm currentTerm
       \<lparr>rr_Header = Some \<lparr>ph_Error = noError, ph_UUID = None, ph_CurrentTerm = 0\<rparr>,
        rr_Responses = [], rr_AdminResponse = None\<rparr>)"

definition set_error :: "Error \<Rightarrow> RaftCMDResponse \<Rightarrow> RaftCMDResponse" where
  "set_error e resp =
     (case rr_Header resp of None \<Rightarrow> resp | Some h \<Rightarrow> resp\<lparr>rr_Header := Some (h\<lparr>ph_Error := e\<rparr>)\<rparr>)"

definition errorOtherCMDResp :: "string \<Rightarrow> RaftCMDResponse" where
  "errorOtherCMDResp err = set_error \<lparr>er_Message = err, er_Detail = NoDetail\<rparr> (errorBaseResp None 0)"

definition errorPbResp :: "Error \<Rightarrow> bytes option \<Rightarrow> u64 \<Rightarrow> RaftCMDResponse" where
  "errorPbResp err uuid currentTerm = set_error err (errorBaseResp uuid currentTerm)"

definition errorStaleCMDResp :: "bytes option \<Rightarrow> u64 \<Rightarrow> RaftCMDResponse" where
  "errorStaleCMDResp uuid currentTerm =
     set_error \<lparr>er_Message = ''stale command'', er_Detail = StaleCommand\<rparr> (errorBaseResp uuid currentTerm)"

definition errorStaleEpochResp :: "bytes option \<Rightarrow> u64 \<Rightarrow> Cell list \<Rightarrow> RaftCMDResponse" where
  "errorStaleEpochResp uuid currentTerm newCells =
     set_error \<lparr>er_Message = ''stale command'', er_Detail = StaleEpoch newCells\<rparr>
       (errorBaseResp uuid currentTerm)"

subsection \<open>Commands and their answers\<close>

record cmd =
  cm_req :: RaftCMDRequest
  cm_cb :: "nat option"
  cm_term :: u64

type_synonym answer = "nat \<times> RaftCMDResponse"

definition newCMD :: "RaftCMDRequest \<Rightarrow> nat option \<Rightarrow> cmd" where
  "newCMD req cb = \<lparr>cm_req = req, cm_cb = cb, cm_term = 0\<rparr>"

definition stamp :: "Request \<Rightarrow> Response \<Rightarrow> Response" where
  "stamp req rsp = rsp\<lparr>rs_UUID := rq_UUID req, rs_SessionID := rq_SessionID req\<rparr>"

text \<open>\<open>cmd_resp\<close> is the method \<^verbatim>\<open>resp\<close>; a nil header of the request is dereferenced by its
  debug log line.\<close>

definition cmd_resp :: "cmd \<Rightarrow> RaftCMDResponse \<Rightarrow> fault + answer list" where
  "cmd_resp c resp =
     (case cm_cb c of
        None \<Rightarrow> Inr []
      | Some cb \<Rightarrow>
          if rc_Header (cm_req c) = None then Inl Panic
          else (let reqs = rc_Requests (cm_req c) in
            if length reqs > 0 then
              if length reqs \<noteq> length (rr_Responses resp) \<and>
                 (rr_Header resp = None \<or> length (rr_Responses resp) \<noteq> 0) then Inl Fatalf
              else
                (let rsps = (if length reqs \<noteq> length (rr_Responses resp)
                             then rr_Responses resp @ map (\<lambda>req. stamp req AcquireResponse) reqs
                             else map2 stamp reqs (rr_Responses resp));
                     rsps = (case rr_Header resp of
                               None \<Rightarrow> rsps
                             | Some h \<Rightarrow> map (\<lambda>rsp. rsp\<lparr>rs_Error := ph_Error h\<rparr>) rsps)
                 in Inr [(cb, resp\<lparr>rr_Responses := rsps\<rparr>)])
            else Inr [(cb, resp)]))"

definition cmd_uuid :: "cmd \<Rightarrow> bytes option" where
  "cmd_uuid c = map_option rh_UUID (rc_Header (cm_req c))"

definition respCellNotFound :: "cmd \<Rightarrow> u64 \<Rightarrow> fault + answer list" where
  "respCellNotFound c cellID =
     cmd_resp c (errorPbResp \<lparr>er_Message = ''cell not found'', er_Detail = CellNotFound cellID\<rparr>
       (cmd_uuid c) (cm_term c))"

definition respLargeRaftEntrySize :: "cmd \<Rightarrow> u64 \<Rightarrow> u64 \<Rightarrow> fault + answer list" where
  "respLargeRaftEntrySize c cellID sz =
     cmd_resp c (errorPbResp \<lparr>er_Message = ''entry is too large'', er_Detail = RaftEntryTooLarge cellID sz\<rparr>
       (cmd_uuid c) (cm_term c))"

definition respOtherError :: "cmd \<Rightarrow> string \<Rightarrow> fault + answer list" where
  "respOtherError c err = cmd_resp c (errorOtherCMDResp err)"

definition respNotLeader :: "cmd \<Rightarrow> u64 \<Rightarrow> Peer \<Rightarrow> fault + answer list" where
  "respNotLeader c cellID leader =
     cmd_resp c (errorPbResp \<lparr>er_Message = ''NotLeader'', er_Detail = NotLeader cellID leader\<rparr>
       (cmd_uuid c) (cm_term c))"

subsection \<open>Lemmas\<close>

lemma findPeer_in_None: "findPeer_in ps s = None \<longleftrightarrow> (\<forall>p \<in> set ps. p_StoreID p \<noteq> s)"
  by (induction ps) auto

lemma findPeer_in_Some: "findPeer_in ps s = Some p \<Longrightarrow> p \<in> set ps \<and> p_StoreID p = s"
  by (induction ps) (auto split: if_splits)

lemma fold_filter_append:
  "fold (\<lambda>x acc. if P x then acc @ [f x] else acc) xs acc = acc @ map f (filter P xs)"
  by (induction xs arbitrary: acc) auto

lemma removePeer_peers: "c_Peers (removePeer c s) = filter (\<lambda>p. p_StoreID p \<noteq> s) (c_Peers c)"
  using fold_filter_append [of "\<lambda>p. p_StoreID p \<noteq> s" "\<lambda>p. p" "c_Peers c" "[]"]
  by (simp add: removePeer_def)

lemma removePeer_rest [simp]: "c_ID (removePeer c s) = c_ID c" "c_Start (removePeer c s) = c_Start c"
  "c_End (removePeer c s) = c_End c" "c_Epoch (removePeer c s) = c_Epoch c"
  by (simp_all add: removePeer_def)

lemma checkKeyInCell_covers: "checkKeyInCell k c = None \<longleftrightarrow> covers c k"
  by (auto simp: checkKeyInCell_def covers_def go_simps)

lemma StalEpoch_isEpochStale: "StalEpoch a b = isEpochStale a b"
  by (auto simp: StalEpoch_def isEpochStale_def)

lemma error_header: "rr_Header (errorBaseResp u t) = Some \<lparr>ph_Error = noError, ph_UUID = None, ph_CurrentTerm = t\<rparr>"
  by (simp add: errorBaseResp_def buildUUID_def buildTerm_def)

lemma errorPbResp_eq: "errorPbResp e u t = \<lparr>rr_Header = Some \<lparr>ph_Error = e, ph_UUID = None, ph_CurrentTerm = t\<rparr>,
    rr_Responses = [], rr_AdminResponse = None\<rparr>"
  by (simp add: errorPbResp_def set_error_def errorBaseResp_def buildUUID_def buildTerm_def)

lemma getDataEndKey_less: "getDataKey a < getDataEndKey b \<longleftrightarrow> b = [] \<or> a < b"
  by (simp add: getDataEndKey_def)

lemma HasOverlap_overlap:
  assumes "valid_range c" "valid_range d" "c_Peers c \<noteq> []" "c_Peers d \<noteq> []"
  shows "HasOverlap c d = Inr (overlap c d)"
  using assms
  by (auto simp: HasOverlap_def encStartKey_def encEndKey_def go_simps getDataEndKey_less overlap_code)

subsection \<open>Properties\<close>

text \<open>An error answer reaches the command's call-back exactly once and holds one response
  for each request of the command, in order, with that request's UUID and session and with the
  error, so that the proxy can complete every client request of the batch.\<close>

theorem error_answer_complete:
  assumes "cm_cb c = Some cb" and "rc_Header (cm_req c) \<noteq> None"
  shows "\<exists>rsp. cmd_resp c (errorPbResp e u t) = Inr [(cb, rsp)] \<and>
    map rs_UUID (rr_Responses rsp) = map rq_UUID (rc_Requests (cm_req c)) \<and>
    map rs_SessionID (rr_Responses rsp) = map rq_SessionID (rc_Requests (cm_req c)) \<and>
    map rs_Error (rr_Responses rsp) = map (\<lambda>_. e) (rc_Requests (cm_req c))"
  using assms
  by (auto simp: cmd_resp_def errorPbResp_eq Let_def stamp_def comp_def)

definition demo_header :: RaftRequestHeader where
  "demo_header = \<lparr>rh_CellId = 1, rh_Peer = \<lparr>p_ID = 1, p_StoreID = 1\<rparr>, rh_ReadQuorum = False,
     rh_UUID = [7], rh_CellEpoch = \<lparr>e_ConfVer = 1, e_CellVer = 1\<rparr>, rh_Term = 6\<rparr>"

definition demo_request :: "bytes \<Rightarrow> Request" where
  "demo_request u = \<lparr>rq_UUID = u, rq_Type = CMD_Get, rq_Cmd = [[1]], rq_Epoch = 0, rq_SessionID = 3\<rparr>"

definition demo_cmd :: cmd where
  "demo_cmd = newCMD \<lparr>rc_Header = Some demo_header, rc_Requests = [demo_request [1], demo_request [2]],
     rc_AdminRequest = None\<rparr> (Some 9)"

theorem error_answer_complete_witness:
  "\<exists>rsp. cmd_resp demo_cmd (errorPbResp noError None 6) = Inr [(9, rsp)] \<and>
     map rs_UUID (rr_Responses rsp) = [[1], [2]]"
  using error_answer_complete [of demo_cmd 9 noError None 6]
  by (auto simp: demo_cmd_def newCMD_def demo_request_def)

text \<open>The header of an error response never carries the UUID of the request, because
  \<^verbatim>\<open>buildUUID\<close> only overwrites a UUID that is already there and the header of a new response
  has none.\<close>

theorem error_header_without_uuid:
  "\<exists>h. rr_Header (errorPbResp e (Some uuid) t) = Some h \<and> ph_UUID h = None \<and> ph_CurrentTerm h = t"
  by (simp add: errorPbResp_eq)

end
