(* ===== verification/Peer_Storage.thy ===== *)
theory Peer_Storage
  imports Raft_Util Job_Machine
begin

text \<open>
  \<^verbatim>\<open>pkg/raftstore/peer_storage.go\<close> and the storage methods of
  \<^verbatim>\<open>pkg/raftstore/raft_handle_do.go\<close> and \<^verbatim>\<open>peer_job.go\<close>: a peer's raft log and persistent
  state over the metadata engine.  A value that does not unmarshal as the type that its key
  asks for is an error.  The size of a marshalled entry, which bounds a read of the log, is a
  parameter.
\<close>

datatype storage_error = ErrCompacted | ErrUnavailable | ErrSnapshotTemporarilyUnavailable | ErrOtherStorage

record peerStorage =
  ps_cell :: Cell
  ps_lastTerm :: u64
  ps_appliedIndexTerm :: u64
  ps_lastReadyIndex :: u64
  ps_lastCompactIndex :: u64
  ps_raftState :: RaftLocalState
  ps_applyState :: RaftApplyState
  ps_snapTriedCnt :: nat
  ps_genSnapJob :: "Snapshot Job option"
  ps_applySnapJob :: "unit Job option"

definition maxSnapTryCnt :: nat where "maxSnapTryCnt = 5"

definition getAppliedIndex :: "peerStorage \<Rightarrow> u64" where
  "getAppliedIndex ps = as_AppliedIndex (ps_applyState ps)"

definition getCommittedIndex :: "peerStorage \<Rightarrow> u64" where
  "getCommittedIndex ps = hs_Commit (rl_HardState (ps_raftState ps))"

definition isApplyComplete :: "peerStorage \<Rightarrow> bool" where
  "isApplyComplete ps = (getCommittedIndex ps = getAppliedIndex ps)"

definition getTruncatedIndex :: "peerStorage \<Rightarrow> u64" where
  "getTruncatedIndex ps = tr_Index (as_TruncatedState (ps_applyState ps))"

definition getTruncatedTerm :: "peerStorage \<Rightarrow> u64" where
  "getTruncatedTerm ps = tr_Term (as_TruncatedState (ps_applyState ps))"

definition isInitialized :: "peerStorage \<Rightarrow> bool" where
  "isInitialized ps = (length (c_Peers (ps_cell ps)) \<noteq> 0)"

definition LastIndex :: "peerStorage \<Rightarrow> u64" where
  "LastIndex ps = rl_LastIndex (ps_raftState ps)"

definition FirstIndex :: "peerStorage \<Rightarrow> u64" where
  "FirstIndex ps = getTruncatedIndex ps + 1"

definition isApplyingSnap :: "peerStorage \<Rightarrow> bool" where
  "isApplyingSnap ps = (case ps_applySnapJob ps of None \<Rightarrow> False | Some j \<Rightarrow> IsNotComplete j)"

definition isGeneratingSnap :: "peerStorage \<Rightarrow> bool" where
  "isGeneratingSnap ps = (case ps_genSnapJob ps of None \<Rightarrow> False | Some j \<Rightarrow> IsNotComplete j)"

definition isGenSnapJobComplete :: "peerStorage \<Rightarrow> bool" where
  "isGenSnapJobComplete ps = (case ps_genSnapJob ps of None \<Rightarrow> False | Some j \<Rightarrow> IsComplete j)"

subsection \<open>Start-up\<close>

definition zeroHardState :: HardState where
  "zeroHardState = \<lparr>hs_Term = 0, hs_Vote = 0, hs_Commit = 0\<rparr>"

definition zeroApplyState :: RaftApplyState where
  "zeroApplyState = \<lparr>as_AppliedIndex = 0, as_TruncatedState = \<lparr>tr_Index = 0, tr_Term = 0\<rparr>\<rparr>"

definition initRaftState :: "stored KVTree \<Rightarrow> peerStorage \<Rightarrow> (storage_error, peerStorage) outcome" where
  "initRaftState eng ps =
     (case KV_Get eng (getRaftStateKey (c_ID (ps_cell ps))) of
        Some (SRaft s) \<Rightarrow> Return (ps\<lparr>ps_raftState := s\<rparr>)
      | Some _ \<Rightarrow> Fail ErrOtherStorage
      | None \<Rightarrow>
          Return (ps\<lparr>ps_raftState := \<lparr>rl_HardState = zeroHardState,
            rl_LastIndex = (if length (c_Peers (ps_cell ps)) > 0 then raftInitLogIndex else 0)\<rparr>\<rparr>))"

definition initApplyState :: "stored KVTree \<Rightarrow> peerStorage \<Rightarrow> (storage_error, peerStorage) outcome" where
  "initApplyState eng ps =
     (let v = KV_Get eng (getApplyStateKey (c_ID (ps_cell ps)))
      in if v \<noteq> None \<and> length (c_Peers (ps_cell ps)) > 0 then
           (case v of Some (SApply s) \<Rightarrow> Return (ps\<lparr>ps_applyState := s\<rparr>) | _ \<Rightarrow> Fail ErrOtherStorage)
         else if length (c_Peers (ps_cell ps)) > 0 then Return (ps\<lparr>ps_applyState := initRaftApplyState\<rparr>)
         else Return ps)"

definition initLastTerm :: "stored KVTree \<Rightarrow> peerStorage \<Rightarrow> (storage_error, peerStorage) outcome" where
  "initLastTerm eng ps =
     (let lastIndex = rl_LastIndex (ps_raftState ps)
      in if lastIndex = 0 then Return (ps\<lparr>ps_lastTerm := lastIndex\<rparr>)
         else if lastIndex = raftInitLogIndex then Return (ps\<lparr>ps_lastTerm := raftInitLogTerm\<rparr>)
         else if lastIndex = getTruncatedIndex ps then Return (ps\<lparr>ps_lastTerm := getTruncatedTerm ps\<rparr>)
         else if lastIndex < raftInitLogIndex then Crash Fatalf
         else case KV_Get eng (getRaftLogKey (c_ID (ps_cell ps)) lastIndex) of
                None \<Rightarrow> Fail ErrOtherStorage
              | Some (SEntry s) \<Rightarrow> Return (ps\<lparr>ps_lastTerm := en_Term s\<rparr>)
              | Some _ \<Rightarrow> Fail ErrOtherStorage)"

definition newPeerStorage :: "stored KVTree \<Rightarrow> Cell \<Rightarrow> (storage_error, peerStorage) outcome" where
  "newPeerStorage eng cell =
     (let s = \<lparr>ps_cell = cell, ps_lastTerm = 0, ps_appliedIndexTerm = raftInitLogTerm,
               ps_lastReadyIndex = 0, ps_lastCompactIndex = 0,
               ps_raftState = \<lparr>rl_HardState = zeroHardState, rl_LastIndex = 0\<rparr>,
               ps_applyState = zeroApplyState, ps_snapTriedCnt = 0,
               ps_genSnapJob = None, ps_applySnapJob = None\<rparr>
      in case initRaftState eng s of
           Return s1 \<Rightarrow>
             (case initApplyState eng s1 of
                Return s2 \<Rightarrow>
                  (case initLastTerm eng s2 of
                     Return s3 \<Rightarrow> Return (s3\<lparr>ps_lastReadyIndex := getAppliedIndex s3\<rparr>)
                   | Fail e \<Rightarrow> Fail e | Crash f \<Rightarrow> Crash f)
              | Fail e \<Rightarrow> Fail e | Crash f \<Rightarrow> Crash f)
         | Fail e \<Rightarrow> Fail e | Crash f \<Rightarrow> Crash f)"

definition InitialState :: "peerStorage \<Rightarrow> fault + HardState \<times> u64 list" where
  "InitialState ps =
     (let hardState = rl_HardState (ps_raftState ps)
      in if hs_Commit hardState = 0 \<and> hs_Term hardState = 0 \<and> hs_Vote hardState = 0 then
           (if isInitialized ps then Inl Fatalf else Inr (hardState, []))
         else Inr (hardState, map p_ID (c_Peers (ps_cell ps))))"

definition loadApplyState :: "stored KVTree \<Rightarrow> peerStorage \<Rightarrow> (storage_error, RaftApplyState) outcome" where
  "loadApplyState eng ps =
     (case KV_Get eng (getApplyStateKey (c_ID (ps_cell ps))) of
        Some (SApply s) \<Rightarrow> Return s
      | _ \<Rightarrow> Fail ErrOtherStorage)"

definition loadCellLocalState :: "u64 \<Rightarrow> stored KVTree \<Rightarrow> bool \<Rightarrow> (storage_error, CellLocalState option) outcome" where
  "loadCellLocalState cellID eng allowNotFound =
     (case KV_Get eng (getCellStateKey cellID) of
        None \<Rightarrow> if allowNotFound then Return None else Fail ErrOtherStorage
      | Some (SCell s) \<Rightarrow> Return (Some s)
      | Some _ \<Rightarrow> Fail ErrOtherStorage)"

subsection \<open>Reading the log\<close>

definition unmarshal :: "stored \<Rightarrow> u64 \<Rightarrow> (storage_error, Entry) outcome" where
  "unmarshal v expectIndex =
     (case v of
        SEntry e \<Rightarrow> if en_Index e \<noteq> expectIndex then Crash Fatalf else Return e
      | _ \<Rightarrow> Fail ErrOtherStorage)"

definition loadLogEntry :: "stored KVTree \<Rightarrow> peerStorage \<Rightarrow> u64 \<Rightarrow> (storage_error, Entry) outcome" where
  "loadLogEntry eng ps index =
     (case KV_Get eng (getRaftLogKey (c_ID (ps_cell ps)) index) of
        None \<Rightarrow> Fail ErrOtherStorage
      | Some v \<Rightarrow> unmarshal v index)"

definition checkRange :: "peerStorage \<Rightarrow> u64 \<Rightarrow> u64 \<Rightarrow> storage_error option" where
  "checkRange ps low high =
     (if low > high then Some ErrOtherStorage
      else if low \<le> getTruncatedIndex ps then Some ErrCompacted
      else if high > LastIndex ps + 1 then Some ErrOtherStorage
      else None)"

record entries_acc =
  ea_ents :: "Entry list"
  ea_totalSize :: u64
  ea_nextIndex :: u64
  ea_exceeded :: bool

text \<open>The scan call-back of \<^verbatim>\<open>Entries\<close>, over its captured variables; \<open>sz\<close> is the length of the
  stored value.\<close>

definition entries_handler ::
  "(stored \<Rightarrow> u64) \<Rightarrow> u64 \<Rightarrow> bytes \<Rightarrow> stored option \<Rightarrow> entries_acc \<Rightarrow> (fault + bool) \<times> entries_acc" where
  "entries_handler sz maxSize key value a =
     (case value of
        Some (SEntry e) \<Rightarrow>
          if en_Index e \<noteq> ea_nextIndex a then (Inr False, a)
          else
            (let a1 = a\<lparr>ea_nextIndex := ea_nextIndex a + 1, ea_totalSize := ea_totalSize a + sz (SEntry e)\<rparr>;
                 a2 = a1\<lparr>ea_exceeded := ea_totalSize a1 > maxSize\<rparr>;
                 a3 = (if \<not> ea_exceeded a2 \<or> length (ea_ents a2) = 0
                       then a2\<lparr>ea_ents := ea_ents a2 @ [e]\<rparr> else a2)
             in (Inr (\<not> ea_exceeded a3), a3))
      | _ \<Rightarrow> (Inl Fatalf, a))"

definition Entries ::
  "(stored \<Rightarrow> u64) \<Rightarrow> stored KVTree \<Rightarrow> peerStorage \<Rightarrow> u64 \<Rightarrow> u64 \<Rightarrow> u64 \<Rightarrow> (storage_error, Entry list) outcome" where
  "Entries sz eng ps low high maxSize =
     (case checkRange ps low high of
        Some err \<Rightarrow> Fail err
      | None \<Rightarrow>
          if low = high then Return []
          else if low + 1 = high then
            (case KV_Get eng (getRaftLogKey (c_ID (ps_cell ps)) low) of
               None \<Rightarrow> Fail ErrUnavailable
             | Some v \<Rightarrow>
                 (case unmarshal v low of Return e \<Rightarrow> Return [e] | Fail err \<Rightarrow> Fail err | Crash f \<Rightarrow> Crash f))
          else
            (case KV_Scan eng (getRaftLogKey (c_ID (ps_cell ps)) low) (getRaftLogKey (c_ID (ps_cell ps)) high)
                    (entries_handler sz maxSize)
                    \<lparr>ea_ents = [], ea_totalSize = 0, ea_nextIndex = low, ea_exceeded = False\<rparr> of
               (Some f, a) \<Rightarrow> Crash f
             | (None, a) \<Rightarrow>
                 if length (ea_ents a) = unat (high - low) \<or> ea_exceeded a then Return (ea_ents a)
                 else Fail ErrUnavailable))"

definition Term :: "stored KVTree \<Rightarrow> peerStorage \<Rightarrow> u64 \<Rightarrow> (storage_error, u64) outcome" where
  "Term eng ps idx =
     (if idx = getTruncatedIndex ps then Return (getTruncatedTerm ps)
      else case checkRange ps idx (idx + 1) of
             Some err \<Rightarrow> Fail err
           | None \<Rightarrow>
               if getTruncatedTerm ps = ps_lastTerm ps \<or> idx = LastIndex ps then Return (ps_lastTerm ps)
               else case KV_Get eng (getRaftLogKey (c_ID (ps_cell ps)) idx) of
                      None \<Rightarrow> Fail ErrUnavailable
                    | Some v \<Rightarrow>
                        (case unmarshal v idx of Return e \<Rightarrow> Return (en_Term e) | Fail err \<Rightarrow> Fail err | Crash f \<Rightarrow> Crash f))"

subsection \<open>Writing the log and the states\<close>

record readyContext =
  cx_raftState :: RaftLocalState
  cx_applyState :: RaftApplyState
  cx_lastTerm :: u64
  cx_snap :: "SnapshotMessageHeader option"
  cx_wb :: "stored WriteBatch"

definition doAppendEntries :: "peerStorage \<Rightarrow> readyContext \<Rightarrow> Entry list \<Rightarrow> readyContext" where
  "doAppendEntries ps ctx entries =
     (if length entries = 0 then ctx
      else
        (let prevLastIndex = rl_LastIndex (cx_raftState ctx);
             lastIndex = en_Index (last entries);
             lastTerm = en_Term (last entries);
             wb = fold (\<lambda>e wb. wb_Set wb (getRaftLogKey (c_ID (ps_cell ps)) (en_Index e)) (SEntry e))
                    entries (cx_wb ctx);
             wb = fold (\<lambda>index wb. wb_Delete wb (getRaftLogKey (c_ID (ps_cell ps)) index))
                    (u64_range (lastIndex + 1) (prevLastIndex + 1)) wb
         in ctx\<lparr>cx_wb := wb, cx_raftState := (cx_raftState ctx)\<lparr>rl_LastIndex := lastIndex\<rparr>,
               cx_lastTerm := lastTerm\<rparr>))"

definition doSaveRaftState :: "peerStorage \<Rightarrow> readyContext \<Rightarrow> readyContext" where
  "doSaveRaftState ps ctx =
     ctx\<lparr>cx_wb := wb_Set (cx_wb ctx) (getRaftStateKey (c_ID (ps_cell ps))) (SRaft (cx_raftState ctx))\<rparr>"

definition doSaveApplyState :: "peerStorage \<Rightarrow> readyContext \<Rightarrow> readyContext" where
  "doSaveApplyState ps ctx =
     ctx\<lparr>cx_wb := wb_Set (cx_wb ctx) (getApplyStateKey (c_ID (ps_cell ps))) (SApply (cx_applyState ctx))\<rparr>"

definition updatePeerState :: "Cell \<Rightarrow> PeerState \<Rightarrow> stored WriteBatch \<Rightarrow> stored WriteBatch" where
  "updatePeerState cell st wb = wb_Set wb (getCellStateKey (c_ID cell)) (SCell \<lparr>cl_State = st, cl_Cell = cell\<rparr>)"

definition writeInitialState :: "u64 \<Rightarrow> stored WriteBatch \<Rightarrow> stored WriteBatch" where
  "writeInitialState cellID wb =
     wb_Set (wb_Set wb (getRaftStateKey cellID) (SRaft initRaftLocalState))
       (getApplyStateKey cellID) (SApply initRaftApplyState)"

text \<open>\<^verbatim>\<open>clearMeta\<close> of \<^verbatim>\<open>store.go\<close>: delete the keys found by two scans of the engine.\<close>

definition clearMeta :: "stored KVTree \<Rightarrow> u64 \<Rightarrow> stored WriteBatch \<Rightarrow> stored WriteBatch" where
  "clearMeta eng cellID wb =
     (let h = (\<lambda>key value wb. (Inr True :: unit + bool, wb_Delete wb key));
          wb = snd (KV_Scan eng (getCellMetaPrefix cellID) (getCellMetaPrefix (cellID + 1)) h wb);
          wb = snd (KV_Scan eng (getCellRaftPrefix cellID) (getCellRaftPrefix (cellID + 1)) h wb)
      in wb)"

definition doAppendSnapshot ::
  "stored KVTree \<Rightarrow> peerStorage \<Rightarrow> readyContext \<Rightarrow> Snapshot \<Rightarrow> (storage_error, readyContext) outcome" where
  "doAppendSnapshot eng ps ctx snap =
     (case cx_snap ctx of
        None \<Rightarrow> Crash Panic
      | Some h \<Rightarrow>
          if c_ID (sh_Cell h) \<noteq> c_ID (ps_cell ps) then Fail ErrOtherStorage
          else
            (let wb = (if isInitialized ps then clearMeta eng (c_ID (ps_cell ps)) (cx_wb ctx) else cx_wb ctx);
                 wb = updatePeerState (sh_Cell h) PS_Applying wb;
                 lastIndex = sn_Index snap; lastTerm = sn_Term snap
             in Return (ctx\<lparr>cx_wb := wb,
                  cx_raftState := (cx_raftState ctx)\<lparr>rl_LastIndex := lastIndex\<rparr>,
                  cx_applyState := \<lparr>as_AppliedIndex = lastIndex,
                                    as_TruncatedState = \<lparr>tr_Index = lastIndex, tr_Term = lastTerm\<rparr>\<rparr>,
                  cx_lastTerm := lastTerm\<rparr>)))"

definition compactRaftLog :: "RaftApplyState \<Rightarrow> u64 \<Rightarrow> u64 \<Rightarrow> RaftApplyState option" where
  "compactRaftLog st compactIndex compactTerm =
     (if compactIndex \<le> tr_Index (as_TruncatedState st) then None
      else if compactIndex > as_AppliedIndex st then None
      else Some (st\<lparr>as_TruncatedState := \<lparr>tr_Index = compactIndex, tr_Term = compactTerm\<rparr>\<rparr>))"

definition doRaftLogGC :: "stored KVTree \<Rightarrow> u64 \<Rightarrow> u64 \<Rightarrow> u64 \<Rightarrow> stored KVTree option" where
  "doRaftLogGC eng cellID startIndex endIndex =
     (let firstIndex =
            (if startIndex = 0 then
               (case KV_Seek eng (getRaftLogKey cellID 0) of
                  None \<Rightarrow> Some endIndex
                | Some (key, _) \<Rightarrow> getRaftLogIndex key)
             else Some startIndex)
      in case firstIndex of
           None \<Rightarrow> None
         | Some firstIndex \<Rightarrow>
             if firstIndex \<ge> endIndex then Some eng
             else Some (driver_Write eng
                    (fold (\<lambda>index wb. wb_Delete wb (getRaftLogKey cellID index))
                      (u64_range firstIndex endIndex) [])))"

subsection \<open>Snapshots\<close>

definition validateSnap :: "peerStorage \<Rightarrow> Snapshot \<Rightarrow> bool" where
  "validateSnap ps snap =
     (if sn_Index snap < getTruncatedIndex ps then False
      else case sn_Data snap of
             None \<Rightarrow> False
           | Some h \<Rightarrow> \<not> e_ConfVer (c_Epoch (sh_Cell h)) < e_ConfVer (c_Epoch (ps_cell ps)))"

definition resetGenSnapJob :: "peerStorage \<Rightarrow> peerStorage" where
  "resetGenSnapJob ps = ps\<lparr>ps_genSnapJob := None, ps_snapTriedCnt := 0\<rparr>"

definition ps_Snapshot :: "peerStorage \<Rightarrow> (storage_error, Snapshot) outcome \<times> peerStorage" where
  "ps_Snapshot ps =
     (if isGeneratingSnap ps then (Fail ErrSnapshotTemporarilyUnavailable, ps)
      else
        (let result = (case ps_genSnapJob ps of None \<Rightarrow> None | Some j \<Rightarrow> GetResult j);
             ps1 = (if isGenSnapJobComplete ps \<and> result = None
                    then ps\<lparr>ps_snapTriedCnt := ps_snapTriedCnt ps + 1\<rparr> else ps)
         in case result of
              Some snap \<Rightarrow>
                if isGenSnapJobComplete ps \<and> validateSnap ps snap then (Return snap, resetGenSnapJob ps)
                else if ps_snapTriedCnt ps1 \<ge> maxSnapTryCnt then (Fail ErrOtherStorage, resetGenSnapJob ps1)
                else (Fail ErrSnapshotTemporarilyUnavailable,
                      ps1\<lparr>ps_snapTriedCnt := ps_snapTriedCnt ps1 + 1, ps_genSnapJob := Some (newJob\<lparr>jb_needRelease := False\<rparr>)\<rparr>)
            | None \<Rightarrow>
                if ps_snapTriedCnt ps1 \<ge> maxSnapTryCnt then (Fail ErrOtherStorage, resetGenSnapJob ps1)
                else (Fail ErrSnapshotTemporarilyUnavailable,
                      ps1\<lparr>ps_snapTriedCnt := ps_snapTriedCnt ps1 + 1, ps_genSnapJob := Some (newJob\<lparr>jb_needRelease := False\<rparr>)\<rparr>)))"

text \<open>\<^verbatim>\<open>doGenerateSnapshotJob\<close>; \<open>created\<close> says whether the snapshot manager registered the
  snapshot and wrote its file, or had already registered it.\<close>

definition doGenerateSnapshotJob :: "stored KVTree \<Rightarrow> bool \<Rightarrow> peerStorage \<Rightarrow> fault + peerStorage" where
  "doGenerateSnapshotJob eng created ps =
     (case ps_genSnapJob ps of
        None \<Rightarrow> Inl Fatalf
      | Some job \<Rightarrow>
          (case loadApplyState eng ps of
             Return applyState \<Rightarrow>
               (let t = (if as_AppliedIndex applyState = tr_Index (as_TruncatedState applyState)
                         then Return (tr_Term (as_TruncatedState applyState))
                         else case loadLogEntry eng ps (as_AppliedIndex applyState) of
                                Return e \<Rightarrow> Return (en_Term e) | Fail x \<Rightarrow> Fail x | Crash f \<Rightarrow> Crash f)
                in case t of
                     Return t \<Rightarrow>
                       (case loadCellLocalState (c_ID (ps_cell ps)) eng False of
                          Return (Some st) \<Rightarrow>
                            if cl_State st \<noteq> PS_Normal \<or> \<not> created then Inr ps
                            else Inr (ps\<lparr>ps_genSnapJob := Some (SetResult
                                   \<lparr>sn_Index = as_AppliedIndex applyState, sn_Term = t,
                                    sn_Data = Some \<lparr>sh_Cell = cl_Cell st,
                                       sh_FromPeer = \<lparr>p_ID = 0, p_StoreID = 0\<rparr>, sh_ToPeer = \<lparr>p_ID = 0, p_StoreID = 0\<rparr>,
                                       sh_Term = t, sh_Index = as_AppliedIndex applyState\<rparr>\<rparr> job)\<rparr>)
                        | _ \<Rightarrow> Inr ps)
                   | Fail _ \<Rightarrow> Inr ps
                   | Crash f \<Rightarrow> Inl f)
           | _ \<Rightarrow> Inl Fatalf))"

text \<open>The data ranges \<^verbatim>\<open>clearExtraData\<close> hands to destroy jobs.\<close>

definition clearExtraData :: "peerStorage \<Rightarrow> Cell \<Rightarrow> fault + (bytes \<times> bytes) list" where
  "clearExtraData ps newCell =
     (case (encStartKey (ps_cell ps), encEndKey (ps_cell ps), encStartKey newCell, encEndKey newCell) of
        (Inr oldStartKey, Inr oldEndKey, Inr newStartKey, Inr newEndKey) \<Rightarrow>
          Inr ((if bytesCompare oldStartKey newStartKey < 0 then [(oldStartKey, newStartKey)] else []) @
               (if bytesCompare newEndKey oldEndKey < 0 then [(newEndKey, oldEndKey)] else []))
      | _ \<Rightarrow> Inl Fatalf)"

definition cancelApplyingSnapJob :: "peerStorage \<Rightarrow> bool \<times> peerStorage" where
  "cancelApplyingSnapJob ps =
     (case ps_applySnapJob ps of
        None \<Rightarrow> (True, ps)
      | Some j \<Rightarrow>
          (let ps' = ps\<lparr>ps_applySnapJob := Some (Cancel j)\<rparr>
           in if IsCancelled (Cancel j) then (True, ps') else (\<not> isApplyingSnap ps', ps')))"

record applySnapResult =
  sr_prevCell :: Cell
  sr_cell :: Cell

text \<open>\<^verbatim>\<open>doApplySnap\<close>: the new storage, the data ranges to destroy, the peers whose snapshots are no
  longer sent, and the result for the key ranges of the store; starting the apply job sets the
  job of the storage.\<close>

definition doApplySnap ::
  "peerStorage \<Rightarrow> readyContext \<Rightarrow> fault + peerStorage \<times> (bytes \<times> bytes) list \<times> u64 list \<times> applySnapResult option" where
  "doApplySnap ps ctx =
     (let ps1 = ps\<lparr>ps_raftState := cx_raftState ctx, ps_applyState := cx_applyState ctx,
                   ps_lastTerm := cx_lastTerm ctx\<rparr>
      in case cx_snap ctx of
           None \<Rightarrow> Inr (ps1, [], [], None)
         | Some h \<Rightarrow>
             (case (if isInitialized ps1 then clearExtraData ps1 (ps_cell ps1) else Inr []) of
                Inl f \<Rightarrow> Inl f
              | Inr ranges \<Rightarrow>
                  (let ps2 = ps1\<lparr>ps_applySnapJob := Some (newJob\<lparr>jb_needRelease := False\<rparr>)\<rparr>;
                       rms = removedPeers (sh_Cell h) (ps_cell ps2);
                       prevCell = ps_cell ps2;
                       ps3 = ps2\<lparr>ps_cell := sh_Cell h\<rparr>
                   in Inr (ps3, ranges, rms, Some \<lparr>sr_prevCell = prevCell, sr_cell = ps_cell ps3\<rparr>))))"

subsection \<open>The log as an invariant\<close>

text \<open>\<open>log_ok\<close>: every index after the truncated one and up to the last one holds its entry, and
  nothing is stored after the last index.\<close>

definition log_ok :: "stored KVTree \<Rightarrow> u64 \<Rightarrow> u64 \<Rightarrow> u64 \<Rightarrow> bool" where
  "log_ok eng cid trunc lst \<longleftrightarrow> kv_wf eng \<and> trunc \<le> lst \<and> lst + 1 \<noteq> 0 \<and>
     (\<forall>i. trunc < i \<and> i \<le> lst \<longrightarrow>
        (\<exists>e. kv_map eng (getRaftLogKey cid i) = Some (SEntry e) \<and> en_Index e = i)) \<and>
     (\<forall>i. lst < i \<longrightarrow> kv_map eng (getRaftLogKey cid i) = None)"

lemma log_ok_empty: "log_ok [] cid t t \<longleftrightarrow> t + 1 \<noteq> 0"
  by (auto simp: log_ok_def)

text \<open>A block of entries with consecutive indices, as raft hands it to the storage.\<close>

fun consec :: "u64 \<Rightarrow> Entry list \<Rightarrow> bool" where
  "consec f [] = True"
| "consec f (e # es) = (en_Index e = f \<and> f + 1 \<noteq> 0 \<and> consec (f + 1) es)"

lemma consec_indices:
  "consec f es \<Longrightarrow> es \<noteq> [] \<Longrightarrow>
     f \<le> en_Index (last es) \<and> en_Index (last es) + 1 \<noteq> 0 \<and>
     (\<forall>i. (\<exists>e \<in> set es. en_Index e = i) \<longleftrightarrow> f \<le> i \<and> i \<le> en_Index (last es))"
proof (induction es arbitrary: f)
  case (Cons e es)
  show ?case
  proof (cases "es = []")
    case False
    from Cons.prems have f: "f + 1 \<noteq> 0" "en_Index e = f" "consec (f + 1) es" by simp_all
    have IH: "f + 1 \<le> en_Index (last es)" "en_Index (last es) + 1 \<noteq> 0"
      "\<And>i. (\<exists>e \<in> set es. en_Index e = i) \<longleftrightarrow> f + 1 \<le> i \<and> i \<le> en_Index (last es)"
      using Cons.IH [OF f(3) False] by blast+
    have le: "f + 1 \<le> i \<longleftrightarrow> f < i" for i
      using unat_plus1 [OF f(1)] by (auto simp: word_le_nat_alt word_less_nat_alt)
    then have "f < en_Index (last es)" using IH(1) by blast
    moreover have "(\<exists>e' \<in> set (e # es). en_Index e' = i) \<longleftrightarrow> f \<le> i \<and> i \<le> en_Index (last es)" for i
      using IH(3) [of i] f(2) le [of i] \<open>f < en_Index (last es)\<close>
      by (auto simp: order.order_iff_strict [of f i])
    ultimately show ?thesis using IH(2) False by auto
  qed (use Cons.prems in auto)
qed simp

lemmas consec_first_le = consec_indices [THEN conjunct1]
lemmas consec_last_nz = consec_indices [THEN conjunct2, THEN conjunct1]
lemmas consec_mem = consec_indices [THEN conjunct2, THEN conjunct2, rule_format]

lemma fold_wb_Set: "fold (\<lambda>e wb. wb_Set wb (f e) (g e)) es wb = wb @ map (\<lambda>e. OptSet (f e) (g e)) es"
  by (induction es arbitrary: wb) (auto simp: wb_Set_def)

lemma fold_wb_Delete: "fold (\<lambda>i wb. wb_Delete wb (f i)) is wb = wb @ map (\<lambda>i. OptDelete (f i)) is"
  by (induction "is" arbitrary: wb) (auto simp: wb_Delete_def)

lemma find_map: "find P (map f xs) = map_option f (find (\<lambda>x. P (f x)) xs)"
  by (induction xs) auto

lemma find_rev_mem: "find P (rev xs) = None \<longleftrightarrow> (\<forall>x \<in> set xs. \<not> P x)"
  by (auto simp: find_None_iff)

lemma find_rev_Some: "find P (rev xs) = Some x \<Longrightarrow> x \<in> set xs \<and> P x"
  by (metis find_Some_iff nth_mem set_rev)

lemma Write_deletes: "kv_wf kv \<Longrightarrow> kv_map (driver_Write kv (map (\<lambda>i. OptDelete (f i)) is)) k =
    (if k \<in> f ` set is then None else kv_map kv k)"
  by (auto simp: driver_Write_map rev_map find_map split: option.splits
      dest: find_rev_Some) (auto simp: find_rev_mem)

lemma Write_sets: "kv_wf kv \<Longrightarrow> kv_map (driver_Write kv (map (\<lambda>e. OptSet (f e) (g e)) es)) k =
    (case find (\<lambda>e. f e = k) (rev es) of None \<Rightarrow> kv_map kv k | Some e \<Rightarrow> Some (g e))"
  by (simp add: driver_Write_map rev_map find_map split: option.splits)

lemma doAppendEntries_map:
  assumes "kv_wf eng" "es \<noteq> []"
  shows "kv_map (driver_Write eng (cx_wb (doAppendEntries ps ctx es))) k =
    (if k \<in> getRaftLogKey (c_ID (ps_cell ps)) `
          {i. en_Index (last es) + 1 \<le> i \<and> i < rl_LastIndex (cx_raftState ctx) + 1} then None
     else case find (\<lambda>e. getRaftLogKey (c_ID (ps_cell ps)) (en_Index e) = k) (rev es) of
            None \<Rightarrow> kv_map (driver_Write eng (cx_wb ctx)) k | Some e \<Rightarrow> Some (SEntry e))"
  using assms
  by (simp add: doAppendEntries_def Let_def fold_wb_Set fold_wb_Delete driver_Write_append
      Write_deletes Write_sets driver_Write_wf)

lemma consec_unique: "consec f es \<Longrightarrow> a \<in> set es \<Longrightarrow> b \<in> set es \<Longrightarrow> en_Index a = en_Index b \<Longrightarrow> a = b"
proof (induction es arbitrary: f)
  case (Cons e es)
  have "en_Index x \<noteq> f" if "x \<in> set es" for x
  proof -
    have "es \<noteq> []" using that by auto
    then have "f + 1 \<le> en_Index x"
      using consec_indices [of "f + 1" es] Cons.prems(1) that by auto
    then show ?thesis
      using Cons.prems(1) unat_plus1 [of f] by (auto simp: word_le_nat_alt)
  qed
  then show ?case
    using Cons.prems Cons.IH [of "f + 1"] by (metis consec.simps(2) set_ConsD)
qed simp

lemma find_unique:
  assumes "x \<in> set xs" "P x" "\<forall>y \<in> set xs. P y \<longrightarrow> y = x"
  shows "find P xs = Some x"
proof (cases "find P xs")
  case None
  then show ?thesis using assms(1,2) unfolding find_None_iff by blast
next
  case (Some y)
  then have "y \<in> set xs" "P y" unfolding find_Some_iff using nth_mem by blast+
  then have "y = x" using assms(3) by blast
  then show ?thesis using Some by simp
qed

lemma find_consec:
  assumes "consec f es" "e \<in> set es"
  shows "find (\<lambda>x. getRaftLogKey cid (en_Index x) = getRaftLogKey cid (en_Index e)) (rev es) = Some e"
proof (rule find_unique)
  show "\<forall>y \<in> set (rev es). getRaftLogKey cid (en_Index y) = getRaftLogKey cid (en_Index e) \<longrightarrow> y = e"
    using consec_unique [OF assms(1) _ assms(2)] by (metis getRaftLogKey_inject set_rev)
qed (use assms(2) in simp_all)

lemma append_entries_effect:
  assumes "kv_wf eng" "es \<noteq> []" "consec f es"
    and "rl_LastIndex (cx_raftState ctx) + 1 \<noteq> 0"
  shows "kv_map (driver_Write eng (cx_wb (doAppendEntries ps ctx es))) (getRaftLogKey (c_ID (ps_cell ps)) i) =
    (if f \<le> i \<and> i \<le> en_Index (last es) then map_option SEntry (find (\<lambda>e. en_Index e = i) es)
     else if en_Index (last es) < i \<and> i \<le> rl_LastIndex (cx_raftState ctx) then None
     else kv_map (driver_Write eng (cx_wb ctx)) (getRaftLogKey (c_ID (ps_cell ps)) i))"
proof -
  let ?l = "en_Index (last es)" and ?p = "rl_LastIndex (cx_raftState ctx)"
  note idx = consec_mem [OF assms(3,2)]
  have "?l + 1 \<le> i \<longleftrightarrow> ?l < i"
    using unat_plus1 [OF consec_last_nz [OF assms(3,2)]] by (auto simp: word_le_nat_alt word_less_nat_alt)
  then have cond: "?l + 1 \<le> i \<and> i < ?p + 1 \<longleftrightarrow> ?l < i \<and> i \<le> ?p"
    using less_plus1_iff [OF assms(4), of i] by simp
  have key: "getRaftLogKey c i \<in> getRaftLogKey c ` S \<longleftrightarrow> i \<in> S" for c S by auto
  show ?thesis
  proof (cases "f \<le> i \<and> i \<le> ?l")
    case True
    then obtain e where e: "e \<in> set es" "en_Index e = i" using idx by blast
    then have "find (\<lambda>e. en_Index e = i) es = Some e"
      using consec_unique [OF assms(3) _ e(1)] by (intro find_unique ballI impI) blast+
    moreover have "\<not> (?l < i \<and> i \<le> ?p)" using True by auto
    ultimately show ?thesis
      using True e(2) find_consec [OF assms(3) e(1), of "c_ID (ps_cell ps)"]
      by (simp only: doAppendEntries_map [OF assms(1,2)] key mem_Collect_eq cond option.case
        option.map if_False if_True simp_thms)
  next
    case False
    then have "find (\<lambda>e. getRaftLogKey (c_ID (ps_cell ps)) (en_Index e) = getRaftLogKey (c_ID (ps_cell ps)) i) (rev es) = None"
      using idx by (auto simp: find_None_iff)
    then have "kv_map (driver_Write eng (cx_wb (doAppendEntries ps ctx es))) (getRaftLogKey (c_ID (ps_cell ps)) i) =
        (if ?l < i \<and> i \<le> ?p then None
         else kv_map (driver_Write eng (cx_wb ctx)) (getRaftLogKey (c_ID (ps_cell ps)) i))"
      by (simp only: doAppendEntries_map [OF assms(1,2)] key mem_Collect_eq cond option.case)
    then show ?thesis by (simp only: False if_False)
  qed
qed

lemma scan_delete:
  "scan_items (\<lambda>key value wb. (Inr True, wb_Delete wb key)) xs wb = (None, wb @ map (\<lambda>i. OptDelete (ti_key i)) xs)"
  by (induction xs arbitrary: wb) (auto simp: wb_Delete_def)

lemma clearMeta_batch:
  "kv_wf eng \<Longrightarrow> clearMeta eng cid wb = wb @
     map (\<lambda>i. OptDelete (ti_key i)) (filter (\<lambda>i. getCellMetaPrefix cid \<le> ti_key i \<and> ti_key i \<le> getCellMetaPrefix (cid + 1)) eng) @
     map (\<lambda>i. OptDelete (ti_key i)) (filter (\<lambda>i. getCellRaftPrefix cid \<le> ti_key i \<and> ti_key i \<le> getCellRaftPrefix (cid + 1)) eng)"
  by (simp add: clearMeta_def KV_Scan_filter scan_delete)

lemma clearMeta_map:
  assumes "kv_wf eng"
  shows "kv_map (driver_Write eng (clearMeta eng cid wb)) k =
    (if (getCellMetaPrefix cid \<le> k \<and> k \<le> getCellMetaPrefix (cid + 1) \<or>
         getCellRaftPrefix cid \<le> k \<and> k \<le> getCellRaftPrefix (cid + 1)) \<and> k \<in> dom (kv_map eng) then None
     else kv_map (driver_Write eng wb) k)"
proof -
  have "k \<in> ti_key ` set eng \<longleftrightarrow> k \<in> dom (kv_map eng)"
    using kv_map_None [OF assms, of k] by (auto simp: domIff)
  then show ?thesis
    unfolding clearMeta_batch [OF assms] driver_Write_append
    by (auto simp: Write_deletes wf_intros assms)
qed

text \<open>The raft keys of a cell lie inside the range that \<^verbatim>\<open>clearMeta\<close> scans.\<close>

lemma raft_key_range:
  assumes "cid + 1 \<noteq> 0"
  shows "getCellRaftPrefix cid \<le> getRaftLogKey d i \<and> getRaftLogKey d i \<le> getCellRaftPrefix (cid + 1) \<longleftrightarrow> d = cid"
proof -
  have "cid \<le> d \<and> d < cid + 1 \<longleftrightarrow> d = cid" using less_plus1_iff [OF assms, of d] by auto
  then show ?thesis by (auto simp: key_defs key_consts key_order order.order_iff_strict [of "Uint64ToBytes d @ _"]
      dest: arg_cong [where f = length])
qed

text \<open>The records of a cell's states lie in the ranges of that cell alone.\<close>

lemma state_key_ranges:
  assumes "cid + 1 \<noteq> 0"
  shows "getCellMetaPrefix cid \<le> getCellStateKey d \<and> getCellStateKey d \<le> getCellMetaPrefix (cid + 1) \<longleftrightarrow> d = cid"
    "getCellRaftPrefix cid \<le> getRaftStateKey d \<and> getRaftStateKey d \<le> getCellRaftPrefix (cid + 1) \<longleftrightarrow> d = cid"
    "getCellRaftPrefix cid \<le> getApplyStateKey d \<and> getApplyStateKey d \<le> getCellRaftPrefix (cid + 1) \<longleftrightarrow> d = cid"
    "\<not> (getCellRaftPrefix cid \<le> getCellStateKey d \<and> getCellStateKey d \<le> getCellRaftPrefix (cid + 1))"
    "\<not> getCellMetaPrefix cid \<le> getRaftStateKey d" "\<not> getCellMetaPrefix cid \<le> getApplyStateKey d"
    "\<not> getCellMetaPrefix cid \<le> getRaftLogKey d i"
proof -
  have d: "cid \<le> d \<and> d < cid + 1 \<longleftrightarrow> d = cid" using less_plus1_iff [OF assms, of d] by auto
  show "getCellMetaPrefix cid \<le> getCellStateKey d \<and> getCellStateKey d \<le> getCellMetaPrefix (cid + 1) \<longleftrightarrow> d = cid"
    "getCellRaftPrefix cid \<le> getRaftStateKey d \<and> getRaftStateKey d \<le> getCellRaftPrefix (cid + 1) \<longleftrightarrow> d = cid"
    "getCellRaftPrefix cid \<le> getApplyStateKey d \<and> getApplyStateKey d \<le> getCellRaftPrefix (cid + 1) \<longleftrightarrow> d = cid"
    using d by (auto simp: key_defs key_consts key_order order.order_iff_strict [of "Uint64ToBytes d @ _"]
        dest: arg_cong [where f = length])
  show "\<not> (getCellRaftPrefix cid \<le> getCellStateKey d \<and> getCellStateKey d \<le> getCellRaftPrefix (cid + 1))"
    "\<not> getCellMetaPrefix cid \<le> getRaftStateKey d" "\<not> getCellMetaPrefix cid \<le> getApplyStateKey d"
    "\<not> getCellMetaPrefix cid \<le> getRaftLogKey d i"
    by (simp_all add: key_defs key_consts)
qed

lemma append_entries_keep:
  assumes "kv_wf eng" and "es \<noteq> []" and "consec f es"
    and "log_ok (driver_Write eng (cx_wb ctx)) (c_ID (ps_cell ps)) trunc (rl_LastIndex (cx_raftState ctx))"
    and "trunc < f" and "f \<le> rl_LastIndex (cx_raftState ctx) + 1"
  shows "log_ok (driver_Write eng (cx_wb (doAppendEntries ps ctx es))) (c_ID (ps_cell ps)) trunc
      (en_Index (last es)) \<and>
    rl_LastIndex (cx_raftState (doAppendEntries ps ctx es)) = en_Index (last es) \<and>
    rl_HardState (cx_raftState (doAppendEntries ps ctx es)) = rl_HardState (cx_raftState ctx) \<and>
    cx_lastTerm (doAppendEntries ps ctx es) = en_Term (last es) \<and>
    (\<forall>e \<in> set es. kv_map (driver_Write eng (cx_wb (doAppendEntries ps ctx es)))
       (getRaftLogKey (c_ID (ps_cell ps)) (en_Index e)) = Some (SEntry e)) \<and>
    (\<forall>i. i < f \<longrightarrow> kv_map (driver_Write eng (cx_wb (doAppendEntries ps ctx es))) (getRaftLogKey (c_ID (ps_cell ps)) i) =
       kv_map (driver_Write eng (cx_wb ctx)) (getRaftLogKey (c_ID (ps_cell ps)) i))"
proof -
  let ?l = "en_Index (last es)" and ?p = "rl_LastIndex (cx_raftState ctx)" and ?c = "c_ID (ps_cell ps)"
  note idx = consec_mem [OF assms(3,2)]
  have p1: "?p + 1 \<noteq> 0" using assms(4) by (simp add: log_ok_def)
  note eff = append_entries_effect [OF assms(1-3) p1, of ps]
  have fp: "i \<le> ?p" if "i < f" for i
    using that assms(6) less_plus1_iff [OF p1, of i] by (meson less_le_trans)
  have last: "rl_LastIndex (cx_raftState (doAppendEntries ps ctx es)) = ?l"
    "rl_HardState (cx_raftState (doAppendEntries ps ctx es)) = rl_HardState (cx_raftState ctx)"
    "cx_lastTerm (doAppendEntries ps ctx es) = en_Term (last es)"
    using assms(2) by (simp_all add: doAppendEntries_def Let_def)
  have block: "kv_map (driver_Write eng (cx_wb (doAppendEntries ps ctx es))) (getRaftLogKey ?c (en_Index e)) = Some (SEntry e)"
    if e: "e \<in> set es" for e
  proof -
    have "find (\<lambda>x. en_Index x = en_Index e) es = Some e"
      using consec_unique [OF assms(3) _ e] e by (intro find_unique ballI impI) blast+
    moreover have "f \<le> en_Index e \<and> en_Index e \<le> ?l" using idx [of "en_Index e"] e by blast
    ultimately show ?thesis using eff [of "en_Index e"] by simp
  qed
  have found: "\<exists>e. map_option SEntry (find (\<lambda>e. en_Index e = i) es) = Some (SEntry e) \<and> en_Index e = i"
    if r: "f \<le> i" "i \<le> ?l" for i
  proof -
    obtain e where e: "e \<in> set es" "en_Index e = i" using idx [of i] r by blast
    then have "find (\<lambda>e. en_Index e = i) es = Some e"
      using consec_unique [OF assms(3) _ e(1)] by (intro find_unique ballI impI) blast+
    then show ?thesis using e by simp
  qed
  have old: "\<And>i. trunc < i \<Longrightarrow> i \<le> ?p \<Longrightarrow>
        \<exists>e. kv_map (driver_Write eng (cx_wb ctx)) (getRaftLogKey ?c i) = Some (SEntry e) \<and> en_Index e = i"
      "\<And>i. \<not> i \<le> ?p \<Longrightarrow> kv_map (driver_Write eng (cx_wb ctx)) (getRaftLogKey ?c i) = None"
    using assms(4) by (auto simp: log_ok_def not_le)
  have low: "kv_map (driver_Write eng (cx_wb (doAppendEntries ps ctx es))) (getRaftLogKey ?c i) =
      kv_map (driver_Write eng (cx_wb ctx)) (getRaftLogKey ?c i)" if "i < f" for i
  proof -
    have "i < ?l" using that consec_first_le [OF assms(3,2)] by (rule less_le_trans)
    then have "\<not> ?l < i" "\<not> f \<le> i" using that by auto
    then show ?thesis using eff [of i] by simp
  qed
  have "\<exists>e. kv_map (driver_Write eng (cx_wb (doAppendEntries ps ctx es))) (getRaftLogKey ?c i) = Some (SEntry e) \<and> en_Index e = i"
    if "trunc < i" "i \<le> ?l" for i
  proof (cases "f \<le> i")
    case True
    then show ?thesis using found [OF True that(2)] that(2) eff [of i] by simp
  next
    case False
    then have "i < f" by simp
    then show ?thesis using low [of i] old(1) [OF that(1) fp] by simp
  qed
  moreover have "kv_map (driver_Write eng (cx_wb (doAppendEntries ps ctx es))) (getRaftLogKey ?c i) = None"
    if "?l < i" for i
  proof -
    have "\<not> i \<le> ?l" using that by simp
    then show ?thesis using that eff [of i] old(2) [of i] by (cases "i \<le> ?p") simp_all
  qed
  moreover have "trunc \<le> ?l" using assms(5) consec_first_le [OF assms(3,2)] by simp
  moreover have "kv_wf (driver_Write eng (cx_wb (doAppendEntries ps ctx es)))"
    by (rule driver_Write_wf [OF assms(1)])
  ultimately show ?thesis
    using consec_last_nz [OF assms(3,2)] last low block unfolding log_ok_def by simp
qed

definition demo_entry :: "u64 \<Rightarrow> u64 \<Rightarrow> Entry" where
  "demo_entry i t = \<lparr>en_Term = t, en_Index = i, en_Type = EntryNormal, en_Data = NoData\<rparr>"

lemma demo_entry_simps [simp]: "en_Index (demo_entry i t) = i" "en_Term (demo_entry i t) = t"
  by (simp_all add: demo_entry_def)

definition demo_ctx :: readyContext where
  "demo_ctx = \<lparr>cx_raftState = initRaftLocalState, cx_applyState = initRaftApplyState, cx_lastTerm = 5,
     cx_snap = None, cx_wb = []\<rparr>"

definition demo_ps :: peerStorage where
  "demo_ps = \<lparr>ps_cell = emptyCell\<lparr>c_ID := 1, c_Peers := [\<lparr>p_ID = 2, p_StoreID = 3\<rparr>]\<rparr>, ps_lastTerm = 5,
     ps_appliedIndexTerm = 5, ps_lastReadyIndex = 5, ps_lastCompactIndex = 0,
     ps_raftState = initRaftLocalState, ps_applyState = initRaftApplyState, ps_snapTriedCnt = 0,
     ps_genSnapJob = None, ps_applySnapJob = None\<rparr>"

lemma demo_ps_simps [simp]: "c_ID (ps_cell demo_ps) = 1" "cx_wb demo_ctx = []" "isInitialized demo_ps"
  "rl_LastIndex (cx_raftState demo_ctx) = 5" "getTruncatedIndex demo_ps = 5" "LastIndex demo_ps = 5"
  by (simp_all add: demo_ps_def demo_ctx_def initRaftLocalState_def initRaftApplyState_def raftInitLogIndex_def
      isInitialized_def getTruncatedIndex_def LastIndex_def)

subsection \<open>Properties\<close>

text \<open>C10: appending a block of entries that follows on or overwrites the tail of the log keeps
  the log invariant: after the batch is written every index up to the new last index holds an
  entry of that index, every entry of the block is stored as it was given, the conflicting tail
  beyond it is gone and the entries before the block are untouched.  The hard state stays.\<close>

theorem append_entries_log:
  assumes "kv_wf eng" and "es \<noteq> []" and "consec f es"
    and "log_ok (driver_Write eng (cx_wb ctx)) (c_ID (ps_cell ps)) trunc (rl_LastIndex (cx_raftState ctx))"
    and "trunc < f" and "f \<le> rl_LastIndex (cx_raftState ctx) + 1"
  shows "log_ok (driver_Write eng (cx_wb (doAppendEntries ps ctx es))) (c_ID (ps_cell ps)) trunc
      (en_Index (last es)) \<and>
    rl_LastIndex (cx_raftState (doAppendEntries ps ctx es)) = en_Index (last es) \<and>
    rl_HardState (cx_raftState (doAppendEntries ps ctx es)) = rl_HardState (cx_raftState ctx) \<and>
    cx_lastTerm (doAppendEntries ps ctx es) = en_Term (last es) \<and>
    (\<forall>e \<in> set es. kv_map (driver_Write eng (cx_wb (doAppendEntries ps ctx es)))
       (getRaftLogKey (c_ID (ps_cell ps)) (en_Index e)) = Some (SEntry e)) \<and>
    (\<forall>i. i < f \<longrightarrow> kv_map (driver_Write eng (cx_wb (doAppendEntries ps ctx es))) (getRaftLogKey (c_ID (ps_cell ps)) i) =
       kv_map (driver_Write eng (cx_wb ctx)) (getRaftLogKey (c_ID (ps_cell ps)) i))"
  using assms by (rule append_entries_keep)

theorem append_entries_log_witness:
  "log_ok (driver_Write [] (cx_wb (doAppendEntries demo_ps demo_ctx [demo_entry 6 5, demo_entry 7 6]))) 1 5 7 \<and>
   kv_map (driver_Write [] (cx_wb (doAppendEntries demo_ps demo_ctx [demo_entry 6 5, demo_entry 7 6]))) (getRaftLogKey 1 7) =
     Some (SEntry (demo_entry 7 6))"
  using append_entries_log [of "[]" "[demo_entry 6 5, demo_entry 7 6]" 6 demo_ctx demo_ps 5]
  by (simp add: log_ok_empty)

text \<open>C32: appending a snapshot to an initialised peer moves it to the snapshot: the last index, the
  applied index and the point of truncation are the snapshot's, with its term, and the hard state
  stays.  In the same batch no log entry and no old state record of the cell survives, the cell is
  recorded as applying the snapshot, and the log entries and states of every other cell stay.\<close>

theorem append_snapshot_resets:
  assumes "kv_wf eng" and "cx_wb ctx = []" and "isInitialized ps" and "cx_snap ctx = Some h"
    and "c_ID (sh_Cell h) = c_ID (ps_cell ps)" and "c_ID (ps_cell ps) + 1 \<noteq> 0" and "sn_Index snap + 1 \<noteq> 0"
  shows "\<exists>ctx'. doAppendSnapshot eng ps ctx snap = Return ctx' \<and>
    log_ok (driver_Write eng (cx_wb ctx')) (c_ID (ps_cell ps)) (sn_Index snap) (sn_Index snap) \<and>
    cx_raftState ctx' = (cx_raftState ctx)\<lparr>rl_LastIndex := sn_Index snap\<rparr> \<and> cx_lastTerm ctx' = sn_Term snap \<and>
    cx_applyState ctx' = \<lparr>as_AppliedIndex = sn_Index snap,
      as_TruncatedState = \<lparr>tr_Index = sn_Index snap, tr_Term = sn_Term snap\<rparr>\<rparr> \<and>
    kv_map (driver_Write eng (cx_wb ctx')) (getCellStateKey (c_ID (ps_cell ps))) =
      Some (SCell \<lparr>cl_State = PS_Applying, cl_Cell = sh_Cell h\<rparr>) \<and>
    (\<forall>i. kv_map (driver_Write eng (cx_wb ctx')) (getRaftLogKey (c_ID (ps_cell ps)) i) = None) \<and>
    kv_map (driver_Write eng (cx_wb ctx')) (getRaftStateKey (c_ID (ps_cell ps))) = None \<and>
    kv_map (driver_Write eng (cx_wb ctx')) (getApplyStateKey (c_ID (ps_cell ps))) = None \<and>
    (\<forall>d i. d \<noteq> c_ID (ps_cell ps) \<longrightarrow>
       (\<forall>k \<in> {getRaftLogKey d i, getRaftStateKey d, getApplyStateKey d, getCellStateKey d}.
          kv_map (driver_Write eng (cx_wb ctx')) k = kv_map eng k))"
proof -
  let ?c = "c_ID (ps_cell ps)"
  let ?wb = "updatePeerState (sh_Cell h) PS_Applying (clearMeta eng ?c [])"
  have m: "kv_map (driver_Write eng ?wb) = (kv_map (driver_Write eng (clearMeta eng ?c [])))
      (getCellStateKey ?c \<mapsto> SCell \<lparr>cl_State = PS_Applying, cl_Cell = sh_Cell h\<rparr>)"
    using assms(5) by (simp add: updatePeerState_def driver_Write_Set assms(1))
  have ne: "getRaftLogKey d i \<noteq> getCellStateKey c" "getRaftStateKey d \<noteq> getCellStateKey c"
    "getApplyStateKey d \<noteq> getCellStateKey c" for d i c by (simp_all add: key_defs key_consts)
  have inj: "getCellStateKey d = getCellStateKey ?c \<longleftrightarrow> d = ?c" for d
    using state_key_ranges(1) [OF assms(6)] by metis
  note r = state_key_ranges [OF assms(6)] raft_key_range [OF assms(6)]
  have log: "kv_map (driver_Write eng ?wb) (getRaftLogKey d i) = (if d = ?c then None else kv_map eng (getRaftLogKey d i))"
    and rs: "kv_map (driver_Write eng ?wb) (getRaftStateKey d) = (if d = ?c then None else kv_map eng (getRaftStateKey d))"
    and as: "kv_map (driver_Write eng ?wb) (getApplyStateKey d) = (if d = ?c then None else kv_map eng (getApplyStateKey d))"
    for d i
    using ne r by (auto simp: m clearMeta_map assms(1) domIff)
  have cs: "kv_map (driver_Write eng ?wb) (getCellStateKey d) = kv_map eng (getCellStateKey d)" if "d \<noteq> ?c" for d
    using inj [of d] r(1,4) [of d] that by (auto simp: m clearMeta_map assms(1) domIff)
  have "doAppendSnapshot eng ps ctx snap = Return (ctx\<lparr>cx_wb := ?wb,
      cx_raftState := (cx_raftState ctx)\<lparr>rl_LastIndex := sn_Index snap\<rparr>,
      cx_applyState := \<lparr>as_AppliedIndex = sn_Index snap,
        as_TruncatedState = \<lparr>tr_Index = sn_Index snap, tr_Term = sn_Term snap\<rparr>\<rparr>, cx_lastTerm := sn_Term snap\<rparr>)"
    using assms by (simp add: doAppendSnapshot_def Let_def)
  moreover have "log_ok (driver_Write eng ?wb) ?c (sn_Index snap) (sn_Index snap)"
    using assms(1,7) log by (auto simp: log_ok_def wf_intros)
  moreover have "kv_map (driver_Write eng ?wb) (getCellStateKey ?c) = Some (SCell \<lparr>cl_State = PS_Applying, cl_Cell = sh_Cell h\<rparr>)"
    by (simp add: m)
  ultimately show ?thesis
    using log rs as cs by simp
qed

theorem append_snapshot_resets_witness:
  "\<exists>ctx'. doAppendSnapshot [] demo_ps (demo_ctx\<lparr>cx_snap := Some \<lparr>sh_Cell = ps_cell demo_ps,
        sh_FromPeer = newPeer 1 1, sh_ToPeer = newPeer 2 3, sh_Term = 6, sh_Index = 20\<rparr>\<rparr>)
      \<lparr>sn_Index = 20, sn_Term = 6, sn_Data = None\<rparr> = Return ctx' \<and> rl_LastIndex (cx_raftState ctx') = 20"
  using append_snapshot_resets [of "[]" "demo_ctx\<lparr>cx_snap := Some \<lparr>sh_Cell = ps_cell demo_ps,
        sh_FromPeer = newPeer 1 1, sh_ToPeer = newPeer 2 3, sh_Term = 6, sh_Index = 20\<rparr>\<rparr>" demo_ps
      "\<lparr>sh_Cell = ps_cell demo_ps, sh_FromPeer = newPeer 1 1, sh_ToPeer = newPeer 2 3, sh_Term = 6, sh_Index = 20\<rparr>"
      "\<lparr>sn_Index = 20, sn_Term = 6, sn_Data = None\<rparr>"]
  by fastforce

text \<open>Log compaction never moves backwards and never passes the applied index: it succeeds
  exactly for an index strictly after the truncated one and not after the applied one.\<close>

theorem compact_bounds:
  "(case compactRaftLog st ci ct of
      None \<Rightarrow> ci \<le> tr_Index (as_TruncatedState st) \<or> as_AppliedIndex st < ci
    | Some st' \<Rightarrow> tr_Index (as_TruncatedState st) < tr_Index (as_TruncatedState st') \<and>
        tr_Index (as_TruncatedState st') = ci \<and> tr_Term (as_TruncatedState st') = ct \<and>
        ci \<le> as_AppliedIndex st' \<and> as_AppliedIndex st' = as_AppliedIndex st)"
  by (auto simp: compactRaftLog_def split: if_splits)

text \<open>Garbage collection of the log deletes exactly the entries of the cell from the start
  index up to, and without, the end index.  Every other key of the engine, in particular every
  entry that is still part of the log and the entries of other cells, is kept.\<close>

theorem raft_log_gc_exact:
  assumes "kv_wf eng" and "startIndex \<noteq> 0"
  shows "\<exists>eng'. doRaftLogGC eng cid startIndex endIndex = Some eng' \<and> kv_wf eng' \<and>
    kv_map eng' k =
      (if \<exists>i. startIndex \<le> i \<and> i < endIndex \<and> k = getRaftLogKey cid i then None else kv_map eng k)"
  using assms
  by (auto simp: doRaftLogGC_def fold_wb_Delete Write_deletes wf_intros image_iff)

theorem raft_log_gc_exact_witness:
  "\<exists>eng'. doRaftLogGC (KV_Put [] (getRaftLogKey 1 6) (SEntry (demo_entry 6 5))) 1 5 7 = Some eng' \<and>
     kv_map eng' (getRaftLogKey 1 6) = None"
  using raft_log_gc_exact [of "KV_Put [] (getRaftLogKey 1 6) (SEntry (demo_entry 6 5))" 5 1 7 "getRaftLogKey 1 6"]
  by (force simp: wf_intros)

end
