(* ===== verification/Apply_Delegate.thy ===== *)
theory Apply_Delegate
  imports Peer_Storage
begin

text \<open>
  \<^verbatim>\<open>pkg/raftstore/raft_apply.go\<close> and \<^verbatim>\<open>raft_apply_cmd.go\<close>: applying committed entries.  The
  delegate is the apply worker's copy of a peer.  The world of an apply step is the metadata
  engines of the store, one per driver and selected by the cell's identifier as in
  \<^verbatim>\<open>getDriver\<close>, the data they hold (an open type, changed by the redis write handlers, which
  are a parameter here), and the trace of answers, results and index requests.
\<close>

record applyMetrics =
  am_sizeDiffHint :: u64
  am_deleteKeysHint :: u64
  am_writtenBytes :: u64
  am_writtenKeys :: u64

definition emptyApplyMetrics :: applyMetrics where
  "emptyApplyMetrics = \<lparr>am_sizeDiffHint = 0, am_deleteKeysHint = 0, am_writtenBytes = 0, am_writtenKeys = 0\<rparr>"

record changePeer =
  cp_confChange :: "ConfChange option"
  cp_peer :: Peer
  cp_cell :: Cell

datatype execResult =
    ERChangePeer changePeer
  | ERSplit Cell Cell
  | ERRaftGC RaftTruncatedState u64

record asyncApplyResult =
  ar_cellID :: u64
  ar_appliedIndexTerm :: u64
  ar_applyState :: RaftApplyState
  ar_result :: "execResult option"
  ar_metrics :: applyMetrics

text \<open>A command that has been answered goes back to its pool with its request set to nil; a
  pointer that is kept to it then refers to a released command.\<close>

datatype cmd_ref = Live cmd | Released

record applyDelegate =
  da_peerID :: u64
  da_cell :: Cell
  da_pendingRemove :: bool
  da_applyState :: RaftApplyState
  da_appliedIndexTerm :: u64
  da_term :: u64
  da_pendingCMDs :: "cmd list"
  da_pendingChangePeerCMD :: "cmd_ref option"

record IndexKeyRequest =
  ik_CellID :: u64
  ik_IdxName :: string
  ik_CmdArgs :: "bytes list"
  ik_IsDel :: bool

record 'k world =
  w_engines :: nat
  w_meta :: "nat \<Rightarrow> stored KVTree"
  w_data :: "nat \<Rightarrow> 'k"
  w_answers :: "answer list"
  w_results :: "asyncApplyResult list"
  w_idx :: "IndexKeyRequest list"
  w_removedSnaps :: "u64 list"

text \<open>\<^verbatim>\<open>engines[enginesMask&id]\<close> of \<^verbatim>\<open>store.go\<close>.\<close>

definition driver_index :: "nat \<Rightarrow> u64 \<Rightarrow> nat" where
  "driver_index n cellID = unat (and (of_nat n - 1) cellID)"

definition get_meta :: "'k world \<Rightarrow> u64 \<Rightarrow> stored KVTree" where
  "get_meta w cellID = w_meta w (driver_index (w_engines w) cellID)"

definition put_meta :: "u64 \<Rightarrow> stored KVTree \<Rightarrow> 'k world \<Rightarrow> 'k world" where
  "put_meta cellID t w = w\<lparr>w_meta := (w_meta w)(driver_index (w_engines w) cellID := t)\<rparr>"

definition write_meta :: "u64 \<Rightarrow> stored WriteBatch \<Rightarrow> 'k world \<Rightarrow> 'k world" where
  "write_meta cellID wb w = put_meta cellID (driver_Write (get_meta w cellID) wb) w"

definition answer :: "answer list \<Rightarrow> 'k world \<Rightarrow> 'k world" where
  "answer as w = w\<lparr>w_answers := w_answers w @ as\<rparr>"

subsection \<open>Redis batch and context\<close>

type_synonym redisBatch = "(bytes \<times> bytes) list"

definition rb_set :: "bytes \<Rightarrow> bytes \<Rightarrow> redisBatch \<Rightarrow> redisBatch" where
  "rb_set key value rb = rb @ [(key, value)]"

definition hasSetBatch :: "redisBatch \<Rightarrow> bool" where
  "hasSetBatch rb = (length rb > 0)"

record 'k handlerCtx =
  hx_data :: 'k
  hx_rb :: redisBatch
  hx_metrics :: applyMetrics

type_synonym 'k writeHandle = "Request \<Rightarrow> 'k handlerCtx \<Rightarrow> fault + Response \<times> 'k handlerCtx"

text \<open>What the delegate reaches through its store: the table of redis write handlers, the
  key-value engine's \<^verbatim>\<open>MSet\<close> (\<open>None\<close> an error), the index whose pattern matches a key, whether the
  indexer takes a request, and whether the cell's replicate is registered.\<close>

record 'k applyEnv =
  ev_redisWriteHandles :: "CMDType \<Rightarrow> 'k writeHandle option"
  ev_MSet :: "redisBatch \<Rightarrow> 'k \<Rightarrow> 'k option"
  ev_matchIndex :: "bytes \<Rightarrow> string"
  ev_handleIdxKeyReq :: "IndexKeyRequest \<Rightarrow> bool"
  ev_hasReplicate :: "u64 \<Rightarrow> bool"

record applyContext =
  ax_wb :: "stored WriteBatch"
  ax_applyState :: RaftApplyState
  ax_req :: RaftCMDRequest
  ax_index :: u64
  ax_term :: u64

subsection \<open>Pending commands\<close>

definition notifyStaleCMD :: "applyDelegate \<Rightarrow> cmd \<Rightarrow> fault + answer list" where
  "notifyStaleCMD d c =
     (if rc_Header (cm_req c) = None then Inl Panic
      else cmd_resp c (errorStaleCMDResp (cmd_uuid c) (da_term d)))"

definition notifyCellRemoved :: "applyDelegate \<Rightarrow> cmd \<Rightarrow> fault + answer list" where
  "notifyCellRemoved d c =
     (if rc_Header (cm_req c) = None then Inl Panic else respCellNotFound c (c_ID (da_cell d)))"

fun notify_all :: "(cmd \<Rightarrow> fault + answer list) \<Rightarrow> cmd list \<Rightarrow> fault + answer list" where
  "notify_all f [] = Inr []"
| "notify_all f (c # cs) = sbind (f c) (\<lambda>a. sbind (notify_all f cs) (\<lambda>as. Inr (a @ as)))"

definition clearAllCommandsAsStale :: "applyDelegate \<Rightarrow> fault + answer list \<times> applyDelegate" where
  "clearAllCommandsAsStale d =
     sbind (notify_all (notifyStaleCMD d) (da_pendingCMDs d)) (\<lambda>as.
     sbind (case da_pendingChangePeerCMD d of
              None \<Rightarrow> Inr []
            | Some Released \<Rightarrow> Inl Panic
            | Some (Live c) \<Rightarrow> notifyStaleCMD d c) (\<lambda>a.
     Inr (as @ a, d\<lparr>da_pendingCMDs := [], da_pendingChangePeerCMD := None\<rparr>)))"

definition delegate_destroy :: "applyDelegate \<Rightarrow> fault + answer list \<times> applyDelegate" where
  "delegate_destroy d =
     sbind (notify_all (notifyCellRemoved d) (da_pendingCMDs d)) (\<lambda>as.
     sbind (case da_pendingChangePeerCMD d of
              Some (Live c) \<Rightarrow> notifyCellRemoved d c
            | _ \<Rightarrow> Inr []) (\<lambda>a.
     Inr (as @ a, d\<lparr>da_pendingCMDs := [], da_pendingChangePeerCMD := None\<rparr>)))"

definition appendPendingCmd :: "cmd \<Rightarrow> applyDelegate \<Rightarrow> applyDelegate" where
  "appendPendingCmd c d = d\<lparr>da_pendingCMDs := da_pendingCMDs d @ [c]\<rparr>"

definition setPendingChangePeerCMD :: "cmd \<Rightarrow> applyDelegate \<Rightarrow> applyDelegate" where
  "setPendingChangePeerCMD c d = d\<lparr>da_pendingChangePeerCMD := Some (Live c)\<rparr>"

definition popPendingCMD :: "u64 \<Rightarrow> applyDelegate \<Rightarrow> cmd option \<times> applyDelegate" where
  "popPendingCMD raftLogEntryTerm d =
     (case da_pendingCMDs d of
        [] \<Rightarrow> (None, d)
      | c # cs \<Rightarrow> if cm_term c > raftLogEntryTerm then (None, d) else (Some c, d\<lparr>da_pendingCMDs := cs\<rparr>))"

definition isChangePeerCMD :: "RaftCMDRequest \<Rightarrow> bool" where
  "isChangePeerCMD req = (case rc_AdminRequest req of Some (ChangePeer _ _) \<Rightarrow> True | _ \<Rightarrow> False)"

text \<open>The loop of \<^verbatim>\<open>findCB\<close> over the pending commands.\<close>

fun findCB_loop ::
  "applyDelegate \<Rightarrow> RaftRequestHeader option \<Rightarrow> u64 \<Rightarrow> cmd list \<Rightarrow> fault + cmd option \<times> cmd list \<times> answer list" where
  "findCB_loop d h t [] = Inr (None, [], [])"
| "findCB_loop d h t (head # rest) =
     (if cm_term head > t then Inr (None, head # rest, [])
      else case (cmd_uuid head, h) of
             (Some u, Some h') \<Rightarrow>
               if bytesCompare u (rh_UUID h') = 0 then Inr (Some head, rest, [])
               else sbind (notifyStaleCMD d head) (\<lambda>a.
                    sbind (findCB_loop d h t rest) (\<lambda>(c, cs, as). Inr (c, cs, a @ as)))
           | _ \<Rightarrow> Inl Panic)"

definition findCB :: "applyContext \<Rightarrow> applyDelegate \<Rightarrow> fault + cmd option \<times> answer list \<times> applyDelegate" where
  "findCB ctx d =
     (if isChangePeerCMD (ax_req ctx) then
        (case da_pendingChangePeerCMD d of
           None \<Rightarrow> Inr (None, [], d)
         | Some Released \<Rightarrow> Inr (None, [], d)
         | Some (Live c) \<Rightarrow>
             (case (rc_Header (ax_req ctx), cmd_uuid c) of
                (Some h, Some u) \<Rightarrow>
                  if bytesCompare (rh_UUID h) u = 0 then Inr (Some c, [], d)
                  else sbind (notifyStaleCMD d c) (\<lambda>a.
                       Inr (None, a, d\<lparr>da_pendingChangePeerCMD := Some Released\<rparr>))
              | _ \<Rightarrow> Inl Panic))
      else
        sbind (findCB_loop d (rc_Header (ax_req ctx)) (ax_term ctx) (da_pendingCMDs d)) (\<lambda>(c, cs, as).
          Inr (c, as, d\<lparr>da_pendingCMDs := cs\<rparr>)))"

subsection \<open>Admin commands\<close>

definition newAdminRaftCMDResponse :: "AdminResponse \<Rightarrow> RaftCMDResponse" where
  "newAdminRaftCMDResponse r = \<lparr>rr_Header = None, rr_Responses = [], rr_AdminResponse = Some r\<rparr>"

text \<open>An admin command returns a response, a result, whether it failed, and the changed context,
  delegate and world.\<close>

type_synonym 'k adminRes =
  "fault + RaftCMDResponse option \<times> execResult option \<times> bool \<times> applyContext \<times> applyDelegate \<times> 'k world"

definition doExecChangePeer ::
  "ConfChangeType \<Rightarrow> Peer \<Rightarrow> applyContext \<Rightarrow> applyDelegate \<Rightarrow> 'k world \<Rightarrow> 'k adminRes" where
  "doExecChangePeer changeType peer ctx d w =
     (let exists = findPeer (da_cell d) (p_StoreID peer);
          cell0 = (da_cell d)\<lparr>c_Epoch := (c_Epoch (da_cell d))\<lparr>e_ConfVer := e_ConfVer (c_Epoch (da_cell d)) + 1\<rparr>\<rparr>;
          d1 = d\<lparr>da_cell := cell0\<rparr>;
          finish = (\<lambda>d w.
            (let st = (if da_pendingRemove d then PS_Tombstone else PS_Normal);
                 ctx' = ctx\<lparr>ax_wb := updatePeerState (da_cell d) st (ax_wb ctx)\<rparr>
             in Inr (Some (newAdminRaftCMDResponse (ChangePeerRsp (da_cell d))),
                     Some (ERChangePeer \<lparr>cp_confChange = None, cp_peer = peer, cp_cell = da_cell d\<rparr>),
                     False, ctx', d, w)))
      in case changeType of
           AddNode \<Rightarrow>
             if exists \<noteq> None then Inr (None, None, False, ctx, d1, w)
             else finish (d1\<lparr>da_cell := cell0\<lparr>c_Peers := c_Peers cell0 @ [peer]\<rparr>\<rparr>) w
         | RemoveNode \<Rightarrow>
             if exists = None then Inr (None, None, False, ctx, d1, w)
             else
               (let d2 = (if da_peerID d1 = p_ID peer then d1\<lparr>da_pendingRemove := True\<rparr> else d1);
                    d3 = d2\<lparr>da_cell := removePeer cell0 (p_StoreID peer)\<rparr>
                in finish d3 (w\<lparr>w_removedSnaps := w_removedSnaps w @ [p_ID peer]\<rparr>)))"

definition doExecSplit ::
  "bytes \<Rightarrow> u64 \<Rightarrow> u64 list \<Rightarrow> applyContext \<Rightarrow> applyDelegate \<Rightarrow> 'k world \<Rightarrow> 'k adminRes" where
  "doExecSplit splitKey newCellID newPeerIDs ctx d w =
     (if length splitKey = 0 then Inr (None, None, True, ctx, d, w)
      else sbind (getOriginKey splitKey) (\<lambda>splitKey.
        if bytesCompare splitKey (c_Start (da_cell d)) < 0 then Inr (None, None, False, ctx, d, w)
        else if checkKeyInCell splitKey (da_cell d) \<noteq> None then Inr (None, None, False, ctx, d, w)
        else if length newPeerIDs \<noteq> length (c_Peers (da_cell d)) then Inr (None, None, False, ctx, d, w)
        else
          (let ver = e_CellVer (c_Epoch (da_cell d)) + 1;
               newCell = \<lparr>c_ID = newCellID, c_Start = splitKey, c_End = c_End (da_cell d),
                          c_Epoch = (c_Epoch (da_cell d))\<lparr>e_CellVer := ver\<rparr>,
                          c_Peers = map2 (\<lambda>i p. \<lparr>p_ID = i, p_StoreID = p_StoreID p\<rparr>) newPeerIDs (c_Peers (da_cell d))\<rparr>;
               left = (da_cell d)\<lparr>c_End := splitKey, c_Epoch := (c_Epoch (da_cell d))\<lparr>e_CellVer := ver\<rparr>\<rparr>;
               d1 = d\<lparr>da_cell := left\<rparr>;
               ctx1 = ctx\<lparr>ax_wb := updatePeerState left PS_Normal (ax_wb ctx)\<rparr>;
               wb = writeInitialState (c_ID newCell) (updatePeerState newCell PS_Normal []);
               w1 = write_meta (c_ID newCell) wb w
           in Inr (Some (newAdminRaftCMDResponse (SplitRsp left newCell)), Some (ERSplit left newCell),
                   False, ctx1, d1, w1))))"

definition doExecRaftGC ::
  "u64 \<Rightarrow> u64 \<Rightarrow> applyContext \<Rightarrow> applyDelegate \<Rightarrow> 'k world \<Rightarrow> 'k adminRes" where
  "doExecRaftGC compactIndex compactTerm ctx d w =
     (let firstIndex = tr_Index (as_TruncatedState (ax_applyState ctx)) + 1
      in if compactIndex \<le> firstIndex then Inr (None, None, False, ctx, d, w)
         else if compactTerm = 0 then Inr (None, None, True, ctx, d, w)
         else case compactRaftLog (ax_applyState ctx) compactIndex compactTerm of
                None \<Rightarrow> Inr (None, None, True, ctx, d, w)
              | Some st \<Rightarrow>
                  Inr (Some (newAdminRaftCMDResponse RaftLogGCRsp),
                       Some (ERRaftGC (as_TruncatedState st) firstIndex),
                       False, ctx\<lparr>ax_applyState := st\<rparr>, d, w))"

definition execAdminRequest ::
  "AdminRequest \<Rightarrow> applyContext \<Rightarrow> applyDelegate \<Rightarrow> 'k world \<Rightarrow> 'k adminRes" where
  "execAdminRequest req ctx d w =
     (case req of
        ChangePeer t p \<Rightarrow> doExecChangePeer t p ctx d w
      | Split k i ids \<Rightarrow> doExecSplit k i ids ctx d w
      | RaftLogGC i t \<Rightarrow> doExecRaftGC i t ctx d w
      | _ \<Rightarrow> Inr (None, None, False, ctx, d, w))"

subsection \<open>Write commands\<close>

definition cmd_Args :: "bytes list \<Rightarrow> fault + bytes list" where
  "cmd_Args c = (case c of [] \<Rightarrow> Inl Panic | _ # args \<Rightarrow> Inr args)"

text \<open>The loop over the keys of a \<^verbatim>\<open>Del\<close> stops at the first request the indexer refuses.\<close>

fun index_dels :: "'k applyEnv \<Rightarrow> u64 \<Rightarrow> bytes list \<Rightarrow> IndexKeyRequest list" where
  "index_dels env cellID [] = []"
| "index_dels env cellID (key # keys) =
     (let idxName = ev_matchIndex env key;
          req = \<lparr>ik_CellID = cellID, ik_IdxName = idxName, ik_CmdArgs = [key], ik_IsDel = True\<rparr>
      in if idxName = [] then index_dels env cellID keys
         else req # (if ev_handleIdxKeyReq env req then index_dels env cellID keys else []))"

definition execWriteRequestIndex ::
  "'k applyEnv \<Rightarrow> applyDelegate \<Rightarrow> Request \<Rightarrow> Response \<Rightarrow> fault + IndexKeyRequest list" where
  "execWriteRequestIndex env d req rsp =
     (if (rq_Type req = CMD_HMSet \<or> rq_Type req = CMD_HSet \<or> rq_Type req = CMD_Del) \<and>
         rs_ErrorResult rsp = None \<and> length (rs_ErrorResults rsp) = 0 then
        sbind (cmd_Args (rq_Cmd req)) (\<lambda>args.
          if rq_Type req = CMD_Del then Inr (index_dels env (c_ID (da_cell d)) args)
          else case args of
                 [] \<Rightarrow> Inl Panic
               | key # _ \<Rightarrow>
                   (let idxName = ev_matchIndex env key
                    in if idxName = [] then Inr []
                       else Inr [\<lparr>ik_CellID = c_ID (da_cell d), ik_IdxName = idxName,
                                  ik_CmdArgs = args, ik_IsDel = False\<rparr>]))
      else Inr [])"

fun exec_requests ::
  "'k applyEnv \<Rightarrow> applyDelegate \<Rightarrow> Request list \<Rightarrow> 'k handlerCtx \<Rightarrow>
   fault + Response list \<times> IndexKeyRequest list \<times> 'k handlerCtx" where
  "exec_requests env d [] hx = Inr ([], [], hx)"
| "exec_requests env d (req # reqs) hx =
     (case ev_redisWriteHandles env (rq_Type req) of
        None \<Rightarrow> exec_requests env d reqs hx
      | Some h \<Rightarrow>
          sbind (h req hx) (\<lambda>(rsp, hx).
          sbind (execWriteRequestIndex env d req rsp) (\<lambda>idx.
          sbind (exec_requests env d reqs hx) (\<lambda>(rsps, idxs, hx).
            Inr (rsp # rsps, idx @ idxs, hx)))))"

text \<open>The handlers work on the engine of the cell named in the request's header.\<close>

definition execWriteRequest ::
  "'k applyEnv \<Rightarrow> RaftRequestHeader \<Rightarrow> applyContext \<Rightarrow> applyDelegate \<Rightarrow> 'k world \<Rightarrow>
   fault + RaftCMDResponse \<times> redisBatch \<times> applyMetrics \<times> 'k world" where
  "execWriteRequest env h ctx d w =
     (let i = driver_index (w_engines w) (rh_CellId h);
          hx = \<lparr>hx_data = w_data w i, hx_rb = [], hx_metrics = emptyApplyMetrics\<rparr>
      in sbind (exec_requests env d (rc_Requests (ax_req ctx)) hx) (\<lambda>(rsps, idxs, hx).
           Inr (\<lparr>rr_Header = None, rr_Responses = rsps, rr_AdminResponse = None\<rparr>,
                hx_rb hx, hx_metrics hx,
                w\<lparr>w_data := (w_data w)(i := hx_data hx), w_idx := w_idx w @ idxs\<rparr>)))"

subsection \<open>Applying one command\<close>

definition stale_epoch_rsp :: "applyContext \<Rightarrow> applyDelegate \<Rightarrow> fault + RaftCMDResponse" where
  "stale_epoch_rsp ctx d =
     (case rc_Header (ax_req ctx) of
        None \<Rightarrow> Inl Panic
      | Some h \<Rightarrow> Inr (errorStaleEpochResp (Some (rh_UUID h)) (da_term d) [da_cell d]))"

text \<open>The first half of \<^verbatim>\<open>doApplyRaftCMD\<close>: execute the command.\<close>

definition exec_cmd ::
  "'k applyEnv \<Rightarrow> applyContext \<Rightarrow> applyDelegate \<Rightarrow> 'k world \<Rightarrow>
   fault + RaftCMDResponse option \<times> execResult option \<times> redisBatch \<times> applyMetrics \<times>
           applyContext \<times> applyDelegate \<times> 'k world" where
  "exec_cmd env ctx d w =
     (if \<not> checkEpoch (da_cell d) (ax_req ctx) then
        sbind (stale_epoch_rsp ctx d) (\<lambda>resp. Inr (Some resp, None, [], emptyApplyMetrics, ctx, d, w))
      else case rc_AdminRequest (ax_req ctx) of
             Some a \<Rightarrow>
               sbind (execAdminRequest a ctx d w) (\<lambda>(resp, result, err, ctx, d, w).
               sbind (if err then sbind (stale_epoch_rsp ctx d) (\<lambda>r. Inr (Some r)) else Inr resp) (\<lambda>resp.
                 Inr (resp, result, [], emptyApplyMetrics, ctx, d, w)))
           | None \<Rightarrow>
               (case rc_Header (ax_req ctx) of
                  None \<Rightarrow> Inl Panic
                | Some h \<Rightarrow>
                    sbind (execWriteRequest env h ctx d w) (\<lambda>(resp, rb, m, w).
                      Inr (Some resp, None, rb, m, ctx, d, w))))"

definition flush_batch :: "'k applyEnv \<Rightarrow> redisBatch \<Rightarrow> applyDelegate \<Rightarrow> 'k world \<Rightarrow> fault + 'k world" where
  "flush_batch env rb d w =
     (if hasSetBatch rb then
        (let i = driver_index (w_engines w) (c_ID (da_cell d))
         in case ev_MSet env rb (w_data w i) of
              None \<Rightarrow> Inl Fatalf
            | Some k \<Rightarrow> Inr (w\<lparr>w_data := (w_data w)(i := k)\<rparr>))
      else Inr w)"

text \<open>The second half: make the result durable with the applied index, in one write batch.\<close>

definition commit_apply :: "applyContext \<Rightarrow> applyDelegate \<Rightarrow> 'k world \<Rightarrow> applyDelegate \<times> 'k world" where
  "commit_apply ctx d w =
     (let st = (ax_applyState ctx)\<lparr>as_AppliedIndex := ax_index ctx\<rparr>;
          wb = (if da_pendingRemove d then ax_wb ctx
                else wb_Set (ax_wb ctx) (getApplyStateKey (c_ID (da_cell d))) (SApply st))
      in (d\<lparr>da_applyState := st, da_term := ax_term ctx\<rparr>, write_meta (c_ID (da_cell d)) wb w))"

definition answer_found ::
  "cmd option \<Rightarrow> RaftCMDResponse option \<Rightarrow> applyContext \<Rightarrow> applyDelegate \<Rightarrow> 'k world \<Rightarrow>
   fault + applyDelegate \<times> 'k world" where
  "answer_found found resp ctx d w =
     (case rc_Header (ax_req ctx) of
        None \<Rightarrow> Inl Panic
      | Some h \<Rightarrow>
          (case (found, resp) of
             (Some c, Some r) \<Rightarrow>
               sbind (cmd_resp c (buildUUID (Some (rh_UUID h)) (buildTerm (da_term d) r))) (\<lambda>a.
                 Inr (if isChangePeerCMD (ax_req ctx) then d\<lparr>da_pendingChangePeerCMD := Some Released\<rparr> else d,
                      answer a w))
           | _ \<Rightarrow> Inr (d, w)))"

definition doApplyRaftCMD ::
  "'k applyEnv \<Rightarrow> applyContext \<Rightarrow> applyDelegate \<Rightarrow> 'k world \<Rightarrow>
   fault + execResult option \<times> applyMetrics \<times> applyDelegate \<times> 'k world" where
  "doApplyRaftCMD env ctx d w =
     (if ax_index ctx = 0 then Inl Fatalf
      else sbind (findCB ctx d) (\<lambda>(found, stale, d).
        if da_pendingRemove d then Inl Fatalf
        else sbind (exec_cmd env (ctx\<lparr>ax_wb := []\<rparr>) d (answer stale w)) (\<lambda>(resp, result, rb, m, ctx, d, w).
             sbind (flush_batch env rb d w) (\<lambda>w.
               let (d, w) = commit_apply ctx d w
               in sbind (answer_found found resp ctx d w) (\<lambda>(d, w). Inr (result, m, d, w))))))"

subsection \<open>Applying committed entries\<close>

definition emptyRequest :: RaftCMDRequest where
  "emptyRequest = \<lparr>rc_Header = None, rc_Requests = [], rc_AdminRequest = None\<rparr>"

fun pop_stale :: "applyDelegate \<Rightarrow> u64 \<Rightarrow> cmd list \<Rightarrow> fault + cmd list \<times> answer list" where
  "pop_stale d t [] = Inr ([], [])"
| "pop_stale d t (c # cs) =
     (if cm_term c > t then Inr (c # cs, [])
      else sbind (notifyStaleCMD d c) (\<lambda>a.
           sbind (pop_stale d t cs) (\<lambda>(rest, as). Inr (rest, a @ as))))"

definition apply_empty_entry ::
  "Entry \<Rightarrow> applyDelegate \<Rightarrow> 'k world \<Rightarrow> fault + applyDelegate \<times> 'k world" where
  "apply_empty_entry entry d w =
     (let st = (da_applyState d)\<lparr>as_AppliedIndex := en_Index entry\<rparr>;
          cellID = c_ID (da_cell d);
          w = put_meta cellID (KV_Put (get_meta w cellID) (getApplyStateKey cellID) (SApply st)) w;
          d = d\<lparr>da_applyState := st, da_appliedIndexTerm := en_Term entry\<rparr>
      in if en_Term entry \<le> 0 then Inl Panic
         else sbind (pop_stale d (en_Term entry - 1) (da_pendingCMDs d)) (\<lambda>(rest, as).
           Inr (d\<lparr>da_pendingCMDs := rest\<rparr>, answer as w)))"

definition applyEntry ::
  "'k applyEnv \<Rightarrow> applyContext \<Rightarrow> Entry \<Rightarrow> applyDelegate \<Rightarrow> 'k world \<Rightarrow>
   fault + execResult option \<times> applyMetrics \<times> applyDelegate \<times> 'k world" where
  "applyEntry env ctx entry d w =
     (case en_Data entry of
        CmdData req \<Rightarrow> doApplyRaftCMD env (ctx\<lparr>ax_req := req\<rparr>) d w
      | ConfData _ \<Rightarrow> Inl Fatalf
      | NoData \<Rightarrow>
          sbind (apply_empty_entry entry d w) (\<lambda>(d, w). Inr (None, emptyApplyMetrics, d, w)))"

definition zeroConfChange :: ConfChange where
  "zeroConfChange = \<lparr>cc_Type = AddNode, cc_NodeID = 0, cc_Context = emptyRequest\<rparr>"

definition zeroChangePeer :: changePeer where
  "zeroChangePeer = \<lparr>cp_confChange = None, cp_peer = \<lparr>p_ID = 0, p_StoreID = 0\<rparr>, cp_cell = emptyCell\<rparr>"

definition applyConfChange ::
  "'k applyEnv \<Rightarrow> applyContext \<Rightarrow> Entry \<Rightarrow> applyDelegate \<Rightarrow> 'k world \<Rightarrow>
   fault + execResult option \<times> applyMetrics \<times> applyDelegate \<times> 'k world" where
  "applyConfChange env ctx entry d w =
     sbind (case en_Data entry of ConfData cc \<Rightarrow> Inr cc | NoData \<Rightarrow> Inr zeroConfChange | CmdData _ \<Rightarrow> Inl Fatalf) (\<lambda>cc.
     sbind (doApplyRaftCMD env (ctx\<lparr>ax_req := cc_Context cc\<rparr>) d w) (\<lambda>(result, m, d, w).
       case result of
         None \<Rightarrow> Inr (Some (ERChangePeer zeroChangePeer), m, d, w)
       | Some (ERChangePeer cp) \<Rightarrow> Inr (Some (ERChangePeer (cp\<lparr>cp_confChange := Some cc\<rparr>)), m, d, w)
       | _ \<Rightarrow> Inl Panic))"

definition apply_one ::
  "'k applyEnv \<Rightarrow> Entry \<Rightarrow> applyDelegate \<Rightarrow> 'k world \<Rightarrow> fault + applyDelegate \<times> 'k world" where
  "apply_one env entry d w =
     (let expectIndex = as_AppliedIndex (da_applyState d) + 1;
          ctx = \<lparr>ax_wb = [], ax_applyState = da_applyState d, ax_req = emptyRequest,
                 ax_index = en_Index entry, ax_term = en_Term entry\<rparr>
      in if expectIndex \<noteq> en_Index entry then Inl Fatalf
         else sbind (case en_Type entry of
                       EntryNormal \<Rightarrow> applyEntry env ctx entry d w
                     | EntryConfChange \<Rightarrow> applyConfChange env ctx entry d w) (\<lambda>(result, m, d, w).
           let res = \<lparr>ar_cellID = c_ID (da_cell d), ar_appliedIndexTerm = da_appliedIndexTerm d,
                      ar_applyState = da_applyState d, ar_result = result, ar_metrics = m\<rparr>
           in Inr (d, if ev_hasReplicate env (c_ID (da_cell d)) then w\<lparr>w_results := w_results w @ [res]\<rparr> else w)))"

fun applyCommittedEntries ::
  "'k applyEnv \<Rightarrow> Entry list \<Rightarrow> applyDelegate \<Rightarrow> 'k world \<Rightarrow> fault + applyDelegate \<times> 'k world" where
  "applyCommittedEntries env [] d w = Inr (d, w)"
| "applyCommittedEntries env (entry # es) d w =
     (if da_pendingRemove d then Inr (d, w)
      else sbind (apply_one env entry d w) (\<lambda>(d, w). applyCommittedEntries env es d w))"

subsection \<open>Jobs of the apply worker\<close>

text \<open>The delegates of a store, and the jobs of \<^verbatim>\<open>peer_job.go\<close> that work on them.\<close>

type_synonym applyDelegateMap = "u64 \<rightharpoonup> applyDelegate"

definition startRegistrationJob :: "u64 \<Rightarrow> u64 \<Rightarrow> peerStorage \<Rightarrow> applyDelegate" where
  "startRegistrationJob peerID currentTerm ps =
     \<lparr>da_peerID = peerID, da_cell = ps_cell ps, da_pendingRemove = False, da_applyState = ps_applyState ps,
      da_appliedIndexTerm = ps_appliedIndexTerm ps, da_term = currentTerm, da_pendingCMDs = [],
      da_pendingChangePeerCMD = None\<rparr>"

definition doRegistrationJob ::
  "applyDelegate \<Rightarrow> applyDelegateMap \<Rightarrow> 'k world \<Rightarrow> fault + applyDelegateMap \<times> 'k world" where
  "doRegistrationJob delegate delegates w =
     (case delegates (c_ID (da_cell delegate)) of
        None \<Rightarrow> Inr (delegates(c_ID (da_cell delegate) \<mapsto> delegate), w)
      | Some old \<Rightarrow>
          if da_peerID old \<noteq> da_peerID delegate then Inl Fatalf
          else sbind (clearAllCommandsAsStale (old\<lparr>da_term := da_term delegate\<rparr>)) (\<lambda>(as, _).
            Inr (delegates(c_ID (da_cell delegate) \<mapsto> delegate), answer as w)))"

definition doApplyCommittedEntries ::
  "'k applyEnv \<Rightarrow> u64 \<Rightarrow> u64 \<Rightarrow> Entry list \<Rightarrow> applyDelegateMap \<Rightarrow> 'k world \<Rightarrow>
   fault + (applyDelegateMap \<times> 'k world) option" where
  "doApplyCommittedEntries env cellID t es delegates w =
     (case delegates cellID of
        None \<Rightarrow> Inr None
      | Some d \<Rightarrow>
          sbind (applyCommittedEntries env es (d\<lparr>da_term := t\<rparr>) w) (\<lambda>(d, w).
            if da_pendingRemove d then
              sbind (delegate_destroy d) (\<lambda>(as, d). Inr (Some (delegates(c_ID (da_cell d) := None), answer as w)))
            else Inr (Some (delegates(cellID \<mapsto> d), w))))"

end
