(* ===== verification/Propose.thy ===== *)
theory Propose
  imports Apply_Delegate Cell_Tree
begin

text \<open>
  \<^verbatim>\<open>pkg/raftstore/propose_batch.go\<close> and the proposal path of \<^verbatim>\<open>peer_raft.go\<close>: client requests are
  gathered into commands, a policy is chosen for each command, and the command is answered,
  queued for a read index, or handed to raft and to the apply worker.  The raft node is etcd's
  \<^verbatim>\<open>raft.RawNode\<close>: its state is an open type and its operations are a parameter.
\<close>

subsection \<open>The raft node\<close>

record Progress =
  pg_Match :: u64
  pg_Snapshot :: bool

text \<open>\<^verbatim>\<open>Progress\<close> is a Go map; the list is the order in which a loop visits it.\<close>

record Status =
  st_Leader :: bool
  st_Lead :: u64
  st_Term :: u64
  st_Progress :: "(u64 \<times> Progress) list"

record 'n RawNode =
  rn_Status :: "'n \<Rightarrow> Status"
  rn_Propose :: "RaftCMDRequest \<Rightarrow> 'n \<Rightarrow> string + 'n"
  rn_ProposeConfChange :: "ConfChange \<Rightarrow> 'n \<Rightarrow> string + 'n"
  rn_ReadIndex :: "bytes \<Rightarrow> 'n \<Rightarrow> 'n"
  rn_TransferLeader :: "u64 \<Rightarrow> 'n \<Rightarrow> 'n"
  rn_NextProposalIndex :: "'n \<Rightarrow> u64"
  rn_PendingReadCount :: "'n \<Rightarrow> int"
  rn_ReadyReadCount :: "'n \<Rightarrow> int"
  rn_LastIndex :: "'n \<Rightarrow> u64"
  rn_Term :: "u64 \<Rightarrow> 'n \<Rightarrow> u64"

record Cfg =
  cf_BatchSizeProposal :: u64
  cf_LimitRaftEntryBytes :: u64
  cf_ThresholdCompact :: u64
  cf_LimitCompactCount :: u64
  cf_LimitCompactBytes :: u64
  cf_LimitCompactLag :: u64
  cf_ThresholdSplitCheckBytes :: u64

definition transferLeaderAllowLogLag :: u64 where "transferLeaderAllowLogLag = 10"

subsection \<open>Peer replicates and the store\<close>

datatype reqType = T_read | T_write | T_admin

record reqCtx =
  rx_admin :: "AdminRequest option"
  rx_req :: Request
  rx_cb :: "nat option"

record proposeBatch =
  pb_lastType :: reqType
  pb_cmds :: "cmd list"

record readIndexQueue =
  ri_reads :: "cmd list"
  ri_readyCnt :: nat

record 'n PeerReplicate =
  pr_cellID :: u64
  pr_peer :: Peer
  pr_rn :: 'n
  pr_ps :: peerStorage
  pr_batch :: proposeBatch
  pr_pendingReads :: readIndexQueue
  pr_stopRaftTick :: bool
  pr_writtenKeys :: u64
  pr_writtenBytes :: u64
  pr_sizeDiffHint :: u64
  pr_raftLogSizeHint :: u64
  pr_deleteKeysHint :: u64

record 'n Store_view =
  sv_id :: u64
  sv_replicatesMap :: "u64 \<rightharpoonup> 'n PeerReplicate"
  sv_keyRanges :: CellTree
  sv_peerCache :: "u64 \<rightharpoonup> Peer"

definition getPeer :: "'n Store_view \<Rightarrow> u64 \<Rightarrow> Peer" where
  "getPeer s i = (case sv_peerCache s i of None \<Rightarrow> \<lparr>p_ID = 0, p_StoreID = 0\<rparr> | Some p \<Rightarrow> p)"

definition isLeader :: "'n RawNode \<Rightarrow> 'n PeerReplicate \<Rightarrow> bool" where
  "isLeader rn pr = st_Leader (rn_Status rn (pr_rn pr))"

definition getLeaderPeerID :: "'n RawNode \<Rightarrow> 'n PeerReplicate \<Rightarrow> u64" where
  "getLeaderPeerID rn pr = st_Lead (rn_Status rn (pr_rn pr))"

definition getCurrentTerm :: "'n RawNode \<Rightarrow> 'n PeerReplicate \<Rightarrow> u64" where
  "getCurrentTerm rn pr = st_Term (rn_Status rn (pr_rn pr))"

text \<open>What a replicate reaches through its store: configuration, the handler tables, the size of
  a marshalled command, whether the apply worker takes a job, and the identifiers of
  \<^verbatim>\<open>uuid.NewV4\<close>.\<close>

record 'n proposeEnv =
  pe_rn :: "'n RawNode"
  pe_cfg :: Cfg
  pe_store :: "'n Store_view"
  pe_isRead :: "CMDType \<Rightarrow> bool"
  pe_isWrite :: "CMDType \<Rightarrow> bool"
  pe_readHandle :: "u64 \<Rightarrow> Request \<Rightarrow> fault + Response"
  pe_size :: "RaftCMDRequest \<Rightarrow> u64"
  pe_addJob :: bool

subsection \<open>Batches\<close>

definition newBatch :: proposeBatch where
  "newBatch = \<lparr>pb_lastType = T_read, pb_cmds = []\<rparr>"

definition getType :: "'n proposeEnv \<Rightarrow> reqCtx \<Rightarrow> reqType" where
  "getType env c =
     (if rx_admin c \<noteq> None then T_admin else if pe_isWrite env (rq_Type (rx_req c)) then T_write else T_read)"

definition batch_isEmpty :: "proposeBatch \<Rightarrow> bool" where
  "batch_isEmpty b = (0 = length (pb_cmds b))"

definition batch_isFull :: "Cfg \<Rightarrow> u64 \<Rightarrow> bool" where
  "batch_isFull cfg lastSize = (cf_BatchSizeProposal cfg = lastSize)"

definition batch_pop :: "proposeBatch \<Rightarrow> cmd option \<times> proposeBatch" where
  "batch_pop b = (case pb_cmds b of [] \<Rightarrow> (None, b) | c # cs \<Rightarrow> (Some c, b\<lparr>pb_cmds := cs\<rparr>))"

definition lastCmd :: "proposeBatch \<Rightarrow> cmd option" where
  "lastCmd b = (if batch_isEmpty b then None else Some (last (pb_cmds b)))"

text \<open>The key of a request becomes its data key; a request without one panics.\<close>

definition data_key_req :: "Request \<Rightarrow> fault + Request" where
  "data_key_req req =
     (if length (rq_Cmd req) \<le> 1 then Inl Panic
      else Inr (req\<lparr>rq_Cmd := (rq_Cmd req)[1 := getDataKey (rq_Cmd req ! 1)]\<rparr>))"

definition batch_header :: "'n PeerReplicate \<Rightarrow> bytes \<Rightarrow> RaftRequestHeader" where
  "batch_header pr uuid =
     \<lparr>rh_CellId = c_ID (ps_cell (pr_ps pr)), rh_Peer = pr_peer pr, rh_ReadQuorum = True, rh_UUID = uuid,
      rh_CellEpoch = c_Epoch (ps_cell (pr_ps pr)), rh_Term = 0\<rparr>"

definition batch_push ::
  "'n proposeEnv \<Rightarrow> 'n PeerReplicate \<Rightarrow> bytes \<Rightarrow> reqCtx \<Rightarrow> proposeBatch \<Rightarrow> fault + proposeBatch" where
  "batch_push env pr uuid c b =
     (let tp = getType env c; isAdmin = (tp = T_admin)
      in sbind (if isAdmin then Inr (rx_req c) else data_key_req (rx_req c)) (\<lambda>req.
           let fresh = b\<lparr>pb_cmds := pb_cmds b @ [newCMD
                 \<lparr>rc_Header = Some (batch_header pr uuid),
                  rc_Requests = (if isAdmin then [] else [req]),
                  rc_AdminRequest = (if isAdmin then rx_admin c else None)\<rparr> (rx_cb c)], pb_lastType := tp\<rparr>
           in case lastCmd b of
                None \<Rightarrow> Inr fresh
              | Some l \<Rightarrow>
                  if isAdmin \<or> pb_lastType b \<noteq> tp \<or>
                     batch_isFull (pe_cfg env) (of_nat (length (rc_Requests (cm_req l)))) then Inr fresh
                  else Inr (b\<lparr>pb_cmds := butlast (pb_cmds b) @
                         [l\<lparr>cm_req := (cm_req l)\<lparr>rc_Requests := rc_Requests (cm_req l) @ [req]\<rparr>\<rparr>], pb_lastType := tp\<rparr>)))"

subsection \<open>Validation\<close>

definition validateStoreID :: "'n Store_view \<Rightarrow> RaftRequestHeader \<Rightarrow> string option" where
  "validateStoreID s h = (if p_StoreID (rh_Peer h) \<noteq> sv_id s then Some ''store not match'' else None)"

definition validateCell :: "'n RawNode \<Rightarrow> 'n Store_view \<Rightarrow> RaftCMDRequest \<Rightarrow> RaftRequestHeader \<Rightarrow> Error option" where
  "validateCell rn s req h =
     (case sv_replicatesMap s (rh_CellId h) of
        None \<Rightarrow> Some \<lparr>er_Message = ''cell not found'', er_Detail = CellNotFound (rh_CellId h)\<rparr>
      | Some pr \<Rightarrow>
          if \<not> isLeader rn pr then
            Some \<lparr>er_Message = ''NotLeader'', er_Detail = NotLeader (rh_CellId h) (getPeer s (getLeaderPeerID rn pr))\<rparr>
          else if p_ID (pr_peer pr) \<noteq> p_ID (rh_Peer h) then
            Some \<lparr>er_Message = ''mismatch peer id'', er_Detail = NoDetail\<rparr>
          else if rh_Term h > 0 \<and> getCurrentTerm rn pr > rh_Term h + 1 then
            Some \<lparr>er_Message = ''stale command'', er_Detail = StaleCommand\<rparr>
          else if \<not> checkEpoch (ps_cell (pr_ps pr)) req then
            Some \<lparr>er_Message = ''stale epoch'',
                  er_Detail = StaleEpoch (case CellTree_NextCell (sv_keyRanges s) (c_Start (ps_cell (pr_ps pr))) of
                                            None \<Rightarrow> [] | Some c \<Rightarrow> [c])\<rparr>
          else None)"

text \<open>\<^verbatim>\<open>checkProposal\<close> returns whether to go on.  It computes the verdict of \<open>validateCell\<close> but then
  tests the error of \<open>validateStoreID\<close> again, which is nil there.  An identifier that is nil in the code is
  the empty list here; no caller sets an empty one that is not nil.\<close>

definition checkProposal ::
  "'n proposeEnv \<Rightarrow> 'n PeerReplicate \<Rightarrow> cmd \<Rightarrow> fault + answer list \<times> cmd option" where
  "checkProposal env pr c =
     (case rc_Header (cm_req c) of
        None \<Rightarrow> sbind (cmd_resp c (errorOtherCMDResp ''missing request uuid'')) (\<lambda>a. Inr (a, None))
      | Some h \<Rightarrow>
          if rh_UUID h = [] then
            sbind (cmd_resp c (errorOtherCMDResp ''missing request uuid'')) (\<lambda>a. Inr (a, None))
          else
            (let err = validateStoreID (pe_store env) h
             in case err of
                  Some e \<Rightarrow> sbind (respOtherError c e) (\<lambda>a. Inr (a, None))
                | None \<Rightarrow>
                    (let t = getCurrentTerm (pe_rn env) pr;
                         pe = validateCell (pe_rn env) (pe_store env) (cm_req c) h
                     in if err \<noteq> None then
                          sbind (cmd_resp c (errorPbResp (case pe of None \<Rightarrow> noError | Some e \<Rightarrow> e) (Some (rh_UUID h)) t))
                            (\<lambda>a. Inr (a, None))
                        else Inr ([], Some (c\<lparr>cm_term := t\<rparr>)))))"

subsection \<open>Policy\<close>

datatype requestPolicy = readLocal | readIndex | P_proposeNormal | P_proposeTransferLeader | P_proposeChange

text \<open>The loop overwrites both flags: only the last request decides.\<close>

definition getHandlePolicy :: "'n proposeEnv \<Rightarrow> RaftCMDRequest \<Rightarrow> string + requestPolicy" where
  "getHandlePolicy env req =
     (case rc_AdminRequest req of
        Some (ChangePeer _ _) \<Rightarrow> Inr P_proposeChange
      | Some (TransferLeader _) \<Rightarrow> Inr P_proposeTransferLeader
      | Some _ \<Rightarrow> Inr P_proposeNormal
      | None \<Rightarrow>
          (let (isRead, isWrite) = fold (\<lambda>r _. (pe_isRead env (rq_Type r), pe_isWrite env (rq_Type r)))
                 (rc_Requests req) (False, False)
           in if isRead \<and> isWrite then Inl ''read and write can't be mixed in one batch''
              else if isWrite then Inr P_proposeNormal
              else if (case rc_Header req of Some h \<Rightarrow> \<not> rh_ReadQuorum h | None \<Rightarrow> False) then Inr readLocal
              else Inr readIndex))"

definition countHealthyNode :: "'n RawNode \<Rightarrow> 'n PeerReplicate \<Rightarrow> nat" where
  "countHealthyNode rn pr =
     fold (\<lambda>(_, p) healthy. if pg_Match p \<ge> getTruncatedIndex (pr_ps pr) then healthy + 1 else healthy)
       (st_Progress (rn_Status rn (pr_rn pr))) 0"

text \<open>\<open>None\<close> allows the change.\<close>

definition checkConfChange ::
  "'n RawNode \<Rightarrow> 'n PeerReplicate \<Rightarrow> ConfChangeType \<Rightarrow> Peer \<Rightarrow> string option" where
  "checkConfChange rn pr changeType peer =
     (let progress = st_Progress (rn_Status rn (pr_rn pr));
          total = length progress;
          known = (map_of progress (p_ID peer) \<noteq> None);
          verdict = (\<lambda>total. if countHealthyNode rn pr \<ge> total div 2 + 1 then None
                             else Some ''unsafe to perform conf change'')
      in if total = 1 then None
         else case changeType of
                AddNode \<Rightarrow> verdict (if known then total else total + 1)
              | RemoveNode \<Rightarrow> if \<not> known then None else verdict (total - 1))"

definition isTransferLeaderAllowed :: "'n RawNode \<Rightarrow> 'n PeerReplicate \<Rightarrow> Peer \<Rightarrow> bool" where
  "isTransferLeaderAllowed rn pr newLeaderPeer =
     (let progress = st_Progress (rn_Status rn (pr_rn pr))
      in case map_of progress (p_ID newLeaderPeer) of
           None \<Rightarrow> False
         | Some p \<Rightarrow> \<not> list_ex (\<lambda>(_, q). pg_Snapshot q) progress \<and>
                     LastIndex (pr_ps pr) \<le> pg_Match p + transferLeaderAllowLogLag)"

subsection \<open>Proposals\<close>

text \<open>Each handler returns the answers it gave, whether the command goes on to the apply worker,
  and the changed replicate.\<close>

type_synonym 'n proposal = "fault + answer list \<times> bool \<times> 'n PeerReplicate"

definition refuse :: "'n PeerReplicate \<Rightarrow> fault + answer list \<Rightarrow> 'n proposal" where
  "refuse pr r = sbind r (\<lambda>a. Inr (a, False, pr))"

definition not_leader :: "'n proposeEnv \<Rightarrow> 'n PeerReplicate \<Rightarrow> cmd \<Rightarrow> fault + answer list" where
  "not_leader env pr c =
     respNotLeader c (pr_cellID pr) (getPeer (pe_store env) (getLeaderPeerID (pe_rn env) pr))"

fun exec_reads :: "'n proposeEnv \<Rightarrow> u64 \<Rightarrow> Request list \<Rightarrow> fault + Response list" where
  "exec_reads env cellID [] = Inr []"
| "exec_reads env cellID (req # reqs) =
     (if pe_isRead env (rq_Type req) then
        sbind (pe_readHandle env cellID req) (\<lambda>r. sbind (exec_reads env cellID reqs) (\<lambda>rs. Inr (r # rs)))
      else exec_reads env cellID reqs)"

definition doExecReadCmd :: "'n proposeEnv \<Rightarrow> 'n PeerReplicate \<Rightarrow> cmd \<Rightarrow> fault + answer list" where
  "doExecReadCmd env pr c =
     sbind (exec_reads env (pr_cellID pr) (rc_Requests (cm_req c))) (\<lambda>rsps.
       cmd_resp c \<lparr>rr_Header = None, rr_Responses = rsps, rr_AdminResponse = None\<rparr>)"

definition execReadLocal :: "'n proposeEnv \<Rightarrow> 'n PeerReplicate \<Rightarrow> cmd \<Rightarrow> 'n proposal" where
  "execReadLocal env pr c = refuse pr (doExecReadCmd env pr c)"

definition riq_push :: "cmd \<Rightarrow> readIndexQueue \<Rightarrow> readIndexQueue" where
  "riq_push c q = q\<lparr>ri_reads := ri_reads q @ [c]\<rparr>"

definition riq_pop :: "readIndexQueue \<Rightarrow> cmd option \<times> readIndexQueue" where
  "riq_pop q = (case ri_reads q of [] \<Rightarrow> (None, q) | c # cs \<Rightarrow> (Some c, q\<lparr>ri_reads := cs\<rparr>))"

definition execReadIndex :: "'n proposeEnv \<Rightarrow> 'n PeerReplicate \<Rightarrow> cmd \<Rightarrow> 'n proposal" where
  "execReadIndex env pr c =
     (let rn = pe_rn env
      in if \<not> isLeader rn pr then refuse pr (not_leader env pr c)
         else case cmd_uuid c of
                None \<Rightarrow> Inl Panic
              | Some uuid \<Rightarrow>
                  (let node = rn_ReadIndex rn uuid (pr_rn pr); pr' = pr\<lparr>pr_rn := node\<rparr>
                   in if rn_PendingReadCount rn node = rn_PendingReadCount rn (pr_rn pr) \<and>
                         rn_ReadyReadCount rn node = rn_ReadyReadCount rn (pr_rn pr)
                      then refuse pr' (not_leader env pr' c)
                      else Inr ([], False, pr'\<lparr>pr_pendingReads := riq_push c (pr_pendingReads pr')\<rparr>)))"

definition proposeNormal :: "'n proposeEnv \<Rightarrow> 'n PeerReplicate \<Rightarrow> cmd \<Rightarrow> 'n proposal" where
  "proposeNormal env pr c =
     (let rn = pe_rn env; sz = pe_size env (cm_req c)
      in if \<not> isLeader rn pr then refuse pr (not_leader env pr c)
         else if sz > cf_LimitRaftEntryBytes (pe_cfg env) then refuse pr (respLargeRaftEntrySize c (pr_cellID pr) sz)
         else case rn_Propose rn (cm_req c) (pr_rn pr) of
                Inl err \<Rightarrow> refuse pr (cmd_resp c (errorOtherCMDResp err))
              | Inr node \<Rightarrow>
                  (let pr' = pr\<lparr>pr_rn := node\<rparr>
                   in if rn_NextProposalIndex rn (pr_rn pr) = rn_NextProposalIndex rn node
                      then refuse pr' (not_leader env pr' c)
                      else Inr ([], True, pr')))"

definition proposeConfChange ::
  "'n proposeEnv \<Rightarrow> 'n PeerReplicate \<Rightarrow> ConfChangeType \<Rightarrow> Peer \<Rightarrow> cmd \<Rightarrow> 'n proposal" where
  "proposeConfChange env pr changeType peer c =
     (let rn = pe_rn env
      in case checkConfChange rn pr changeType peer of
           Some err \<Rightarrow> refuse pr (respOtherError c err)
         | None \<Rightarrow>
             (case rn_ProposeConfChange rn
                     \<lparr>cc_Type = changeType, cc_NodeID = p_ID peer, cc_Context = cm_req c\<rparr> (pr_rn pr) of
                Inl err \<Rightarrow> refuse pr (respOtherError c err)
              | Inr node \<Rightarrow>
                  (let pr' = pr\<lparr>pr_rn := node\<rparr>
                   in if rn_NextProposalIndex rn (pr_rn pr) = rn_NextProposalIndex rn node
                      then refuse pr' (not_leader env pr' c)
                      else Inr ([], True, pr'))))"

definition proposeTransferLeader :: "'n proposeEnv \<Rightarrow> 'n PeerReplicate \<Rightarrow> Peer \<Rightarrow> cmd \<Rightarrow> 'n proposal" where
  "proposeTransferLeader env pr peer c =
     (let pr' = (if isTransferLeaderAllowed (pe_rn env) pr peer
                 then pr\<lparr>pr_rn := rn_TransferLeader (pe_rn env) (p_ID peer) (pr_rn pr)\<rparr> else pr)
      in refuse pr' (cmd_resp c (newAdminRaftCMDResponse TransferLeaderRsp)))"

definition dispatch ::
  "'n proposeEnv \<Rightarrow> 'n PeerReplicate \<Rightarrow> requestPolicy \<Rightarrow> cmd \<Rightarrow> 'n proposal" where
  "dispatch env pr policy c =
     (case policy of
        readLocal \<Rightarrow> execReadLocal env pr c
      | readIndex \<Rightarrow> execReadIndex env pr c
      | P_proposeNormal \<Rightarrow> proposeNormal env pr c
      | P_proposeTransferLeader \<Rightarrow>
          (case rc_AdminRequest (cm_req c) of
             Some (TransferLeader p) \<Rightarrow> proposeTransferLeader env pr p c | _ \<Rightarrow> Inl Fatalf)
      | P_proposeChange \<Rightarrow>
          (case rc_AdminRequest (cm_req c) of
             Some (ChangePeer t p) \<Rightarrow> proposeConfChange env pr t p c | _ \<Rightarrow> Inl Fatalf))"

text \<open>The result of \<open>propose\<close>: the answers, the jobs added to the apply worker (a command and
  whether it changes the membership), the replicate.\<close>

definition propose ::
  "'n proposeEnv \<Rightarrow> 'n PeerReplicate \<Rightarrow> cmd \<Rightarrow> fault + answer list \<times> (cmd \<times> bool) list \<times> 'n PeerReplicate" where
  "propose env pr c =
     sbind (checkProposal env pr c) (\<lambda>(as, checked).
       case checked of
         None \<Rightarrow> Inr (as, [], pr)
       | Some c \<Rightarrow>
           (case getHandlePolicy env (cm_req c) of
              Inl err \<Rightarrow> sbind (cmd_resp c (errorOtherCMDResp err)) (\<lambda>a. Inr (as @ a, [], pr))
            | Inr policy \<Rightarrow>
                sbind (dispatch env pr policy c) (\<lambda>(a, doPropose, pr).
                  if \<not> doPropose then Inr (as @ a, [], pr)
                  else if pe_addJob env then Inr (as @ a, [(c, policy = P_proposeChange)], pr)
                  else sbind (respOtherError c ''job queue stopped'') (\<lambda>a'. Inr (as @ a @ a', [], pr)))))"

subsection \<open>The request loop\<close>

fun push_all ::
  "'n proposeEnv \<Rightarrow> 'n PeerReplicate \<Rightarrow> (bytes \<times> reqCtx) list \<Rightarrow> proposeBatch \<Rightarrow> fault + proposeBatch" where
  "push_all env pr [] b = Inr b"
| "push_all env pr ((uuid, c) # cs) b = sbind (batch_push env pr uuid c b) (push_all env pr cs)"

text \<open>\<^verbatim>\<open>for !batch.isEmpty() { propose(batch.pop()) }\<close>: a proposal does not touch the batch.\<close>

fun propose_all ::
  "'n proposeEnv \<Rightarrow> cmd list \<Rightarrow> 'n PeerReplicate \<Rightarrow> fault + answer list \<times> (cmd \<times> bool) list \<times> 'n PeerReplicate" where
  "propose_all env [] pr = Inr ([], [], pr)"
| "propose_all env (c # cs) pr =
     sbind (propose env (pr\<lparr>pr_batch := (pr_batch pr)\<lparr>pb_cmds := cs\<rparr>\<rparr>) c) (\<lambda>(a, j, pr).
     sbind (propose_all env cs pr) (\<lambda>(as, js, pr). Inr (a @ as, j @ js, pr)))"

text \<open>\<^verbatim>\<open>handleRequest\<close> on the requests taken from the queue, each with the identifier a command
  started by it gets.\<close>

definition handleRequest ::
  "'n proposeEnv \<Rightarrow> (bytes \<times> reqCtx) list \<Rightarrow> 'n PeerReplicate \<Rightarrow>
   fault + answer list \<times> (cmd \<times> bool) list \<times> 'n PeerReplicate" where
  "handleRequest env items pr =
     sbind (push_all env pr items (pr_batch pr)) (\<lambda>b.
       propose_all env (pb_cmds b) (pr\<lparr>pr_batch := b\<rparr>))"

text \<open>\<^verbatim>\<open>doPropose\<close> runs on the apply worker and hands the command to the delegate.\<close>

definition doPropose ::
  "u64 \<Rightarrow> cmd \<Rightarrow> bool \<Rightarrow> applyDelegateMap \<Rightarrow> fault + answer list \<times> applyDelegateMap" where
  "doPropose cellID c isConfChange delegates =
     (case delegates cellID of
        None \<Rightarrow> sbind (respCellNotFound c cellID) (\<lambda>a. Inr (a, delegates))
      | Some d \<Rightarrow>
          if c_ID (da_cell d) \<noteq> cellID then Inl Fatalf
          else if isConfChange then
            sbind (case da_pendingChangePeerCMD d of
                     Some (Live old) \<Rightarrow> if rc_Header (cm_req old) \<noteq> None then notifyStaleCMD d old else Inr []
                   | _ \<Rightarrow> Inr []) (\<lambda>a.
              Inr (a, delegates(cellID \<mapsto> setPendingChangePeerCMD c d)))
          else Inr ([], delegates(cellID \<mapsto> appendPendingCmd c d)))"

subsection \<open>Log compaction\<close>

definition replicatedIdx :: "(u64 \<times> Progress) list \<Rightarrow> u64" where
  "replicatedIdx progress =
     fold (\<lambda>(_, p) idx. let idx = (if idx = 0 then pg_Match p else idx)
                        in if pg_Match p < idx then pg_Match p else idx) progress 0"

text \<open>\<^verbatim>\<open>handleCheckCompact\<close>: \<open>Inr None\<close> sends nothing, otherwise the index and term of the
  compaction that is proposed.\<close>

definition handleCheckCompact ::
  "Cfg \<Rightarrow> 'n RawNode \<Rightarrow> 'n PeerReplicate \<Rightarrow> fault + AdminRequest option" where
  "handleCheckCompact cfg rn pr =
     (let replicated = replicatedIdx (st_Progress (rn_Status rn (pr_rn pr)));
          applied = getAppliedIndex (pr_ps pr);
          firstIdx = FirstIndex (pr_ps pr)
      in if replicated > 0 \<and> rn_LastIndex rn (pr_rn pr) < replicated then Inl Fatalf
         else if replicated < firstIdx \<or> replicated - firstIdx \<le> cf_ThresholdCompact cfg then Inr None
         else
           (let compactIdx =
                  (if applied > firstIdx \<and> applied - firstIdx \<ge> cf_LimitCompactCount cfg then applied
                   else if pr_raftLogSizeHint pr \<ge> cf_LimitCompactBytes cfg then applied
                   else replicated)
            in if compactIdx = 0 then Inl Fatalf
               else
                 (let compactIdx = (if compactIdx > replicated \<and> compactIdx - replicated \<le> cf_LimitCompactLag cfg
                                    then replicated else compactIdx);
                      compactIdx = compactIdx - 1
                  in if compactIdx < firstIdx then Inr None
                     else Inr (Some (newCompactLogRequest compactIdx (rn_Term rn compactIdx (pr_rn pr)))))))"

end
