(* ===== verification/Ready.thy ===== *)
theory Ready
  imports Propose
begin

text \<open>
  The raft ready loop of \<^verbatim>\<open>peer_raft.go\<close> and \<^verbatim>\<open>raft_handle_do.go\<close>: persist what raft hands out, send
  its messages, start the jobs that apply snapshots and entries, and serve reads.  A trace records
  the effects in the order the code performs them.
\<close>

record Ready =
  rd_SoftState :: "bool option"
  rd_HardState :: HardState
  rd_ReadStates :: "bytes list"
  rd_Entries :: "Entry list"
  rd_Snapshot :: Snapshot
  rd_CommittedEntries :: "Entry list"
  rd_Messages :: "Message list"

definition IsEmptySnap :: "Snapshot \<Rightarrow> bool" where
  "IsEmptySnap sp = (sn_Index sp = 0)"

definition IsEmptyHardState :: "HardState \<Rightarrow> bool" where
  "IsEmptyHardState st = (st = zeroHardState)"

datatype event =
    E_Heartbeat
  | E_Send RaftMessage
  | E_Write "stored WriteBatch"
  | E_DestroyData bytes bytes
  | E_RemoveSending u64
  | E_ApplySnapJob
  | E_Register applyDelegate
  | E_ApplyJob u64 u64 "Entry list"

text \<open>The further operations of the raft node, and what the store tells about a snapshot.\<close>

record 'n readyEnv =
  re_env :: "'n proposeEnv"
  re_HasPendingSnapshot :: "'n \<Rightarrow> bool"
  re_ReadySince :: "u64 \<Rightarrow> 'n \<Rightarrow> Ready"
  re_AdvanceAppend :: "Ready \<Rightarrow> 'n \<Rightarrow> 'n"
  re_AdvanceApply :: "u64 \<Rightarrow> 'n \<Rightarrow> 'n"
  re_ReportSnapshot :: "u64 \<Rightarrow> 'n \<Rightarrow> 'n"
  re_snapExists :: "SnapshotMessageHeader \<Rightarrow> bool"
  re_dataLen :: "EntryData \<Rightarrow> u64"

record 'n readyState =
  ry_pr :: "'n PeerReplicate"
  ry_eng :: "stored KVTree"
  ry_keyRanges :: CellTree
  ry_trace :: "event list"
  ry_answers :: "answer list"

definition emit :: "event list \<Rightarrow> 'n readyState \<Rightarrow> 'n readyState" where
  "emit es s = s\<lparr>ry_trace := ry_trace s @ es\<rparr>"

definition ry_leader :: "'n readyEnv \<Rightarrow> 'n readyState \<Rightarrow> bool" where
  "ry_leader re s = isLeader (pe_rn (re_env re)) (ry_pr s)"

subsection \<open>Sending\<close>

definition sendRaftMsg :: "'n readyEnv \<Rightarrow> Message \<Rightarrow> 'n readyState \<Rightarrow> 'n readyState" where
  "sendRaftMsg re msg s =
     (let pr = ry_pr s; cell = ps_cell (pr_ps pr); to = getPeer (pe_store (re_env re)) (mg_To msg);
          ranged = (isInitialized (pr_ps pr) \<and>
                    (mg_Type msg = MsgVote \<or> mg_Type msg = MsgHeartbeat \<and> mg_Commit msg = 0));
          sendMsg = \<lparr>rm_CellID = c_ID cell, rm_FromPeer = pr_peer pr, rm_ToPeer = to, rm_Message = msg,
                     rm_CellEpoch = c_Epoch cell, rm_IsTombstone = False,
                     rm_Start = (if ranged then c_Start cell else []),
                     rm_End = (if ranged then c_End cell else [])\<rparr>
      in if p_ID to = 0 then s
         else emit [E_Send sendMsg]
                (if mg_Type msg = MsgSnap
                 then s\<lparr>ry_pr := pr\<lparr>pr_rn := re_ReportSnapshot re (mg_To msg) (pr_rn pr)\<rparr>\<rparr> else s))"

definition send :: "'n readyEnv \<Rightarrow> Message list \<Rightarrow> 'n readyState \<Rightarrow> 'n readyState" where
  "send re msgs s = fold (sendRaftMsg re) msgs s"

subsection \<open>Appending\<close>

definition handleAppendSnapshot ::
  "'n readyState \<Rightarrow> readyContext \<Rightarrow> Ready \<Rightarrow> fault + readyContext" where
  "handleAppendSnapshot s ctx rd =
     (if IsEmptySnap (rd_Snapshot rd) then Inr ctx
      else case doAppendSnapshot (ry_eng s) (pr_ps (ry_pr s)) ctx (rd_Snapshot rd) of
             Return ctx \<Rightarrow> Inr ctx
           | Fail _ \<Rightarrow> Inl Fatalf
           | Crash f \<Rightarrow> Inl f)"

definition handleAppendEntries :: "'n readyState \<Rightarrow> readyContext \<Rightarrow> Ready \<Rightarrow> readyContext" where
  "handleAppendEntries s ctx rd =
     (if length (rd_Entries rd) > 0 then doAppendEntries (pr_ps (ry_pr s)) ctx (rd_Entries rd) else ctx)"

definition handleSaveRaftState :: "'n readyState \<Rightarrow> readyContext \<Rightarrow> readyContext" where
  "handleSaveRaftState s ctx =
     (let tmp = cx_raftState ctx; origin = ps_raftState (pr_ps (ry_pr s))
      in if rl_LastIndex tmp \<noteq> rl_LastIndex origin \<or>
            hs_Commit (rl_HardState tmp) \<noteq> hs_Commit (rl_HardState origin) \<or>
            hs_Term (rl_HardState tmp) \<noteq> hs_Term (rl_HardState origin) \<or>
            hs_Vote (rl_HardState tmp) \<noteq> hs_Vote (rl_HardState origin)
         then doSaveRaftState (pr_ps (ry_pr s)) ctx else ctx)"

definition handleSaveApplyState :: "'n readyState \<Rightarrow> readyContext \<Rightarrow> readyContext" where
  "handleSaveApplyState s ctx =
     (let tmp = cx_applyState ctx; origin = ps_applyState (pr_ps (ry_pr s))
      in if as_AppliedIndex tmp \<noteq> as_AppliedIndex origin \<or>
            tr_Index (as_TruncatedState tmp) \<noteq> tr_Index (as_TruncatedState origin) \<or>
            tr_Term (as_TruncatedState tmp) \<noteq> tr_Term (as_TruncatedState origin)
         then doSaveApplyState (pr_ps (ry_pr s)) ctx else ctx)"

definition adopt_hard_state :: "readyContext \<Rightarrow> Ready \<Rightarrow> readyContext" where
  "adopt_hard_state ctx rd =
     (if rl_LastIndex (cx_raftState ctx) > 0 \<and> \<not> IsEmptyHardState (rd_HardState rd)
      then ctx\<lparr>cx_raftState := (cx_raftState ctx)\<lparr>rl_HardState := rd_HardState rd\<rparr>\<rparr> else ctx)"

definition resetBatch :: "'n PeerReplicate \<Rightarrow> 'n PeerReplicate" where
  "resetBatch pr = pr\<lparr>pr_batch := newBatch\<rparr>"

definition handleRaftReadyAppend ::
  "'n readyEnv \<Rightarrow> readyContext \<Rightarrow> Ready \<Rightarrow> 'n readyState \<Rightarrow> fault + readyContext \<times> 'n readyState" where
  "handleRaftReadyAppend re ctx rd s =
     (let s = (if rd_SoftState rd = Some True
               then emit [E_Heartbeat] (s\<lparr>ry_pr := resetBatch (ry_pr s)\<rparr>) else s);
          s = (if ry_leader re s then send re (rd_Messages rd) s else s);
          ctx = ctx\<lparr>cx_wb := []\<rparr>
      in sbind (handleAppendSnapshot s ctx rd) (\<lambda>ctx.
           let ctx = handleAppendEntries s ctx rd;
               ctx = adopt_hard_state ctx rd;
               ctx = handleSaveRaftState s ctx;
               ctx = handleSaveApplyState s ctx
           in Inr (ctx, emit [E_Write (cx_wb ctx)] (s\<lparr>ry_eng := driver_Write (ry_eng s) (cx_wb ctx)\<rparr>))))"

subsection \<open>Applying\<close>

definition pr_applyCommittedEntries :: "'n readyEnv \<Rightarrow> Ready \<Rightarrow> 'n readyState \<Rightarrow> 'n readyState" where
  "pr_applyCommittedEntries re rd s =
     (let pr = ry_pr s; ps = pr_ps pr
      in if isApplyingSnap ps then s\<lparr>ry_pr := pr\<lparr>pr_ps := ps\<lparr>ps_lastReadyIndex := getTruncatedIndex ps\<rparr>\<rparr>\<rparr>
         else
           (let pr = pr\<lparr>pr_raftLogSizeHint :=
                  fold (\<lambda>e n. n + re_dataLen re (en_Data e)) (rd_CommittedEntries rd) (pr_raftLogSizeHint pr)\<rparr>
            in if length (rd_CommittedEntries rd) > 0
               then emit [E_ApplyJob (pr_cellID pr) (getCurrentTerm (pe_rn (re_env re)) pr) (rd_CommittedEntries rd)]
                      (s\<lparr>ry_pr := pr\<lparr>pr_ps := ps\<lparr>ps_lastReadyIndex := en_Index (last (rd_CommittedEntries rd))\<rparr>\<rparr>\<rparr>)
               else s\<lparr>ry_pr := pr\<rparr>))"

definition readyToHandleRead :: "'n proposeEnv \<Rightarrow> 'n PeerReplicate \<Rightarrow> bool" where
  "readyToHandleRead env pr = (ps_appliedIndexTerm (pr_ps pr) = getCurrentTerm (pe_rn env) pr)"

fun serve_reads ::
  "'n proposeEnv \<Rightarrow> bytes list \<Rightarrow> 'n PeerReplicate \<Rightarrow> fault + answer list \<times> 'n PeerReplicate" where
  "serve_reads env [] pr = Inr ([], pr)"
| "serve_reads env (ctx # ctxs) pr =
     (case riq_pop (pr_pendingReads pr) of
        (None, _) \<Rightarrow> Inl Panic
      | (Some c, q) \<Rightarrow>
          (case cmd_uuid c of
             None \<Rightarrow> Inl Panic
           | Some u \<Rightarrow>
               if bytesCompare ctx u \<noteq> 0 then Inl Fatalf
               else sbind (doExecReadCmd env pr c) (\<lambda>a.
                    sbind (serve_reads env ctxs (pr\<lparr>pr_pendingReads := q\<rparr>)) (\<lambda>(as, pr). Inr (a @ as, pr)))))"

definition stale_answer :: "'n proposeEnv \<Rightarrow> 'n PeerReplicate \<Rightarrow> cmd \<Rightarrow> fault + answer list" where
  "stale_answer env pr c =
     (if cmd_uuid c = None then Inl Panic
      else cmd_resp c (errorStaleCMDResp (cmd_uuid c) (getCurrentTerm (pe_rn env) pr)))"

text \<open>\<^verbatim>\<open>for i := 0; i < pr.batch.size(); i++ { pop }\<close>: the bound shrinks while the index grows.\<close>

fun pop_shrinking :: "nat \<Rightarrow> cmd list \<Rightarrow> cmd list" where
  "pop_shrinking i [] = []"
| "pop_shrinking i (c # cs) = (if i < length (c # cs) then c # pop_shrinking (i + 1) cs else [])"

definition doApplyReads ::
  "'n proposeEnv \<Rightarrow> Ready \<Rightarrow> 'n PeerReplicate \<Rightarrow> fault + answer list \<times> 'n PeerReplicate" where
  "doApplyReads env rd pr =
     sbind (if readyToHandleRead env pr then serve_reads env (rd_ReadStates rd) pr
            else Inr ([], pr\<lparr>pr_pendingReads := (pr_pendingReads pr)
                   \<lparr>ri_readyCnt := ri_readyCnt (pr_pendingReads pr) + length (rd_ReadStates rd)\<rparr>\<rparr>)) (\<lambda>(as, pr).
       if rd_SoftState rd = Some False then
         sbind (notify_all (stale_answer env pr) (ri_reads (pr_pendingReads pr))) (\<lambda>bs.
         sbind (notify_all (stale_answer env pr) (pop_shrinking 0 (pb_cmds (pr_batch pr)))) (\<lambda>cs.
           Inr (as @ bs @ cs, resetBatch (pr\<lparr>pr_pendingReads := \<lparr>ri_reads = [], ri_readyCnt = 0\<rparr>\<rparr>))))
       else Inr (as, pr))"

definition updateKeyRange :: "applySnapResult \<Rightarrow> CellTree \<Rightarrow> fault + CellTree" where
  "updateKeyRange result ranges =
     sbind (if length (c_Peers (sr_prevCell result)) > 0
            then (case CellTree_Remove ranges (sr_prevCell result) of
                    (True, ranges) \<Rightarrow> Inr ranges | (False, _) \<Rightarrow> Inl Fatalf)
            else Inr ranges) (\<lambda>ranges. Inr (CellTree_Update ranges (sr_cell result)))"

definition handleRaftReadyApply ::
  "'n readyEnv \<Rightarrow> readyContext \<Rightarrow> Ready \<Rightarrow> 'n readyState \<Rightarrow> fault + 'n readyState" where
  "handleRaftReadyApply re ctx rd s =
     (let pr = ry_pr s;
          pr = (if cx_snap ctx \<noteq> None then pr\<lparr>pr_raftLogSizeHint := 0\<rparr> else pr)
      in sbind (doApplySnap (pr_ps pr) ctx) (\<lambda>(ps, destroyed, removed, result).
           let s = emit (map (\<lambda>(a, b). E_DestroyData a b) destroyed @
                         (if result \<noteq> None then [E_ApplySnapJob] else []) @ map E_RemoveSending removed)
                     (s\<lparr>ry_pr := pr\<lparr>pr_ps := ps\<rparr>\<rparr>);
               s = (if \<not> ry_leader re s then send re (rd_Messages rd) s else s);
               s = (if result \<noteq> None
                    then emit [E_Register (startRegistrationJob (p_ID (pr_peer (ry_pr s)))
                                 (getCurrentTerm (pe_rn (re_env re)) (ry_pr s)) (pr_ps (ry_pr s)))] s
                    else s);
               s = pr_applyCommittedEntries re rd s
           in sbind (doApplyReads (re_env re) rd (ry_pr s)) (\<lambda>(as, pr).
              sbind (case result of None \<Rightarrow> Inr (ry_keyRanges s) | Some r \<Rightarrow> updateKeyRange r (ry_keyRanges s)) (\<lambda>ranges.
                let node = re_AdvanceAppend re rd (pr_rn pr);
                    node = (if result \<noteq> None then re_AdvanceApply re (ps_lastReadyIndex (pr_ps pr)) node else node)
                in Inr (s\<lparr>ry_pr := pr\<lparr>pr_rn := node\<rparr>, ry_keyRanges := ranges,
                         ry_answers := ry_answers s @ as\<rparr>)))))"

text \<open>An empty body unmarshals to the zero message.\<close>

definition zeroSnapHeader :: SnapshotMessageHeader where
  "zeroSnapHeader = \<lparr>sh_Cell = emptyCell, sh_FromPeer = \<lparr>p_ID = 0, p_StoreID = 0\<rparr>,
     sh_ToPeer = \<lparr>p_ID = 0, p_StoreID = 0\<rparr>, sh_Term = 0, sh_Index = 0\<rparr>"

definition handleReady :: "'n readyEnv \<Rightarrow> 'n readyState \<Rightarrow> fault + 'n readyState" where
  "handleReady re s =
     (let pr = ry_pr s; ps = pr_ps pr
      in if isApplyingSnap ps then Inr s
         else
           (let ps = ps\<lparr>ps_applySnapJob := None\<rparr>; pr = pr\<lparr>pr_ps := ps\<rparr>; s = s\<lparr>ry_pr := pr\<rparr>
            in if re_HasPendingSnapshot re (pr_rn pr) \<and> \<not> isApplyComplete ps then Inr s
               else
                 (let rd = re_ReadySince re (ps_lastReadyIndex ps) (pr_rn pr);
                      snap = (if IsEmptySnap (rd_Snapshot rd) then None
                              else Some (case sn_Data (rd_Snapshot rd) of None \<Rightarrow> zeroSnapHeader | Some h \<Rightarrow> h));
                      s = (if IsEmptySnap (rd_Snapshot rd) then s else s\<lparr>ry_pr := pr\<lparr>pr_stopRaftTick := True\<rparr>\<rparr>)
                  in if (case snap of None \<Rightarrow> False | Some h \<Rightarrow> \<not> re_snapExists re h) then Inr s
                     else
                       (let ctx = \<lparr>cx_raftState = ps_raftState ps, cx_applyState = ps_applyState ps,
                                   cx_lastTerm = ps_lastTerm ps, cx_snap = snap, cx_wb = []\<rparr>
                        in sbind (handleRaftReadyAppend re ctx rd s) (\<lambda>(ctx, s). handleRaftReadyApply re ctx rd s)))))"

subsection \<open>After an apply\<close>

fun pop_reads :: "'n proposeEnv \<Rightarrow> nat \<Rightarrow> 'n PeerReplicate \<Rightarrow> fault + answer list \<times> 'n PeerReplicate" where
  "pop_reads env 0 pr = Inr ([], pr)"
| "pop_reads env (Suc n) pr =
     (case riq_pop (pr_pendingReads pr) of
        (None, _) \<Rightarrow> Inl Panic
      | (Some c, q) \<Rightarrow>
          sbind (doExecReadCmd env pr c) (\<lambda>a.
          sbind (pop_reads env n (pr\<lparr>pr_pendingReads := q\<rparr>)) (\<lambda>(as, pr). Inr (a @ as, pr))))"

definition hasSplitExecResult :: "asyncApplyResult \<Rightarrow> bool" where
  "hasSplitExecResult res = (case ar_result res of Some (ERSplit _ _) \<Rightarrow> True | _ \<Rightarrow> False)"

definition doPostApply ::
  "'n readyEnv \<Rightarrow> asyncApplyResult \<Rightarrow> 'n PeerReplicate \<Rightarrow> fault + answer list \<times> 'n PeerReplicate" where
  "doPostApply re result pr =
     (if isApplyingSnap (pr_ps pr) then Inl Fatalf
      else
        (let m = ar_metrics result; split = hasSplitExecResult result;
             pr = pr\<lparr>pr_ps := (pr_ps pr)\<lparr>ps_applyState := ar_applyState result,
                                        ps_appliedIndexTerm := ar_appliedIndexTerm result\<rparr>,
                    pr_rn := re_AdvanceApply re (as_AppliedIndex (ar_applyState result)) (pr_rn pr),
                    pr_writtenBytes := pr_writtenBytes pr + am_writtenBytes m,
                    pr_writtenKeys := pr_writtenKeys pr + am_writtenKeys m,
                    pr_deleteKeysHint := (if split then 0 else pr_deleteKeysHint pr) + am_deleteKeysHint m,
                    pr_sizeDiffHint := (if split then 0 else pr_sizeDiffHint pr) + am_sizeDiffHint m\<rparr>;
             readyCnt = ri_readyCnt (pr_pendingReads pr)
         in if readyCnt > 0 \<and> readyToHandleRead (re_env re) pr then
              sbind (pop_reads (re_env re) readyCnt pr) (\<lambda>(as, pr).
                Inr (as, pr\<lparr>pr_pendingReads := (pr_pendingReads pr)\<lparr>ri_readyCnt := 0\<rparr>\<rparr>))
            else Inr ([], pr)))"

definition doApplyRaftLogGC :: "RaftTruncatedState \<Rightarrow> u64 \<Rightarrow> 'n PeerReplicate \<Rightarrow> fault + (u64 \<times> u64) \<times> 'n PeerReplicate" where
  "doApplyRaftLogGC st firstIndex pr =
     (let ps = pr_ps pr;
          total = ps_lastReadyIndex ps - firstIndex;
          remain = ps_lastReadyIndex ps - tr_Index st - 1;
          endIndex = tr_Index st + 1
      in if total = 0 then Inl Panic
         else Inr ((ps_lastCompactIndex ps, endIndex),
                   pr\<lparr>pr_raftLogSizeHint := pr_raftLogSizeHint pr * remain div total,
                      pr_ps := ps\<lparr>ps_lastCompactIndex := endIndex\<rparr>\<rparr>))"

end
