(* ===== verification/Apply_Props.thy ===== *)
theory Apply_Props
  imports Apply_Delegate "HOL-Library.Multiset"
begin

text \<open>
  What applying committed entries guarantees: the applied index moves by one per entry and is
  durable, every pending command is answered at most once, a split partitions the cell, a
  membership change keeps one peer per store.
\<close>

subsection \<open>Frame of the execution half\<close>

definition world_ok :: "'k world \<Rightarrow> bool" where
  "world_ok w \<longleftrightarrow> (\<forall>i. kv_wf (w_meta w i))"

lemma world_ok_get [wf_intros]: "world_ok w \<Longrightarrow> kv_wf (get_meta w c)"
  by (simp add: world_ok_def get_meta_def)

lemma world_ok_put [wf_intros]: "world_ok w \<Longrightarrow> kv_wf t \<Longrightarrow> world_ok (put_meta c t w)"
  by (simp add: world_ok_def put_meta_def)

lemma world_ok_write [wf_intros]: "world_ok w \<Longrightarrow> world_ok (write_meta c wb w)"
  by (simp add: write_meta_def wf_intros)

lemma world_ok_fields [simp]: "world_ok (answer as w) = world_ok w" "world_ok (w\<lparr>w_data := x\<rparr>) = world_ok w"
  "world_ok (w\<lparr>w_idx := y\<rparr>) = world_ok w" "world_ok (w\<lparr>w_results := z\<rparr>) = world_ok w"
  "world_ok (w\<lparr>w_removedSnaps := u\<rparr>) = world_ok w"
  by (simp_all add: world_ok_def answer_def)

lemma world_meta_simps [simp]:
  "get_meta (put_meta c t w) c = t"
  "w_answers (put_meta c t w) = w_answers w" "w_answers (write_meta c wb w) = w_answers w"
  "w_answers (answer as w) = w_answers w @ as" "get_meta (answer as w) c = get_meta w c"
  "get_meta (w\<lparr>w_results := z\<rparr>) c = get_meta w c" "get_meta (w\<lparr>w_data := x\<rparr>) c = get_meta w c"
  "get_meta (w\<lparr>w_removedSnaps := u\<rparr>) c = get_meta w c"
  by (simp_all add: get_meta_def put_meta_def write_meta_def answer_def)

definition exec_frame :: "applyContext \<Rightarrow> applyDelegate \<Rightarrow> 'k world \<Rightarrow> applyContext \<Rightarrow> applyDelegate \<Rightarrow> 'k world \<Rightarrow> bool" where
  "exec_frame ctx d w ctx' d' w' \<longleftrightarrow>
     ax_index ctx' = ax_index ctx \<and> ax_term ctx' = ax_term ctx \<and> ax_req ctx' = ax_req ctx \<and>
     da_peerID d' = da_peerID d \<and> c_ID (da_cell d') = c_ID (da_cell d) \<and>
     da_pendingCMDs d' = da_pendingCMDs d \<and> da_pendingChangePeerCMD d' = da_pendingChangePeerCMD d \<and>
     w_answers w' = w_answers w \<and> (world_ok w \<longrightarrow> world_ok w')"

lemma change_peer_frame:
  "doExecChangePeer t p ctx d w = Inr (resp, res, err, ctx', d', w') \<Longrightarrow> exec_frame ctx d w ctx' d' w'"
  by (auto simp: doExecChangePeer_def exec_frame_def Let_def split: ConfChangeType.splits if_splits)

lemma split_frame:
  "doExecSplit k i ids ctx d w = Inr (resp, res, err, ctx', d', w') \<Longrightarrow> exec_frame ctx d w ctx' d' w'"
  by (auto simp: doExecSplit_def exec_frame_def Let_def sbind_Inr_iff wf_intros split: if_splits)

lemma raft_gc_frame:
  "doExecRaftGC i t ctx d w = Inr (resp, res, err, ctx', d', w') \<Longrightarrow> exec_frame ctx d w ctx' d' w'"
  by (auto simp: doExecRaftGC_def exec_frame_def Let_def split: if_splits option.splits)

lemma admin_frame:
  "execAdminRequest a ctx d w = Inr (resp, res, err, ctx', d', w') \<Longrightarrow> exec_frame ctx d w ctx' d' w'"
  by (auto simp: execAdminRequest_def split: AdminRequest.splits
      dest: change_peer_frame split_frame raft_gc_frame) (auto simp: exec_frame_def)

lemma write_frame:
  "execWriteRequest env h ctx d w = Inr (resp, rb, m, w') \<Longrightarrow> exec_frame ctx d w ctx d w'"
  by (auto simp: execWriteRequest_def Let_def sbind_Inr_iff exec_frame_def)

lemma exec_cmd_frame:
  assumes "exec_cmd env ctx d w = Inr (resp, res, rb, m, ctx', d', w')"
  shows "exec_frame ctx d w ctx' d' w'"
proof (cases "checkEpoch (da_cell d) (ax_req ctx)")
  case True
  then show ?thesis
    using assms admin_frame write_frame
    by (auto simp: exec_cmd_def sbind_Inr_iff split: option.splits) blast+
qed (use assms in \<open>auto simp: exec_cmd_def sbind_Inr_iff exec_frame_def\<close>)

lemma flush_batch_frame:
  "flush_batch env rb d w = Inr w' \<Longrightarrow>
     w_answers w' = w_answers w \<and> (world_ok w \<longrightarrow> world_ok w')"
  by (auto simp: flush_batch_def Let_def split: if_splits option.splits)

subsection \<open>Applied index\<close>

definition durable :: "applyDelegate \<Rightarrow> 'k world \<Rightarrow> bool" where
  "durable d w \<longleftrightarrow> KV_Get (get_meta w (c_ID (da_cell d))) (getApplyStateKey (c_ID (da_cell d))) =
     Some (SApply (da_applyState d))"

text \<open>A step of the apply loop: one more entry applied and, unless the peer removed itself,
  the apply state stored under the cell's key.\<close>

definition applied_to :: "u64 \<Rightarrow> applyDelegate \<Rightarrow> 'k world \<Rightarrow> applyDelegate \<Rightarrow> 'k world \<Rightarrow> bool" where
  "applied_to i d w d' w' \<longleftrightarrow>
     as_AppliedIndex (da_applyState d') = i \<and> c_ID (da_cell d') = c_ID (da_cell d) \<and>
     (world_ok w \<longrightarrow> world_ok w' \<and> (\<not> da_pendingRemove d' \<longrightarrow> durable d' w'))"

lemma findCB_frame:
  "findCB ctx d = Inr (c, as, d') \<Longrightarrow>
     c_ID (da_cell d') = c_ID (da_cell d) \<and> da_applyState d' = da_applyState d \<and>
     da_pendingRemove d' = da_pendingRemove d \<and> da_cell d' = da_cell d \<and> da_term d' = da_term d"
  by (auto simp: findCB_def sbind_Inr_iff split: if_splits option.splits cmd_ref.splits)

lemma commit_durable:
  assumes "commit_apply ctx d w = (d', w')"
  shows "applied_to (ax_index ctx) d w d' w'"
  using assms
  by (auto simp: commit_apply_def applied_to_def durable_def Let_def write_meta_def KV_Get_map wf_intros
      driver_Write_Set)

lemma answer_found_frame:
  assumes "answer_found c resp ctx d w = Inr (d', w')"
  shows "da_applyState d' = da_applyState d \<and> da_cell d' = da_cell d \<and> da_pendingRemove d' = da_pendingRemove d \<and>
    w_meta w' = w_meta w \<and> w_engines w' = w_engines w"
  using assms by (auto simp: answer_found_def sbind_Inr_iff answer_def split: option.splits if_splits)

lemma applied_to_cong:
  assumes "applied_to i d w d' w'" "c_ID (da_cell d0) = c_ID (da_cell d)" "world_ok w0 \<longrightarrow> world_ok w"
    and "da_applyState d1 = da_applyState d'" "da_cell d1 = da_cell d'" "da_pendingRemove d1 = da_pendingRemove d'"
    and "w_meta w1 = w_meta w'" "w_engines w1 = w_engines w'"
  shows "applied_to i d0 w0 d1 w1"
  using assms by (auto simp: applied_to_def durable_def world_ok_def get_meta_def)

lemma doApplyRaftCMD_E:
  assumes "doApplyRaftCMD env ctx d w = Inr (res, m, d', w')"
  obtains c as d1 resp rb ctx2 d2 w2 w3 where
    "findCB ctx d = Inr (c, as, d1)"
    "exec_cmd env (ctx\<lparr>ax_wb := []\<rparr>) d1 (answer as w) = Inr (resp, res, rb, m, ctx2, d2, w2)"
    "flush_batch env rb d2 w2 = Inr w3"
    "answer_found c resp ctx2 (fst (commit_apply ctx2 d2 w3)) (snd (commit_apply ctx2 d2 w3)) = Inr (d', w')"
  using assms by (auto simp: doApplyRaftCMD_def sbind_Inr_iff Let_def case_prod_beta split: if_splits)

lemma doApplyRaftCMD_applied:
  assumes "doApplyRaftCMD env ctx d w = Inr (res, m, d', w')"
  shows "applied_to (ax_index ctx) d w d' w'"
  using assms
proof (rule doApplyRaftCMD_E)
  fix c as d1 resp rb ctx2 d2 w2 w3
  assume "findCB ctx d = Inr (c, as, d1)"
    and "exec_cmd env (ctx\<lparr>ax_wb := []\<rparr>) d1 (answer as w) = Inr (resp, res, rb, m, ctx2, d2, w2)"
    and "flush_batch env rb d2 w2 = Inr w3"
    and "answer_found c resp ctx2 (fst (commit_apply ctx2 d2 w3)) (snd (commit_apply ctx2 d2 w3)) = Inr (d', w')"
  note f = this(1) [THEN findCB_frame] this(2) [THEN exec_cmd_frame, unfolded exec_frame_def]
    this(3) [THEN flush_batch_frame] this(4) [THEN answer_found_frame]
  show "applied_to (ax_index ctx) d w d' w'"
    using f applied_to_cong [OF commit_durable [OF prod.collapse [symmetric], of ctx2 d2 w3], of d w d' w'] by simp
qed

lemma empty_entry_applied:
  assumes "apply_empty_entry e d w = Inr (d', w')"
  shows "applied_to (en_Index e) d w d' w'"
  using assms
  by (auto simp: apply_empty_entry_def applied_to_def durable_def Let_def sbind_Inr_iff wf_intros KV_Get_map
      KV_Put_map split: if_splits)

lemma applyEntry_applied:
  "applyEntry env ctx e d w = Inr (res, m, d', w') \<Longrightarrow> ax_index ctx = en_Index e \<Longrightarrow>
     applied_to (en_Index e) d w d' w'"
  by (auto simp: applyEntry_def sbind_Inr_iff split: EntryData.splits
      dest: empty_entry_applied doApplyRaftCMD_applied)

lemma applyConfChange_E:
  assumes "applyConfChange env ctx e d w = Inr (res, m, d', w')"
  obtains req res' where "doApplyRaftCMD env (ctx\<lparr>ax_req := req\<rparr>) d w = Inr (res', m, d', w')"
proof -
  obtain cc r m1 d1 w1 where 1: "doApplyRaftCMD env (ctx\<lparr>ax_req := cc_Context cc\<rparr>) d w = Inr (r, m1, d1, w1)"
    and 2: "(case r of None \<Rightarrow> Inr (Some (ERChangePeer zeroChangePeer), m1, d1, w1)
      | Some (ERChangePeer cp) \<Rightarrow> Inr (Some (ERChangePeer (cp\<lparr>cp_confChange := Some cc\<rparr>)), m1, d1, w1)
      | _ \<Rightarrow> Inl Panic) = Inr (res, m, d', w')"
    using assms by (auto simp: applyConfChange_def sbind_Inr_iff)
  from 2 have "m1 = m \<and> d1 = d' \<and> w1 = w'" by (auto split: option.split_asm execResult.split_asm)
  with 1 that show thesis by blast
qed

lemma applyConfChange_applied:
  "applyConfChange env ctx e d w = Inr (res, m, d', w') \<Longrightarrow> ax_index ctx = en_Index e \<Longrightarrow>
     applied_to (en_Index e) d w d' w'"
  by (auto elim!: applyConfChange_E dest!: doApplyRaftCMD_applied)

lemma apply_one_E:
  assumes "apply_one env e d w = Inr (d', w')"
  obtains ctx res m w1 where "en_Index e = as_AppliedIndex (da_applyState d) + 1"
    and "ax_index ctx = en_Index e" "ax_term ctx = en_Term e"
    and "applyEntry env ctx e d w = Inr (res, m, d', w1) \<or> applyConfChange env ctx e d w = Inr (res, m, d', w1)"
    and "w_meta w' = w_meta w1" "w_engines w' = w_engines w1" "w_answers w' = w_answers w1"
proof -
  define ctx where "ctx = \<lparr>ax_wb = [], ax_applyState = da_applyState d, ax_req = emptyRequest,
    ax_index = en_Index e, ax_term = en_Term e\<rparr>"
  show thesis
    using assms that [of ctx]
    by (cases "en_Type e")
      (auto simp: apply_one_def Let_def sbind_Inr_iff ctx_def [symmetric] split: if_splits, auto simp: ctx_def)
qed

lemma apply_one_applied:
  assumes "apply_one env e d w = Inr (d', w')"
  shows "en_Index e = as_AppliedIndex (da_applyState d) + 1 \<and> applied_to (en_Index e) d w d' w'"
  using assms
proof (rule apply_one_E)
  fix ctx res m w1
  assume *: "en_Index e = as_AppliedIndex (da_applyState d) + 1" "ax_index ctx = en_Index e"
    "applyEntry env ctx e d w = Inr (res, m, d', w1) \<or> applyConfChange env ctx e d w = Inr (res, m, d', w1)"
    "w_meta w' = w_meta w1" "w_engines w' = w_engines w1"
  from *(2,3) have "applied_to (en_Index e) d w d' w1"
    using applyEntry_applied applyConfChange_applied by blast
  from applied_to_cong [OF this, of d w d' w'] * show ?thesis by simp
qed

lemma apply_loop_applied:
  assumes "applyCommittedEntries env es d w = Inr (d', w')"
  shows "\<exists>n \<le> length es. as_AppliedIndex (da_applyState d') = as_AppliedIndex (da_applyState d) + of_nat n \<and>
    c_ID (da_cell d') = c_ID (da_cell d) \<and>
    (\<forall>i < n. en_Index (es ! i) = as_AppliedIndex (da_applyState d) + of_nat (Suc i)) \<and>
    (n < length es \<longrightarrow> da_pendingRemove d') \<and>
    (n = 0 \<longrightarrow> d' = d \<and> w' = w \<and> (es = [] \<or> da_pendingRemove d)) \<and>
    (world_ok w \<longrightarrow> world_ok w' \<and> (n = 0 \<or> da_pendingRemove d' \<or> durable d' w'))"
  using assms
proof (induction es arbitrary: d w)
  case (Cons e es)
  show ?case
  proof (cases "da_pendingRemove d")
    case False
    then obtain d1 w1 where 1: "apply_one env e d w = Inr (d1, w1)"
      and 2: "applyCommittedEntries env es d1 w1 = Inr (d', w')"
      using Cons.prems by (auto simp: sbind_Inr_iff)
    note a = apply_one_applied [OF 1, unfolded applied_to_def]
    from Cons.IH [OF 2] obtain n where n: "n \<le> length es"
      "as_AppliedIndex (da_applyState d') = as_AppliedIndex (da_applyState d1) + of_nat n"
      "c_ID (da_cell d') = c_ID (da_cell d1)"
      "\<forall>i < n. en_Index (es ! i) = as_AppliedIndex (da_applyState d1) + of_nat (Suc i)"
      "n < length es \<longrightarrow> da_pendingRemove d'"
      "n = 0 \<longrightarrow> d' = d1 \<and> w' = w1"
      "world_ok w1 \<longrightarrow> world_ok w' \<and> (n = 0 \<or> da_pendingRemove d' \<or> durable d' w')"
      by blast
    have "\<forall>i < Suc n. en_Index ((e # es) ! i) = as_AppliedIndex (da_applyState d) + of_nat (Suc i)"
      using n(4) a by (auto simp: less_Suc_eq_0_disj algebra_simps)
    with n a show ?thesis
      by (intro exI [of _ "Suc n"]) (auto simp: algebra_simps)
  qed (use Cons.prems in auto)
qed auto

subsection \<open>Answers\<close>

definition token :: "cmd \<Rightarrow> nat list" where
  "token c = (case cm_cb c of None \<Rightarrow> [] | Some t \<Rightarrow> [t])"

abbreviation tokens :: "cmd list \<Rightarrow> nat list" where
  "tokens cs \<equiv> concat (map token cs)"

definition found_token :: "cmd option \<Rightarrow> nat list" where
  "found_token c = (case c of None \<Rightarrow> [] | Some c \<Rightarrow> token c)"

definition pending_tokens :: "applyDelegate \<Rightarrow> nat multiset" where
  "pending_tokens d = mset (tokens (da_pendingCMDs d)) +
     (case da_pendingChangePeerCMD d of Some (Live c) \<Rightarrow> mset (token c) | _ \<Rightarrow> {#})"

definition answered :: "'k world \<Rightarrow> nat multiset" where
  "answered w = image_mset fst (mset (w_answers w))"

lemma cmd_resp_tokens: "cmd_resp c r = Inr as \<Longrightarrow> map fst as = token c"
  by (auto simp: cmd_resp_def token_def Let_def split: option.splits if_splits)

lemma notifyStaleCMD_tokens: "notifyStaleCMD d c = Inr as \<Longrightarrow> map fst as = token c"
  by (auto simp: notifyStaleCMD_def cmd_resp_tokens split: if_splits)

lemma notifyCellRemoved_tokens: "notifyCellRemoved d c = Inr as \<Longrightarrow> map fst as = token c"
  by (auto simp: notifyCellRemoved_def respCellNotFound_def cmd_resp_tokens split: if_splits)

lemma findCB_loop_tokens:
  "findCB_loop d h t cs = Inr (c, rest, as) \<Longrightarrow>
     tokens cs = map fst as @ found_token c @ tokens rest"
proof (induction cs arbitrary: c rest as)
  case (Cons x cs)
  then show ?case
    by (auto simp: sbind_Inr_iff found_token_def notifyStaleCMD_tokens split: if_splits option.splits)
qed (simp add: found_token_def)

lemma pop_stale_tokens:
  "pop_stale d t cs = Inr (rest, as) \<Longrightarrow> tokens cs = map fst as @ tokens rest"
  by (induction cs arbitrary: rest as)
    (auto simp: sbind_Inr_iff notifyStaleCMD_tokens split: if_splits)

lemmas token_msets =
  cmd_resp_tokens [THEN arg_cong [where f = mset], simplified]
  notifyStaleCMD_tokens [THEN arg_cong [where f = mset], simplified]
  findCB_loop_tokens [THEN arg_cong [where f = mset], simplified]
  pop_stale_tokens [THEN arg_cong [where f = mset], simplified]

text \<open>The command that \<open>findCB\<close> returns: an ordinary one has left the delegate, the change
  peer command is still held.\<close>

lemma findCB_tokens:
  assumes "findCB ctx d = Inr (c, as, d')"
  shows "pending_tokens d = mset (map fst as) + pending_tokens d' +
    (if isChangePeerCMD (ax_req ctx) then {#} else mset (found_token c))"
    and "isChangePeerCMD (ax_req ctx) \<Longrightarrow> c = Some x \<Longrightarrow> da_pendingChangePeerCMD d' = Some (Live x)"
  using assms
  by (auto simp: findCB_def sbind_Inr_iff pending_tokens_def token_msets found_token_def
      split: if_splits option.splits cmd_ref.splits)

lemma answer_found_tokens:
  assumes "answer_found c resp ctx d w = Inr (d', w')"
    and "isChangePeerCMD (ax_req ctx) \<Longrightarrow> c \<noteq> None \<Longrightarrow> da_pendingChangePeerCMD d = Some (Live (the c))"
  shows "answered w' + pending_tokens d' \<subseteq># answered w + pending_tokens d +
    (if isChangePeerCMD (ax_req ctx) then {#} else mset (found_token c))"
  using assms
  by (auto simp: answer_found_def sbind_Inr_iff answered_def pending_tokens_def token_msets found_token_def
      split: option.split_asm if_splits)

lemma exec_frame_tokens:
  "exec_frame ctx d w ctx' d' w' \<Longrightarrow> pending_tokens d' = pending_tokens d \<and> answered w' = answered w"
  by (simp add: exec_frame_def pending_tokens_def answered_def)

lemma commit_tokens: "commit_apply ctx d w = (d', w') \<Longrightarrow>
    pending_tokens d' = pending_tokens d \<and> answered w' = answered w \<and>
    da_pendingChangePeerCMD d' = da_pendingChangePeerCMD d"
  by (auto simp: commit_apply_def pending_tokens_def answered_def Let_def)

lemma answered_answer: "answered (answer as w) = answered w + mset (map fst as)"
  by (simp add: answered_def)

lemma doApplyRaftCMD_tokens:
  assumes "doApplyRaftCMD env ctx d w = Inr (res, m, d', w')"
  shows "answered w' + pending_tokens d' \<subseteq># answered w + pending_tokens d"
  using assms
proof (rule doApplyRaftCMD_E)
  fix c as d1 resp rb ctx2 d2 w2 w3
  assume 1: "findCB ctx d = Inr (c, as, d1)"
    and 2: "exec_cmd env (ctx\<lparr>ax_wb := []\<rparr>) d1 (answer as w) = Inr (resp, res, rb, m, ctx2, d2, w2)"
    and 3: "flush_batch env rb d2 w2 = Inr w3"
    and 4: "answer_found c resp ctx2 (fst (commit_apply ctx2 d2 w3)) (snd (commit_apply ctx2 d2 w3)) = Inr (d', w')"
  note fr = exec_cmd_frame [OF 2]
  obtain d3 w4 where c: "commit_apply ctx2 d2 w3 = (d3, w4)" by fastforce
  have req: "ax_req ctx2 = ax_req ctx" using fr by (simp add: exec_frame_def)
  have w: "answered w3 = answered w + mset (map fst as)"
    using flush_batch_frame [OF 3] exec_frame_tokens [OF fr] by (simp add: answered_def)
  have held: "da_pendingChangePeerCMD d3 = Some (Live (the c))" if "isChangePeerCMD (ax_req ctx2)" "c \<noteq> None"
    using findCB_tokens(2) [OF 1, of "the c"] commit_tokens [OF c] fr that by (auto simp: exec_frame_def)
  show ?thesis
    using answer_found_tokens [OF 4 [unfolded c fst_conv snd_conv] held] findCB_tokens(1) [OF 1]
      commit_tokens [OF c] exec_frame_tokens [OF fr] w
    by (simp add: req ac_simps split: if_splits)
qed

lemma apply_one_tokens:
  assumes "apply_one env e d w = Inr (d', w')"
  shows "answered w' + pending_tokens d' \<subseteq># answered w + pending_tokens d"
  using assms
proof (rule apply_one_E)
  fix ctx res m w1
  assume *: "applyEntry env ctx e d w = Inr (res, m, d', w1) \<or> applyConfChange env ctx e d w = Inr (res, m, d', w1)"
    "w_answers w' = w_answers w1"
  have "answered w1 + pending_tokens d' \<subseteq># answered w + pending_tokens d"
    using *(1)
  proof
    assume "applyEntry env ctx e d w = Inr (res, m, d', w1)"
    then show ?thesis
      by (auto simp: applyEntry_def apply_empty_entry_def sbind_Inr_iff Let_def answered_def pending_tokens_def
          token_msets split: EntryData.splits if_splits dest: doApplyRaftCMD_tokens
          [unfolded answered_def pending_tokens_def])
  qed (auto elim!: applyConfChange_E dest: doApplyRaftCMD_tokens)
  then show ?thesis by (simp add: answered_def *(2))
qed

lemma apply_loop_tokens:
  "applyCommittedEntries env es d w = Inr (d', w') \<Longrightarrow>
     answered w' + pending_tokens d' \<subseteq># answered w + pending_tokens d"
  by (induction es arbitrary: d w)
    (auto simp: sbind_Inr_iff split: if_splits dest!: apply_one_tokens intro: subset_mset.order_trans)

text \<open>An admin command other than a change of peers may end without a response, a split whose key has
  left the cell for example.\<close>

definition may_be_silent :: "RaftCMDRequest \<Rightarrow> bool" where
  "may_be_silent req = (case rc_AdminRequest req of None \<Rightarrow> False | Some (ChangePeer _ _) \<Rightarrow> False | Some _ \<Rightarrow> True)"

definition entry_may_be_silent :: "Entry \<Rightarrow> bool" where
  "entry_may_be_silent e =
     (case en_Data e of NoData \<Rightarrow> False | CmdData req \<Rightarrow> may_be_silent req | ConfData cc \<Rightarrow> may_be_silent (cc_Context cc))"

lemma exec_cmd_no_response:
  "exec_cmd env ctx d w = Inr (None, res, rb, m, ctx', d', w') \<Longrightarrow> \<not> may_be_silent (ax_req ctx) \<Longrightarrow>
     isChangePeerCMD (ax_req ctx)"
  by (auto simp: exec_cmd_def sbind_Inr_iff may_be_silent_def isChangePeerCMD_def
      split: if_splits option.split_asm AdminRequest.split_asm)

lemma answer_found_exact:
  assumes "answer_found c resp ctx d w = Inr (d', w')"
    and "isChangePeerCMD (ax_req ctx) \<Longrightarrow> c \<noteq> None \<Longrightarrow> da_pendingChangePeerCMD d = Some (Live (the c))"
    and "resp = None \<Longrightarrow> isChangePeerCMD (ax_req ctx)"
  shows "answered w' + pending_tokens d' = answered w + pending_tokens d +
    (if isChangePeerCMD (ax_req ctx) then {#} else mset (found_token c))"
  using assms
  by (auto simp: answer_found_def sbind_Inr_iff answered_def pending_tokens_def token_msets found_token_def
      split: option.split_asm if_splits)

lemma doApplyRaftCMD_exact:
  assumes "doApplyRaftCMD env ctx d w = Inr (res, m, d', w')" "\<not> may_be_silent (ax_req ctx)"
  shows "answered w' + pending_tokens d' = answered w + pending_tokens d"
  using assms(1)
proof (rule doApplyRaftCMD_E)
  fix c as d1 resp rb ctx2 d2 w2 w3
  assume 1: "findCB ctx d = Inr (c, as, d1)"
    and 2: "exec_cmd env (ctx\<lparr>ax_wb := []\<rparr>) d1 (answer as w) = Inr (resp, res, rb, m, ctx2, d2, w2)"
    and 3: "flush_batch env rb d2 w2 = Inr w3"
    and 4: "answer_found c resp ctx2 (fst (commit_apply ctx2 d2 w3)) (snd (commit_apply ctx2 d2 w3)) = Inr (d', w')"
  note fr = exec_cmd_frame [OF 2]
  obtain d3 w4 where c: "commit_apply ctx2 d2 w3 = (d3, w4)" by fastforce
  have req: "ax_req ctx2 = ax_req ctx" using fr by (simp add: exec_frame_def)
  have w: "answered w3 = answered w + mset (map fst as)"
    using flush_batch_frame [OF 3] exec_frame_tokens [OF fr] by (simp add: answered_def)
  have held: "da_pendingChangePeerCMD d3 = Some (Live (the c))" if "isChangePeerCMD (ax_req ctx2)" "c \<noteq> None"
    using findCB_tokens(2) [OF 1, of "the c"] commit_tokens [OF c] fr that by (auto simp: exec_frame_def)
  have silent: "isChangePeerCMD (ax_req ctx2)" if "resp = None"
    using exec_cmd_no_response [OF 2 [unfolded that]] assms(2) req by simp
  show ?thesis
    using answer_found_exact [OF 4 [unfolded c fst_conv snd_conv] held silent] findCB_tokens(1) [OF 1]
      commit_tokens [OF c] exec_frame_tokens [OF fr] w
    by (simp add: req ac_simps split: if_splits)
qed

lemma applyConfChange_exact:
  assumes "applyConfChange env ctx e d w = Inr (res, m, d', w')" "\<not> entry_may_be_silent e"
  shows "answered w' + pending_tokens d' = answered w + pending_tokens d"
proof -
  obtain cc r m1 d1 w1 where cc: "en_Data e = ConfData cc \<or> en_Data e = NoData \<and> cc = zeroConfChange"
    and 1: "doApplyRaftCMD env (ctx\<lparr>ax_req := cc_Context cc\<rparr>) d w = Inr (r, m1, d1, w1)"
    and 2: "(case r of None \<Rightarrow> Inr (Some (ERChangePeer zeroChangePeer), m1, d1, w1)
      | Some (ERChangePeer cp) \<Rightarrow> Inr (Some (ERChangePeer (cp\<lparr>cp_confChange := Some cc\<rparr>)), m1, d1, w1)
      | _ \<Rightarrow> Inl Panic) = Inr (res, m, d', w')"
    using assms(1) by (auto simp: applyConfChange_def sbind_Inr_iff split: EntryData.splits)
  have eq: "d1 = d'" "w1 = w'" using 2 by (auto split: option.split_asm execResult.split_asm)
  have "\<not> may_be_silent (cc_Context cc)"
    using cc assms(2)
    by (auto simp: entry_may_be_silent_def zeroConfChange_def emptyRequest_def may_be_silent_def)
  then show ?thesis
    using doApplyRaftCMD_exact [OF 1] eq by simp
qed

lemma apply_one_exact:
  assumes "apply_one env e d w = Inr (d', w')" "\<not> entry_may_be_silent e"
  shows "answered w' + pending_tokens d' = answered w + pending_tokens d"
  using assms(1)
proof (rule apply_one_E)
  fix ctx res m w1
  assume *: "applyEntry env ctx e d w = Inr (res, m, d', w1) \<or> applyConfChange env ctx e d w = Inr (res, m, d', w1)"
    "w_answers w' = w_answers w1"
  have "answered w1 + pending_tokens d' = answered w + pending_tokens d"
    using *(1)
  proof
    assume "applyEntry env ctx e d w = Inr (res, m, d', w1)"
    then consider req where "en_Data e = CmdData req" "doApplyRaftCMD env (ctx\<lparr>ax_req := req\<rparr>) d w = Inr (res, m, d', w1)"
      | "apply_empty_entry e d w = Inr (d', w1)"
      by (auto simp: applyEntry_def sbind_Inr_iff split: EntryData.splits)
    then show ?thesis
    proof cases
      case 1
      then show ?thesis
        using doApplyRaftCMD_exact [OF 1(2)] assms(2) by (simp add: entry_may_be_silent_def)
    next
      case 2
      then show ?thesis
        by (auto simp: apply_empty_entry_def sbind_Inr_iff Let_def answered_def pending_tokens_def token_msets split: if_splits)
    qed
  qed (rule applyConfChange_exact [OF _ assms(2)])
  then show ?thesis by (simp add: answered_def *(2))
qed

lemma apply_loop_exact:
  "applyCommittedEntries env es d w = Inr (d', w') \<Longrightarrow> \<forall>e \<in> set es. \<not> entry_may_be_silent e \<Longrightarrow>
     answered w' + pending_tokens d' = answered w + pending_tokens d"
  by (induction es arbitrary: d w) (auto simp: sbind_Inr_iff split: if_splits dest!: apply_one_exact)

subsection \<open>Admin commands\<close>

lemma covers_split:
  assumes "covers c k" "k \<noteq> c_Start c" "l = c\<lparr>c_End := k, c_Epoch := e\<rparr>"
    "c_Start r = k" "c_End r = c_End c"
  shows "covers c j \<longleftrightarrow> covers l j \<or> covers r j" and "\<not> (covers l j \<and> covers r j)"
  using assms by (auto simp: covers_def)

lemma admin_result_response:
  "execAdminRequest a ctx d w = Inr (resp, Some r, err, ctx', d', w') \<Longrightarrow> resp \<noteq> None \<and> \<not> err"
  by (auto simp: execAdminRequest_def doExecChangePeer_def doExecSplit_def doExecRaftGC_def Let_def sbind_Inr_iff
      split: AdminRequest.splits ConfChangeType.splits if_splits option.splits)

lemma exec_cmd_result_response:
  "exec_cmd env ctx d w = Inr (resp, Some r, rb, m, ctx', d', w') \<Longrightarrow> resp \<noteq> None"
  by (auto simp: exec_cmd_def sbind_Inr_iff split: if_splits option.splits dest: admin_result_response)

lemma state_keys_distinct [simp]:
  "getCellStateKey a \<noteq> getRaftStateKey b" "getCellStateKey a \<noteq> getApplyStateKey b"
  "getRaftStateKey a \<noteq> getApplyStateKey b"
  by (simp_all add: key_defs cellMetaPrefixKey_def cellRaftPrefixKey_def raftStateSuffix_def applyStateSuffix_def)

lemma split_cells:
  assumes "doExecSplit key newID ids ctx d w = Inr (resp, Some (ERSplit l r), err, ctx', d', w')"
  obtains k where "getOriginKey key = Inr k" "covers (da_cell d) k" "length ids = length (c_Peers (da_cell d))"
    "l = (da_cell d)\<lparr>c_End := k, c_Epoch := (c_Epoch (da_cell d))\<lparr>e_CellVer := e_CellVer (c_Epoch (da_cell d)) + 1\<rparr>\<rparr>"
    "r = \<lparr>c_ID = newID, c_Start = k, c_End = c_End (da_cell d), c_Epoch = c_Epoch l,
          c_Peers = map2 (\<lambda>i p. \<lparr>p_ID = i, p_StoreID = p_StoreID p\<rparr>) ids (c_Peers (da_cell d))\<rparr>"
    "da_cell d' = l" "ax_wb ctx' = updatePeerState l PS_Normal (ax_wb ctx)"
    "w' = write_meta newID (writeInitialState newID (updatePeerState r PS_Normal [])) w"
  using assms
  by (auto simp: doExecSplit_def Let_def sbind_Inr_iff checkKeyInCell_covers split: if_splits)

lemma findCB_loop_match:
  assumes "findCB_loop d (Some h) t (pre @ c # post) = Inr (c', rest, as)"
    and "\<forall>x \<in> set (pre @ [c]). cm_term x \<le> t" "cmd_uuid c = Some (rh_UUID h)"
    and "\<forall>x \<in> set pre. cmd_uuid x \<noteq> Some (rh_UUID h)"
  shows "c' = Some c \<and> rest = post"
  using assms
proof (induction pre arbitrary: as)
  case (Cons x pre)
  then show ?case
    by (auto simp: sbind_Inr_iff go_simps not_less [symmetric] split: if_splits option.splits)
qed (auto simp: sbind_Inr_iff go_simps not_less [symmetric])

lemma exec_requests_delegate:
  "da_cell d' = da_cell d \<Longrightarrow> exec_requests env d' reqs hx = exec_requests env d reqs hx"
proof (induction reqs arbitrary: hx)
  case (Cons req reqs)
  have "execWriteRequestIndex env d' req rsp = execWriteRequestIndex env d req rsp" for rsp
    unfolding execWriteRequestIndex_def Cons.prems ..
  then show ?case
    using Cons by (cases "ev_redisWriteHandles env (rq_Type req)") simp_all
qed simp

definition fresh_ctx :: "'k \<Rightarrow> 'k handlerCtx" where
  "fresh_ctx k = \<lparr>hx_data = k, hx_rb = [], hx_metrics = emptyApplyMetrics\<rparr>"

text \<open>The data of all engines after the handlers of a command of cell \<open>cid\<close> ran on engine \<open>i\<close>: the
  collected sets are written last, to the engine \<open>j\<close> of the cell.\<close>

definition flushed :: "'k applyEnv \<Rightarrow> nat \<Rightarrow> 'k handlerCtx \<Rightarrow> nat \<Rightarrow> (nat \<Rightarrow> 'k) \<Rightarrow> (nat \<Rightarrow> 'k) \<Rightarrow> bool" where
  "flushed env i hx j data data' \<longleftrightarrow>
     (if hx_rb hx = [] then data' = data(i := hx_data hx)
      else \<exists>k. ev_MSet env (hx_rb hx) ((data(i := hx_data hx)) j) = Some k \<and> data' = (data(i := hx_data hx))(j := k))"

lemma flush_batch_data:
  assumes "flush_batch env rb d (w\<lparr>w_data := (w_data w)(i := hx_data hx), w_idx := x\<rparr>) = Inr w'" "rb = hx_rb hx"
  shows "flushed env i hx (driver_index (w_engines w) (c_ID (da_cell d))) (w_data w) (w_data w') \<and> w_idx w' = x \<and>
    w_answers w' = w_answers w"
  using assms
  by (auto simp: flush_batch_def flushed_def hasSetBatch_def Let_def split: if_splits option.splits)

lemma commit_apply_keeps:
  "w_data (snd (commit_apply ctx d w)) = w_data w" "w_idx (snd (commit_apply ctx d w)) = w_idx w"
  "w_answers (snd (commit_apply ctx d w)) = w_answers w"
  "da_pendingCMDs (fst (commit_apply ctx d w)) = da_pendingCMDs d"
  by (simp_all add: commit_apply_def Let_def write_meta_def put_meta_def)

text \<open>What executing a write command of a current epoch does.\<close>

lemma exec_write_cmd:
  assumes "exec_cmd env ctx d w = Inr (resp, res, rb, m, ctx', d', w')" "flush_batch env rb d' w' = Inr w''"
    and "rc_AdminRequest (ax_req ctx) = None" "rc_Header (ax_req ctx) = Some h" "checkEpoch (da_cell d) (ax_req ctx)"
  obtains rsps idxs hx where
    "exec_requests env d (rc_Requests (ax_req ctx)) (fresh_ctx (w_data w (driver_index (w_engines w) (rh_CellId h)))) =
       Inr (rsps, idxs, hx)"
    "resp = Some \<lparr>rr_Header = None, rr_Responses = rsps, rr_AdminResponse = None\<rparr>" "d' = d"
    "flushed env (driver_index (w_engines w) (rh_CellId h)) hx (driver_index (w_engines w) (c_ID (da_cell d)))
       (w_data w) (w_data w'')"
    "w_idx w'' = w_idx w @ idxs" "w_answers w'' = w_answers w"
proof -
  obtain rsps idxs hx where 1: "exec_requests env d (rc_Requests (ax_req ctx))
        (fresh_ctx (w_data w (driver_index (w_engines w) (rh_CellId h)))) = Inr (rsps, idxs, hx)"
    and 2: "resp = Some \<lparr>rr_Header = None, rr_Responses = rsps, rr_AdminResponse = None\<rparr>" "d' = d" "rb = hx_rb hx"
      "w' = w\<lparr>w_data := (w_data w)(driver_index (w_engines w) (rh_CellId h) := hx_data hx), w_idx := w_idx w @ idxs\<rparr>"
    using assms by (auto simp: exec_cmd_def execWriteRequest_def fresh_ctx_def Let_def sbind_Inr_iff)
  show thesis
    using that [OF 1 2(1,2)] flush_batch_data [OF assms(2) [unfolded 2(4)] 2(3)] 2(2) by simp
qed

text \<open>The answer to a command whose own request was executed.\<close>

lemma cmd_resp_own:
  assumes "cmd_resp c \<lparr>rr_Header = None, rr_Responses = rsps, rr_AdminResponse = None\<rparr> = Inr as" "cm_cb c = Some t"
    and "length rsps \<le> length (rc_Requests (cm_req c))"
  shows "as = [(t, \<lparr>rr_Header = None, rr_Responses = map2 stamp (rc_Requests (cm_req c)) rsps, rr_AdminResponse = None\<rparr>)]"
    and "length rsps = length (rc_Requests (cm_req c))"
  using assms by (auto simp: cmd_resp_def Let_def split: if_splits)

lemma exec_requests_length: "exec_requests env d reqs hx = Inr (rsps, idxs, hx') \<Longrightarrow> length rsps \<le> length reqs"
  by (induction reqs arbitrary: rsps idxs hx hx')
    (force simp: sbind_Inr_iff split: option.splits)+

definition stale_epoch_answer :: "cmd \<Rightarrow> nat \<Rightarrow> Cell \<Rightarrow> answer \<Rightarrow> bool" where
  "stale_epoch_answer c t cell a \<longleftrightarrow> fst a = t \<and>
     (\<exists>h. rr_Header (snd a) = Some h \<and> er_Detail (ph_Error h) = StaleEpoch [cell]) \<and>
     map rs_UUID (rr_Responses (snd a)) = map rq_UUID (rc_Requests (cm_req c))"

lemma cmd_resp_stale_epoch:
  assumes "cmd_resp c (buildUUID u' (buildTerm t' (errorStaleEpochResp u t cells))) = Inr as" "cm_cb c = Some cb"
    and "cells = [cell]"
  shows "\<exists>a. as = [a] \<and> stale_epoch_answer c cb cell a"
  using assms
  by (auto simp: cmd_resp_def stale_epoch_answer_def errorStaleEpochResp_def set_error_def error_header buildUUID_def
      buildTerm_def errorBaseResp_def stamp_def Let_def comp_def split: if_splits)

lemma findCB_write:
  assumes "findCB ctx d = Inr (c', as, d1)" "rc_AdminRequest (ax_req ctx) = None" "rc_Header (ax_req ctx) = Some h"
    and "da_pendingCMDs d = pre @ c # post" "\<forall>x \<in> set (pre @ [c]). cm_term x \<le> ax_term ctx"
    and "cmd_uuid c = Some (rh_UUID h)" "\<forall>x \<in> set pre. cmd_uuid x \<noteq> Some (rh_UUID h)"
  shows "c' = Some c" "d1 = d\<lparr>da_pendingCMDs := post\<rparr>" "map fst as = tokens pre"
proof -
  obtain rest where l: "findCB_loop d (Some h) (ax_term ctx) (pre @ c # post) = Inr (c', rest, as)"
    and d1: "d1 = d\<lparr>da_pendingCMDs := rest\<rparr>"
    using assms(1-4) by (auto simp: findCB_def isChangePeerCMD_def sbind_Inr_iff)
  show "c' = Some c" "d1 = d\<lparr>da_pendingCMDs := post\<rparr>" "map fst as = tokens pre"
    using findCB_loop_match [OF l assms(5-7)] findCB_loop_tokens [OF l] d1 by (auto simp: found_token_def)
qed

lemma write_cmd_executed:
  assumes "doApplyRaftCMD env ctx d w = Inr (res, m, d', w')"
    and "rc_AdminRequest (ax_req ctx) = None" "rc_Header (ax_req ctx) = Some h" "checkEpoch (da_cell d) (ax_req ctx)"
    and "da_pendingCMDs d = pre @ c # post" "\<forall>x \<in> set (pre @ [c]). cm_term x \<le> ax_term ctx"
    and "cm_req c = ax_req ctx" "cm_cb c = Some t" "\<forall>x \<in> set pre. cmd_uuid x \<noteq> Some (rh_UUID h)"
  shows "\<exists>stale rsps idxs hx.
    exec_requests env d (rc_Requests (ax_req ctx)) (fresh_ctx (w_data w (driver_index (w_engines w) (rh_CellId h)))) =
      Inr (rsps, idxs, hx) \<and> length rsps = length (rc_Requests (ax_req ctx)) \<and>
    flushed env (driver_index (w_engines w) (rh_CellId h)) hx (driver_index (w_engines w) (c_ID (da_cell d)))
      (w_data w) (w_data w') \<and> w_idx w' = w_idx w @ idxs \<and>
    map fst stale = tokens pre \<and> da_pendingCMDs d' = post \<and>
    w_answers w' = w_answers w @ stale @
      [(t, \<lparr>rr_Header = None, rr_Responses = map2 stamp (rc_Requests (ax_req ctx)) rsps, rr_AdminResponse = None\<rparr>)]"
  using assms(1)
proof (rule doApplyRaftCMD_E)
  fix c' as d1 resp rb ctx2 d2 w2 w3
  assume 1: "findCB ctx d = Inr (c', as, d1)"
    and 2: "exec_cmd env (ctx\<lparr>ax_wb := []\<rparr>) d1 (answer as w) = Inr (resp, res, rb, m, ctx2, d2, w2)"
    and 3: "flush_batch env rb d2 w2 = Inr w3"
    and 4: "answer_found c' resp ctx2 (fst (commit_apply ctx2 d2 w3)) (snd (commit_apply ctx2 d2 w3)) = Inr (d', w')"
  have u: "cmd_uuid c = Some (rh_UUID h)" using assms(3,7) by (simp add: cmd_uuid_def)
  note f = findCB_write [OF 1 assms(2,3,5,6) u assms(9)]
  have e: "w_data (answer as w) = w_data w" "w_engines (answer as w) = w_engines w" "w_idx (answer as w) = w_idx w"
    by (simp_all add: answer_def)
  have req: "ax_req ctx2 = ax_req ctx" using exec_cmd_frame [OF 2] by (simp add: exec_frame_def)
  obtain rsps idxs hx where x: "exec_requests env d1 (rc_Requests (ax_req ctx))
        (fresh_ctx (w_data w (driver_index (w_engines w) (rh_CellId h)))) = Inr (rsps, idxs, hx)"
      "resp = Some \<lparr>rr_Header = None, rr_Responses = rsps, rr_AdminResponse = None\<rparr>" "d2 = d1"
      "flushed env (driver_index (w_engines w) (rh_CellId h)) hx (driver_index (w_engines w) (c_ID (da_cell d)))
         (w_data w) (w_data w3)"
      "w_idx w3 = w_idx w @ idxs" "w_answers w3 = w_answers w @ as"
    using exec_write_cmd [OF 2 3, of h] assms(2-4) f(2) e by auto
  have x1: "exec_requests env d (rc_Requests (ax_req ctx))
        (fresh_ctx (w_data w (driver_index (w_engines w) (rh_CellId h)))) = Inr (rsps, idxs, hx)"
    using x(1) exec_requests_delegate [of d1 d env] f(2) by simp
  obtain a where a: "cmd_resp c \<lparr>rr_Header = None, rr_Responses = rsps, rr_AdminResponse = None\<rparr> = Inr a"
      "w' = answer a (snd (commit_apply ctx2 d2 w3))" "d' = fst (commit_apply ctx2 d2 w3)"
    using 4 assms(2,3) f(1) x(2) req
    by (auto simp: answer_found_def sbind_Inr_iff isChangePeerCMD_def buildUUID_def buildTerm_def)
  note own = cmd_resp_own [OF a(1) assms(8), unfolded assms(7), OF exec_requests_length [OF x(1)]]
  have "w_data w' = w_data w3" "w_idx w' = w_idx w3" "w_answers w' = w_answers w3 @ a" "da_pendingCMDs d' = post"
    using commit_apply_keeps [of ctx2 d2 w3] f(2) x(3) by (simp_all add: a answer_def)
  then show ?thesis
    using x1 x(4-6) f(3) own
    by (intro exI [of _ as] exI [of _ rsps] exI [of _ idxs] exI [of _ hx]) simp
qed

lemma write_cmd_refused:
  assumes "doApplyRaftCMD env ctx d w = Inr (res, m, d', w')"
    and "rc_AdminRequest (ax_req ctx) = None" "rc_Header (ax_req ctx) = Some h" "\<not> checkEpoch (da_cell d) (ax_req ctx)"
    and "da_pendingCMDs d = pre @ c # post" "\<forall>x \<in> set (pre @ [c]). cm_term x \<le> ax_term ctx"
    and "cm_req c = ax_req ctx" "cm_cb c = Some t" "\<forall>x \<in> set pre. cmd_uuid x \<noteq> Some (rh_UUID h)"
  shows "\<exists>stale a. w_data w' = w_data w \<and> w_idx w' = w_idx w \<and> map fst stale = tokens pre \<and> da_pendingCMDs d' = post \<and>
    w_answers w' = w_answers w @ stale @ [a] \<and> stale_epoch_answer c t (da_cell d) a"
  using assms(1)
proof (rule doApplyRaftCMD_E)
  fix c' as d1 resp rb ctx2 d2 w2 w3
  assume 1: "findCB ctx d = Inr (c', as, d1)"
    and 2: "exec_cmd env (ctx\<lparr>ax_wb := []\<rparr>) d1 (answer as w) = Inr (resp, res, rb, m, ctx2, d2, w2)"
    and 3: "flush_batch env rb d2 w2 = Inr w3"
    and 4: "answer_found c' resp ctx2 (fst (commit_apply ctx2 d2 w3)) (snd (commit_apply ctx2 d2 w3)) = Inr (d', w')"
  have u: "cmd_uuid c = Some (rh_UUID h)" using assms(3,7) by (simp add: cmd_uuid_def)
  note f = findCB_write [OF 1 assms(2,3,5,6) u assms(9)]
  have x: "resp = Some (errorStaleEpochResp (Some (rh_UUID h)) (da_term d) [da_cell d])" "d2 = d1" "ax_req ctx2 = ax_req ctx"
      "w3 = answer as w"
    using 2 3 assms(3,4) f(2)
    by (auto simp: exec_cmd_def stale_epoch_rsp_def sbind_Inr_iff flush_batch_def hasSetBatch_def)
  obtain a where a: "cmd_resp c (buildUUID (Some (rh_UUID h)) (buildTerm (da_term (fst (commit_apply ctx2 d2 w3)))
        (errorStaleEpochResp (Some (rh_UUID h)) (da_term d) [da_cell d]))) = Inr a"
      "w' = answer a (snd (commit_apply ctx2 d2 w3))" "d' = fst (commit_apply ctx2 d2 w3)"
    using 4 assms(2,3) f(1) x(1,3) by (auto simp: answer_found_def sbind_Inr_iff isChangePeerCMD_def)
  obtain y where y: "a = [y]" "stale_epoch_answer c t (da_cell d) y"
    using cmd_resp_stale_epoch [OF a(1) assms(8)] by blast
  have "w_data w' = w_data w" "w_idx w' = w_idx w" "w_answers w' = w_answers w @ as @ a" "da_pendingCMDs d' = post"
    using commit_apply_keeps [of ctx2 d2 w3] f(2) x(2,4) by (simp_all add: a answer_def)
  then show ?thesis
    using f(3) y by auto
qed

subsection \<open>Properties\<close>

text \<open>A delegate with one pending write and one pending membership change, and an empty world.\<close>

definition demo_cell1 :: Cell where
  "demo_cell1 = \<lparr>c_ID = 1, c_Start = [], c_End = [], c_Epoch = \<lparr>e_ConfVer = 1, e_CellVer = 1\<rparr>,
     c_Peers = [\<lparr>p_ID = 1, p_StoreID = 1\<rparr>]\<rparr>"

definition demo_change :: cmd where
  "demo_change = \<lparr>cm_req = \<lparr>rc_Header = Some demo_header, rc_Requests = [],
     rc_AdminRequest = Some (ChangePeer AddNode \<lparr>p_ID = 2, p_StoreID = 2\<rparr>)\<rparr>, cm_cb = None, cm_term = 6\<rparr>"

definition demo_write :: cmd where
  "demo_write = \<lparr>cm_req = \<lparr>rc_Header = Some demo_header, rc_Requests = [], rc_AdminRequest = None\<rparr>,
     cm_cb = Some 4, cm_term = 6\<rparr>"

definition demo_delegate :: applyDelegate where
  "demo_delegate = \<lparr>da_peerID = 1, da_cell = demo_cell1, da_pendingRemove = False,
     da_applyState = initRaftApplyState, da_appliedIndexTerm = 5, da_term = 6,
     da_pendingCMDs = [demo_write], da_pendingChangePeerCMD = Some (Live demo_change)\<rparr>"

definition demo_world :: "unit world" where
  "demo_world = \<lparr>w_engines = 1, w_meta = (\<lambda>_. NewKVTree), w_data = (\<lambda>_. ()), w_answers = [],
     w_results = [], w_idx = [], w_removedSnaps = []\<rparr>"

definition demo_env :: "unit applyEnv" where
  "demo_env = \<lparr>ev_redisWriteHandles = (\<lambda>_. None), ev_MSet = (\<lambda>_ k. Some k), ev_matchIndex = (\<lambda>_. []),
     ev_handleIdxKeyReq = (\<lambda>_. True), ev_hasReplicate = (\<lambda>_. False)\<rparr>"

lemmas demo_defs = demo_cell1_def demo_change_def demo_write_def demo_delegate_def demo_env_def demo_header_def
  initRaftApplyState_def raftInitLogIndex_def raftInitLogTerm_def

lemmas apply_defs = apply_one_def applyEntry_def apply_empty_entry_def doApplyRaftCMD_def findCB_def exec_cmd_def
  isChangePeerCMD_def cmd_uuid_def checkEpoch_def execWriteRequest_def flush_batch_def hasSetBatch_def
  answer_found_def commit_apply_def cmd_resp_def buildTerm_def buildUUID_def Let_def go_simps

lemma demo_world_ok: "world_ok demo_world"
  by (simp add: demo_world_def world_ok_def NewKVTree_def wf_intros)

definition demo_write_entry :: Entry where
  "demo_write_entry = \<lparr>en_Term = 6, en_Index = 6, en_Type = EntryNormal, en_Data = CmdData (cm_req demo_write)\<rparr>"

lemma demo_apply: "\<exists>d' w'. apply_one demo_env demo_write_entry demo_delegate demo_world = Inr (d', w')"
  by (simp add: apply_defs demo_defs demo_write_entry_def)

text \<open>C1: applying committed entries never skips, repeats or reorders one.  When the loop
  returns, it has applied a prefix of the entries whose indices follow the applied index one by
  one, the applied index has moved by the length of that prefix, it stopped early only because
  the peer removed itself, and the engine holds exactly the delegate's apply state.\<close>

theorem apply_index_durable:
  assumes "applyCommittedEntries env es d w = Inr (d', w')" "world_ok w" "es \<noteq> []" "\<not> da_pendingRemove d"
  shows "\<exists>n \<le> length es. 0 < n \<and>
    as_AppliedIndex (da_applyState d') = as_AppliedIndex (da_applyState d) + of_nat n \<and>
    (\<forall>i < n. en_Index (es ! i) = as_AppliedIndex (da_applyState d) + of_nat (Suc i)) \<and>
    (n < length es \<longrightarrow> da_pendingRemove d') \<and>
    (da_pendingRemove d' \<or>
     KV_Get (get_meta w' (c_ID (da_cell d))) (getApplyStateKey (c_ID (da_cell d))) = Some (SApply (da_applyState d')))"
  using apply_loop_applied [OF assms(1)] assms(2-4) by (fastforce simp: durable_def)

theorem apply_index_durable_witness:
  "\<exists>d' w'. applyCommittedEntries demo_env [demo_write_entry] demo_delegate demo_world = Inr (d', w') \<and>
     (as_AppliedIndex (da_applyState d') = 6 \<or> da_pendingRemove d')"
proof -
  obtain d' w' where r: "applyCommittedEntries demo_env [demo_write_entry] demo_delegate demo_world = Inr (d', w')"
    using demo_apply by (auto simp: demo_delegate_def)
  moreover have "\<not> da_pendingRemove demo_delegate" by (simp add: demo_delegate_def)
  ultimately show ?thesis
    using apply_index_durable [OF r demo_world_ok] by (fastforce simp: demo_defs le_Suc_eq)
qed

text \<open>C6: the apply worker calls no call-back twice and, as long as it is not given an admin command
  other than a change of peers, loses none.  What is answered and what is still pending after
  applying entries is part of what was answered and pending before, and all of it when every
  entry is a write, a change of peers or empty.  A split or a log truncation that turns out to be
  void is taken from the pending commands and never answered.\<close>

theorem commands_accounted:
  assumes "applyCommittedEntries env es d w = Inr (d', w')"
  shows "answered w' + pending_tokens d' \<subseteq># answered w + pending_tokens d \<and>
    ((\<forall>e \<in> set es. \<not> entry_may_be_silent e) \<longrightarrow> answered w' + pending_tokens d' = answered w + pending_tokens d)"
  using apply_loop_tokens [OF assms] apply_loop_exact [OF assms] by blast

theorem commands_accounted_witness:
  "\<exists>d' w'. applyCommittedEntries demo_env [demo_write_entry] demo_delegate demo_world = Inr (d', w') \<and>
     answered w' + pending_tokens d' = {#4#}"
proof -
  obtain d' w' where r: "applyCommittedEntries demo_env [demo_write_entry] demo_delegate demo_world = Inr (d', w')"
    using demo_apply by (auto simp: demo_delegate_def)
  have "answered demo_world + pending_tokens demo_delegate = {#4#}"
    by (simp add: answered_def pending_tokens_def token_def demo_world_def demo_defs)
  moreover have "\<not> entry_may_be_silent demo_write_entry"
    by (simp add: entry_may_be_silent_def may_be_silent_def demo_write_entry_def demo_write_def)
  ultimately show ?thesis
    using r commands_accounted [OF r] by auto
qed

text \<open>A split partitions the cell.  Every key of the old cell belongs to exactly one of the
  two new ones, no other key to either, both have the same bumped epoch and the same stores, and
  the new cell is stored with the initial raft and apply states in the engine it is served from.
  The split key must differ from the cell's start key, which the code does not check.\<close>

theorem split_partitions:
  assumes "doExecSplit key newID ids ctx d w = Inr (resp, Some (ERSplit l r), err, ctx', d', w')"
    and "world_ok w" "getOriginKey key \<noteq> Inr (c_Start (da_cell d))"
  shows "(\<forall>k. covers (da_cell d) k \<longleftrightarrow> covers l k \<or> covers r k) \<and> (\<forall>k. \<not> (covers l k \<and> covers r k)) \<and>
    da_cell d' = l \<and> c_Epoch r = c_Epoch l \<and>
    c_Epoch l = (c_Epoch (da_cell d))\<lparr>e_CellVer := e_CellVer (c_Epoch (da_cell d)) + 1\<rparr> \<and>
    map p_StoreID (c_Peers r) = map p_StoreID (c_Peers (da_cell d)) \<and> map p_ID (c_Peers r) = ids \<and>
    KV_Get (get_meta w' newID) (getCellStateKey newID) = Some (SCell \<lparr>cl_State = PS_Normal, cl_Cell = r\<rparr>) \<and>
    KV_Get (get_meta w' newID) (getRaftStateKey newID) = Some (SRaft initRaftLocalState) \<and>
    KV_Get (get_meta w' newID) (getApplyStateKey newID) = Some (SApply initRaftApplyState)"
  using assms(1)
proof (rule split_cells)
  fix k
  assume k: "getOriginKey key = Inr k" "covers (da_cell d) k" "length ids = length (c_Peers (da_cell d))"
    and l: "l = (da_cell d)\<lparr>c_End := k, c_Epoch := (c_Epoch (da_cell d))\<lparr>e_CellVer := e_CellVer (c_Epoch (da_cell d)) + 1\<rparr>\<rparr>"
    and r: "r = \<lparr>c_ID = newID, c_Start = k, c_End = c_End (da_cell d), c_Epoch = c_Epoch l,
          c_Peers = map2 (\<lambda>i p. \<lparr>p_ID = i, p_StoreID = p_StoreID p\<rparr>) ids (c_Peers (da_cell d))\<rparr>"
    and d': "da_cell d' = l"
    and w': "w' = write_meta newID (writeInitialState newID (updatePeerState r PS_Normal [])) w"
  have ne: "k \<noteq> c_Start (da_cell d)" using assms(3) k(1) by auto
  have "map p_StoreID (c_Peers r) = map p_StoreID (c_Peers (da_cell d))" "map p_ID (c_Peers r) = ids"
    using k(3) by (auto simp: r comp_def case_prod_beta intro: nth_equalityI)
  moreover have "get_meta w' newID = driver_Write (get_meta w newID)
      (writeInitialState newID (updatePeerState r PS_Normal []))"
    by (simp add: w' write_meta_def)
  ultimately show ?thesis
    using covers_split [OF k(2) ne l, of r] world_ok_get [OF assms(2), of newID]
    by (auto simp: r d' l KV_Get_map driver_Write_wf writeInitialState_def updatePeerState_def driver_Write_Set)
qed

theorem split_partitions_witness:
  "\<exists>resp l r err ctx' d' w'.
     doExecSplit [0x7a, 5] 2 [7] \<lparr>ax_wb = [], ax_applyState = initRaftApplyState, ax_req = emptyRequest,
       ax_index = 6, ax_term = 6\<rparr> demo_delegate demo_world = Inr (resp, Some (ERSplit l r), err, ctx', d', w') \<and>
     (\<forall>k. \<not> (covers l k \<and> covers r k))"
proof -
  let ?ctx = "\<lparr>ax_wb = [], ax_applyState = initRaftApplyState, ax_req = emptyRequest, ax_index = 6, ax_term = 6\<rparr>"
  obtain resp l r err ctx' d' w' where
    s: "doExecSplit [0x7a, 5] 2 [7] ?ctx demo_delegate demo_world = Inr (resp, Some (ERSplit l r), err, ctx', d', w')"
    by (simp add: doExecSplit_def getOriginKey_def dataPrefixKey_def dataPrefix_def checkKeyInCell_covers covers_def demo_defs Let_def go_simps) blast
  have "getOriginKey [0x7a, 5] \<noteq> Inr (c_Start (da_cell demo_delegate))"
    by (simp add: getOriginKey_def dataPrefixKey_def demo_defs)
  from s split_partitions [OF s demo_world_ok this] show ?thesis by blast
qed

text \<open>C29: a replicated write is executed and its client gets what the handlers answered.  When the
  command of an applied entry is pending on this peer with a current epoch, its requests run
  through the handlers in order, the data of the engines is what they left with the collected sets
  written on top, and the command's call-back gets one response per request, in order and stamped
  with the request's identity.  With a stale epoch nothing is executed and the call-back gets the
  error with the current cell.  Either way exactly this command and those queued before it, which
  are answered first, leave the queue.\<close>

theorem applied_write_answered:
  assumes "apply_one env e d w = Inr (d', w')" "en_Type e = EntryNormal" "en_Data e = CmdData req"
    and "rc_AdminRequest req = None" "rc_Header req = Some h"
    and "da_pendingCMDs d = pre @ c # post" "\<forall>x \<in> set (pre @ [c]). cm_term x \<le> en_Term e"
    and "cm_req c = req" "cm_cb c = Some t" "\<forall>x \<in> set pre. cmd_uuid x \<noteq> Some (rh_UUID h)"
  shows "\<exists>stale a. da_pendingCMDs d' = post \<and> w_answers w' = w_answers w @ stale @ [a] \<and> map fst stale = tokens pre \<and>
    (if checkEpoch (da_cell d) req then
       \<exists>rsps idxs hx.
         exec_requests env d (rc_Requests req) (fresh_ctx (w_data w (driver_index (w_engines w) (rh_CellId h)))) =
           Inr (rsps, idxs, hx) \<and> length rsps = length (rc_Requests req) \<and>
         a = (t, \<lparr>rr_Header = None, rr_Responses = map2 stamp (rc_Requests req) rsps, rr_AdminResponse = None\<rparr>) \<and>
         flushed env (driver_index (w_engines w) (rh_CellId h)) hx (driver_index (w_engines w) (c_ID (da_cell d)))
           (w_data w) (w_data w') \<and> w_idx w' = w_idx w @ idxs
     else stale_epoch_answer c t (da_cell d) a \<and> w_data w' = w_data w \<and> w_idx w' = w_idx w)"
proof -
  define ctx where "ctx = \<lparr>ax_wb = [], ax_applyState = da_applyState d, ax_req = req,
    ax_index = en_Index e, ax_term = en_Term e\<rparr>"
  obtain res m w1 where r: "doApplyRaftCMD env ctx d w = Inr (res, m, d', w1)"
    and w1: "w_answers w' = w_answers w1" "w_data w' = w_data w1" "w_idx w' = w_idx w1"
    using assms(1-3) by (auto simp: apply_one_def applyEntry_def Let_def sbind_Inr_iff ctx_def split: if_splits)
  show ?thesis
  proof (cases "checkEpoch (da_cell d) req")
    case True
    then show ?thesis
      using write_cmd_executed [OF r, of h pre c post t] assms(4-10) w1 by (simp add: ctx_def) blast
  next
    case False
    then show ?thesis
      using write_cmd_refused [OF r, of h pre c post t] assms(4-10) w1 by (simp add: ctx_def) blast
  qed
qed

theorem applied_write_answered_witness:
  "\<exists>d' w'. apply_one demo_env demo_write_entry demo_delegate demo_world = Inr (d', w') \<and>
     w_answers w' = [(4, \<lparr>rr_Header = None, rr_Responses = [], rr_AdminResponse = None\<rparr>)]"
proof -
  obtain d' w' where r: "apply_one demo_env demo_write_entry demo_delegate demo_world = Inr (d', w')"
    using demo_apply by blast
  with applied_write_answered [OF r, of "cm_req demo_write" demo_header "[]" demo_write "[]" 4] show ?thesis
    by (auto simp: demo_write_entry_def demo_defs cmd_uuid_def token_def demo_world_def checkEpoch_def)
qed

text \<open>C28: a membership change keeps at most one peer of the cell on each store.  It raises the
  configuration version by one, adds or removes exactly the named peer, stores the new cell, and
  marks the peer for removal exactly when it removes itself.\<close>

theorem change_peer_effect:
  assumes "doExecChangePeer t p ctx d w = Inr (resp, Some res, err, ctx', d', w')"
    and "distinct (map p_StoreID (c_Peers (da_cell d)))" "\<not> da_pendingRemove d"
  shows "distinct (map p_StoreID (c_Peers (da_cell d'))) \<and>
    e_ConfVer (c_Epoch (da_cell d')) = e_ConfVer (c_Epoch (da_cell d)) + 1 \<and>
    e_CellVer (c_Epoch (da_cell d')) = e_CellVer (c_Epoch (da_cell d)) \<and>
    set (c_Peers (da_cell d')) = (case t of AddNode \<Rightarrow> insert p (set (c_Peers (da_cell d)))
       | RemoveNode \<Rightarrow> {q \<in> set (c_Peers (da_cell d)). p_StoreID q \<noteq> p_StoreID p}) \<and>
    (da_pendingRemove d' \<longleftrightarrow> t = RemoveNode \<and> da_peerID d = p_ID p) \<and>
    ax_wb ctx' = wb_Set (ax_wb ctx) (getCellStateKey (c_ID (da_cell d)))
      (SCell \<lparr>cl_State = (if da_pendingRemove d' then PS_Tombstone else PS_Normal), cl_Cell = da_cell d'\<rparr>)"
  using assms
  by (auto simp: doExecChangePeer_def Let_def findPeer_def findPeer_in_None removePeer_peers updatePeerState_def
      distinct_map_filter split: ConfChangeType.splits if_splits) blast

theorem change_peer_effect_witness:
  "\<exists>resp res err ctx' d' w'.
     doExecChangePeer AddNode \<lparr>p_ID = 2, p_StoreID = 2\<rparr> \<lparr>ax_wb = [], ax_applyState = initRaftApplyState,
       ax_req = emptyRequest, ax_index = 6, ax_term = 6\<rparr> demo_delegate demo_world =
       Inr (resp, Some res, err, ctx', d', w') \<and>
     set (c_Peers (da_cell d')) = {\<lparr>p_ID = 1, p_StoreID = 1\<rparr>, \<lparr>p_ID = 2, p_StoreID = 2\<rparr>}"
proof -
  let ?ctx = "\<lparr>ax_wb = [], ax_applyState = initRaftApplyState, ax_req = emptyRequest, ax_index = 6, ax_term = 6\<rparr>"
  let ?p = "\<lparr>p_ID = 2, p_StoreID = 2\<rparr>"
  obtain resp res err ctx' d' w' where
    s: "doExecChangePeer AddNode ?p ?ctx demo_delegate demo_world = Inr (resp, Some res, err, ctx', d', w')"
    by (simp add: doExecChangePeer_def findPeer_def demo_defs Let_def) blast
  with change_peer_effect [OF s] show ?thesis by (auto simp: demo_defs)
qed

text \<open>Adding a peer to a store that already has one is answered with nothing and stores
  nothing, but the delegate's configuration version has moved on: the cell in memory no longer is
  the cell that a restart reads.\<close>

theorem noop_change_peer_diverges:
  assumes "doApplyRaftCMD env ctx d w = Inr (res, m, d', w')" "world_ok w"
    and "rc_AdminRequest (ax_req ctx) = Some (ChangePeer AddNode p)" "checkEpoch (da_cell d) (ax_req ctx)"
    and "findPeer (da_cell d) (p_StoreID p) \<noteq> None"
    and "KV_Get (get_meta w (c_ID (da_cell d))) (getCellStateKey (c_ID (da_cell d))) =
      Some (SCell \<lparr>cl_State = PS_Normal, cl_Cell = da_cell d\<rparr>)"
  shows "KV_Get (get_meta w' (c_ID (da_cell d))) (getCellStateKey (c_ID (da_cell d))) =
      Some (SCell \<lparr>cl_State = PS_Normal, cl_Cell = da_cell d\<rparr>) \<and>
    e_ConfVer (c_Epoch (da_cell d')) = e_ConfVer (c_Epoch (da_cell d)) + 1"
  using assms(1)
proof (rule doApplyRaftCMD_E)
  fix c as d1 resp rb ctx2 d2 w2 w3
  assume 1: "findCB ctx d = Inr (c, as, d1)"
    and 2: "exec_cmd env (ctx\<lparr>ax_wb := []\<rparr>) d1 (answer as w) = Inr (resp, res, rb, m, ctx2, d2, w2)"
    and 3: "flush_batch env rb d2 w2 = Inr w3"
    and 4: "answer_found c resp ctx2 (fst (commit_apply ctx2 d2 w3)) (snd (commit_apply ctx2 d2 w3)) = Inr (d', w')"
  have d1: "da_cell d1 = da_cell d" using findCB_frame [OF 1] by simp
  have e: "w2 = answer as w \<and> rb = [] \<and> ax_wb ctx2 = [] \<and> c_ID (da_cell d2) = c_ID (da_cell d) \<and>
      e_ConfVer (c_Epoch (da_cell d2)) = e_ConfVer (c_Epoch (da_cell d)) + 1"
    using 2 assms(3-5) by (auto simp: exec_cmd_def execAdminRequest_def doExecChangePeer_def d1 Let_def)
  with 3 have w3: "w3 = answer as w" by (simp add: flush_batch_def hasSetBatch_def)
  have "getCellStateKey a \<noteq> getApplyStateKey a" for a by simp
  with answer_found_frame [OF 4] e assms(2,6) show ?thesis
    by (auto simp: commit_apply_def Let_def w3 write_meta_def KV_Get_map world_ok_get driver_Write_wf
        driver_Write_Set get_meta_def put_meta_def answer_def world_ok_def)
qed

definition demo_noop_ctx :: applyContext where
  "demo_noop_ctx = \<lparr>ax_wb = [], ax_applyState = initRaftApplyState, ax_req = \<lparr>rc_Header = Some demo_header,
     rc_Requests = [], rc_AdminRequest = Some (ChangePeer AddNode \<lparr>p_ID = 9, p_StoreID = 1\<rparr>)\<rparr>,
     ax_index = 6, ax_term = 6\<rparr>"

definition demo_stored_world :: "unit world" where
  "demo_stored_world = demo_world\<lparr>w_meta := (\<lambda>_. KV_Put NewKVTree (getCellStateKey 1)
     (SCell \<lparr>cl_State = PS_Normal, cl_Cell = demo_cell1\<rparr>))\<rparr>"

theorem noop_change_peer_diverges_witness:
  "\<exists>res m d' w'. doApplyRaftCMD demo_env demo_noop_ctx demo_delegate demo_stored_world = Inr (res, m, d', w') \<and>
     e_ConfVer (c_Epoch (da_cell d')) = 2 \<and>
     KV_Get (get_meta w' 1) (getCellStateKey 1) = Some (SCell \<lparr>cl_State = PS_Normal, cl_Cell = demo_cell1\<rparr>)"
proof -
  obtain res m d' w' where
    r: "doApplyRaftCMD demo_env demo_noop_ctx demo_delegate demo_stored_world = Inr (res, m, d', w')"
    by (simp add: apply_defs demo_noop_ctx_def demo_defs execAdminRequest_def doExecChangePeer_def findPeer_def)
  have "world_ok demo_stored_world"
    by (simp add: demo_stored_world_def demo_world_def world_ok_def NewKVTree_def wf_intros)
  moreover have "KV_Get (get_meta demo_stored_world 1) (getCellStateKey 1) =
      Some (SCell \<lparr>cl_State = PS_Normal, cl_Cell = demo_cell1\<rparr>)"
    by (simp add: demo_stored_world_def demo_world_def get_meta_def NewKVTree_def wf_intros kvt.get_put_same)
  ultimately show ?thesis
    using r noop_change_peer_diverges [OF r]
    by (auto simp: demo_noop_ctx_def demo_defs checkEpoch_def findPeer_def)
qed

text \<open>Once the command of a membership change has been answered, the delegate keeps a
  pointer to the released command, and registering the peer's delegate again, as the peer does
  after it applied a snapshot, dereferences it: the registration never succeeds.\<close>

theorem answered_change_peer_dangles:
  assumes "doApplyRaftCMD env ctx d w = Inr (Some res, m, d', w')"
    and "isChangePeerCMD (ax_req ctx)" "rc_Header (ax_req ctx) = Some h"
    and "da_pendingChangePeerCMD d = Some (Live c)" "cmd_uuid c = Some (rh_UUID h)"
    and "delegates (c_ID (da_cell new)) = Some d'" "da_peerID new = da_peerID d'"
  shows "\<exists>f. doRegistrationJob new delegates w' = Inl f"
proof -
  have "da_pendingChangePeerCMD d' = Some Released"
    using assms(1)
  proof (rule doApplyRaftCMD_E)
    fix c' as d1 resp rb ctx2 d2 w2 w3
    assume 1: "findCB ctx d = Inr (c', as, d1)"
      and 2: "exec_cmd env (ctx\<lparr>ax_wb := []\<rparr>) d1 (answer as w) = Inr (resp, Some res, rb, m, ctx2, d2, w2)"
      and 4: "answer_found c' resp ctx2 (fst (commit_apply ctx2 d2 w3)) (snd (commit_apply ctx2 d2 w3)) = Inr (d', w')"
    have "c' = Some c" using 1 assms(2-5) by (simp add: findCB_def go_simps)
    with 4 exec_cmd_result_response [OF 2] exec_cmd_frame [OF 2, unfolded exec_frame_def] assms(2)
    show ?thesis by (auto simp: answer_found_def sbind_Inr_iff split: option.splits)
  qed
  then show ?thesis
    using assms(6,7)
    by (cases "notify_all (notifyStaleCMD (d'\<lparr>da_term := da_term new\<rparr>)) (da_pendingCMDs d')")
      (auto simp: doRegistrationJob_def clearAllCommandsAsStale_def)
qed

theorem answered_change_peer_dangles_witness:
  "\<exists>res m d' w' f. doApplyRaftCMD demo_env \<lparr>ax_wb = [], ax_applyState = initRaftApplyState,
       ax_req = cm_req demo_change, ax_index = 6, ax_term = 6\<rparr> demo_delegate demo_world = Inr (Some res, m, d', w') \<and>
     doRegistrationJob d' [1 \<mapsto> d'] w' = Inl f"
proof -
  let ?ctx = "\<lparr>ax_wb = [], ax_applyState = initRaftApplyState, ax_req = cm_req demo_change, ax_index = 6, ax_term = 6\<rparr>"
  obtain res m d' w' where r: "doApplyRaftCMD demo_env ?ctx demo_delegate demo_world = Inr (Some res, m, d', w')"
    by (simp add: apply_defs demo_defs execAdminRequest_def doExecChangePeer_def findPeer_def newAdminRaftCMDResponse_def)
  have "c_ID (da_cell d') = 1" using doApplyRaftCMD_applied [OF r] by (simp add: applied_to_def demo_defs)
  with r answered_change_peer_dangles [OF r, of demo_header demo_change "[1 \<mapsto> d']" d'] show ?thesis
    by (auto simp: demo_defs isChangePeerCMD_def cmd_uuid_def)
qed

end
