(* ===== verification/Propose_Props.thy ===== *)
theory Propose_Props
  imports Propose Apply_Props
begin

text \<open>
  What the proposal path guarantees: commands are homogeneous and keep the order of the requests,
  every command is answered or queued exactly once, compaction stays within the log; and where
  the validation of membership changes falls short of its documentation.
\<close>

subsection \<open>Batches\<close>

text \<open>A command of the batch: an admin request alone, or a non-empty block of requests of one
  kind that is not larger than the configured batch.\<close>

definition cmd_kind :: "'n proposeEnv \<Rightarrow> reqType \<Rightarrow> cmd \<Rightarrow> bool" where
  "cmd_kind env tp c \<longleftrightarrow>
     (if tp = T_admin then rc_AdminRequest (cm_req c) \<noteq> None \<and> rc_Requests (cm_req c) = []
      else rc_AdminRequest (cm_req c) = None \<and> rc_Requests (cm_req c) \<noteq> [] \<and>
           length (rc_Requests (cm_req c)) \<le> unat (cf_BatchSizeProposal (pe_cfg env)) \<and>
           (\<forall>r \<in> set (rc_Requests (cm_req c)). pe_isWrite env (rq_Type r) \<longleftrightarrow> tp = T_write)) \<and>
     (\<exists>h. rc_Header (cm_req c) = Some h \<and> rh_ReadQuorum h)"

definition batch_ok :: "'n proposeEnv \<Rightarrow> proposeBatch \<Rightarrow> bool" where
  "batch_ok env b \<longleftrightarrow> (\<forall>c \<in> set (pb_cmds b). \<exists>tp. cmd_kind env tp c) \<and>
     (pb_cmds b \<noteq> [] \<longrightarrow> cmd_kind env (pb_lastType b) (last (pb_cmds b)))"

definition batched :: "proposeBatch \<Rightarrow> Request list" where
  "batched b = concat (map (\<lambda>c. rc_Requests (cm_req c)) (pb_cmds b))"

text \<open>The requests of the items in order, as the batch stores them.\<close>

definition data_req :: "Request \<Rightarrow> Request" where
  "data_req req = req\<lparr>rq_Cmd := (rq_Cmd req)[1 := getDataKey (rq_Cmd req ! 1)]\<rparr>"

definition client_reqs :: "(bytes \<times> reqCtx) list \<Rightarrow> Request list" where
  "client_reqs items = map (data_req \<circ> rx_req \<circ> snd) (filter (\<lambda>(_, c). rx_admin c = None) items)"

lemma data_req_Type [simp]: "rq_Type (data_req r) = rq_Type r"
  by (simp add: data_req_def)

lemma data_key_req_Inr: "data_key_req r = Inr r' \<longleftrightarrow> 1 < length (rq_Cmd r) \<and> r' = data_req r"
  by (auto simp: data_key_req_def data_req_def)

lemma push_join:
  assumes "cmd_kind env tp l" "tp \<noteq> T_admin" "pe_isWrite env (rq_Type r) \<longleftrightarrow> tp = T_write"
    and "\<not> batch_isFull (pe_cfg env) (of_nat (length (rc_Requests (cm_req l))))"
  shows "cmd_kind env tp (l\<lparr>cm_req := (cm_req l)\<lparr>rc_Requests := rc_Requests (cm_req l) @ [r]\<rparr>\<rparr>)"
proof -
  let ?n = "length (rc_Requests (cm_req l))" and ?m = "cf_BatchSizeProposal (pe_cfg env)"
  have "?n \<le> unat ?m" using assms(1,2) by (simp add: cmd_kind_def)
  moreover have "?n \<noteq> unat ?m" using assms(4) by (auto simp: batch_isFull_def)
  ultimately show ?thesis
    using assms(1-3) by (auto simp: cmd_kind_def)
qed

lemma batch_push_ok:
  assumes "batch_push env pr uuid c b = Inr b'" "batch_ok env b" "0 < cf_BatchSizeProposal (pe_cfg env)"
  shows "batch_ok env b' \<and> batched b' = batched b @ client_reqs [(uuid, c)]"
proof (cases "rx_admin c")
  case (Some a)
  let ?new = "newCMD \<lparr>rc_Header = Some (batch_header pr uuid), rc_Requests = [], rc_AdminRequest = Some a\<rparr> (rx_cb c)"
  have "b' = b\<lparr>pb_cmds := pb_cmds b @ [?new], pb_lastType := T_admin\<rparr>"
    using assms(1) Some by (auto simp: batch_push_def getType_def Let_def split: option.splits)
  moreover have "cmd_kind env T_admin ?new" by (simp add: cmd_kind_def newCMD_def batch_header_def)
  ultimately show ?thesis
    using assms(2) Some by (auto simp: batch_ok_def batched_def client_reqs_def newCMD_def)
next
  case None
  define tp where "tp = getType env c"
  have tp: "tp \<noteq> T_admin" "pe_isWrite env (rq_Type (rx_req c)) \<longleftrightarrow> tp = T_write"
    using None by (auto simp: tp_def getType_def)
  have n: "0 < unat (cf_BatchSizeProposal (pe_cfg env))" using assms(3) by (simp add: unat_gt_0)
  let ?new = "newCMD \<lparr>rc_Header = Some (batch_header pr uuid), rc_Requests = [data_req (rx_req c)],
      rc_AdminRequest = None\<rparr> (rx_cb c)"
  have new: "cmd_kind env tp ?new" using tp n by (simp add: cmd_kind_def newCMD_def batch_header_def)
  have "b' = b\<lparr>pb_cmds := pb_cmds b @ [?new], pb_lastType := tp\<rparr> \<or>
    (pb_cmds b \<noteq> [] \<and> pb_lastType b = tp \<and>
     \<not> batch_isFull (pe_cfg env) (of_nat (length (rc_Requests (cm_req (last (pb_cmds b)))))) \<and>
     b' = b\<lparr>pb_cmds := butlast (pb_cmds b) @ [last (pb_cmds b)\<lparr>cm_req := (cm_req (last (pb_cmds b)))
       \<lparr>rc_Requests := rc_Requests (cm_req (last (pb_cmds b))) @ [data_req (rx_req c)]\<rparr>\<rparr>], pb_lastType := tp\<rparr>)"
    using assms(1) tp(1)
    by (auto simp: batch_push_def Let_def tp_def [symmetric] sbind_Inr_iff data_key_req_Inr lastCmd_def
        batch_isEmpty_def split: if_splits option.splits)
  then show ?thesis
  proof (elim disjE conjE)
    assume "b' = b\<lparr>pb_cmds := pb_cmds b @ [?new], pb_lastType := tp\<rparr>"
    with new assms(2) None show ?thesis
      by (auto simp: batch_ok_def batched_def client_reqs_def newCMD_def)
  next
    assume ne: "pb_cmds b \<noteq> []" and lt: "pb_lastType b = tp"
      and nf: "\<not> batch_isFull (pe_cfg env) (of_nat (length (rc_Requests (cm_req (last (pb_cmds b))))))"
      and b': "b' = b\<lparr>pb_cmds := butlast (pb_cmds b) @ [last (pb_cmds b)\<lparr>cm_req := (cm_req (last (pb_cmds b)))
       \<lparr>rc_Requests := rc_Requests (cm_req (last (pb_cmds b))) @ [data_req (rx_req c)]\<rparr>\<rparr>], pb_lastType := tp\<rparr>"
    have "cmd_kind env tp (last (pb_cmds b))" using assms(2) ne lt by (simp add: batch_ok_def)
    from push_join [OF this tp(1) _ nf, of "data_req (rx_req c)"] tp(2) have
      j: "cmd_kind env tp (last (pb_cmds b)\<lparr>cm_req := (cm_req (last (pb_cmds b)))
       \<lparr>rc_Requests := rc_Requests (cm_req (last (pb_cmds b))) @ [data_req (rx_req c)]\<rparr>\<rparr>)" by simp
    have "batched b = concat (map (\<lambda>c. rc_Requests (cm_req c)) (butlast (pb_cmds b))) @ rc_Requests (cm_req (last (pb_cmds b)))"
      unfolding batched_def
      by (subst append_butlast_last_id [OF ne, symmetric], simp only: map_append concat_append) simp
    with j b' assms(2) None show ?thesis
      by (auto simp: batch_ok_def batched_def client_reqs_def dest: in_set_butlastD)
  qed
qed

lemma push_all_ok:
  "push_all env pr items b = Inr b' \<Longrightarrow> batch_ok env b \<Longrightarrow> 0 < cf_BatchSizeProposal (pe_cfg env) \<Longrightarrow>
     batch_ok env b' \<and> batched b' = batched b @ client_reqs items"
proof (induction items arbitrary: b)
  case (Cons i items)
  then obtain b1 where 1: "batch_push env pr (fst i) (snd i) b = Inr b1" "push_all env pr items b1 = Inr b'"
    by (cases i) (auto simp: sbind_Inr_iff)
  note p = batch_push_ok [OF 1(1) Cons.prems(2,3)]
  have "client_reqs (i # items) = client_reqs [(fst i, snd i)] @ client_reqs items"
    by (simp add: client_reqs_def case_prod_beta)
  with Cons.IH [OF 1(2)] p Cons.prems(3) show ?case by simp
qed (simp add: client_reqs_def)

lemma cmd_kind_policy:
  assumes "cmd_kind env tp c" "tp \<noteq> T_admin" "\<And>t. \<not> (pe_isRead env t \<and> pe_isWrite env t)"
  shows "getHandlePolicy env (cm_req c) = Inr (if tp = T_write then P_proposeNormal else readIndex)"
proof -
  obtain rs r where rs: "rc_Requests (cm_req c) = rs @ [r]"
    using assms(1,2) by (auto simp: cmd_kind_def) (metis append_butlast_last_id)
  show ?thesis
    using assms by (auto simp: getHandlePolicy_def rs cmd_kind_def split: option.splits)
qed

subsection \<open>Every command is answered or queued\<close>

abbreviation pending_reads :: "'n PeerReplicate \<Rightarrow> cmd list" where
  "pending_reads pr \<equiv> ri_reads (pr_pendingReads pr)"

text \<open>A handler answers the command, lets it go on to the apply worker, or queues it as a read.\<close>

definition accounted :: "'n PeerReplicate \<Rightarrow> cmd \<Rightarrow> answer list \<Rightarrow> bool \<Rightarrow> 'n PeerReplicate \<Rightarrow> bool" where
  "accounted pr c as go pr' \<longleftrightarrow> pr_batch pr' = pr_batch pr \<and>
     (\<not> go \<and> map fst as = token c \<and> pending_reads pr' = pending_reads pr \<or>
      go \<and> as = [] \<and> pending_reads pr' = pending_reads pr \<or>
      \<not> go \<and> as = [] \<and> pending_reads pr' = pending_reads pr @ [c])"

text \<open>What a command carries through the proposal: its requests and its callback.\<close>

definition cmd_content :: "cmd \<Rightarrow> RaftCMDRequest \<times> nat option" where
  "cmd_content c = (cm_req c, cm_cb c)"

definition requests_of :: "cmd list \<Rightarrow> Request list" where
  "requests_of cs = concat (map (\<lambda>c. rc_Requests (cm_req c)) cs)"

lemma refuse_accounted:
  assumes "refuse pr' r = Inr (as, go, pr'')" "\<And>a. r = Inr a \<Longrightarrow> map fst a = token c"
    and "pr_pendingReads pr' = pr_pendingReads pr" "pr_batch pr' = pr_batch pr"
  shows "accounted pr c as go pr''"
  using assms by (auto simp: refuse_def sbind_Inr_iff accounted_def)

lemma response_tokens:
  "respNotLeader c i p = Inr a \<Longrightarrow> map fst a = token c"
  "respLargeRaftEntrySize c i n = Inr a \<Longrightarrow> map fst a = token c"
  "respOtherError c e = Inr a \<Longrightarrow> map fst a = token c"
  "not_leader env pr c = Inr a \<Longrightarrow> map fst a = token c"
  "doExecReadCmd env pr c = Inr a \<Longrightarrow> map fst a = token c"
  by (auto simp: respNotLeader_def respLargeRaftEntrySize_def respOtherError_def not_leader_def doExecReadCmd_def
      sbind_Inr_iff cmd_resp_tokens)

lemma go_accounted: "pr_pendingReads pr' = pr_pendingReads pr \<Longrightarrow> pr_batch pr' = pr_batch pr \<Longrightarrow> accounted pr c [] True pr'"
  by (simp add: accounted_def)

lemma execReadIndex_accounted: "execReadIndex env pr c = Inr (a, go, pr') \<Longrightarrow> accounted pr c a go pr'"
  by (auto simp: execReadIndex_def Let_def split: if_splits option.splits
      elim!: refuse_accounted intro: response_tokens)
    (auto simp: accounted_def riq_push_def)

lemma proposeNormal_accounted: "proposeNormal env pr c = Inr (a, go, pr') \<Longrightarrow> accounted pr c a go pr'"
  by (auto simp: proposeNormal_def Let_def split: if_splits sum.splits
      elim!: refuse_accounted intro: response_tokens cmd_resp_tokens go_accounted)

lemma proposeConfChange_accounted: "proposeConfChange env pr t p c = Inr (a, go, pr') \<Longrightarrow> accounted pr c a go pr'"
  by (auto simp: proposeConfChange_def Let_def split: if_splits sum.splits option.splits
      elim!: refuse_accounted intro: response_tokens go_accounted)

lemma proposeTransferLeader_accounted: "proposeTransferLeader env pr p c = Inr (a, go, pr') \<Longrightarrow> accounted pr c a go pr'"
  by (auto simp: proposeTransferLeader_def Let_def split: if_splits
      elim!: refuse_accounted intro: cmd_resp_tokens)

lemma dispatch_accounted: "dispatch env pr policy c = Inr (a, go, pr') \<Longrightarrow> accounted pr c a go pr'"
  by (auto simp: dispatch_def execReadLocal_def split: requestPolicy.splits option.splits AdminRequest.splits
      dest: execReadIndex_accounted proposeNormal_accounted proposeConfChange_accounted proposeTransferLeader_accounted
      elim!: refuse_accounted intro: response_tokens)

lemma checkProposal_content:
  assumes "checkProposal env pr c = Inr (as, r)"
  shows "(case r of None \<Rightarrow> map fst as = token c | Some c' \<Rightarrow> as = [] \<and> cmd_content c' = cmd_content c)"
  using assms
  by (auto simp: checkProposal_def Let_def sbind_Inr_iff cmd_content_def
      cmd_resp_tokens response_tokens split: option.splits if_splits)

lemma content_token: "cmd_content c' = cmd_content c \<Longrightarrow> token c' = token c"
  by (simp add: cmd_content_def token_def)

text \<open>The outcome of a whole proposal, the command up to the term it was stamped with.\<close>

definition settled :: "'n PeerReplicate \<Rightarrow> cmd list \<Rightarrow> answer list \<Rightarrow> cmd list \<Rightarrow> 'n PeerReplicate \<Rightarrow> bool" where
  "settled pr cs as js pr' \<longleftrightarrow> (\<exists>ans rds. map fst as = tokens ans \<and> pending_reads pr' = pending_reads pr @ rds \<and>
     mset (map cmd_content cs) = mset (map cmd_content (ans @ js @ rds)))"

lemma settledI:
  "map fst as = tokens ans \<Longrightarrow> pending_reads pr' = pending_reads pr @ rds \<Longrightarrow>
     mset (map cmd_content cs) = mset (map cmd_content (ans @ js @ rds)) \<Longrightarrow> settled pr cs as js pr'"
  unfolding settled_def by blast

lemma settled_answered:
  assumes "map fst as = token c" "pending_reads pr' = pending_reads pr" shows "settled pr [c] as [] pr'"
  by (rule settledI [where ans = "[c]" and rds = "[]"]) (use assms in simp_all)

lemma propose_settled:
  assumes "propose env pr c = Inr (as, js, pr')"
  shows "settled pr [c] as (map fst js) pr' \<and> pr_batch pr' = pr_batch pr"
proof -
  obtain a0 r where ch: "checkProposal env pr c = Inr (a0, r)" using assms by (auto simp: propose_def sbind_Inr_iff)
  note t = checkProposal_content [OF ch]
  show ?thesis
  proof (cases r)
    case None
    with t assms ch show ?thesis by (auto simp: propose_def intro: settled_answered)
  next
    case (Some c')
    then have a0: "a0 = []" and cc: "cmd_content c' = cmd_content c" and tk: "token c' = token c"
      using t content_token [of c' c] by auto
    show ?thesis
    proof (cases "getHandlePolicy env (cm_req c')")
      case (Inl e)
      with assms ch Some a0 tk show ?thesis
        by (auto simp: propose_def sbind_Inr_iff cmd_resp_tokens intro: settled_answered)
    next
      case (Inr policy)
      then obtain a go pr1 where d: "dispatch env pr policy c' = Inr (a, go, pr1)"
        using assms ch Some by (auto simp: propose_def sbind_Inr_iff)
      have b: "pr_batch pr1 = pr_batch pr" using dispatch_accounted [OF d] by (simp add: accounted_def)
      consider "\<not> go" "map fst a = token c'" "pending_reads pr1 = pending_reads pr"
        | "go" "a = []" "pending_reads pr1 = pending_reads pr"
        | "\<not> go" "a = []" "pending_reads pr1 = pending_reads pr @ [c']"
        using dispatch_accounted [OF d, unfolded accounted_def] by blast
      then show ?thesis
      proof cases
        case 1
        with assms ch Some Inr d a0 tk b show ?thesis by (auto simp: propose_def intro: settled_answered)
      next
        case 2
        show ?thesis
        proof (cases "pe_addJob env")
          case True
          with assms ch Some Inr d a0 2 have e: "as = []" "map fst js = [c']" "pr' = pr1" by (auto simp: propose_def)
          have "settled pr [c] [] [c'] pr1"
            by (rule settledI [where ans = "[]" and rds = "[]"]) (use 2 cc in simp_all)
          with e b show ?thesis by simp
        next
          case False
          with assms ch Some Inr d a0 2 tk b show ?thesis
            by (auto simp: propose_def sbind_Inr_iff response_tokens intro: settled_answered)
        qed
      next
        case 3
        with assms ch Some Inr d a0 have e: "as = []" "js = []" "pr' = pr1" by (auto simp: propose_def)
        have "settled pr [c] [] [] pr1"
          by (rule settledI [where ans = "[]" and rds = "[c']"]) (use 3 cc in simp_all)
        with e b show ?thesis by simp
      qed
    qed
  qed
qed

lemma settled_append:
  assumes "settled pr cs1 as1 js1 pr1" "settled pr1 cs2 as2 js2 pr2"
  shows "settled pr (cs1 @ cs2) (as1 @ as2) (js1 @ js2) pr2"
proof -
  obtain a1 r1 a2 r2 where
    1: "map fst as1 = tokens a1" "pending_reads pr1 = pending_reads pr @ r1"
       "mset (map cmd_content cs1) = mset (map cmd_content (a1 @ js1 @ r1))" and
    2: "map fst as2 = tokens a2" "pending_reads pr2 = pending_reads pr1 @ r2"
       "mset (map cmd_content cs2) = mset (map cmd_content (a2 @ js2 @ r2))"
    using assms unfolding settled_def by blast
  show ?thesis
  proof (rule settledI [where ans = "a1 @ a2" and rds = "r1 @ r2"])
    show "mset (map cmd_content (cs1 @ cs2)) = mset (map cmd_content ((a1 @ a2) @ (js1 @ js2) @ r1 @ r2))"
      using 1(3) 2(3) by (simp add: ac_simps del: mset_map)
  qed (simp_all add: 1(1,2) 2(1,2))
qed

lemma propose_all_settled:
  assumes "propose_all env cs pr = Inr (as, js, pr')"
  shows "settled pr cs as (map fst js) pr' \<and> (cs \<noteq> [] \<longrightarrow> pb_cmds (pr_batch pr') = [])"
  using assms
proof (induction cs arbitrary: pr as js)
  case Nil
  have "settled pr [] [] [] pr" by (rule settledI [where ans = "[]" and rds = "[]"]) simp_all
  with Nil show ?case by auto
next
  case (Cons c cs)
  let ?pr = "pr\<lparr>pr_batch := (pr_batch pr)\<lparr>pb_cmds := cs\<rparr>\<rparr>"
  obtain a1 j1 pr1 a2 j2 where 1: "propose env ?pr c = Inr (a1, j1, pr1)"
    and 2: "propose_all env cs pr1 = Inr (a2, j2, pr')" and e: "as = a1 @ a2" "js = j1 @ j2"
    using Cons.prems by (auto simp: sbind_Inr_iff)
  have "settled pr [c] a1 (map fst j1) pr1" using propose_settled [OF 1] by (simp add: settled_def)
  with Cons.IH [OF 2] have "settled pr (c # cs) as (map fst js) pr'"
    using settled_append [of pr "[c]"] by (fastforce simp: e)
  with propose_settled [OF 1] Cons.IH [OF 2] 2 show ?case
    by (cases cs) auto
qed

text \<open>Commands with the same contents carry the same requests and callbacks.\<close>

lemma content_requests:
  assumes "mset (map cmd_content cs) = mset (map cmd_content ds)"
  shows "mset (requests_of cs) = mset (requests_of ds)"
proof -
  have "mset (requests_of cs) = (\<Sum>p\<in>#mset (map cmd_content cs). mset (rc_Requests (fst p)))" for cs
    by (induction cs) (simp_all add: requests_of_def cmd_content_def)
  then show ?thesis using assms by simp
qed

subsection \<open>Replicated index\<close>

definition next_replicated :: "u64 \<Rightarrow> u64 \<Rightarrow> u64" where
  "next_replicated idx m = (let idx = (if idx = 0 then m else idx) in if m < idx then m else idx)"

lemma replicatedIdx_fold: "replicatedIdx progress = fold (\<lambda>p idx. next_replicated idx (pg_Match (snd p))) progress 0"
  unfolding replicatedIdx_def next_replicated_def case_prod_beta by (rule refl)

lemma replicated_min_aux:
  "0 < idx \<Longrightarrow> (\<And>p. p \<in> set ps \<Longrightarrow> 0 < pg_Match (snd p)) \<Longrightarrow>
     fold (\<lambda>p idx. next_replicated idx (pg_Match (snd p))) ps idx = Min (insert idx ((\<lambda>p. pg_Match (snd p)) ` set ps))"
proof (induction ps arbitrary: idx)
  case (Cons p ps)
  have n: "next_replicated idx (pg_Match (snd p)) = min idx (pg_Match (snd p))"
    using Cons.prems(1) by (auto simp: next_replicated_def Let_def min_def word_neq_0_conv)
  moreover have "0 < min idx (pg_Match (snd p))" using Cons.prems by auto
  moreover have "insert idx ((\<lambda>p. pg_Match (snd p)) ` set (p # ps)) =
      insert idx (insert (pg_Match (snd p)) ((\<lambda>p. pg_Match (snd p)) ` set ps))" by simp
  ultimately show ?case
    using Cons.IH [of "min idx (pg_Match (snd p))"] Cons.prems(2)
    by (cases "ps = []") (simp_all add: Min.insert_remove Min_insert min.assoc)
qed simp

subsection \<open>Properties\<close>

text \<open>Batching keeps the requests.  After any sequence of pushes the commands hold exactly
  the requests that were pushed, in order and with their data keys, and every command is an admin
  request alone or a non-empty block of requests of one kind within the configured size.\<close>

theorem batch_keeps_order:
  assumes "push_all env pr items b = Inr b'" "batch_ok env b" "0 < cf_BatchSizeProposal (pe_cfg env)"
  shows "batch_ok env b' \<and> batched b' = batched b @ client_reqs items"
  using assms by (rule push_all_ok)

definition demo_rn :: "nat RawNode" where
  "demo_rn = \<lparr>rn_Status = (\<lambda>_. \<lparr>st_Leader = True, st_Lead = 1, st_Term = 6,
       st_Progress = [(1, \<lparr>pg_Match = 9, pg_Snapshot = False\<rparr>), (2, \<lparr>pg_Match = 9, pg_Snapshot = False\<rparr>),
                      (3, \<lparr>pg_Match = 0, pg_Snapshot = False\<rparr>)]\<rparr>),
     rn_Propose = (\<lambda>_ n. Inr (Suc n)), rn_ProposeConfChange = (\<lambda>_ n. Inr (Suc n)), rn_ReadIndex = (\<lambda>_ n. Suc n),
     rn_TransferLeader = (\<lambda>_ n. n), rn_NextProposalIndex = of_nat, rn_PendingReadCount = int,
     rn_ReadyReadCount = (\<lambda>_. 0), rn_LastIndex = (\<lambda>_. 100), rn_Term = (\<lambda>_ _. 6)\<rparr>"

definition demo_replicate :: "nat PeerReplicate" where
  "demo_replicate = \<lparr>pr_cellID = 1, pr_peer = \<lparr>p_ID = 1, p_StoreID = 1\<rparr>, pr_rn = 0, pr_ps = demo_ps,
     pr_batch = newBatch, pr_pendingReads = \<lparr>ri_reads = [], ri_readyCnt = 0\<rparr>, pr_stopRaftTick = False,
     pr_writtenKeys = 0, pr_writtenBytes = 0, pr_sizeDiffHint = 0, pr_raftLogSizeHint = 0, pr_deleteKeysHint = 0\<rparr>"

definition demo_penv :: "nat proposeEnv" where
  "demo_penv = \<lparr>pe_rn = demo_rn, pe_cfg = \<lparr>cf_BatchSizeProposal = 8, cf_LimitRaftEntryBytes = 100,
       cf_ThresholdCompact = 1, cf_LimitCompactCount = 50, cf_LimitCompactBytes = 50, cf_LimitCompactLag = 5,
       cf_ThresholdSplitCheckBytes = 10\<rparr>,
     pe_store = \<lparr>sv_id = 1, sv_replicatesMap = (\<lambda>_. None), sv_keyRanges = NewCellTree, sv_peerCache = (\<lambda>_. None)\<rparr>,
     pe_isRead = (\<lambda>t. t = CMD_Get), pe_isWrite = (\<lambda>t. t = CMD_Set),
     pe_readHandle = (\<lambda>_ _. Inr AcquireResponse), pe_size = (\<lambda>_. 1), pe_addJob = True\<rparr>"

definition demo_set :: "bytes \<Rightarrow> reqCtx" where
  "demo_set k = \<lparr>rx_admin = None, rx_req = \<lparr>rq_UUID = [1], rq_Type = CMD_Set, rq_Cmd = [[1], k, [9]],
     rq_Epoch = 0, rq_SessionID = 3\<rparr>, rx_cb = Some 5\<rparr>"

lemmas push_defs = batch_push_def getType_def data_key_req_def lastCmd_def batch_isEmpty_def batch_isFull_def
  newBatch_def newCMD_def batch_header_def Let_def

theorem batch_keeps_order_witness:
  "\<exists>b'. push_all demo_penv demo_replicate [([7], demo_set [2]), ([8], demo_set [3])] newBatch = Inr b' \<and>
     batched b' = client_reqs [([7], demo_set [2]), ([8], demo_set [3])]"
proof -
  obtain b' where p: "push_all demo_penv demo_replicate [([7], demo_set [2]), ([8], demo_set [3])] newBatch = Inr b'"
    by (simp add: push_defs demo_penv_def demo_set_def)
  with batch_keeps_order [OF p] show ?thesis by (simp add: batch_ok_def batched_def newBatch_def demo_penv_def)
qed

text \<open>C26: no client request is lost.  A queue of requests is gathered into commands that hold
  exactly the requests left in the batch and the new ones, in order and under their data keys, each in one command.
  Every command then has one fate: it is answered (its callback is called, once), handed to the apply worker, or
  queued behind the earlier reads for a read index, with its requests and callback unchanged.  So the requests of the
  three groups are together the requests that came in, each as often as it came, and the batch is empty afterwards.\<close>

theorem request_accounted:
  assumes "handleRequest env items pr = Inr (as, js, pr')"
    and "batch_ok env (pr_batch pr)" "0 < cf_BatchSizeProposal (pe_cfg env)"
  shows "\<exists>b ans rds. push_all env pr items (pr_batch pr) = Inr b \<and> batch_ok env b \<and>
    batched b = batched (pr_batch pr) @ client_reqs items \<and>
    map fst as = tokens ans \<and> pending_reads pr' = pending_reads pr @ rds \<and>
    mset (map cmd_content (pb_cmds b)) = mset (map cmd_content (ans @ map fst js @ rds)) \<and>
    mset (requests_of (ans @ map fst js @ rds)) = mset (batched (pr_batch pr) @ client_reqs items) \<and>
    pb_cmds (pr_batch pr') = []"
proof -
  obtain b where b: "push_all env pr items (pr_batch pr) = Inr b"
    and p: "propose_all env (pb_cmds b) (pr\<lparr>pr_batch := b\<rparr>) = Inr (as, js, pr')"
    using assms(1) by (auto simp: handleRequest_def sbind_Inr_iff)
  have bo: "batch_ok env b" "batched b = batched (pr_batch pr) @ client_reqs items"
    using push_all_ok [OF b assms(2,3)] by simp_all
  have e: "pb_cmds (pr_batch pr') = []" using propose_all_settled [OF p] p by (cases "pb_cmds b") auto
  obtain ans rds where s: "map fst as = tokens ans" "pending_reads pr' = pending_reads pr @ rds"
    "mset (map cmd_content (pb_cmds b)) = mset (map cmd_content (ans @ map fst js @ rds))"
    using propose_all_settled [OF p] by (auto simp: settled_def)
  have "mset (requests_of (ans @ map fst js @ rds)) = mset (batched b)"
    using content_requests [OF s(3)] by (simp add: batched_def requests_of_def)
  with b bo e s show ?thesis by metis
qed

theorem request_accounted_witness:
  "\<exists>as js pr'. handleRequest demo_penv [([7], demo_set [2]), ([8], demo_set [3])] demo_replicate = Inr (as, js, pr') \<and>
     (\<exists>ans rds. mset (requests_of (ans @ map fst js @ rds)) =
        mset (client_reqs [([7], demo_set [2]), ([8], demo_set [3])]))"
proof -
  let ?items = "[([7], demo_set [2]), ([8], demo_set [3])]"
  obtain as js pr' where h: "handleRequest demo_penv ?items demo_replicate = Inr (as, js, pr')"
    by (simp add: handleRequest_def push_defs demo_penv_def demo_set_def demo_replicate_def propose_def checkProposal_def
        validateStoreID_def getHandlePolicy_def dispatch_def proposeNormal_def isLeader_def demo_rn_def)
  have o: "batch_ok demo_penv (pr_batch demo_replicate)" "0 < cf_BatchSizeProposal (pe_cfg demo_penv)"
    "batched (pr_batch demo_replicate) = []"
    by (simp_all add: batch_ok_def demo_replicate_def newBatch_def demo_penv_def batched_def)
  from h request_accounted [OF h o(1,2)] o(3) show ?thesis by auto
qed

text \<open>A compaction that the leader proposes starts at or after its first index, stays
  before what it has applied or what is replicated, and leaves the entries a slower peer still
  needs unless that peer is further behind than the configured lag.\<close>

theorem compaction_bounds:
  assumes "handleCheckCompact cfg rn pr = Inr (Some (RaftLogGC i t))"
  shows "FirstIndex (pr_ps pr) \<le> i \<and>
    i < max (getAppliedIndex (pr_ps pr)) (replicatedIdx (st_Progress (rn_Status rn (pr_rn pr)))) \<and>
    t = rn_Term rn i (pr_rn pr) \<and>
    (replicatedIdx (st_Progress (rn_Status rn (pr_rn pr))) \<le> i \<longrightarrow>
       cf_LimitCompactLag cfg < i + 1 - replicatedIdx (st_Progress (rn_Status rn (pr_rn pr))))"
proof -
  let ?rep = "replicatedIdx (st_Progress (rn_Status rn (pr_rn pr)))" and ?ap = "getAppliedIndex (pr_ps pr)"
  let ?first = "FirstIndex (pr_ps pr)"
  define k where "k = (if ?ap > ?first \<and> ?ap - ?first \<ge> cf_LimitCompactCount cfg then ?ap
    else if pr_raftLogSizeHint pr \<ge> cf_LimitCompactBytes cfg then ?ap else ?rep)"
  define j where "j = (if k > ?rep \<and> k - ?rep \<le> cf_LimitCompactLag cfg then ?rep else k)"
  have "\<not> ?rep < ?first \<and> \<not> ?rep - ?first \<le> cf_ThresholdCompact cfg \<and> k \<noteq> 0 \<and> \<not> j - 1 < ?first \<and>
    RaftLogGC i t = RaftLogGC (j - 1) (rn_Term rn (j - 1) (pr_rn pr))"
    using assms unfolding handleCheckCompact_def Let_def newCompactLogRequest_def k_def [symmetric] j_def [symmetric]
    by (auto split: if_splits)
  then have r: "\<not> ?rep < ?first" "\<not> ?rep - ?first \<le> cf_ThresholdCompact cfg" and k: "k \<noteq> 0"
    and f: "?first \<le> i" "t = rn_Term rn i (pr_rn pr)" and i: "i = j - 1" by auto
  have rep0: "?rep \<noteq> 0" using r by (auto simp: word_gt_0)
  then have j0: "j \<noteq> 0" using k by (simp add: j_def)
  then have ij: "i < j" "i + 1 = j" using le_pred_iff [of j "j - 1"] i by auto
  have "j \<le> max ?ap ?rep" by (auto simp: j_def k_def)
  moreover have "cf_LimitCompactLag cfg < i + 1 - ?rep" if "?rep \<le> i"
  proof -
    have "?rep < j" using that ij(1) by simp
    then have "j = k" "\<not> k - ?rep \<le> cf_LimitCompactLag cfg" by (auto simp: j_def split: if_splits)
    then show ?thesis using ij(2) by simp
  qed
  ultimately show ?thesis using f ij(1) by (meson order.strict_trans2)
qed

definition demo_busy :: "nat RawNode" where
  "demo_busy = demo_rn\<lparr>rn_Status := (\<lambda>_. \<lparr>st_Leader = True, st_Lead = 1, st_Term = 6,
     st_Progress = [(1, \<lparr>pg_Match = 20, pg_Snapshot = False\<rparr>)]\<rparr>)\<rparr>"

theorem compaction_bounds_witness:
  "handleCheckCompact (pe_cfg demo_penv) demo_busy demo_replicate = Inr (Some (RaftLogGC 19 6)) \<and> (6 :: u64) \<le> 19"
proof -
  have h: "handleCheckCompact (pe_cfg demo_penv) demo_busy demo_replicate = Inr (Some (RaftLogGC 19 6))"
    by (simp add: handleCheckCompact_def demo_penv_def demo_busy_def demo_rn_def replicatedIdx_def demo_replicate_def
        word_le_nat_alt demo_ps_def FirstIndex_def getAppliedIndex_def initRaftApplyState_def raftInitLogIndex_def newCompactLogRequest_def
        getTruncatedIndex_def)
  with compaction_bounds [OF h] show ?thesis
    by (simp add: demo_replicate_def demo_ps_def FirstIndex_def initRaftApplyState_def raftInitLogIndex_def
        getTruncatedIndex_def)
qed

text \<open>When every peer has acknowledged something, the replicated index is the smallest
  acknowledged index.  A peer that has acknowledged nothing makes the loop start over, so that
  the result depends on the order of the peers and can pass a slower one.\<close>

theorem replicated_index_min:
  assumes "progress \<noteq> []" "\<And>p. p \<in> set progress \<Longrightarrow> 0 < pg_Match (snd p)"
  shows "replicatedIdx progress = Min ((\<lambda>p. pg_Match (snd p)) ` set progress)"
proof -
  obtain p ps where "progress = p # ps" using assms(1) by (cases progress) auto
  moreover have "next_replicated 0 m = m" for m by (simp add: next_replicated_def)
  ultimately show ?thesis
    using replicated_min_aux [of "pg_Match (snd p)" ps] assms(2) by (simp add: replicatedIdx_fold)
qed

theorem replicated_index_min_witness:
  "replicatedIdx [(1, \<lparr>pg_Match = 5, pg_Snapshot = False\<rparr>), (2, \<lparr>pg_Match = 7, pg_Snapshot = False\<rparr>)] = 5 \<and>
   replicatedIdx [(1, \<lparr>pg_Match = 5, pg_Snapshot = False\<rparr>), (2, \<lparr>pg_Match = 0, pg_Snapshot = False\<rparr>),
     (3, \<lparr>pg_Match = 7, pg_Snapshot = False\<rparr>)] = 7"
  using replicated_index_min [of "[(1, \<lparr>pg_Match = 5, pg_Snapshot = False\<rparr>), (2, \<lparr>pg_Match = 7, pg_Snapshot = False\<rparr>)]"]
  by (simp add: replicatedIdx_def)

text \<open>Removing a peer can leave the group without a healthy quorum.  The healthy peers
  are counted with the peer that is removed, so that a change is allowed after which fewer peers
  are up to date than a quorum needs.\<close>

theorem conf_change_counts_removed:
  "\<exists>(rn :: nat RawNode) pr p. let progress = st_Progress (rn_Status rn (pr_rn pr)) in
     checkConfChange rn pr RemoveNode p = None \<and> 1 < length progress \<and> map_of progress (p_ID p) \<noteq> None \<and>
     length (filter (\<lambda>(i, q). i \<noteq> p_ID p \<and> pg_Match q \<ge> getTruncatedIndex (pr_ps pr)) progress) < (length progress - 1) div 2 + 1"
  by (intro exI [of _ demo_rn] exI [of _ demo_replicate] exI [of _ "\<lparr>p_ID = 2, p_StoreID = 2\<rparr>"])
    (simp add: checkConfChange_def countHealthyNode_def demo_rn_def demo_replicate_def Let_def)

end
