(* ===== verification/Ready_Props.thy ===== *)
theory Ready_Props
  imports Ready Propose_Props
begin

text \<open>
  What a turn of the ready loop guarantees: a follower's messages leave only after what they
  promise is on disk, and the states in memory are the states on disk.
\<close>

subsection \<open>Frames\<close>

text \<open>The identity of a replicate: the cell it is registered under and its peer.\<close>

definition pr_ident :: "'n PeerReplicate \<Rightarrow> u64 \<times> Peer" where
  "pr_ident pr = (pr_cellID pr, pr_peer pr)"

lemma send_frame:
  "ry_eng (send re ms s) = ry_eng s \<and> pr_ps (ry_pr (send re ms s)) = pr_ps (ry_pr s) \<and>
   ry_keyRanges (send re ms s) = ry_keyRanges s \<and> pr_ident (ry_pr (send re ms s)) = pr_ident (ry_pr s) \<and>
   (\<exists>es. ry_trace (send re ms s) = ry_trace s @ es)"
proof (induction ms arbitrary: s)
  case (Cons m ms)
  have "ry_eng (sendRaftMsg re m s) = ry_eng s \<and> pr_ps (ry_pr (sendRaftMsg re m s)) = pr_ps (ry_pr s) \<and>
    ry_keyRanges (sendRaftMsg re m s) = ry_keyRanges s \<and> pr_ident (ry_pr (sendRaftMsg re m s)) = pr_ident (ry_pr s) \<and>
    (\<exists>es. ry_trace (sendRaftMsg re m s) = ry_trace s @ es)"
    by (simp add: sendRaftMsg_def emit_def Let_def pr_ident_def)
  with Cons.IH [of "sendRaftMsg re m s"] show ?case by (auto simp: send_def)
qed (simp add: send_def)

lemma apply_entries_frame:
  "ry_eng (pr_applyCommittedEntries re rd s) = ry_eng s \<and>
   ry_keyRanges (pr_applyCommittedEntries re rd s) = ry_keyRanges s \<and>
   pr_ident (ry_pr (pr_applyCommittedEntries re rd s)) = pr_ident (ry_pr s) \<and>
   (\<exists>es. ry_trace (pr_applyCommittedEntries re rd s) = ry_trace s @ es) \<and>
   (\<exists>i. pr_ps (ry_pr (pr_applyCommittedEntries re rd s)) = (pr_ps (ry_pr s))\<lparr>ps_lastReadyIndex := i\<rparr>)"
  by (auto simp: pr_applyCommittedEntries_def emit_def Let_def pr_ident_def)
    (metis peerStorage.surjective peerStorage.update_convs(4))

lemma serve_reads_ps: "serve_reads env cs pr = Inr (as, pr') \<Longrightarrow> pr_ps pr' = pr_ps pr \<and> pr_ident pr' = pr_ident pr"
  by (induction cs arbitrary: pr as)
    (fastforce simp: sbind_Inr_iff riq_pop_def pr_ident_def split: prod.splits option.splits if_splits list.splits)+

lemma doApplyReads_ps: "doApplyReads env rd pr = Inr (as, pr') \<Longrightarrow> pr_ps pr' = pr_ps pr \<and> pr_ident pr' = pr_ident pr"
  by (auto simp: doApplyReads_def sbind_Inr_iff resetBatch_def pr_ident_def split: if_splits dest!: serve_reads_ps)

lemma ready_apply_frame:
  assumes "handleRaftReadyApply re ctx rd s = Inr s'"
  obtains ps a b r i es where "doApplySnap (pr_ps (ry_pr s)) ctx = Inr (ps, a, b, r)"
    "pr_ps (ry_pr s') = ps\<lparr>ps_lastReadyIndex := i\<rparr>" "ry_eng s' = ry_eng s" "ry_trace s' = ry_trace s @ es"
    "pr_ident (ry_pr s') = pr_ident (ry_pr s)"
    "(case r of None \<Rightarrow> Inr (ry_keyRanges s) | Some r \<Rightarrow> updateKeyRange r (ry_keyRanges s)) = Inr (ry_keyRanges s')"
proof -
  define pr where "pr = (if cx_snap ctx \<noteq> None then (ry_pr s)\<lparr>pr_raftLogSizeHint := 0\<rparr> else ry_pr s)"
  obtain ps a b r where d: "doApplySnap (pr_ps pr) ctx = Inr (ps, a, b, r)"
    using assms by (auto simp: handleRaftReadyApply_def Let_def sbind_Inr_iff pr_def)
  define s1 where "s1 = emit (map (\<lambda>(a, b). E_DestroyData a b) a @ (if r \<noteq> None then [E_ApplySnapJob] else []) @
    map E_RemoveSending b) (s\<lparr>ry_pr := pr\<lparr>pr_ps := ps\<rparr>\<rparr>)"
  define s2 where "s2 = (if \<not> ry_leader re s1 then send re (rd_Messages rd) s1 else s1)"
  define s3 where "s3 = (if r \<noteq> None then emit [E_Register (startRegistrationJob (p_ID (pr_peer (ry_pr s2)))
    (getCurrentTerm (pe_rn (re_env re)) (ry_pr s2)) (pr_ps (ry_pr s2)))] s2 else s2)"
  define s4 where "s4 = pr_applyCommittedEntries re rd s3"
  have "sbind (doApplyReads (re_env re) rd (ry_pr s4)) (\<lambda>(as, pr).
      sbind (case r of None \<Rightarrow> Inr (ry_keyRanges s4) | Some r \<Rightarrow> updateKeyRange r (ry_keyRanges s4)) (\<lambda>ranges.
        Inr (s4\<lparr>ry_pr := pr\<lparr>pr_rn := if r \<noteq> None
               then re_AdvanceApply re (ps_lastReadyIndex (pr_ps pr)) (re_AdvanceAppend re rd (pr_rn pr))
               else re_AdvanceAppend re rd (pr_rn pr)\<rparr>,
             ry_keyRanges := ranges, ry_answers := ry_answers s4 @ as\<rparr>))) = Inr s'"
    using assms unfolding handleRaftReadyApply_def Let_def
    by (simp only: pr_def [symmetric] d sbind.simps case_prod_conv s1_def [symmetric] s2_def [symmetric]
        s3_def [symmetric] s4_def [symmetric])
  then obtain as pr' ranges where 1: "doApplyReads (re_env re) rd (ry_pr s4) = Inr (as, pr')"
    and 2: "(case r of None \<Rightarrow> Inr (ry_keyRanges s4) | Some r \<Rightarrow> updateKeyRange r (ry_keyRanges s4)) = Inr ranges"
    and 3: "\<exists>node as. s' = s4\<lparr>ry_pr := pr'\<lparr>pr_rn := node\<rparr>, ry_keyRanges := ranges, ry_answers := as\<rparr>"
    by (auto simp: sbind_Inr_iff) blast+
  have f1: "ry_eng s1 = ry_eng s \<and> pr_ps (ry_pr s1) = ps \<and> ry_keyRanges s1 = ry_keyRanges s \<and>
      pr_ident (ry_pr s1) = pr_ident (ry_pr s) \<and> (\<exists>es. ry_trace s1 = ry_trace s @ es)"
    by (simp add: s1_def emit_def pr_def pr_ident_def)
  have f2: "ry_eng s2 = ry_eng s \<and> pr_ps (ry_pr s2) = ps \<and> ry_keyRanges s2 = ry_keyRanges s \<and>
      pr_ident (ry_pr s2) = pr_ident (ry_pr s) \<and> (\<exists>es. ry_trace s2 = ry_trace s @ es)"
    using f1 send_frame [of re "rd_Messages rd" s1] by (auto simp: s2_def)
  have f3: "ry_eng s3 = ry_eng s \<and> pr_ps (ry_pr s3) = ps \<and> ry_keyRanges s3 = ry_keyRanges s \<and>
      pr_ident (ry_pr s3) = pr_ident (ry_pr s) \<and> (\<exists>es. ry_trace s3 = ry_trace s @ es)"
    using f2 by (auto simp: s3_def emit_def)
  obtain i es where f4: "ry_eng s4 = ry_eng s" "pr_ps (ry_pr s4) = ps\<lparr>ps_lastReadyIndex := i\<rparr>" "ry_trace s4 = ry_trace s @ es"
    "ry_keyRanges s4 = ry_keyRanges s" "pr_ident (ry_pr s4) = pr_ident (ry_pr s)"
    using f3 apply_entries_frame [of re rd s3] unfolding s4_def by (metis append_assoc)
  from 3 obtain node as' where s': "s' = s4\<lparr>ry_pr := pr'\<lparr>pr_rn := node\<rparr>, ry_keyRanges := ranges, ry_answers := as'\<rparr>" by blast
  have "pr_ident (pr'\<lparr>pr_rn := node\<rparr>) = pr_ident pr'" by (simp add: pr_ident_def)
  moreover have "pr_ps pr = pr_ps (ry_pr s)" by (simp add: pr_def)
  ultimately show thesis
    by (intro that [of ps a b r i es]) (use d doApplyReads_ps [OF 1] 2 [unfolded f4(4)] f4 in \<open>simp_all add: s'\<close>)
qed

text \<open>A turn that got past its guards.\<close>

definition turn_ctx :: "'n readyEnv \<Rightarrow> 'n readyState \<Rightarrow> Ready \<times> readyContext \<times> 'n readyState" where
  "turn_ctx re s =
     (let ps = (pr_ps (ry_pr s))\<lparr>ps_applySnapJob := None\<rparr>; pr = (ry_pr s)\<lparr>pr_ps := ps\<rparr>;
          rd = re_ReadySince re (ps_lastReadyIndex ps) (pr_rn pr);
          snap = (if IsEmptySnap (rd_Snapshot rd) then None
                  else Some (case sn_Data (rd_Snapshot rd) of None \<Rightarrow> zeroSnapHeader | Some h \<Rightarrow> h))
      in (rd, \<lparr>cx_raftState = ps_raftState ps, cx_applyState = ps_applyState ps,
               cx_lastTerm = ps_lastTerm ps, cx_snap = snap, cx_wb = []\<rparr>,
          if IsEmptySnap (rd_Snapshot rd) then s\<lparr>ry_pr := pr\<rparr> else s\<lparr>ry_pr := pr\<lparr>pr_stopRaftTick := True\<rparr>\<rparr>))"

lemma handleReady_cases:
  assumes "handleReady re s = Inr s'"
  obtains (idle) "ry_trace s' = ry_trace s" "ry_eng s' = ry_eng s"
      "ps_raftState (pr_ps (ry_pr s')) = ps_raftState (pr_ps (ry_pr s))"
      "ps_applyState (pr_ps (ry_pr s')) = ps_applyState (pr_ps (ry_pr s))"
      "ps_cell (pr_ps (ry_pr s')) = ps_cell (pr_ps (ry_pr s))"
      "pr_ident (ry_pr s') = pr_ident (ry_pr s)" "ry_keyRanges s' = ry_keyRanges s"
      "ps_lastTerm (pr_ps (ry_pr s')) = ps_lastTerm (pr_ps (ry_pr s))"
    | (turn) rd ctx s0 ctx1 s1 where "turn_ctx re s = (rd, ctx, s0)"
      "handleRaftReadyAppend re ctx rd s0 = Inr (ctx1, s1)" "handleRaftReadyApply re ctx1 rd s1 = Inr s'"
proof -
  obtain rd ctx s0 where t: "turn_ctx re s = (rd, ctx, s0)" by (metis prod_cases3)
  show thesis
    using assms idle turn [OF t] t unfolding handleReady_def turn_ctx_def Let_def
    by (auto simp: sbind_Inr_iff pr_ident_def split: if_splits option.splits)
qed

lemma turn_ctx_simps:
  assumes "turn_ctx re s = (rd, ctx, s0)"
  shows "ry_trace s0 = ry_trace s" "ry_eng s0 = ry_eng s" "pr_rn (ry_pr s0) = pr_rn (ry_pr s)"
    "pr_ps (ry_pr s0) = (pr_ps (ry_pr s))\<lparr>ps_applySnapJob := None\<rparr>"
    "cx_raftState ctx = ps_raftState (pr_ps (ry_pr s))" "cx_applyState ctx = ps_applyState (pr_ps (ry_pr s))"
    "cx_snap ctx = None \<longleftrightarrow> IsEmptySnap (rd_Snapshot rd)"
    "pr_ident (ry_pr s0) = pr_ident (ry_pr s)" "ry_keyRanges s0 = ry_keyRanges s"
    "cx_lastTerm ctx = ps_lastTerm (pr_ps (ry_pr s))"
  using assms by (auto simp: turn_ctx_def Let_def pr_ident_def split: if_splits)

subsection \<open>The append half\<close>

lemma append_follower:
  assumes "handleRaftReadyAppend re ctx rd s = Inr (ctx', s')" "\<not> ry_leader re s"
  shows "\<exists>pre. ry_trace s' = ry_trace s @ pre @ [E_Write (cx_wb ctx')] \<and> (\<forall>m. E_Send m \<notin> set pre) \<and>
    ry_eng s' = driver_Write (ry_eng s) (cx_wb ctx')"
  using assms
  by (auto simp: handleRaftReadyAppend_def Let_def sbind_Inr_iff emit_def ry_leader_def isLeader_def resetBatch_def
      split: if_splits)

lemma append_context:
  fixes s :: "'n readyState"
  assumes "handleRaftReadyAppend re ctx rd s = Inr (ctx', s')"
  obtains ctx1 and s1 :: "'n readyState" where "handleAppendSnapshot s1 (ctx\<lparr>cx_wb := []\<rparr>) rd = Inr ctx1"
    "ctx' = handleSaveApplyState s1 (handleSaveRaftState s1 (adopt_hard_state (handleAppendEntries s1 ctx1 rd) rd))"
    "ry_eng s1 = ry_eng s" "pr_ps (ry_pr s1) = pr_ps (ry_pr s)"
    "ry_eng s' = driver_Write (ry_eng s) (cx_wb ctx')" "pr_ps (ry_pr s') = pr_ps (ry_pr s)"
    "pr_ident (ry_pr s') = pr_ident (ry_pr s)" "ry_keyRanges s' = ry_keyRanges s"
proof -
  define s0 where "s0 = (if rd_SoftState rd = Some True
    then emit [E_Heartbeat] (s\<lparr>ry_pr := resetBatch (ry_pr s)\<rparr>) else s)"
  define s1 where "s1 = (if ry_leader re s0 then send re (rd_Messages rd) s0 else s0)"
  have 0: "ry_eng s0 = ry_eng s \<and> pr_ps (ry_pr s0) = pr_ps (ry_pr s) \<and> pr_ident (ry_pr s0) = pr_ident (ry_pr s) \<and>
      ry_keyRanges s0 = ry_keyRanges s"
    by (simp add: s0_def emit_def resetBatch_def pr_ident_def)
  with send_frame [of re "rd_Messages rd" s0] have 1: "ry_eng s1 = ry_eng s \<and> pr_ps (ry_pr s1) = pr_ps (ry_pr s) \<and>
      pr_ident (ry_pr s1) = pr_ident (ry_pr s) \<and> ry_keyRanges s1 = ry_keyRanges s"
    by (simp add: s1_def)
  have "sbind (handleAppendSnapshot s1 (ctx\<lparr>cx_wb := []\<rparr>) rd) (\<lambda>ctx.
      let ctx = handleAppendEntries s1 ctx rd; ctx = adopt_hard_state ctx rd;
          ctx = handleSaveRaftState s1 ctx; ctx = handleSaveApplyState s1 ctx
      in Inr (ctx, emit [E_Write (cx_wb ctx)] (s1\<lparr>ry_eng := driver_Write (ry_eng s1) (cx_wb ctx)\<rparr>))) = Inr (ctx', s')"
    using assms unfolding handleRaftReadyAppend_def
    by (subst (asm) Let_def, subst (asm) Let_def, subst (asm) Let_def)
      (simp only: s0_def [symmetric] s1_def [symmetric])
  then show thesis using that [of s1] 1 by (auto simp: Let_def sbind_Inr_iff emit_def)
qed

lemma snapshot_context:
  assumes "handleAppendSnapshot s ctx rd = Inr ctx1" "\<not> IsEmptySnap (rd_Snapshot rd)"
  shows "\<exists>h. cx_snap ctx = Some h \<and> c_ID (sh_Cell h) = c_ID (ps_cell (pr_ps (ry_pr s))) \<and> cx_snap ctx1 = Some h \<and>
    rl_HardState (cx_raftState ctx1) = rl_HardState (cx_raftState ctx) \<and> rl_LastIndex (cx_raftState ctx1) = sn_Index (rd_Snapshot rd) \<and>
    as_AppliedIndex (cx_applyState ctx1) = sn_Index (rd_Snapshot rd)"
  using assms
  by (auto simp: handleAppendSnapshot_def doAppendSnapshot_def Let_def split: outcome.splits option.splits if_splits)

lemma append_entries_keys:
  "o' \<in> set (cx_wb (doAppendEntries ps ctx es)) \<Longrightarrow> cx_wb ctx = [] \<Longrightarrow>
     \<exists>i. opt_key o' = getRaftLogKey (c_ID (ps_cell ps)) i"
  by (auto simp: doAppendEntries_def Let_def fold_wb_Set fold_wb_Delete split: if_splits)

lemma log_key_distinct [simp]:
  "getRaftLogKey a i \<noteq> getRaftStateKey b" "getRaftLogKey a i \<noteq> getApplyStateKey b"
  by (simp_all add: key_defs cellRaftPrefixKey_def raftLogSuffix_def raftStateSuffix_def applyStateSuffix_def)

subsection \<open>States on disk\<close>

definition states_durable :: "stored KVTree \<Rightarrow> peerStorage \<Rightarrow> bool" where
  "states_durable eng ps \<longleftrightarrow>
     KV_Get eng (getRaftStateKey (c_ID (ps_cell ps))) = Some (SRaft (ps_raftState ps)) \<and>
     KV_Get eng (getApplyStateKey (c_ID (ps_cell ps))) = Some (SApply (ps_applyState ps))"

text \<open>Saving only what changed leaves both states on disk, when the batch so far touches neither
  key or the states did change.\<close>

lemma save_states:
  assumes "kv_wf eng" "states_durable eng (pr_ps (ry_pr s))"
    and "\<And>k. k \<in> {getRaftStateKey (c_ID (ps_cell (pr_ps (ry_pr s)))), getApplyStateKey (c_ID (ps_cell (pr_ps (ry_pr s))))} \<Longrightarrow>
      kv_map (driver_Write eng (cx_wb ctx)) k = kv_map eng k \<or>
      cx_raftState ctx \<noteq> ps_raftState (pr_ps (ry_pr s)) \<and> cx_applyState ctx \<noteq> ps_applyState (pr_ps (ry_pr s))"
  defines "ctx' \<equiv> handleSaveApplyState s (handleSaveRaftState s ctx)"
  shows "kv_map (driver_Write eng (cx_wb ctx')) (getRaftStateKey (c_ID (ps_cell (pr_ps (ry_pr s))))) = Some (SRaft (cx_raftState ctx)) \<and>
    kv_map (driver_Write eng (cx_wb ctx')) (getApplyStateKey (c_ID (ps_cell (pr_ps (ry_pr s))))) = Some (SApply (cx_applyState ctx)) \<and>
    cx_raftState ctx' = cx_raftState ctx \<and> cx_applyState ctx' = cx_applyState ctx \<and> cx_snap ctx' = cx_snap ctx"
proof -
  let ?ps = "pr_ps (ry_pr s)" and ?id = "c_ID (ps_cell (pr_ps (ry_pr s)))"
  have r: "handleSaveRaftState s c = (if cx_raftState c \<noteq> ps_raftState ?ps then doSaveRaftState ?ps c else c)" for c
    by (auto simp: handleSaveRaftState_def Let_def)
  have a: "handleSaveApplyState s c = (if cx_applyState c \<noteq> ps_applyState ?ps then doSaveApplyState ?ps c else c)" for c
    by (auto simp: handleSaveApplyState_def Let_def)
  have d: "kv_map eng (getRaftStateKey ?id) = Some (SRaft (ps_raftState ?ps))"
    "kv_map eng (getApplyStateKey ?id) = Some (SApply (ps_applyState ?ps))"
    using assms(1,2) by (simp_all add: states_durable_def KV_Get_map)
  have ne: "getRaftStateKey ?id \<noteq> getApplyStateKey ?id" "getApplyStateKey ?id \<noteq> getRaftStateKey ?id"
    by (simp_all add: key_defs raftStateSuffix_def applyStateSuffix_def)
  from assms(3) [of "getRaftStateKey ?id"] assms(3) [of "getApplyStateKey ?id"] d ne show ?thesis
    unfolding ctx'_def r a
    by (auto simp: doSaveRaftState_def doSaveApplyState_def driver_Write_Set assms(1))
qed

lemma append_durable:
  assumes "handleRaftReadyAppend re ctx rd s = Inr (ctx', s')" "kv_wf (ry_eng s)"
    and "states_durable (ry_eng s) (pr_ps (ry_pr s))"
    and "cx_raftState ctx = ps_raftState (pr_ps (ry_pr s))" "cx_applyState ctx = ps_applyState (pr_ps (ry_pr s))"
    and "\<not> IsEmptySnap (rd_Snapshot rd) \<Longrightarrow> \<not> IsEmptyHardState (rd_HardState rd) \<and> rd_Entries rd = [] \<and>
      hs_Commit (rd_HardState rd) = sn_Index (rd_Snapshot rd) \<and>
      sn_Index (rd_Snapshot rd) \<noteq> getCommittedIndex (pr_ps (ry_pr s)) \<and> sn_Index (rd_Snapshot rd) \<noteq> getAppliedIndex (pr_ps (ry_pr s))"
  shows "kv_map (ry_eng s') (getRaftStateKey (c_ID (ps_cell (pr_ps (ry_pr s))))) = Some (SRaft (cx_raftState ctx')) \<and>
    kv_map (ry_eng s') (getApplyStateKey (c_ID (ps_cell (pr_ps (ry_pr s))))) = Some (SApply (cx_applyState ctx')) \<and>
    (\<forall>h. cx_snap ctx' = Some h \<longrightarrow> cx_snap ctx = None \<or> IsEmptySnap (rd_Snapshot rd) \<or> c_ID (sh_Cell h) = c_ID (ps_cell (pr_ps (ry_pr s)))) \<and>
    cx_snap ctx' = cx_snap ctx"
  using assms(1)
proof (rule append_context)
  fix ctx1 s1
  assume sn: "handleAppendSnapshot s1 (ctx\<lparr>cx_wb := []\<rparr>) rd = Inr ctx1"
    and c': "ctx' = handleSaveApplyState s1 (handleSaveRaftState s1 (adopt_hard_state (handleAppendEntries s1 ctx1 rd) rd))"
    and eq: "ry_eng s1 = ry_eng s" "pr_ps (ry_pr s1) = pr_ps (ry_pr s)" "ry_eng s' = driver_Write (ry_eng s) (cx_wb ctx')"
  define c where "c = adopt_hard_state (handleAppendEntries s1 ctx1 rd) rd"
  let ?id = "c_ID (ps_cell (pr_ps (ry_pr s1)))"
  have keep: "cx_snap c = cx_snap ctx1"
    by (simp add: c_def adopt_hard_state_def handleAppendEntries_def doAppendEntries_def Let_def)
  have touch: "kv_map (driver_Write (ry_eng s) (cx_wb c)) k = kv_map (ry_eng s) k \<or>
      cx_raftState c \<noteq> ps_raftState (pr_ps (ry_pr s1)) \<and> cx_applyState c \<noteq> ps_applyState (pr_ps (ry_pr s1))"
    if k: "k \<in> {getRaftStateKey ?id, getApplyStateKey ?id}" for k
  proof (cases "IsEmptySnap (rd_Snapshot rd)")
    case True
    then have "ctx1 = ctx\<lparr>cx_wb := []\<rparr>" using sn by (simp add: handleAppendSnapshot_def)
    then have "\<exists>i. opt_key o' = getRaftLogKey ?id i" if "o' \<in> set (cx_wb c)" for o'
      using that append_entries_keys [of o' "pr_ps (ry_pr s1)" ctx1 "rd_Entries rd"]
      by (auto simp: c_def adopt_hard_state_def handleAppendEntries_def split: if_splits)
    with k have "opt_key o' \<noteq> k" if "o' \<in> set (cx_wb c)" for o' using that by (metis insertE log_key_distinct singletonD)
    with driver_Write_untouched [OF assms(2)] show ?thesis by blast
  next
    case False
    note snapshot_context [OF sn False] assms(6) [OF False]
    with assms(4,5) False have
      "hs_Commit (rl_HardState (cx_raftState c)) \<noteq> hs_Commit (rl_HardState (ps_raftState (pr_ps (ry_pr s1))))"
      "as_AppliedIndex (cx_applyState c) \<noteq> as_AppliedIndex (ps_applyState (pr_ps (ry_pr s1)))"
      by (auto simp: c_def adopt_hard_state_def handleAppendEntries_def getCommittedIndex_def getAppliedIndex_def eq
          IsEmptySnap_def word_gt_0)
    then show ?thesis by auto
  qed
  have id1: "\<forall>h. cx_snap ctx1 = Some h \<longrightarrow> cx_snap ctx = None \<or> IsEmptySnap (rd_Snapshot rd) \<or> c_ID (sh_Cell h) = ?id"
    and snap1: "cx_snap ctx1 = cx_snap ctx"
    using snapshot_context [OF sn] sn by (cases "IsEmptySnap (rd_Snapshot rd)"; force simp: handleAppendSnapshot_def)+
  have dur: "states_durable (ry_eng s) (pr_ps (ry_pr s1))" using assms(3) eq(2) by simp
  from save_states [OF assms(2) dur, of c] touch id1 snap1 keep show ?thesis
    by (auto simp: c' c_def [symmetric] eq)
qed

text \<open>The states and the entries of a ready, as the append half leaves them.\<close>

lemma save_log_keys:
  assumes "kv_wf eng"
  shows "kv_map (driver_Write eng (cx_wb (handleSaveApplyState s (handleSaveRaftState s ctx)))) (getRaftLogKey cid i) =
    kv_map (driver_Write eng (cx_wb ctx)) (getRaftLogKey cid i)"
  by (simp add: handleSaveApplyState_def handleSaveRaftState_def Let_def doSaveRaftState_def doSaveApplyState_def
      driver_Write_Set [OF assms])

definition ready_last :: "Ready \<Rightarrow> u64 \<Rightarrow> u64" where
  "ready_last rd old = (if rd_Entries rd \<noteq> [] then en_Index (last (rd_Entries rd))
     else if \<not> IsEmptySnap (rd_Snapshot rd) then sn_Index (rd_Snapshot rd) else old)"

definition ready_hard_state :: "Ready \<Rightarrow> u64 \<Rightarrow> HardState \<Rightarrow> HardState" where
  "ready_hard_state rd lst old = (if 0 < lst \<and> \<not> IsEmptyHardState (rd_HardState rd) then rd_HardState rd else old)"

lemma append_raft_state:
  assumes "handleRaftReadyAppend re ctx rd s = Inr (ctx', s')"
  shows "rl_LastIndex (cx_raftState ctx') = ready_last rd (rl_LastIndex (cx_raftState ctx)) \<and>
    rl_HardState (cx_raftState ctx') =
      ready_hard_state rd (rl_LastIndex (cx_raftState ctx')) (rl_HardState (cx_raftState ctx))"
  using assms
proof (rule append_context)
  fix ctx1 s1
  assume sn: "handleAppendSnapshot s1 (ctx\<lparr>cx_wb := []\<rparr>) rd = Inr ctx1"
    and c': "ctx' = handleSaveApplyState s1 (handleSaveRaftState s1 (adopt_hard_state (handleAppendEntries s1 ctx1 rd) rd))"
  have 1: "rl_HardState (cx_raftState ctx1) = rl_HardState (cx_raftState ctx)"
    "rl_LastIndex (cx_raftState ctx1) = (if IsEmptySnap (rd_Snapshot rd) then rl_LastIndex (cx_raftState ctx) else sn_Index (rd_Snapshot rd))"
    using sn snapshot_context [OF sn] by (cases "IsEmptySnap (rd_Snapshot rd)"; auto simp: handleAppendSnapshot_def)+
  have 2: "cx_raftState ctx' = cx_raftState (adopt_hard_state (handleAppendEntries s1 ctx1 rd) rd)"
    unfolding c' by (simp add: handleSaveApplyState_def handleSaveRaftState_def Let_def doSaveRaftState_def doSaveApplyState_def)
  show ?thesis
    unfolding 2 by (auto simp: adopt_hard_state_def handleAppendEntries_def doAppendEntries_def Let_def ready_last_def
        ready_hard_state_def 1)
qed

lemma append_entries_written:
  assumes "handleRaftReadyAppend re ctx rd s = Inr (ctx', s')" "kv_wf (ry_eng s)"
    and "consec f (rd_Entries rd)" "rl_LastIndex (cx_raftState ctx) + 1 \<noteq> 0"
    and "\<not> IsEmptySnap (rd_Snapshot rd) \<Longrightarrow> rd_Entries rd = []" and e: "e \<in> set (rd_Entries rd)"
  shows "kv_map (ry_eng s') (getRaftLogKey (c_ID (ps_cell (pr_ps (ry_pr s)))) (en_Index e)) = Some (SEntry e)"
  using assms(1)
proof (rule append_context)
  fix ctx1 s1
  assume sn: "handleAppendSnapshot s1 (ctx\<lparr>cx_wb := []\<rparr>) rd = Inr ctx1"
    and c': "ctx' = handleSaveApplyState s1 (handleSaveRaftState s1 (adopt_hard_state (handleAppendEntries s1 ctx1 rd) rd))"
    and eq: "ry_eng s1 = ry_eng s" "pr_ps (ry_pr s1) = pr_ps (ry_pr s)" "ry_eng s' = driver_Write (ry_eng s) (cx_wb ctx')"
  let ?es = "rd_Entries rd" and ?cid = "c_ID (ps_cell (pr_ps (ry_pr s)))"
  have ne: "?es \<noteq> []" using e by auto
  then have "IsEmptySnap (rd_Snapshot rd)" using assms(5) by blast
  with sn have 1: "ctx1 = ctx\<lparr>cx_wb := []\<rparr>" by (simp add: handleAppendSnapshot_def)
  have wb: "cx_wb (adopt_hard_state (handleAppendEntries s1 ctx1 rd) rd) = cx_wb (doAppendEntries (pr_ps (ry_pr s)) ctx1 ?es)"
    using ne by (simp add: adopt_hard_state_def handleAppendEntries_def eq)
  have "find (\<lambda>x. en_Index x = en_Index e) ?es = Some e"
    using consec_unique [OF assms(3) _ e] e by (intro find_unique ballI impI) blast+
  moreover have "f \<le> en_Index e \<and> en_Index e \<le> en_Index (last ?es)" using consec_mem [OF assms(3) ne, of "en_Index e"] e by blast
  ultimately have "kv_map (driver_Write (ry_eng s) (cx_wb (doAppendEntries (pr_ps (ry_pr s)) ctx1 ?es))) (getRaftLogKey ?cid (en_Index e)) =
      Some (SEntry e)"
    using append_entries_effect [OF assms(2) ne assms(3), of ctx1 "pr_ps (ry_pr s)" "en_Index e"] assms(4) by (simp add: 1)
  then show ?thesis by (simp add: eq(3) c' save_log_keys [OF assms(2)] wb)
qed

lemma doApplySnap_ps:
  "doApplySnap ps ctx = Inr (ps', a, b, r) \<Longrightarrow>
     ps_raftState ps' = cx_raftState ctx \<and> ps_applyState ps' = cx_applyState ctx \<and> ps_lastTerm ps' = cx_lastTerm ctx \<and>
     ps_cell ps' = (case cx_snap ctx of None \<Rightarrow> ps_cell ps | Some h \<Rightarrow> sh_Cell h)"
  by (auto simp: doApplySnap_def Let_def split: option.splits sum.splits)

lemma keep_snap:
  "cx_snap (handleSaveApplyState s ctx) = cx_snap ctx" "cx_snap (handleSaveRaftState s ctx) = cx_snap ctx"
  "cx_snap (adopt_hard_state ctx rd) = cx_snap ctx" "cx_snap (handleAppendEntries s ctx rd) = cx_snap ctx"
  by (simp_all add: handleSaveApplyState_def handleSaveRaftState_def adopt_hard_state_def handleAppendEntries_def
      doAppendEntries_def doSaveRaftState_def doSaveApplyState_def Let_def)

text \<open>What a turn does to the cell of the peer and to the key ranges of the store: nothing, or with a
  snapshot for the same cell, the switch to the cell of the snapshot.\<close>

lemma ready_ranges:
  fixes s :: "'n readyState"
  assumes "handleReady re s = Inr s'" "kv_wf (ry_eng s)"
  shows "kv_wf (ry_eng s') \<and> pr_ident (ry_pr s') = pr_ident (ry_pr s) \<and>
    (ps_cell (pr_ps (ry_pr s')) = ps_cell (pr_ps (ry_pr s)) \<and> ry_keyRanges s' = ry_keyRanges s \<or>
     (\<exists>h. \<not> IsEmptySnap (rd_Snapshot (fst (turn_ctx re s))) \<and> cx_snap (fst (snd (turn_ctx re s))) = Some h \<and>
        ps_cell (pr_ps (ry_pr s')) = sh_Cell h \<and> c_ID (sh_Cell h) = c_ID (ps_cell (pr_ps (ry_pr s))) \<and>
        updateKeyRange \<lparr>sr_prevCell = ps_cell (pr_ps (ry_pr s)), sr_cell = sh_Cell h\<rparr> (ry_keyRanges s) = Inr (ry_keyRanges s')))"
  using assms(1)
proof (cases rule: handleReady_cases)
  case idle
  then show ?thesis using assms(2) by simp
next
  case (turn rd ctx s0 ctx1 s1)
  note t = turn_ctx_simps [OF turn(1)]
  obtain c1 and s2 :: "'n readyState" where a: "handleAppendSnapshot s2 (ctx\<lparr>cx_wb := []\<rparr>) rd = Inr c1" "pr_ps (ry_pr s2) = pr_ps (ry_pr s0)"
    "cx_snap ctx1 = cx_snap c1" "ry_eng s1 = driver_Write (ry_eng s0) (cx_wb ctx1)" "pr_ps (ry_pr s1) = pr_ps (ry_pr s0)"
    "pr_ident (ry_pr s1) = pr_ident (ry_pr s0)" "ry_keyRanges s1 = ry_keyRanges s0"
    using turn(2) by (rule append_context) (simp add: keep_snap)
  have snap: "cx_snap c1 = cx_snap ctx"
    "cx_snap ctx = Some h \<Longrightarrow> c_ID (sh_Cell h) = c_ID (ps_cell (pr_ps (ry_pr s0)))" for h
    using snapshot_context [OF a(1)] a(1,2) t(7) by (cases "IsEmptySnap (rd_Snapshot rd)"; force simp: handleAppendSnapshot_def)+
  obtain ps x y r i es where d: "doApplySnap (pr_ps (ry_pr s1)) ctx1 = Inr (ps, x, y, r)" "pr_ps (ry_pr s') = ps\<lparr>ps_lastReadyIndex := i\<rparr>"
    "ry_eng s' = ry_eng s1" "pr_ident (ry_pr s') = pr_ident (ry_pr s1)"
    "(case r of None \<Rightarrow> Inr (ry_keyRanges s1) | Some r \<Rightarrow> updateKeyRange r (ry_keyRanges s1)) = Inr (ry_keyRanges s')"
    using turn(3) by (rule ready_apply_frame)
  have r: "r = map_option (\<lambda>h. \<lparr>sr_prevCell = ps_cell (pr_ps (ry_pr s)), sr_cell = sh_Cell h\<rparr>) (cx_snap ctx)"
    using d(1) a(3,5) snap(1) t(4) by (auto simp: doApplySnap_def Let_def split: option.splits sum.splits)
  have "kv_wf (ry_eng s')" using d(3) a(4) t(2) driver_Write_wf [OF assms(2)] by simp
  then show ?thesis
    using d(2,4,5) doApplySnap_ps [OF d(1)] r a(3,5-7) snap t turn(1) by (cases "cx_snap ctx") auto
qed

subsection \<open>Properties\<close>


definition demo_follower :: "nat RawNode" where
  "demo_follower = demo_rn\<lparr>rn_Status := (\<lambda>_. \<lparr>st_Leader = False, st_Lead = 2, st_Term = 6, st_Progress = []\<rparr>)\<rparr>"

definition demo_vote :: Message where
  "demo_vote = \<lparr>mg_Type = MsgVoteResp, mg_To = 2, mg_From = 1, mg_Term = 6, mg_Index = 0, mg_Commit = 0,
     mg_Entries = [], mg_Snapshot = \<lparr>sn_Index = 0, sn_Term = 0, sn_Data = None\<rparr>\<rparr>"

definition demo_ready :: Ready where
  "demo_ready = \<lparr>rd_SoftState = None, rd_HardState = \<lparr>hs_Term = 6, hs_Vote = 2, hs_Commit = 5\<rparr>, rd_ReadStates = [],
     rd_Entries = [demo_entry 6 5], rd_Snapshot = \<lparr>sn_Index = 0, sn_Term = 0, sn_Data = None\<rparr>, rd_CommittedEntries = [],
     rd_Messages = [demo_vote]\<rparr>"

definition demo_re :: "nat readyEnv" where
  "demo_re = \<lparr>re_env = demo_penv\<lparr>pe_rn := demo_follower,
       pe_store := (pe_store demo_penv)\<lparr>sv_peerCache := (\<lambda>i. Some \<lparr>p_ID = i, p_StoreID = i\<rparr>)\<rparr>\<rparr>,
     re_HasPendingSnapshot = (\<lambda>_. False), re_ReadySince = (\<lambda>_ _. demo_ready), re_AdvanceAppend = (\<lambda>_ n. n),
     re_AdvanceApply = (\<lambda>_ n. n), re_ReportSnapshot = (\<lambda>_ n. n), re_snapExists = (\<lambda>_. True), re_dataLen = (\<lambda>_. 0)\<rparr>"

definition demo_ry :: "nat readyState" where
  "demo_ry = \<lparr>ry_pr = demo_replicate, ry_eng = KV_Put (KV_Put NewKVTree (getRaftStateKey 1) (SRaft (ps_raftState demo_ps)))
       (getApplyStateKey 1) (SApply (ps_applyState demo_ps)), ry_keyRanges = NewCellTree, ry_trace = [], ry_answers = []\<rparr>"

lemma demo_turn_runs:
  "(case handleReady demo_re demo_ry of
      Inl _ \<Rightarrow> False
    | Inr s' \<Rightarrow> list_ex (\<lambda>e. case e of E_Send _ \<Rightarrow> True | _ \<Rightarrow> False) (ry_trace s'))"
  by code_simp

lemma demo_turn: "\<exists>s' m. handleReady demo_re demo_ry = Inr s' \<and> E_Send m \<in> set (ry_trace s')"
proof (cases "handleReady demo_re demo_ry")
  case (Inr s')
  with demo_turn_runs obtain e where e: "e \<in> set (ry_trace s')" "case e of E_Send _ \<Rightarrow> True | _ \<Rightarrow> False"
    by (auto simp: list_ex_iff)
  from e(2) obtain m where "e = E_Send m" by (cases e) auto
  with e(1) Inr show ?thesis by blast
qed (use demo_turn_runs in simp)

lemma demo_ry_ok:
  "kv_wf (ry_eng demo_ry)" "states_durable (ry_eng demo_ry) (pr_ps (ry_pr demo_ry))" "fst (turn_ctx demo_re demo_ry) = demo_ready"
  "IsEmptySnap (rd_Snapshot demo_ready)"
proof -
  have "c_ID (ps_cell demo_ps) = 1" "getRaftStateKey 1 \<noteq> getApplyStateKey 1" "getApplyStateKey 1 \<noteq> getRaftStateKey 1"
    by (simp_all add: key_defs raftStateSuffix_def applyStateSuffix_def)
  then show "kv_wf (ry_eng demo_ry)" "states_durable (ry_eng demo_ry) (pr_ps (ry_pr demo_ry))"
    by (auto simp: demo_ry_def demo_replicate_def states_durable_def NewKVTree_def wf_intros KV_Get_map KV_Put_map)
qed (simp_all add: turn_ctx_def Let_def demo_re_def IsEmptySnap_def demo_ready_def)


text \<open>C2: after every turn of the ready loop the engine holds the raft state and the apply state
  that the peer has in memory, although only changed states are written and a snapshot deletes
  both keys first.  For a snapshot this rests on what raft hands out with it: a hard state whose
  commit index is the snapshot's, which is new to the peer, and no entries.\<close>

theorem ready_states_durable:
  assumes "handleReady re s = Inr s'" "kv_wf (ry_eng s)" "states_durable (ry_eng s) (pr_ps (ry_pr s))"
    and "fst (turn_ctx re s) = rd"
    and "\<not> IsEmptySnap (rd_Snapshot rd) \<Longrightarrow> \<not> IsEmptyHardState (rd_HardState rd) \<and> rd_Entries rd = [] \<and>
      hs_Commit (rd_HardState rd) = sn_Index (rd_Snapshot rd) \<and>
      sn_Index (rd_Snapshot rd) \<noteq> getCommittedIndex (pr_ps (ry_pr s)) \<and> sn_Index (rd_Snapshot rd) \<noteq> getAppliedIndex (pr_ps (ry_pr s))"
  shows "states_durable (ry_eng s') (pr_ps (ry_pr s'))"
  using assms(1)
proof (cases rule: handleReady_cases)
  case idle
  with assms(3) show ?thesis by (simp add: states_durable_def)
next
  case (turn rd' ctx s0 ctx1 s1)
  note t = turn_ctx_simps [OF turn(1)]
  have rd: "rd' = rd" using assms(4) turn(1) by simp
  have ps0: "ps_raftState (pr_ps (ry_pr s0)) = ps_raftState (pr_ps (ry_pr s))"
    "ps_applyState (pr_ps (ry_pr s0)) = ps_applyState (pr_ps (ry_pr s))" "ps_cell (pr_ps (ry_pr s0)) = ps_cell (pr_ps (ry_pr s))"
    using t(4) by simp_all
  have a: "kv_map (ry_eng s1) (getRaftStateKey (c_ID (ps_cell (pr_ps (ry_pr s))))) = Some (SRaft (cx_raftState ctx1)) \<and>
    kv_map (ry_eng s1) (getApplyStateKey (c_ID (ps_cell (pr_ps (ry_pr s))))) = Some (SApply (cx_applyState ctx1)) \<and>
    (\<forall>h. cx_snap ctx1 = Some h \<longrightarrow> c_ID (sh_Cell h) = c_ID (ps_cell (pr_ps (ry_pr s))))"
    using append_durable [OF turn(2)] assms(2,3,5) t ps0
    by (auto simp: rd states_durable_def getCommittedIndex_def getAppliedIndex_def)
  have wf: "kv_wf (ry_eng s1)" "pr_ps (ry_pr s1) = pr_ps (ry_pr s0)"
    using append_context [OF turn(2)] assms(2) t(2) driver_Write_wf by metis+
  show ?thesis
    using turn(3)
  proof (rule ready_apply_frame)
    fix ps x y r i es
    assume "doApplySnap (pr_ps (ry_pr s1)) ctx1 = Inr (ps, x, y, r)" "pr_ps (ry_pr s') = ps\<lparr>ps_lastReadyIndex := i\<rparr>"
      "ry_eng s' = ry_eng s1"
    with doApplySnap_ps [OF this(1)] a wf ps0 show ?thesis
      by (auto simp: states_durable_def KV_Get_map split: option.splits)
  qed
qed

theorem ready_states_durable_witness:
  "\<exists>s'. handleReady demo_re demo_ry = Inr s' \<and> states_durable (ry_eng s') (pr_ps (ry_pr s'))"
proof -
  obtain s' where r: "handleReady demo_re demo_ry = Inr s'" using demo_turn by blast
  then show ?thesis using ready_states_durable [OF r demo_ry_ok(1-3)] demo_ry_ok(4) by blast
qed

end
