(* ===== verification/Log_Read.thy ===== *)
theory Log_Read
  imports Peer_Storage
begin

text \<open>
  Reading the raft log back: the contract of \<^verbatim>\<open>Entries\<close> and \<^verbatim>\<open>Term\<close> under the log invariant,
  and what applying a snapshot does to the storage.
\<close>

subsection \<open>The stored entries as a list\<close>

text \<open>Between the log keys of a cell the engine only holds log keys of that cell.\<close>

definition log_keys :: "stored KVTree \<Rightarrow> u64 \<Rightarrow> bool" where
  "log_keys eng cid \<longleftrightarrow> (\<forall>k \<in> dom (kv_map eng). \<forall>i j.
     getRaftLogKey cid i \<le> k \<and> k \<le> getRaftLogKey cid j \<longrightarrow> (\<exists>n. k = getRaftLogKey cid n))"

definition entry_at :: "stored KVTree \<Rightarrow> u64 \<Rightarrow> u64 \<Rightarrow> Entry" where
  "entry_at eng cid i = (case kv_map eng (getRaftLogKey cid i) of Some (SEntry e) \<Rightarrow> e | _ \<Rightarrow> undefined)"

definition log_slice :: "stored KVTree \<Rightarrow> u64 \<Rightarrow> u64 \<Rightarrow> u64 \<Rightarrow> Entry list" where
  "log_slice eng cid low high = map (entry_at eng cid) (u64_range low high)"

definition entry_item :: "u64 \<Rightarrow> Entry \<Rightarrow> stored treeItem" where
  "entry_item cid e = \<lparr>ti_key = getRaftLogKey cid (en_Index e), ti_value = Some (SEntry e)\<rparr>"

lemma entry_item_simps [simp]: "ti_key (entry_item cid e) = getRaftLogKey cid (en_Index e)"
  "ti_value (entry_item cid e) = Some (SEntry e)"
  by (simp_all add: entry_item_def)

lemma sorted_u64_range: "sorted_wrt (<) (u64_range lo hi)"
proof (induction lo hi rule: u64_range.induct)
  case (1 lo hi)
  have "lo < lo + 1" if "lo < hi"
    using less_plus1_iff [OF less_plus1_nz [OF that], of lo] by simp
  with 1 show ?case by (subst u64_range.simps) auto
qed

lemma length_u64_range: "lo \<le> hi \<Longrightarrow> length (u64_range lo hi) = unat (hi - lo)"
proof (induction lo hi rule: u64_range.induct)
  case (1 lo hi)
  show ?case
  proof (cases "lo < hi")
    case True
    have u: "unat (lo + 1) = Suc (unat lo)" by (rule unat_plus1 [OF less_plus1_nz [OF True]])
    have le: "lo + 1 \<le> hi" using True u by (simp add: word_le_nat_alt word_less_nat_alt)
    have "unat (hi - (lo + 1)) = unat hi - Suc (unat lo)" using le u by (simp add: unat_sub)
    moreover have "unat (hi - lo) = unat hi - unat lo" using 1(2) by (simp add: unat_sub)
    ultimately show ?thesis
      using 1(1) [OF True le] True by (subst u64_range.simps) (simp add: word_less_nat_alt)
  next
    case False
    then show ?thesis using 1(2) by (subst u64_range.simps) simp
  qed
qed

lemma kv_map_mem: "kv_wf kv \<Longrightarrow> kv_map kv k = Some v \<longleftrightarrow> \<lparr>ti_key = k, ti_value = Some v\<rparr> \<in> set kv"
proof (induction kv)
  case (Cons x xs)
  then show ?case by (cases x) (auto simp: kv_wf_Cons)
qed simp

lemma kv_sorted_unique:
  assumes "kv_wf xs" "kv_wf ys" "kv_map xs = kv_map ys"
  shows "xs = ys"
proof -
  have item: "i \<in> set zs \<longleftrightarrow> (\<exists>v. ti_value i = Some v \<and> kv_map zs (ti_key i) = Some v)" if "kv_wf zs" for i and zs :: "'a KVTree"
    using kv_map_mem [OF that] that by (cases i) (force simp: kv_wf_def)
  have s: "set xs = set ys" using item [OF assms(1)] item [OF assms(2)] assms(3) by auto
  have "sorted_wrt (<) (map ti_key zs)" if "kv_wf zs" for zs :: "'a KVTree"
    using that sorted_wrt_mono_rel [of zs treeItem_Less "\<lambda>x y. ti_key x < ti_key y"]
    by (simp add: kv_wf_def sorted_wrt_map)
  then have st: "sorted_wrt (<) (map ti_key xs)" "sorted_wrt (<) (map ti_key ys)" using assms by auto
  then have "map ti_key xs = map ti_key ys"
    using s by (metis set_map sorted_distinct_set_unique strict_sorted_iff)
  moreover have "inj_on ti_key (set xs \<union> set ys)"
    using st(1) s by (simp add: distinct_map strict_sorted_iff)
  ultimately show ?thesis by (simp add: inj_on_map_eq_map)
qed

lemma log_slice_items:
  assumes "log_ok eng cid trunc lst" "log_keys eng cid" "trunc < low" "low \<le> high" "high \<le> lst"
  shows "filter (\<lambda>i. getRaftLogKey cid low \<le> ti_key i \<and> ti_key i \<le> getRaftLogKey cid high) eng =
    map (entry_item cid) (log_slice eng cid low (high + 1))"
proof (rule kv_sorted_unique)
  have wf: "kv_wf eng" and nz: "high + 1 \<noteq> 0"
    using assms(1,5) by (auto simp: log_ok_def) (metis le_less less_plus1_nz)
  have at: "kv_map eng (getRaftLogKey cid i) = Some (SEntry (entry_at eng cid i)) \<and> en_Index (entry_at eng cid i) = i"
    if "low \<le> i" "i \<le> high" for i
  proof -
    have "trunc < i" "i \<le> lst" using that assms(3,5) by auto
    then show ?thesis using assms(1) by (fastforce simp: log_ok_def entry_at_def)
  qed
  have rng: "i \<in> set (u64_range low (high + 1)) \<longleftrightarrow> low \<le> i \<and> i \<le> high" for i
    using less_plus1_iff [OF nz, of i] by simp
  let ?ys = "map (entry_item cid) (log_slice eng cid low (high + 1))"
  show "kv_wf (filter (\<lambda>i. getRaftLogKey cid low \<le> ti_key i \<and> ti_key i \<le> getRaftLogKey cid high) eng)"
    using wf by (rule kv_wf_filter)
  have "sorted_wrt (\<lambda>i j. en_Index (entry_at eng cid i) < en_Index (entry_at eng cid j)) (u64_range low (high + 1))"
    using sorted_u64_range [of low "high + 1"]
    by (rule sorted_wrt_mono_rel [rotated]) (use rng at in auto)
  then show wfy: "kv_wf ?ys"
    by (simp add: kv_wf_def log_slice_def entry_item_def sorted_wrt_map)
  show "kv_map (filter (\<lambda>i. getRaftLogKey cid low \<le> ti_key i \<and> ti_key i \<le> getRaftLogKey cid high) eng) = kv_map ?ys"
  proof
    fix k
    have L: "kv_map (filter (\<lambda>i. getRaftLogKey cid low \<le> ti_key i \<and> ti_key i \<le> getRaftLogKey cid high) eng) k =
        (if getRaftLogKey cid low \<le> k \<and> k \<le> getRaftLogKey cid high then kv_map eng k else None)"
      using kv_map_filter [where P = "\<lambda>k. getRaftLogKey cid low \<le> k \<and> k \<le> getRaftLogKey cid high" and kv = eng] by simp
    show "kv_map (filter (\<lambda>i. getRaftLogKey cid low \<le> ti_key i \<and> ti_key i \<le> getRaftLogKey cid high) eng) k = kv_map ?ys k"
    proof (cases "\<exists>i. low \<le> i \<and> i \<le> high \<and> k = getRaftLogKey cid i")
      case True
      then obtain i where i: "low \<le> i" "i \<le> high" "k = getRaftLogKey cid i" by blast
      then have "entry_item cid (entry_at eng cid i) \<in> set ?ys"
        using rng [of i] by (auto simp: log_slice_def)
      then have "kv_map ?ys k = Some (SEntry (entry_at eng cid i))"
        using kv_map_mem [OF wfy] at [OF i(1,2)] i(3) by (simp add: entry_item_def)
      then show ?thesis using L at [OF i(1,2)] i by simp
    next
      case False
      have "kv_map ?ys k = None"
        unfolding kv_map_None [OF wfy] using False rng at by (fastforce simp: log_slice_def entry_item_def)
      moreover have "kv_map eng k = None" if r: "getRaftLogKey cid low \<le> k" "k \<le> getRaftLogKey cid high"
      proof (rule ccontr)
        assume "kv_map eng k \<noteq> None"
        then obtain n where "k = getRaftLogKey cid n"
          using assms(2) r unfolding log_keys_def by blast
        then show False using r False by auto
      qed
      ultimately show ?thesis using L by simp
    qed
  qed
qed

subsection \<open>The scan of \<^verbatim>\<open>Entries\<close>\<close>

text \<open>\<open>fits\<close>: the running total of the sizes never exceeds the limit.\<close>

fun fits :: "(stored \<Rightarrow> u64) \<Rightarrow> u64 \<Rightarrow> u64 \<Rightarrow> Entry list \<Rightarrow> bool" where
  "fits sz maxSize tot [] = True"
| "fits sz maxSize tot (e # es) = (tot + sz (SEntry e) \<le> maxSize \<and> fits sz maxSize (tot + sz (SEntry e)) es)"

lemma scan_entries:
  assumes "consec f es" "ea_nextIndex a = f" "\<not> ea_exceeded a"
  shows "\<exists>n a'. scan_items (entries_handler sz maxSize) (map (entry_item cid) es) a = (None, a') \<and>
    n \<le> length es \<and> ea_ents a' = ea_ents a @ take n es \<and>
    (ea_exceeded a' \<longleftrightarrow> \<not> fits sz maxSize (ea_totalSize a) es) \<and>
    (\<not> ea_exceeded a' \<longrightarrow> n = length es) \<and> (es \<noteq> [] \<longrightarrow> ea_ents a' \<noteq> [])"
  using assms
proof (induction es arbitrary: f a)
  case (Cons e es)
  show ?case
  proof (cases "ea_totalSize a + sz (SEntry e) \<le> maxSize")
    case True
    let ?a = "a\<lparr>ea_nextIndex := ea_nextIndex a + 1, ea_totalSize := ea_totalSize a + sz (SEntry e),
      ea_exceeded := False, ea_ents := ea_ents a @ [e]\<rparr>"
    have step: "entries_handler sz maxSize (getRaftLogKey cid (en_Index e)) (Some (SEntry e)) a = (Inr True, ?a)"
      using Cons.prems leD [OF True] by (simp add: entries_handler_def Let_def)
    from Cons.IH [of "f + 1" ?a] Cons.prems obtain n a' where
      "scan_items (entries_handler sz maxSize) (map (entry_item cid) es) ?a = (None, a')"
      "n \<le> length es" "ea_ents a' = ea_ents a @ [e] @ take n es"
      "ea_exceeded a' \<longleftrightarrow> \<not> fits sz maxSize (ea_totalSize a + sz (SEntry e)) es"
      "\<not> ea_exceeded a' \<longrightarrow> n = length es" by auto
    then show ?thesis
      using step True by (intro exI [of _ "Suc n"] exI [of _ a']) simp
  next
    case False
    let ?n = "if ea_ents a = [] then 1 else 0"
    let ?a = "a\<lparr>ea_nextIndex := ea_nextIndex a + 1, ea_totalSize := ea_totalSize a + sz (SEntry e),
      ea_exceeded := True, ea_ents := ea_ents a @ take ?n [e]\<rparr>"
    have "entries_handler sz maxSize (getRaftLogKey cid (en_Index e)) (Some (SEntry e)) a = (Inr False, ?a)"
      using Cons.prems False by (auto simp: entries_handler_def Let_def not_le)
    then show ?thesis
      using False by (intro exI [of _ ?n] exI [of _ ?a]) simp
  qed
qed simp

lemma consec_slice:
  assumes "log_ok eng cid trunc lst" "trunc < low" "high \<le> lst + 1"
  shows "consec low (log_slice eng cid low high)"
  using assms(2,3)
proof (induction low high rule: u64_range.induct)
  case (1 low high)
  show ?case
  proof (cases "low < high")
    case True
    have "low \<le> lst"
      using True 1(3) assms(1) less_plus1_iff [of lst low] by (auto simp: log_ok_def)
    then have e: "en_Index (entry_at eng cid low) = low"
      using 1(2) assms(1) by (fastforce simp: log_ok_def entry_at_def)
    have nz: "low + 1 \<noteq> 0" by (rule less_plus1_nz [OF True])
    have "low < low + 1" using less_plus1_iff [OF nz, of low] by simp
    then have "trunc < low + 1" using 1(2) by simp
    then have "consec (low + 1) (log_slice eng cid (low + 1) high)" using 1(1) True 1(3) by blast
    moreover have "log_slice eng cid low high = entry_at eng cid low # log_slice eng cid (low + 1) high"
      using True by (simp add: log_slice_def u64_range.simps [of low high])
    ultimately show ?thesis using e nz by simp
  next
    case False
    then show ?thesis by (simp add: log_slice_def u64_range.simps [of low high])
  qed
qed

lemma checkRange_ok:
  assumes "log_ok eng cid trunc (LastIndex ps)" "trunc = getTruncatedIndex ps" "trunc < low" "low < high" "high \<le> LastIndex ps + 1"
  shows "checkRange ps low high = None"
  using assms by (simp add: checkRange_def leD)

lemma Entries_scan:
  assumes ok: "log_ok eng (c_ID (ps_cell ps)) (getTruncatedIndex ps) (LastIndex ps)"
    and keys: "log_keys eng (c_ID (ps_cell ps))"
    and r: "getTruncatedIndex ps < low" "low + 1 < high" "high \<le> LastIndex ps + 1"
    and h: "h \<le> LastIndex ps" "low \<le> h"
    and items: "filter (\<lambda>i. getRaftLogKey (c_ID (ps_cell ps)) low \<le> ti_key i \<and>
        ti_key i \<le> getRaftLogKey (c_ID (ps_cell ps)) high) eng =
      map (entry_item (c_ID (ps_cell ps))) (log_slice eng (c_ID (ps_cell ps)) low (h + 1))"
  shows "\<exists>n. n \<le> length (log_slice eng (c_ID (ps_cell ps)) low (h + 1)) \<and> 1 \<le> n \<and>
    (if fits sz maxSize 0 (log_slice eng (c_ID (ps_cell ps)) low (h + 1))
     then n = length (log_slice eng (c_ID (ps_cell ps)) low (h + 1)) \<and>
       Entries sz eng ps low high maxSize =
         (if n = unat (high - low) then Return (log_slice eng (c_ID (ps_cell ps)) low (h + 1)) else Fail ErrUnavailable)
     else Entries sz eng ps low high maxSize = Return (take n (log_slice eng (c_ID (ps_cell ps)) low (h + 1))))"
proof -
  let ?es = "log_slice eng (c_ID (ps_cell ps)) low (h + 1)"
  have wf: "kv_wf eng" and hz: "h + 1 \<noteq> 0"
    using ok h(1) by (auto simp: log_ok_def) (metis le_less less_plus1_nz)
  have hle: "h + 1 \<le> LastIndex ps + 1"
    using h(1) ok unat_plus1 [OF hz] unat_plus1 [of "LastIndex ps"] by (auto simp: log_ok_def word_le_nat_alt)
  have lowlt: "low < high"
  proof -
    have "low + 1 \<noteq> 0" using h hz by (metis le_less less_plus1_nz)
    then show ?thesis using r(2) less_plus1_iff [of low low] by auto
  qed
  let ?a = "\<lparr>ea_ents = [], ea_totalSize = 0, ea_nextIndex = low, ea_exceeded = False\<rparr>"
  have "\<exists>n a'. scan_items (entries_handler sz maxSize) (map (entry_item (c_ID (ps_cell ps))) ?es) ?a = (None, a') \<and>
      n \<le> length ?es \<and> ea_ents a' = ea_ents ?a @ take n ?es \<and>
      (ea_exceeded a' \<longleftrightarrow> \<not> fits sz maxSize (ea_totalSize ?a) ?es) \<and>
      (\<not> ea_exceeded a' \<longrightarrow> n = length ?es) \<and> (?es \<noteq> [] \<longrightarrow> ea_ents a' \<noteq> [])"
    by (rule scan_entries [OF consec_slice [OF ok r(1) hle]]) simp_all
  then obtain n a' where scan: "scan_items (entries_handler sz maxSize) (map (entry_item (c_ID (ps_cell ps))) ?es)
        \<lparr>ea_ents = [], ea_totalSize = 0, ea_nextIndex = low, ea_exceeded = False\<rparr> = (None, a')"
      and n: "n \<le> length ?es" "ea_ents a' = take n ?es" "ea_exceeded a' \<longleftrightarrow> \<not> fits sz maxSize 0 ?es"
        "\<not> ea_exceeded a' \<longrightarrow> n = length ?es" "?es \<noteq> [] \<longrightarrow> ea_ents a' \<noteq> []"
    unfolding entries_acc.select_convs append_Nil by blast
  have "?es \<noteq> []" using h(2) less_plus1_iff [OF hz, of low] by (simp add: log_slice_def u64_range.simps [of low])
  then have n1: "1 \<le> n" using n(2,5) by (cases n) auto
  have "Entries sz eng ps low high maxSize =
      (if length (take n ?es) = unat (high - low) \<or> ea_exceeded a' then Return (take n ?es) else Fail ErrUnavailable)"
    using less_imp_neq [OF lowlt] less_imp_neq [OF r(2)] n(2)
    by (simp add: Entries_def checkRange_ok [OF ok refl r(1) lowlt r(3)] KV_Scan_filter [OF wf] items scan)
  then show ?thesis using n n1 by (intro exI [of _ n]) auto
qed

text \<open>A stored log of three entries.\<close>

definition demo_log :: "stored KVTree" where
  "demo_log = map (entry_item 1) [demo_entry 6 5, demo_entry 7 5, demo_entry 8 6]"

definition demo_ps8 :: peerStorage where
  "demo_ps8 = demo_ps\<lparr>ps_raftState := initRaftLocalState\<lparr>rl_LastIndex := 8\<rparr>, ps_lastTerm := 6\<rparr>"

lemma demo_indices: "(5 :: u64) < i \<and> i \<le> 8 \<longleftrightarrow> i = 6 \<or> i = 7 \<or> i = 8"
proof -
  have "(5 :: u64) < i \<and> i \<le> 8 \<longleftrightarrow> i \<in> set (u64_range 6 9)"
    unfolding set_u64_range mem_Collect_eq
    using less_plus1_iff [of 8 i] less_plus1_iff [of 5 i] by (auto simp: not_le [symmetric])
  also have "u64_range 6 9 = [6, 7, 8]" by (simp add: u64_range.simps)
  finally show ?thesis by auto
qed

lemma demo_log_ok: "log_ok demo_log 1 5 8"
  unfolding log_ok_def demo_indices by (auto simp: demo_log_def kv_wf_Cons)

lemma demo_log_keys: "log_keys demo_log 1"
  by (auto simp: log_keys_def demo_log_def dom_def)

lemma demo_ps8_simps [simp]: "c_ID (ps_cell demo_ps8) = 1" "getTruncatedIndex demo_ps8 = 5" "LastIndex demo_ps8 = 8"
  "ps_lastTerm demo_ps8 = 6" "getTruncatedTerm demo_ps8 = 5"
  by (simp_all add: demo_ps8_def demo_ps_def initRaftApplyState_def raftInitLogIndex_def raftInitLogTerm_def
      getTruncatedIndex_def getTruncatedTerm_def LastIndex_def)

lemma demo_slice: "log_slice demo_log 1 6 9 = [demo_entry 6 5, demo_entry 7 5, demo_entry 8 6]"
  by (simp add: log_slice_def u64_range.simps entry_at_def demo_log_def)

subsection \<open>Properties\<close>

text \<open>Reading the whole tail of the log, from any index after the truncated one up to the end,
  returns the stored entries in order when their sizes fit the limit, and otherwise a
  non-empty prefix of them.\<close>

theorem Entries_tail:
  assumes "log_ok eng (c_ID (ps_cell ps)) (getTruncatedIndex ps) (LastIndex ps)"
    and "log_keys eng (c_ID (ps_cell ps))"
    and "getTruncatedIndex ps < low" and "low + 1 < high" and "high = LastIndex ps + 1" and "low \<le> LastIndex ps"
  shows "\<exists>n. 1 \<le> n \<and> Entries sz eng ps low high maxSize = Return (take n (log_slice eng (c_ID (ps_cell ps)) low high)) \<and>
    (fits sz maxSize 0 (log_slice eng (c_ID (ps_cell ps)) low high) \<longrightarrow>
       take n (log_slice eng (c_ID (ps_cell ps)) low high) = log_slice eng (c_ID (ps_cell ps)) low high)"
proof -
  let ?c = "c_ID (ps_cell ps)"
  have wf: "kv_wf eng" and nz: "LastIndex ps + 1 \<noteq> 0"
    using assms(1) by (auto simp: log_ok_def)
  have none: "kv_map eng (getRaftLogKey ?c high) = None"
    using assms(1,5) less_plus1_iff [OF nz, of "LastIndex ps"] by (auto simp: log_ok_def)
  have "getRaftLogKey ?c low \<le> k \<and> k \<le> getRaftLogKey ?c high \<longleftrightarrow>
      getRaftLogKey ?c low \<le> k \<and> k \<le> getRaftLogKey ?c (LastIndex ps)" if k: "k \<in> dom (kv_map eng)" for k
  proof
    assume a: "getRaftLogKey ?c low \<le> k \<and> k \<le> getRaftLogKey ?c high"
    then obtain j where j: "k = getRaftLogKey ?c j" using assms(2) k unfolding log_keys_def by blast
    with a none k have "j < LastIndex ps + 1" using assms(5) by (auto simp: order.order_iff_strict [of j])
    then show "getRaftLogKey ?c low \<le> k \<and> k \<le> getRaftLogKey ?c (LastIndex ps)"
      using a j less_plus1_iff [OF nz, of j] by simp
  next
    assume a: "getRaftLogKey ?c low \<le> k \<and> k \<le> getRaftLogKey ?c (LastIndex ps)"
    have "getRaftLogKey ?c (LastIndex ps) \<le> getRaftLogKey ?c high"
      using assms(5) less_plus1_iff [OF nz, of "LastIndex ps"] by simp
    with a show "getRaftLogKey ?c low \<le> k \<and> k \<le> getRaftLogKey ?c high" by (meson order_trans)
  qed
  then have "filter (\<lambda>i. getRaftLogKey ?c low \<le> ti_key i \<and> ti_key i \<le> getRaftLogKey ?c high) eng =
      filter (\<lambda>i. getRaftLogKey ?c low \<le> ti_key i \<and> ti_key i \<le> getRaftLogKey ?c (LastIndex ps)) eng"
    using kv_map_None [OF wf] by (intro filter_cong) (auto simp: domIff)
  then have items: "filter (\<lambda>i. getRaftLogKey ?c low \<le> ti_key i \<and> ti_key i \<le> getRaftLogKey ?c high) eng =
      map (entry_item ?c) (log_slice eng ?c low (LastIndex ps + 1))"
    using log_slice_items [OF assms(1,2,3,6) order_refl] by simp
  have "length (log_slice eng ?c low high) = unat (high - low)"
    using assms(5,6) less_plus1_iff [OF nz, of low] by (simp add: log_slice_def length_u64_range)
  then show ?thesis
    using Entries_scan [OF assms(1,2,3,4) _ order_refl assms(6) items, of sz maxSize] assms(5)
    by (auto split: if_splits)
qed

theorem Entries_tail_witness:
  "Entries (\<lambda>_. 1) demo_log demo_ps8 6 9 100 = Return [demo_entry 6 5, demo_entry 7 5, demo_entry 8 6]"
proof -
  have "fits (\<lambda>_. 1) 100 0 [demo_entry 6 5, demo_entry 7 5, demo_entry 8 6]" by simp
  then show ?thesis
    using Entries_tail [of demo_log demo_ps8 6 9 "\<lambda>_. 1" 100, unfolded demo_ps8_simps demo_slice,
        OF demo_log_ok demo_log_keys] by fastforce
qed

text \<open>Reading an inner part of the log, at least two entries long and ending before the last
  one, always fails with \<^verbatim>\<open>ErrUnavailable\<close> on the in-memory engine when the sizes fit: its scan
  includes the end key, so the call collects one entry too many and the count check fails.\<close>

theorem Entries_interior_unavailable:
  assumes "log_ok eng (c_ID (ps_cell ps)) (getTruncatedIndex ps) (LastIndex ps)"
    and "log_keys eng (c_ID (ps_cell ps))"
    and "getTruncatedIndex ps < low" and "low \<le> high" and "low + 1 < high" and "high \<le> LastIndex ps"
    and "fits sz maxSize 0 (log_slice eng (c_ID (ps_cell ps)) low (high + 1))"
  shows "Entries sz eng ps low high maxSize = Fail ErrUnavailable"
proof -
  let ?c = "c_ID (ps_cell ps)"
  have lz: "LastIndex ps + 1 \<noteq> 0" using assms(1) by (simp add: log_ok_def)
  have hz: "high + 1 \<noteq> 0" using assms(6) lz by (metis le_less less_plus1_nz)
  have hle: "high \<le> LastIndex ps + 1" using assms(6) less_plus1_iff [OF lz, of "LastIndex ps"] by auto
  have "low \<le> high + 1" using assms(4) less_plus1_iff [OF hz, of low] by simp
  then have "length (log_slice eng ?c low (high + 1)) = unat (high + 1 - low)"
    by (simp add: log_slice_def length_u64_range)
  also have "\<dots> = Suc (unat (high - low))"
    using assms(4) unat_plus1 [OF hz] \<open>low \<le> high + 1\<close> by (simp add: unat_sub word_le_nat_alt)
  finally show ?thesis
    using Entries_scan [OF assms(1,2,3,5) hle assms(6,4) log_slice_items [OF assms(1,2,3,4,6)], of sz maxSize] assms(7)
    by auto
qed

theorem Entries_interior_unavailable_witness:
  "Entries (\<lambda>_. 1) demo_log demo_ps8 6 8 100 = Fail ErrUnavailable"
  using Entries_interior_unavailable [of demo_log demo_ps8 6 8 "\<lambda>_. 1" 100] demo_log_ok demo_log_keys
  by (simp add: demo_slice)

text \<open>The terms of a raft log never decrease; \<open>terms_ok\<close> also ties the cached term of the last
  entry to the log.\<close>

definition terms_ok :: "stored KVTree \<Rightarrow> peerStorage \<Rightarrow> bool" where
  "terms_ok eng ps \<longleftrightarrow>
     (\<forall>i j. getTruncatedIndex ps < i \<and> i \<le> j \<and> j \<le> LastIndex ps \<longrightarrow>
        getTruncatedTerm ps \<le> en_Term (entry_at eng (c_ID (ps_cell ps)) i) \<and>
        en_Term (entry_at eng (c_ID (ps_cell ps)) i) \<le> en_Term (entry_at eng (c_ID (ps_cell ps)) j)) \<and>
     (getTruncatedIndex ps < LastIndex ps \<longrightarrow>
        ps_lastTerm ps = en_Term (entry_at eng (c_ID (ps_cell ps)) (LastIndex ps)))"

lemma log_ok_entry:
  assumes "log_ok eng cid trunc lst" "trunc < i" "i \<le> lst"
  shows "kv_map eng (getRaftLogKey cid i) = Some (SEntry (entry_at eng cid i)) \<and> en_Index (entry_at eng cid i) = i"
  using assms by (fastforce simp: log_ok_def entry_at_def)

text \<open>\<^verbatim>\<open>Term\<close> returns the term of the stored entry for every index of the log, also on its
  shortcut that answers with the cached last term without reading the engine, the truncated
  term at the truncated index, and an error everywhere else.\<close>

theorem Term_correct:
  assumes "log_ok eng (c_ID (ps_cell ps)) (getTruncatedIndex ps) (LastIndex ps)" and "terms_ok eng ps"
  shows "Term eng ps i =
    (if i = getTruncatedIndex ps then Return (getTruncatedTerm ps)
     else if i < getTruncatedIndex ps then Fail ErrCompacted
     else if i \<le> LastIndex ps then Return (en_Term (entry_at eng (c_ID (ps_cell ps)) i))
     else Fail ErrOtherStorage)"
proof -
  let ?t = "getTruncatedIndex ps" and ?l = "LastIndex ps" and ?c = "c_ID (ps_cell ps)"
  have wf: "kv_wf eng" and lz: "?l + 1 \<noteq> 0" and tl: "?t \<le> ?l" using assms(1) by (auto simp: log_ok_def)
  consider "i = ?t" | "i < ?t" | "?t < i" "i \<le> ?l" | "?l < i" "?t < i" using tl by force
  then show ?thesis
  proof cases
    case 2
    then have "i < i + 1" using less_plus1_iff [OF less_plus1_nz [OF 2], of i] by simp
    then have "checkRange ps i (i + 1) = Some ErrCompacted" using 2 by (simp add: checkRange_def leD)
    with 2 show ?thesis by (simp add: Term_def)
  next
    case 3
    have iz: "i + 1 \<noteq> 0" using 3(2) lz by (metis le_less less_plus1_nz)
    have "i < i + 1" using less_plus1_iff [OF iz, of i] by simp
    moreover have "i + 1 \<le> ?l + 1" using 3(2) unat_plus1 [OF iz] unat_plus1 [OF lz] by (simp add: word_le_nat_alt)
    ultimately have cr: "checkRange ps i (i + 1) = None" using 3 by (simp add: checkRange_def leD)
    have same: "ps_lastTerm ps = en_Term (entry_at eng ?c i)" if "getTruncatedTerm ps = ps_lastTerm ps \<or> i = ?l"
    proof -
      have "getTruncatedTerm ps \<le> en_Term (entry_at eng ?c i)" "en_Term (entry_at eng ?c i) \<le> en_Term (entry_at eng ?c ?l)"
        "ps_lastTerm ps = en_Term (entry_at eng ?c ?l)"
        using assms(2) 3 unfolding terms_ok_def by (meson less_le_trans order_refl)+
      then show ?thesis using that by auto
    qed
    show ?thesis
      using 3 cr same log_ok_entry [OF assms(1) 3] by (auto simp: Term_def KV_Get_map [OF wf] unmarshal_def)
  next
    case 4
    then have "\<not> i + 1 \<le> ?l + 1 \<or> i + 1 < i"
      using unat_plus1 [of i] unat_plus1 [OF lz] by (cases "i + 1 = 0") (auto simp: word_le_nat_alt word_less_nat_alt)
    then have "checkRange ps i (i + 1) = Some ErrOtherStorage" using 4(2) by (auto simp: checkRange_def not_le)
    with 4 show ?thesis by (auto simp: Term_def)
  qed (simp add: Term_def)
qed

lemma demo_terms_ok: "terms_ok demo_log demo_ps8"
proof -
  have "en_Term (entry_at demo_log 1 i) = (if i = 8 then 6 else 5)" if "5 < i" "i \<le> 8" for i
    using that demo_indices [of i] by (auto simp: entry_at_def demo_log_def)
  note val = this
  have mono: "5 \<le> en_Term (entry_at demo_log 1 i) \<and> en_Term (entry_at demo_log 1 i) \<le> en_Term (entry_at demo_log 1 j)"
    if "5 < i" "i \<le> j" "j \<le> 8" for i j
  proof -
    have b: "5 < j" "i \<le> 8" using that by (meson less_le_trans order_trans)+
    have "j = 8" if "i = 8" using that \<open>i \<le> j\<close> \<open>j \<le> 8\<close> by simp
    then show ?thesis using val [OF that(1) b(2)] val [OF b(1) that(3)] by simp
  qed
  have "en_Term (entry_at demo_log 1 8) = 6" using val [of 8] by simp
  then show ?thesis
    unfolding terms_ok_def demo_ps8_simps by (simp add: mono del: all_simps) (meson mono)
qed

theorem Term_correct_witness: "Term demo_log demo_ps8 7 = Return 5"
  using Term_correct [of demo_log demo_ps8 7] demo_log_ok demo_terms_ok
  by (simp add: entry_at_def demo_log_def)

text \<open>After a snapshot of an initialised peer no data is ever scheduled for deletion, whatever
  range the snapshot's cell has: \<^verbatim>\<open>doApplySnap\<close> hands the peer's current cell, not the
  snapshot's, to \<^verbatim>\<open>clearExtraData\<close>, which then compares the cell with itself.\<close>

theorem apply_snap_clears_nothing:
  "case doApplySnap ps ctx of
     Inl f \<Rightarrow> False
   | Inr (ps', ranges, rms, res) \<Rightarrow> ranges = [] \<and> ps_raftState ps' = cx_raftState ctx \<and>
       ps_applyState ps' = cx_applyState ctx \<and>
       ps_cell ps' = (case cx_snap ctx of None \<Rightarrow> ps_cell ps | Some h \<Rightarrow> sh_Cell h)"
  by (auto simp: doApplySnap_def Let_def clearExtraData_def isInitialized_def encStartKey_def encEndKey_def go_simps
      split: option.splits)

end
