(* ===== verification/Restart.thy ===== *)
theory Restart
  imports Ready_Props Log_Read
begin

text \<open>
  A restart after a turn of the ready loop.  What the turn wrote with its batch, entries by
  \<^verbatim>\<open>doAppendEntries\<close> or a snapshot by \<^verbatim>\<open>doAppendSnapshot\<close>, the raft state by \<^verbatim>\<open>doSaveRaftState\<close> and the apply state by
  \<^verbatim>\<open>doSaveApplyState\<close>, is what \<^verbatim>\<open>newPeerStorage\<close> reads back.
\<close>

subsection \<open>Loading\<close>

text \<open>The last term of a storage is that of its last index: the initial one, the truncated one or the entry
  on disk.\<close>

definition last_ok :: "stored KVTree \<Rightarrow> peerStorage \<Rightarrow> bool" where
  "last_ok eng ps \<longleftrightarrow>
     (let lst = rl_LastIndex (ps_raftState ps)
      in raftInitLogIndex \<le> lst \<and>
         (if lst = raftInitLogIndex then ps_lastTerm ps = raftInitLogTerm
          else if lst = getTruncatedIndex ps then ps_lastTerm ps = getTruncatedTerm ps
          else \<exists>e. kv_map eng (getRaftLogKey (c_ID (ps_cell ps)) lst) = Some (SEntry e) \<and> ps_lastTerm ps = en_Term e))"

lemma reload:
  assumes "kv_wf eng" "states_durable eng ps" "last_ok eng ps" "isInitialized ps"
  shows "\<exists>ps'. newPeerStorage eng (ps_cell ps) = Return ps' \<and> ps_cell ps' = ps_cell ps \<and>
    ps_raftState ps' = ps_raftState ps \<and> ps_applyState ps' = ps_applyState ps \<and> ps_lastTerm ps' = ps_lastTerm ps \<and>
    ps_lastReadyIndex ps' = getAppliedIndex ps"
proof -
  have "raftInitLogIndex \<noteq> 0" by (simp add: raftInitLogIndex_def)
  then have "rl_LastIndex (ps_raftState ps) \<noteq> 0" "\<not> rl_LastIndex (ps_raftState ps) < raftInitLogIndex"
    using assms(3) by (auto simp: last_ok_def Let_def not_less word_le_0_iff)
  with assms(2-4) show ?thesis
    by (auto simp: newPeerStorage_def initRaftState_def initApplyState_def initLastTerm_def states_durable_def last_ok_def
        KV_Get_map [OF assms(1)] isInitialized_def getTruncatedIndex_def getTruncatedTerm_def getAppliedIndex_def Let_def
        split: if_splits)
qed

subsection \<open>A turn keeps the last term\<close>

lemma append_last_ok:
  fixes s :: "'n readyState"
  assumes "handleRaftReadyAppend re ctx rd s = Inr (ctx', s')" "kv_wf (ry_eng s)" "last_ok (ry_eng s) (pr_ps (ry_pr s))"
    and "cx_raftState ctx = ps_raftState (pr_ps (ry_pr s))" "cx_applyState ctx = ps_applyState (pr_ps (ry_pr s))"
    and "cx_lastTerm ctx = ps_lastTerm (pr_ps (ry_pr s))"
    and es: "consec f (rd_Entries rd)" "rl_LastIndex (cx_raftState ctx) + 1 \<noteq> 0" "raftInitLogIndex < f" "getTruncatedIndex (pr_ps (ry_pr s)) < f"
    and sn: "\<not> IsEmptySnap (rd_Snapshot rd) \<Longrightarrow> rd_Entries rd = [] \<and> raftInitLogIndex < sn_Index (rd_Snapshot rd)"
    and "c_ID (ps_cell ps') = c_ID (ps_cell (pr_ps (ry_pr s)))" "ps_raftState ps' = cx_raftState ctx'"
    and "ps_applyState ps' = cx_applyState ctx'" "ps_lastTerm ps' = cx_lastTerm ctx'"
  shows "last_ok (ry_eng s') ps'"
  using assms(1)
proof (rule append_context)
  fix ctx1 and s1 :: "'n readyState"
  assume a: "handleAppendSnapshot s1 (ctx\<lparr>cx_wb := []\<rparr>) rd = Inr ctx1"
    and c': "ctx' = handleSaveApplyState s1 (handleSaveRaftState s1 (adopt_hard_state (handleAppendEntries s1 ctx1 rd) rd))"
    and eq: "ry_eng s1 = ry_eng s" "pr_ps (ry_pr s1) = pr_ps (ry_pr s)" "ry_eng s' = driver_Write (ry_eng s) (cx_wb ctx')"
  let ?ps = "pr_ps (ry_pr s)"
  have keep: "cx_lastTerm ctx' = cx_lastTerm (handleAppendEntries s1 ctx1 rd)" "cx_applyState ctx' = cx_applyState (handleAppendEntries s1 ctx1 rd)"
    by (simp_all add: c' handleSaveApplyState_def handleSaveRaftState_def adopt_hard_state_def doSaveRaftState_def doSaveApplyState_def Let_def)
  have lst: "rl_LastIndex (cx_raftState ctx') = ready_last rd (rl_LastIndex (ps_raftState ?ps))"
    using append_raft_state [OF assms(1)] assms(4) by simp
  consider (snap) "\<not> IsEmptySnap (rd_Snapshot rd)" | (entries) "IsEmptySnap (rd_Snapshot rd)" "rd_Entries rd \<noteq> []"
    | (none) "IsEmptySnap (rd_Snapshot rd)" "rd_Entries rd = []" by blast
  then show ?thesis
  proof cases
    case snap
    with a have "cx_lastTerm ctx1 = sn_Term (rd_Snapshot rd)"
      "cx_applyState ctx1 = \<lparr>as_AppliedIndex = sn_Index (rd_Snapshot rd),
         as_TruncatedState = \<lparr>tr_Index = sn_Index (rd_Snapshot rd), tr_Term = sn_Term (rd_Snapshot rd)\<rparr>\<rparr>"
      by (auto simp: handleAppendSnapshot_def doAppendSnapshot_def Let_def split: outcome.split_asm option.split_asm if_split_asm)
    with snap sn [OF snap] show ?thesis
      using lst by (auto simp: last_ok_def Let_def assms(13-15) keep ready_last_def handleAppendEntries_def getTruncatedIndex_def getTruncatedTerm_def)
  next
    case entries
    let ?e = "last (rd_Entries rd)"
    have c1: "ctx1 = ctx\<lparr>cx_wb := []\<rparr>" using a entries by (simp add: handleAppendSnapshot_def)
    have "f \<le> en_Index ?e" using consec_mem [OF es(1) entries(2), of "en_Index ?e"] entries(2) last_in_set by blast
    then have "raftInitLogIndex < en_Index ?e" "getTruncatedIndex ?ps < en_Index ?e" using es(3,4) by (meson less_le_trans)+
    moreover have "kv_map (ry_eng s') (getRaftLogKey (c_ID (ps_cell ?ps)) (en_Index ?e)) = Some (SEntry ?e)"
      using append_entries_written [OF assms(1,2) es(1,2)] sn entries by auto
    moreover have "cx_lastTerm ctx' = en_Term ?e" "cx_applyState ctx' = ps_applyState ?ps"
      using entries assms(5) by (simp_all add: keep c1 handleAppendEntries_def doAppendEntries_def Let_def)
    ultimately show ?thesis
      using lst entries by (auto simp: last_ok_def Let_def assms(12-15) ready_last_def getTruncatedIndex_def getTruncatedTerm_def)
  next
    case none
    have c1: "ctx1 = ctx\<lparr>cx_wb := []\<rparr>" using a none by (simp add: handleAppendSnapshot_def)
    have wb: "cx_wb (adopt_hard_state (handleAppendEntries s1 ctx1 rd) rd) = []"
      using none by (simp add: c1 adopt_hard_state_def handleAppendEntries_def)
    have "kv_map (ry_eng s') (getRaftLogKey c i) = kv_map (ry_eng s) (getRaftLogKey c i)" for c i
      unfolding eq(3) c' save_log_keys [OF assms(2)] wb by (simp add: driver_Write_def)
    moreover have "cx_lastTerm ctx' = ps_lastTerm ?ps" "cx_applyState ctx' = ps_applyState ?ps"
      using none assms(5,6) by (simp_all add: keep c1 handleAppendEntries_def)
    ultimately show ?thesis
      using lst none assms(3) by (simp add: last_ok_def Let_def assms(12-15) ready_last_def getTruncatedIndex_def getTruncatedTerm_def)
  qed
qed

text \<open>What raft hands out in a turn: consecutive entries after the truncated index, and with a snapshot no
  entries, a hard state with the snapshot's commit index, which is new to the peer, and a cell with peers.\<close>

definition ready_ok :: "peerStorage \<Rightarrow> Ready \<Rightarrow> bool" where
  "ready_ok ps rd \<longleftrightarrow> rl_LastIndex (ps_raftState ps) + 1 \<noteq> 0 \<and>
     (\<exists>f. consec f (rd_Entries rd) \<and> raftInitLogIndex < f \<and> getTruncatedIndex ps < f) \<and>
     (\<not> IsEmptySnap (rd_Snapshot rd) \<longrightarrow> \<not> IsEmptyHardState (rd_HardState rd) \<and> rd_Entries rd = [] \<and>
        hs_Commit (rd_HardState rd) = sn_Index (rd_Snapshot rd) \<and> raftInitLogIndex < sn_Index (rd_Snapshot rd) \<and>
        sn_Index (rd_Snapshot rd) \<noteq> getCommittedIndex ps \<and> sn_Index (rd_Snapshot rd) \<noteq> getAppliedIndex ps \<and>
        (case sn_Data (rd_Snapshot rd) of None \<Rightarrow> False | Some h \<Rightarrow> c_Peers (sh_Cell h) \<noteq> []))"

text \<open>Everything a restart needs is on disk.\<close>

definition restartable :: "stored KVTree \<Rightarrow> peerStorage \<Rightarrow> bool" where
  "restartable eng ps \<longleftrightarrow> kv_wf eng \<and> states_durable eng ps \<and> last_ok eng ps \<and> isInitialized ps"

lemma restartable_cong:
  assumes "ps_cell a = ps_cell b" "ps_raftState a = ps_raftState b" "ps_applyState a = ps_applyState b" "ps_lastTerm a = ps_lastTerm b"
  shows "restartable eng a = restartable eng b"
  unfolding restartable_def states_durable_def last_ok_def isInitialized_def getTruncatedIndex_def getTruncatedTerm_def assms ..

lemma turn_restartable:
  assumes run: "handleReady re s = Inr s'" and dur: "restartable (ry_eng s) (pr_ps (ry_pr s))"
    and ok: "ready_ok (pr_ps (ry_pr s)) (fst (turn_ctx re s))"
  shows "restartable (ry_eng s') (pr_ps (ry_pr s'))"
  using run
proof (cases rule: handleReady_cases)
  case idle
  with dur restartable_cong [of "pr_ps (ry_pr s')" "pr_ps (ry_pr s)"] show ?thesis by simp
next
  case (turn rd ctx s0 ctx1 s1)
  note t = turn_ctx_simps [OF turn(1)]
  let ?ps = "pr_ps (ry_pr s)"
  have d: "kv_wf (ry_eng s0)" "states_durable (ry_eng s0) (pr_ps (ry_pr s0))" "last_ok (ry_eng s0) (pr_ps (ry_pr s0))"
    using dur t(2,4) by (simp_all add: restartable_def states_durable_def last_ok_def Let_def getTruncatedIndex_def getTruncatedTerm_def)
  obtain f where f: "consec f (rd_Entries rd)" "raftInitLogIndex < f" "getTruncatedIndex ?ps < f" "rl_LastIndex (ps_raftState ?ps) + 1 \<noteq> 0"
    using ok turn(1) by (auto simp: ready_ok_def)
  have sn: "\<not> IsEmptyHardState (rd_HardState rd) \<and> rd_Entries rd = [] \<and> hs_Commit (rd_HardState rd) = sn_Index (rd_Snapshot rd) \<and>
      raftInitLogIndex < sn_Index (rd_Snapshot rd) \<and> sn_Index (rd_Snapshot rd) \<noteq> getCommittedIndex ?ps \<and>
      sn_Index (rd_Snapshot rd) \<noteq> getAppliedIndex ?ps \<and> (\<exists>h. sn_Data (rd_Snapshot rd) = Some h \<and> c_Peers (sh_Cell h) \<noteq> [])"
    if "\<not> IsEmptySnap (rd_Snapshot rd)"
    using ok turn(1) that by (auto simp: ready_ok_def split: option.splits)
  have idx: "getCommittedIndex (pr_ps (ry_pr s0)) = getCommittedIndex ?ps" "getAppliedIndex (pr_ps (ry_pr s0)) = getAppliedIndex ?ps"
    "getTruncatedIndex (pr_ps (ry_pr s0)) = getTruncatedIndex ?ps"
    by (simp_all add: t(4) getCommittedIndex_def getAppliedIndex_def getTruncatedIndex_def)
  have ctx: "cx_raftState ctx = ps_raftState (pr_ps (ry_pr s0))" "cx_applyState ctx = ps_applyState (pr_ps (ry_pr s0))"
    "cx_lastTerm ctx = ps_lastTerm (pr_ps (ry_pr s0))"
    using t by simp_all
  note D = append_durable [OF turn(2) d(1,2) ctx(1,2), unfolded idx]
  have wf1: "kv_wf (ry_eng s1)" and ps1: "pr_ps (ry_pr s1) = pr_ps (ry_pr s0)"
    using append_context [OF turn(2)] d(1) driver_Write_wf by metis+
  obtain ps x y r i es where a: "doApplySnap (pr_ps (ry_pr s1)) ctx1 = Inr (ps, x, y, r)" "pr_ps (ry_pr s') = ps\<lparr>ps_lastReadyIndex := i\<rparr>"
    "ry_eng s' = ry_eng s1"
    using turn(3) by (rule ready_apply_frame)
  note A = doApplySnap_ps [OF a(1)]
  have snap: "cx_snap ctx1 = cx_snap ctx" using D sn by blast
  have cell: "c_ID (ps_cell ps) = c_ID (ps_cell ?ps)"
    using A D sn snap t(4,7) ps1 by (cases "cx_snap ctx") auto
  have "isInitialized ps"
  proof (cases "cx_snap ctx")
    case None
    then show ?thesis using A snap ps1 t(4) dur by (simp add: restartable_def isInitialized_def)
  next
    case (Some h)
    then obtain h' where h': "sn_Data (rd_Snapshot rd) = Some h'" "c_Peers (sh_Cell h') \<noteq> []" using sn t(7) by auto
    have "h = h'" using turn(1) Some h'(1) by (auto simp: turn_ctx_def Let_def split: if_splits)
    then show ?thesis using A snap Some h'(2) by (simp add: isInitialized_def)
  qed
  moreover have "states_durable (ry_eng s1) ps"
    using D sn A cell t(4) wf1 by (auto simp: states_durable_def KV_Get_map)
  moreover have "last_ok (ry_eng s1) ps"
    by (rule append_last_ok [OF turn(2) d(1,3) ctx f(1)]) (use f sn A cell t(4,5) idx in auto)
  ultimately have "restartable (ry_eng s1) ps" using wf1 by (simp add: restartable_def)
  then show ?thesis using restartable_cong [of "ps\<lparr>ps_lastReadyIndex := i\<rparr>" ps] by (simp add: a(2,3))
qed

text \<open>A turn that wrote something has the entries of its ready on disk.\<close>

lemma turn_entries:
  assumes run: "handleReady re s = Inr s'" and dur: "restartable (ry_eng s) (pr_ps (ry_pr s))"
    and ok: "ready_ok (pr_ps (ry_pr s)) (fst (turn_ctx re s))"
    and wrote: "ry_trace s' \<noteq> ry_trace s" and e: "e \<in> set (rd_Entries (fst (turn_ctx re s)))"
  shows "KV_Get (ry_eng s') (getRaftLogKey (c_ID (ps_cell (pr_ps (ry_pr s)))) (en_Index e)) = Some (SEntry e)"
  using run
proof (cases rule: handleReady_cases)
  case (turn rd ctx s0 ctx1 s1)
  note t = turn_ctx_simps [OF turn(1)]
  obtain f where f: "consec f (rd_Entries rd)" "rl_LastIndex (cx_raftState ctx) + 1 \<noteq> 0"
    "\<not> IsEmptySnap (rd_Snapshot rd) \<Longrightarrow> rd_Entries rd = []"
    using ok turn(1) t(5) by (auto simp: ready_ok_def)
  have wf: "kv_wf (ry_eng s0)" using dur t(2) by (simp add: restartable_def)
  have "kv_map (ry_eng s1) (getRaftLogKey (c_ID (ps_cell (pr_ps (ry_pr s0)))) (en_Index e)) = Some (SEntry e)"
    by (rule append_entries_written [OF turn(2) wf f]) (use e turn(1) in simp_all)
  moreover have "ry_eng s' = ry_eng s1" using turn(3) by (rule ready_apply_frame)
  moreover have "kv_wf (ry_eng s')" using turn_restartable [OF run dur ok] by (simp add: restartable_def)
  ultimately show ?thesis using t(4) by (simp add: KV_Get_map)
qed (use wrote in simp)

text \<open>A cell that was just written by \<^verbatim>\<open>writeInitialState\<close>.\<close>

lemma fresh_restartable:
  assumes "kv_wf eng" "c_Peers cell \<noteq> []"
  shows "\<exists>ps. newPeerStorage (driver_Write eng (writeInitialState (c_ID cell) [])) cell = Return ps \<and>
    ps_raftState ps = initRaftLocalState \<and> ps_applyState ps = initRaftApplyState \<and> ps_lastTerm ps = raftInitLogTerm \<and>
    restartable (driver_Write eng (writeInitialState (c_ID cell) [])) ps"
proof -
  let ?e = "driver_Write eng (writeInitialState (c_ID cell) [])"
  have wf: "kv_wf ?e" by (rule driver_Write_wf [OF assms(1)])
  have ne: "getRaftStateKey c \<noteq> getApplyStateKey c" "getApplyStateKey c \<noteq> getRaftStateKey c" for c
    by (simp_all add: key_defs raftStateSuffix_def applyStateSuffix_def)
  have m: "kv_map ?e (getRaftStateKey (c_ID cell)) = Some (SRaft initRaftLocalState)"
    "kv_map ?e (getApplyStateKey (c_ID cell)) = Some (SApply initRaftApplyState)"
    using ne by (simp_all add: writeInitialState_def driver_Write_Set assms(1))
  then show ?thesis
    using assms(2) wf
    by (auto simp: newPeerStorage_def initRaftState_def initApplyState_def initLastTerm_def restartable_def states_durable_def last_ok_def
        KV_Get_map [OF wf] initRaftLocalState_def raftInitLogIndex_def isInitialized_def Let_def)
qed

subsection \<open>Property\<close>

text \<open>C11: a restart recovers what was persisted.  When a peer stops after any turn of its ready loop,
  \<^verbatim>\<open>newPeerStorage\<close> on the engine that the turn's save functions left rebuilds the raft state, the apply state and the last
  term the peer had in memory and resumes reading at the applied index, and the entries of the turn are in the log;
  the state it starts from is again one of which this holds.  A new cell that was only initialised loads the
  initial states, which is where a peer begins.  The turn relies on what raft hands out, as \<open>ready_ok\<close> says.\<close>

theorem restart_recovers:
  assumes "handleReady re s = Inr s'" "restartable (ry_eng s) (pr_ps (ry_pr s))"
    and "ready_ok (pr_ps (ry_pr s)) (fst (turn_ctx re s))"
  shows "(\<exists>ps. newPeerStorage (ry_eng s') (ps_cell (pr_ps (ry_pr s'))) = Return ps \<and> ps_cell ps = ps_cell (pr_ps (ry_pr s')) \<and>
      ps_raftState ps = ps_raftState (pr_ps (ry_pr s')) \<and> ps_applyState ps = ps_applyState (pr_ps (ry_pr s')) \<and>
      ps_lastTerm ps = ps_lastTerm (pr_ps (ry_pr s')) \<and> ps_lastReadyIndex ps = getAppliedIndex (pr_ps (ry_pr s')) \<and>
      restartable (ry_eng s') ps) \<and>
    (ry_trace s' \<noteq> ry_trace s \<longrightarrow> (\<forall>e \<in> set (rd_Entries (fst (turn_ctx re s))).
       KV_Get (ry_eng s') (getRaftLogKey (c_ID (ps_cell (pr_ps (ry_pr s)))) (en_Index e)) = Some (SEntry e))) \<and>
    (\<forall>eng cell. kv_wf eng \<longrightarrow> c_Peers cell \<noteq> [] \<longrightarrow>
       (\<exists>ps. newPeerStorage (driver_Write eng (writeInitialState (c_ID cell) [])) cell = Return ps \<and>
          ps_raftState ps = initRaftLocalState \<and> ps_applyState ps = initRaftApplyState \<and> ps_lastTerm ps = raftInitLogTerm \<and>
          restartable (driver_Write eng (writeInitialState (c_ID cell) [])) ps))"
proof -
  have r: "restartable (ry_eng s') (pr_ps (ry_pr s'))" by (rule turn_restartable [OF assms])
  then have "kv_wf (ry_eng s')" "states_durable (ry_eng s') (pr_ps (ry_pr s'))" "last_ok (ry_eng s') (pr_ps (ry_pr s'))"
    "isInitialized (pr_ps (ry_pr s'))" by (simp_all add: restartable_def)
  from reload [OF this] obtain ps where ps: "newPeerStorage (ry_eng s') (ps_cell (pr_ps (ry_pr s'))) = Return ps"
    "ps_cell ps = ps_cell (pr_ps (ry_pr s'))" "ps_raftState ps = ps_raftState (pr_ps (ry_pr s'))"
    "ps_applyState ps = ps_applyState (pr_ps (ry_pr s'))" "ps_lastTerm ps = ps_lastTerm (pr_ps (ry_pr s'))"
    "ps_lastReadyIndex ps = getAppliedIndex (pr_ps (ry_pr s'))" by blast
  moreover have "restartable (ry_eng s') ps" using r restartable_cong [OF ps(2-5)] by simp
  ultimately show ?thesis using turn_entries [OF assms] fresh_restartable by blast
qed

theorem restart_recovers_witness:
  "\<exists>s' ps. handleReady demo_re demo_ry = Inr s' \<and> newPeerStorage (ry_eng s') (ps_cell (pr_ps (ry_pr s'))) = Return ps \<and>
     ps_raftState ps = ps_raftState (pr_ps (ry_pr s')) \<and> ps_lastTerm ps = ps_lastTerm (pr_ps (ry_pr s'))"
proof -
  obtain s' where r: "handleReady demo_re demo_ry = Inr s'" using demo_turn by blast
  have "isInitialized (pr_ps (ry_pr demo_ry))" "last_ok (ry_eng demo_ry) (pr_ps (ry_pr demo_ry))"
    by (simp_all add: demo_ry_def demo_replicate_def last_ok_def Let_def demo_ps_def initRaftLocalState_def isInitialized_def
        raftInitLogTerm_def)
  then have d: "restartable (ry_eng demo_ry) (pr_ps (ry_pr demo_ry))" using demo_ry_ok by (simp add: restartable_def)
  have "consec 6 (rd_Entries demo_ready)" "raftInitLogIndex < 6" "getTruncatedIndex (pr_ps (ry_pr demo_ry)) < 6"
    "rl_LastIndex (ps_raftState (pr_ps (ry_pr demo_ry))) + 1 \<noteq> 0"
    by (simp_all add: demo_ready_def demo_ry_def demo_replicate_def demo_entry_def raftInitLogIndex_def demo_ps_def
        initRaftLocalState_def initRaftApplyState_def getTruncatedIndex_def)
  then have "ready_ok (pr_ps (ry_pr demo_ry)) (fst (turn_ctx demo_re demo_ry))"
    using demo_ry_ok(3,4) by (auto simp: ready_ok_def)
  from restart_recovers [OF r d this] r show ?thesis by blast
qed

end
