(* ===== verification/Raft_Store.thy ===== *)
theory Raft_Store
  imports Ready "HOL-Library.AList"
begin

text \<open>
  \<^verbatim>\<open>pkg/raftstore/store.go\<close>, \<^verbatim>\<open>store_check.go\<close> and the store half of \<^verbatim>\<open>raft_handle_do.go\<close>: how a store
  routes requests and raft messages to its peers, creates and destroys peers, and adopts the
  results of applied admin commands.  Effects on other components are recorded in a trace.
\<close>

datatype store_event =
    S_SendRaft RaftMessage
  | S_SendSnap SnapshotMessageHeader SnapshotState
  | S_Step u64 Message
  | S_Request u64 Request nat
  | S_NotMatch Request nat
  | S_StopLoop u64
  | S_DestroyJob u64 Peer
  | S_ClearData u64 bytes bytes
  | S_AskSplit Cell Peer bytes
  | S_ReportSplit Cell Cell
  | S_Heartbeat u64
  | S_Campaign u64
  | S_Register applyDelegate
  | S_LogGC u64 u64 u64
  | S_IndexSplit u64 u64
  | S_IndexDestroy u64

record 'n RaftStore =
  so_view :: "'n Store_view"
  so_engines :: nat
  so_meta :: "nat \<Rightarrow> stored KVTree"
  so_pendingSnapshots :: "(u64 \<times> SnapshotMessageHeader) list"
  so_droppedVoteMsgs :: "u64 \<rightharpoonup> Message"
  so_delegates :: applyDelegateMap
  so_trace :: "store_event list"

text \<open>What the store uses of raft when it creates a node, its configuration, and the conversion of
  a client's key to a cell.\<close>

record 'n storeEnv =
  se_rn :: "'n RawNode"
  se_cfg :: Cfg
  se_NewRawNode :: "u64 \<Rightarrow> u64 \<Rightarrow> peerStorage \<Rightarrow> string + 'n"
  se_Campaign :: "'n \<Rightarrow> string + 'n"
  se_ApplyConfChange :: "ConfChange \<Rightarrow> 'n \<Rightarrow> 'n"
  se_keyConvertFun :: "bytes \<Rightarrow> (bytes \<Rightarrow> Cell) \<Rightarrow> Cell"

subsection \<open>State access\<close>

definition so_emit :: "store_event list \<Rightarrow> 'n RaftStore \<Rightarrow> 'n RaftStore" where
  "so_emit es s = s\<lparr>so_trace := so_trace s @ es\<rparr>"

definition getDriver :: "'n RaftStore \<Rightarrow> u64 \<Rightarrow> stored KVTree" where
  "getDriver s cellID = so_meta s (driver_index (so_engines s) cellID)"

definition driver_write :: "u64 \<Rightarrow> stored WriteBatch \<Rightarrow> 'n RaftStore \<Rightarrow> 'n RaftStore" where
  "driver_write cellID wb s =
     s\<lparr>so_meta := (so_meta s)(driver_index (so_engines s) cellID := driver_Write (getDriver s cellID) wb)\<rparr>"

definition getPeerReplicate :: "'n RaftStore \<Rightarrow> u64 \<Rightarrow> 'n PeerReplicate option" where
  "getPeerReplicate s cellID = sv_replicatesMap (so_view s) cellID"

definition putReplicate :: "u64 \<Rightarrow> 'n PeerReplicate \<Rightarrow> 'n RaftStore \<Rightarrow> 'n RaftStore" where
  "putReplicate cellID pr s =
     s\<lparr>so_view := (so_view s)\<lparr>sv_replicatesMap := (sv_replicatesMap (so_view s))(cellID \<mapsto> pr)\<rparr>\<rparr>"

definition deleteReplicate :: "u64 \<Rightarrow> 'n RaftStore \<Rightarrow> 'n RaftStore" where
  "deleteReplicate cellID s =
     s\<lparr>so_view := (so_view s)\<lparr>sv_replicatesMap := (sv_replicatesMap (so_view s))(cellID := None)\<rparr>\<rparr>"

definition setKeyRanges :: "CellTree \<Rightarrow> 'n RaftStore \<Rightarrow> 'n RaftStore" where
  "setKeyRanges t s = s\<lparr>so_view := (so_view s)\<lparr>sv_keyRanges := t\<rparr>\<rparr>"

definition addPeerToCache :: "Peer \<Rightarrow> 'n RaftStore \<Rightarrow> 'n RaftStore" where
  "addPeerToCache p s = s\<lparr>so_view := (so_view s)\<lparr>sv_peerCache := (sv_peerCache (so_view s))(p_ID p \<mapsto> p)\<rparr>\<rparr>"

definition deletePeerFromCache :: "u64 \<Rightarrow> 'n RaftStore \<Rightarrow> 'n RaftStore" where
  "deletePeerFromCache i s = s\<lparr>so_view := (so_view s)\<lparr>sv_peerCache := (sv_peerCache (so_view s))(i := None)\<rparr>\<rparr>"

abbreviation keyRanges :: "'n RaftStore \<Rightarrow> CellTree" where
  "keyRanges s \<equiv> sv_keyRanges (so_view s)"

subsection \<open>Dropped votes and pending snapshots\<close>

definition cacheDroppedVoteMsg :: "u64 \<Rightarrow> Message \<Rightarrow> 'n RaftStore \<Rightarrow> 'n RaftStore" where
  "cacheDroppedVoteMsg cellID msg s =
     (if mg_Type msg = MsgVote then s\<lparr>so_droppedVoteMsgs := (so_droppedVoteMsgs s)(cellID \<mapsto> msg)\<rparr> else s)"

definition removeDroppedVoteMsg :: "u64 \<Rightarrow> 'n RaftStore \<Rightarrow> Message option \<times> 'n RaftStore" where
  "removeDroppedVoteMsg cellID s =
     (so_droppedVoteMsgs s cellID, s\<lparr>so_droppedVoteMsgs := (so_droppedVoteMsgs s)(cellID := None)\<rparr>)"

fun hasOverlapInPendingSnapshots :: "(u64 \<times> SnapshotMessageHeader) list \<Rightarrow> Cell \<Rightarrow> fault + bool" where
  "hasOverlapInPendingSnapshots [] cell = Inr False"
| "hasOverlapInPendingSnapshots ((_, h) # hs) cell =
     sbind (HasOverlap (sh_Cell h) cell) (\<lambda>o'.
       if o' \<and> c_ID (sh_Cell h) \<noteq> c_ID cell then Inr True else hasOverlapInPendingSnapshots hs cell)"

definition addPendingSnapshot :: "SnapshotMessageHeader \<Rightarrow> 'n RaftStore \<Rightarrow> fault + bool \<times> 'n RaftStore" where
  "addPendingSnapshot h s =
     sbind (hasOverlapInPendingSnapshots (so_pendingSnapshots s) (sh_Cell h)) (\<lambda>o'.
       if o' then Inr (False, s)
       else Inr (True, s\<lparr>so_pendingSnapshots := AList.update (c_ID (sh_Cell h)) h (so_pendingSnapshots s)\<rparr>))"

definition getPendingSnapshot :: "u64 \<Rightarrow> 'n RaftStore \<Rightarrow> SnapshotMessageHeader" where
  "getPendingSnapshot i s = (case map_of (so_pendingSnapshots s) i of None \<Rightarrow> zeroSnapHeader | Some h \<Rightarrow> h)"

definition removePendingSnapshot :: "u64 \<Rightarrow> 'n RaftStore \<Rightarrow> 'n RaftStore" where
  "removePendingSnapshot i s = s\<lparr>so_pendingSnapshots := AList.delete i (so_pendingSnapshots s)\<rparr>"

subsection \<open>Creating and destroying peers\<close>

definition newPeerReplicate :: "'n storeEnv \<Rightarrow> 'n RaftStore \<Rightarrow> Cell \<Rightarrow> u64 \<Rightarrow> (string, 'n PeerReplicate) outcome" where
  "newPeerReplicate env s cell peerID =
     (if peerID = 0 then Fail ''invalid peer id''
      else case newPeerStorage (getDriver s (c_ID cell)) cell of
             Crash f \<Rightarrow> Crash f
           | Fail _ \<Rightarrow> Fail ''storage''
           | Return ps \<Rightarrow>
               (case se_NewRawNode env peerID (getAppliedIndex ps) ps of
                  Inl err \<Rightarrow> Fail err
                | Inr node \<Rightarrow>
                    (case (if length (c_Peers cell) = 1 \<and> p_StoreID (hd (c_Peers cell)) = sv_id (so_view s)
                           then se_Campaign env node else Inr node) of
                       Inl err \<Rightarrow> Fail err
                     | Inr node \<Rightarrow> Return
                         \<lparr>pr_cellID = c_ID cell, pr_peer = newPeer peerID (sv_id (so_view s)), pr_rn = node,
                          pr_ps = ps, pr_batch = newBatch, pr_pendingReads = \<lparr>ri_reads = [], ri_readyCnt = 0\<rparr>,
                          pr_stopRaftTick = False, pr_writtenKeys = 0, pr_writtenBytes = 0, pr_sizeDiffHint = 0,
                          pr_raftLogSizeHint = 0, pr_deleteKeysHint = 0\<rparr>)))"

definition createPeerReplicate :: "'n storeEnv \<Rightarrow> 'n RaftStore \<Rightarrow> Cell \<Rightarrow> (string, 'n PeerReplicate) outcome" where
  "createPeerReplicate env s cell =
     (case findPeer cell (sv_id (so_view s)) of
        None \<Rightarrow> Fail ''find no peer for store in cell''
      | Some peer \<Rightarrow> newPeerReplicate env s cell (p_ID peer))"

definition doReplicate :: "'n storeEnv \<Rightarrow> 'n RaftStore \<Rightarrow> RaftMessage \<Rightarrow> u64 \<Rightarrow> (string, 'n PeerReplicate) outcome" where
  "doReplicate env s msg peerID =
     newPeerReplicate env s \<lparr>c_ID = rm_CellID msg, c_Start = rm_Start msg, c_End = rm_End msg,
       c_Epoch = rm_CellEpoch msg, c_Peers = []\<rparr> peerID"

definition clearData :: "peerStorage \<Rightarrow> fault + store_event" where
  "clearData ps =
     sbind (encStartKey (ps_cell ps)) (\<lambda>a. sbind (encEndKey (ps_cell ps)) (\<lambda>b.
       Inr (S_ClearData (c_ID (ps_cell ps)) a b)))"

definition pr_destroy :: "'n PeerReplicate \<Rightarrow> 'n RaftStore \<Rightarrow> fault + 'n RaftStore" where
  "pr_destroy pr s =
     (let s = so_emit [S_StopLoop (pr_cellID pr)] s;
          s = removePendingSnapshot (pr_cellID pr) s;
          s = snd (removeDroppedVoteMsg (pr_cellID pr) s);
          wb = clearMeta (getDriver s (pr_cellID pr)) (pr_cellID pr) [];
          wb = updatePeerState (ps_cell (pr_ps pr)) PS_Tombstone wb;
          s = driver_write (pr_cellID pr) wb s
      in if isInitialized (pr_ps pr) then sbind (clearData (pr_ps pr)) (\<lambda>e. Inr (so_emit [e] s)) else Inr s)"

definition destroyPeer :: "u64 \<Rightarrow> Peer \<Rightarrow> bool \<Rightarrow> 'n RaftStore \<Rightarrow> fault + 'n RaftStore" where
  "destroyPeer cellID target async s =
     (if async then Inr (so_emit [S_DestroyJob cellID target] s)
      else case getPeerReplicate s cellID of
             None \<Rightarrow> Inl Fatalf
           | Some pr \<Rightarrow>
               if isApplyingSnap (pr_ps pr) then Inl Fatalf
               else sbind (pr_destroy pr (deleteReplicate cellID s)) (\<lambda>s.
                 sbind (if isInitialized (pr_ps pr) then
                          (case CellTree_Remove (keyRanges s) (ps_cell (pr_ps pr)) of
                             (True, t) \<Rightarrow> Inr (setKeyRanges t s) | (False, _) \<Rightarrow> Inl Fatalf)
                        else Inr s) (\<lambda>s.
                   Inr (so_emit [S_IndexDestroy (c_ID (ps_cell (pr_ps pr)))] s))))"

text \<open>\<^verbatim>\<open>doDestroy\<close> runs on the apply worker.\<close>

definition doDestroy :: "u64 \<Rightarrow> Peer \<Rightarrow> 'n RaftStore \<Rightarrow> fault + answer list \<times> 'n RaftStore" where
  "doDestroy cellID peer s =
     sbind (case so_delegates s cellID of
              None \<Rightarrow> Inr []
            | Some d \<Rightarrow> sbind (delegate_destroy d) (\<lambda>(as, _). Inr as)) (\<lambda>as.
       sbind (destroyPeer cellID peer False (s\<lparr>so_delegates := (so_delegates s)(cellID := None)\<rparr>)) (\<lambda>s. Inr (as, s)))"

subsection \<open>Raft messages\<close>

definition isRaftMsgValid :: "'n RaftStore \<Rightarrow> RaftMessage \<Rightarrow> bool" where
  "isRaftMsgValid s msg = (p_StoreID (rm_ToPeer msg) = sv_id (so_view s))"

definition zeroMessage :: Message where
  "zeroMessage = \<lparr>mg_Type = MsgHup, mg_To = 0, mg_From = 0, mg_Term = 0, mg_Index = 0, mg_Commit = 0,
     mg_Entries = [], mg_Snapshot = \<lparr>sn_Index = 0, sn_Term = 0, sn_Data = None\<rparr>\<rparr>"

definition handleStaleMsg :: "RaftMessage \<Rightarrow> CellEpoch \<Rightarrow> bool \<Rightarrow> 'n RaftStore \<Rightarrow> 'n RaftStore" where
  "handleStaleMsg msg currEpoch needGC s =
     (if \<not> needGC then s
      else so_emit [S_SendRaft \<lparr>rm_CellID = rm_CellID msg, rm_FromPeer = rm_ToPeer msg, rm_ToPeer = rm_FromPeer msg,
             rm_Message = zeroMessage, rm_CellEpoch = currEpoch, rm_IsTombstone = True, rm_Start = [], rm_End = []\<rparr>] s)"

datatype verdict = Current | Stale | Invalid

definition isMsgStale :: "RaftMessage \<Rightarrow> 'n RaftStore \<Rightarrow> fault + verdict \<times> 'n RaftStore" where
  "isMsgStale msg s =
     (let cellID = rm_CellID msg; fromEpoch = rm_CellEpoch msg;
          isVoteMsg = (mg_Type (rm_Message msg) = MsgVote);
          fromStoreID = p_StoreID (rm_FromPeer msg)
      in case getPeerReplicate s cellID of
           Some pr \<Rightarrow>
             (let c = ps_cell (pr_ps pr); epoch = c_Epoch c
              in if isEpochStale fromEpoch epoch \<and> findPeer c fromStoreID = None
                 then Inr (Stale, handleStaleMsg msg epoch isVoteMsg s)
                 else Inr (Current, s))
         | None \<Rightarrow>
             (case loadCellLocalState cellID (getDriver s cellID) True of
                Crash f \<Rightarrow> Inl f
              | Fail _ \<Rightarrow> Inr (Invalid, s)
              | Return None \<Rightarrow> Inr (Current, s)
              | Return (Some localState) \<Rightarrow>
                  if cl_State localState \<noteq> PS_Tombstone
                  then Inr (Invalid, cacheDroppedVoteMsg cellID (rm_Message msg) s)
                  else
                    (let cellEpoch = c_Epoch (cl_Cell localState)
                     in if isEpochStale fromEpoch cellEpoch then
                          (let notExist = (findPeer (cl_Cell localState) fromStoreID = None)
                           in Inr (Stale, handleStaleMsg msg cellEpoch (isVoteMsg \<and> notExist) s))
                        else if e_ConfVer fromEpoch = e_ConfVer cellEpoch then Inr (Invalid, s)
                        else Inr (Current, s))))"

definition handleGCPeerMsg :: "RaftMessage \<Rightarrow> 'n RaftStore \<Rightarrow> fault + 'n RaftStore" where
  "handleGCPeerMsg msg s =
     (case getPeerReplicate s (rm_CellID msg) of
        None \<Rightarrow> Inr s
      | Some pr \<Rightarrow>
          if isEpochStale (c_Epoch (ps_cell (pr_ps pr))) (rm_CellEpoch msg)
          then destroyPeer (rm_CellID msg) (rm_ToPeer msg) (isInitialized (pr_ps pr)) s
          else Inr s)"

text \<open>The two peers are copied into the cell.  In the code the cell keeps pointers to them inside the
  message, which goes back to its pool once it is handled; a later use of the pooled message would
  change them.  The model is the cell as it is when this function returns.\<close>

definition adopt_replicate :: "RaftMessage \<Rightarrow> 'n PeerReplicate \<Rightarrow> 'n RaftStore \<Rightarrow> 'n RaftStore" where
  "adopt_replicate msg pr s =
     (let cell = (ps_cell (pr_ps pr))\<lparr>c_Peers := c_Peers (ps_cell (pr_ps pr)) @ [rm_ToPeer msg, rm_FromPeer msg]\<rparr>;
          s = setKeyRanges (CellTree_Update (keyRanges s) cell) s;
          s = putReplicate (rm_CellID msg) (pr\<lparr>pr_ps := (pr_ps pr)\<lparr>ps_cell := cell\<rparr>\<rparr>) s
      in addPeerToCache (rm_ToPeer msg) (addPeerToCache (rm_FromPeer msg) s))"

text \<open>The last part of \<^verbatim>\<open>tryToCreatePeerReplicate\<close>: the target peer does not exist.\<close>

definition create_from_msg :: "'n storeEnv \<Rightarrow> u64 \<Rightarrow> RaftMessage \<Rightarrow> 'n RaftStore \<Rightarrow> fault + bool \<times> 'n RaftStore" where
  "create_from_msg env cellID msg s =
     (let message = rm_Message msg; target = rm_ToPeer msg
      in if mg_Type message \<noteq> MsgVote \<and> (mg_Type message \<noteq> MsgHeartbeat \<or> mg_Commit message \<noteq> 0)
         then Inr (False, s)
         else
           (let item = CellTree_Search (keyRanges s) (rm_Start msg)
            in sbind (if c_ID item > 0
                      then sbind (encStartKey item) (\<lambda>k. Inr (bytesCompare k (getDataEndKey (rm_End msg)) < 0))
                      else Inr False) (\<lambda>overlapped.
                 if overlapped then
                   Inr (False, if getPeerReplicate s (c_ID item) \<noteq> None then cacheDroppedVoteMsg cellID message s else s)
                 else case doReplicate env s msg (p_ID target) of
                        Crash f \<Rightarrow> Inl f
                      | Fail _ \<Rightarrow> Inr (False, s)
                      | Return pr \<Rightarrow>
                          Inr (True, adopt_replicate msg pr s))))"

definition tryToCreatePeerReplicate ::
  "'n storeEnv \<Rightarrow> u64 \<Rightarrow> RaftMessage \<Rightarrow> 'n RaftStore \<Rightarrow> fault + bool \<times> 'n RaftStore" where
  "tryToCreatePeerReplicate env cellID msg s =
     (case getPeerReplicate s cellID of
        None \<Rightarrow> create_from_msg env cellID msg s
      | Some p \<Rightarrow>
          if p_ID (pr_peer p) < p_ID (rm_ToPeer msg) then
            (let (cancelled, ps) = (if isApplyingSnap (pr_ps p) then cancelApplyingSnapJob (pr_ps p) else (True, pr_ps p));
                 p = p\<lparr>pr_ps := ps\<rparr>; s = putReplicate cellID p s
             in if \<not> cancelled then Inr (False, s)
                else if p_ID (pr_peer p) > 0 then
                  sbind (destroyPeer cellID (pr_peer p) (isInitialized ps) s) (\<lambda>s.
                    if isInitialized ps then Inr (False, s) else create_from_msg env cellID msg s)
                else Inr (True, s))
          else if p_ID (pr_peer p) > p_ID (rm_ToPeer msg) then Inr (False, s)
          else Inr (True, s))"

definition checkSnapshot :: "RaftMessage \<Rightarrow> 'n RaftStore \<Rightarrow> fault + bool \<times> 'n RaftStore" where
  "checkSnapshot msg s =
     (case sn_Data (mg_Snapshot (rm_Message msg)) of
        None \<Rightarrow> Inr (True, s)
      | Some h \<Rightarrow>
          (case getPeerReplicate s (rm_CellID msg) of
             None \<Rightarrow> Inl Panic
           | Some pr \<Rightarrow>
               if isInitialized (pr_ps pr) then Inr (True, s)
               else
                 (let h = h\<lparr>sh_FromPeer := rm_ToPeer msg, sh_ToPeer := rm_FromPeer msg\<rparr>;
                      snapCell = sh_Cell h;
                      reject = (\<lambda>s. (False, so_emit [S_SendSnap h Reject] s))
                  in if \<not> list_ex (\<lambda>p. p_ID p = p_ID (rm_ToPeer msg)) (c_Peers snapCell) then Inr (reject s)
                     else
                       (let item = CellTree_Search (keyRanges s) (c_Start snapCell)
                        in sbind (if c_ID item > 0
                                  then (case getPeerReplicate s (c_ID item) of
                                          None \<Rightarrow> Inl Panic
                                        | Some e \<Rightarrow>
                                            sbind (encStartKey (ps_cell (pr_ps e))) (\<lambda>a.
                                            sbind (encEndKey snapCell) (\<lambda>b. Inr (bytesCompare a b < 0))))
                                  else Inr False) (\<lambda>overlapped.
                             if overlapped then Inr (reject s)
                             else sbind (addPendingSnapshot h s) (\<lambda>(added, s).
                               if \<not> added then Inr (reject s) else Inr (True, s)))))))"

definition onRaftMessage :: "'n storeEnv \<Rightarrow> RaftMessage \<Rightarrow> 'n RaftStore \<Rightarrow> fault + 'n RaftStore" where
  "onRaftMessage env msg s =
     (if \<not> isRaftMsgValid s msg then Inr s
      else if rm_IsTombstone msg then handleGCPeerMsg msg s
      else sbind (isMsgStale msg s) (\<lambda>(v, s).
        if v \<noteq> Current then Inr s
        else sbind (tryToCreatePeerReplicate env (rm_CellID msg) msg s) (\<lambda>(ok, s).
          if \<not> ok then Inr s
          else sbind (checkSnapshot msg s) (\<lambda>(ok, s).
            if \<not> ok then Inr s
            else
              (let s = addPeerToCache (rm_FromPeer msg) s
               in case getPeerReplicate s (rm_CellID msg) of
                    None \<Rightarrow> Inl Panic
                  | Some _ \<Rightarrow> Inr (so_emit [S_Step (rm_CellID msg) (rm_Message msg)] s))))))"

subsection \<open>Snapshot negotiation\<close>

definition onSnapshotAsk :: "SnapshotMessageHeader \<Rightarrow> 'n RaftStore \<Rightarrow> 'n RaftStore" where
  "onSnapshotAsk h s =
     (let reply = h\<lparr>sh_FromPeer := sh_ToPeer h, sh_ToPeer := sh_FromPeer h\<rparr>;
          pending = getPendingSnapshot (c_ID (sh_Cell h)) s;
          epoch = c_Epoch (sh_Cell h);
          ack = (case getPeerReplicate s (c_ID (sh_Cell h)) of
                   None \<Rightarrow> Reject
                 | Some pr \<Rightarrow>
                     if isEpochStale epoch (c_Epoch (ps_cell (pr_ps pr))) then Reject
                     else if isEpochStale epoch (c_Epoch (sh_Cell pending)) then Reject
                     else if sh_Term h < sh_Term pending \<or> sh_Index h < sh_Index pending then Reject
                     else Accept)
      in so_emit [S_SendSnap reply ack] s)"

subsection \<open>Splits\<close>

definition onSplitCheckResult :: "'n storeEnv \<Rightarrow> u64 \<Rightarrow> CellEpoch \<Rightarrow> bytes \<Rightarrow> 'n RaftStore \<Rightarrow> 'n RaftStore" where
  "onSplitCheckResult env cellID epoch splitKey s =
     (if length splitKey = 0 then s
      else case getPeerReplicate s cellID of
             None \<Rightarrow> s
           | Some p \<Rightarrow>
               if \<not> isLeader (se_rn env) p then s
               else if e_CellVer (c_Epoch (ps_cell (pr_ps p))) \<noteq> e_CellVer epoch then s
               else so_emit [S_AskSplit (ps_cell (pr_ps p)) (pr_peer p) splitKey] s)"

definition register_split ::
  "'n storeEnv \<Rightarrow> u64 \<Rightarrow> 'n PeerReplicate \<Rightarrow> Cell \<Rightarrow> Cell \<Rightarrow> 'n PeerReplicate \<Rightarrow> 'n RaftStore \<Rightarrow> 'n RaftStore" where
  "register_split env cellID pr left right newPR s =
     (let s = setKeyRanges (CellTree_Update (CellTree_Update (keyRanges s) left) right) s;
          newPR = newPR\<lparr>pr_sizeDiffHint := cf_ThresholdSplitCheckBytes (se_cfg env)\<rparr>;
          s = so_emit [S_Register (startRegistrationJob (p_ID (pr_peer newPR))
                (getCurrentTerm (se_rn env) newPR) (pr_ps newPR))] s;
          s = putReplicate (pr_cellID newPR) newPR s;
          leader = isLeader (se_rn env) pr;
          s = (if leader \<and> length (c_Peers right) > 1 then so_emit [S_Campaign (c_ID right)] s else s);
          s = (if leader then so_emit [S_Heartbeat cellID, S_ReportSplit left right] s
               else (case removeDroppedVoteMsg (pr_cellID newPR) s of
                       (Some vote, s) \<Rightarrow> so_emit [S_Step (pr_cellID newPR) vote] s
                     | (None, s) \<Rightarrow> s))
      in so_emit [S_IndexSplit (c_ID left) (c_ID right)] s)"

definition doApplySplit :: "'n storeEnv \<Rightarrow> u64 \<Rightarrow> Cell \<Rightarrow> Cell \<Rightarrow> 'n RaftStore \<Rightarrow> fault + 'n RaftStore" where
  "doApplySplit env cellID left right s =
     (case getPeerReplicate s cellID of
        None \<Rightarrow> Inl Fatalf
      | Some pr \<Rightarrow>
          (let pr = pr\<lparr>pr_ps := (pr_ps pr)\<lparr>ps_cell := left\<rparr>\<rparr>;
               s = putReplicate cellID pr s;
               s = fold addPeerToCache (c_Peers right) s
           in if (case getPeerReplicate s (c_ID right) of None \<Rightarrow> False | Some n \<Rightarrow> isInitialized (pr_ps n))
              then Inl Fatalf
              else case createPeerReplicate env s right of
                     Crash f \<Rightarrow> Inl f
                   | Fail _ \<Rightarrow> Inl Fatalf
                   | Return newPR \<Rightarrow> Inr (register_split env cellID pr left right newPR s)))"

subsection \<open>Membership changes\<close>

definition doApplyConfChange :: "'n storeEnv \<Rightarrow> u64 \<Rightarrow> changePeer \<Rightarrow> 'n RaftStore \<Rightarrow> fault + 'n RaftStore" where
  "doApplyConfChange env cellID cp s =
     (case getPeerReplicate s cellID of
        None \<Rightarrow> Inl Fatalf
      | Some pr \<Rightarrow>
          (let cc = (case cp_confChange cp of None \<Rightarrow> zeroConfChange | Some cc \<Rightarrow> cc);
               pr = pr\<lparr>pr_rn := se_ApplyConfChange env cc (pr_rn pr)\<rparr>;
               s = putReplicate cellID pr s
           in if cc_NodeID cc = 0 then Inr s
           else
             (let pr = pr\<lparr>pr_ps := (pr_ps pr)\<lparr>ps_cell := cp_cell cp\<rparr>\<rparr>;
                  s = putReplicate cellID pr s;
                  s = (if isLeader (se_rn env) pr then so_emit [S_Heartbeat cellID] s else s)
              in case cc_Type cc of
                   AddNode \<Rightarrow> Inr (addPeerToCache (cp_peer cp) s)
                 | RemoveNode \<Rightarrow>
                     (let s = deletePeerFromCache (p_ID (cp_peer cp)) s
                      in if p_StoreID (cp_peer cp) = sv_id (so_view s) then
                           if p_ID (cp_peer cp) = p_ID (pr_peer pr)
                           then destroyPeer cellID (cp_peer cp) False s
                           else Inl Fatalf
                         else Inr s))))"

definition doPostApplyResult :: "'n storeEnv \<Rightarrow> asyncApplyResult \<Rightarrow> 'n RaftStore \<Rightarrow> fault + 'n RaftStore" where
  "doPostApplyResult env res s =
     (case ar_result res of
        None \<Rightarrow> Inr s
      | Some (ERChangePeer cp) \<Rightarrow> doApplyConfChange env (ar_cellID res) cp s
      | Some (ERSplit l r) \<Rightarrow> doApplySplit env (ar_cellID res) l r s
      | Some (ERRaftGC st firstIndex) \<Rightarrow>
          (case getPeerReplicate s (ar_cellID res) of
             None \<Rightarrow> Inr s
           | Some pr \<Rightarrow>
               sbind (doApplyRaftLogGC st firstIndex pr) (\<lambda>((a, b), pr).
                 Inr (so_emit [S_LogGC (ar_cellID res) a b] (putReplicate (ar_cellID res) pr s)))))"

definition doPollApply ::
  "'n readyEnv \<Rightarrow> 'n storeEnv \<Rightarrow> asyncApplyResult \<Rightarrow> 'n PeerReplicate \<Rightarrow> 'n RaftStore \<Rightarrow> fault + answer list \<times> 'n RaftStore" where
  "doPollApply re env res pr s =
     sbind (doPostApply re res pr) (\<lambda>(as, pr).
     sbind (doPostApplyResult env res (putReplicate (pr_cellID pr) pr s)) (\<lambda>s. Inr (as, s)))"

subsection \<open>Client requests\<close>

definition getTargetCell :: "'n storeEnv \<Rightarrow> bytes \<Rightarrow> 'n RaftStore \<Rightarrow> 'n PeerReplicate option" where
  "getTargetCell env key s =
     (let cell = se_keyConvertFun env key (CellTree_Search (keyRanges s))
      in if c_ID cell = 0 then None else getPeerReplicate s (c_ID cell))"

text \<open>\<^verbatim>\<open>OnProxyReq\<close> for a command that is not a query.\<close>

definition OnProxyReq :: "'n storeEnv \<Rightarrow> Request \<Rightarrow> nat \<Rightarrow> 'n RaftStore \<Rightarrow> fault + 'n RaftStore" where
  "OnProxyReq env req cb s =
     (if length (rq_Cmd req) \<le> 1 then Inl Panic
      else case getTargetCell env (rq_Cmd req ! 1) s of
             None \<Rightarrow> Inr (so_emit [S_NotMatch req cb] s)
           | Some pr \<Rightarrow> Inr (so_emit [S_Request (pr_cellID pr) req cb] s))"

end
