(* ===== verification/Raft_Store_Props.thy ===== *)
theory Raft_Store_Props
  imports Raft_Store Ready_Props
begin

text \<open>
  What the store promises: the well-formedness its handlers keep, which peers a raft message
  reaches, that a destroyed peer leaves a tombstone old messages cannot pass, and where requests go after a split.
\<close>

subsection \<open>Invariant and frames\<close>

definition replicate_ok :: "u64 \<Rightarrow> 'n PeerReplicate \<Rightarrow> bool" where
  "replicate_ok cid pr \<longleftrightarrow> pr_cellID pr = cid \<and> c_ID (ps_cell (pr_ps pr)) = cid \<and> p_ID (pr_peer pr) \<noteq> 0"

definition store_wf :: "'n RaftStore \<Rightarrow> bool" where
  "store_wf s \<longleftrightarrow> (\<forall>d. kv_wf (so_meta s d)) \<and> cells_wf (keyRanges s) \<and>
     (\<forall>cid pr. getPeerReplicate s cid = Some pr \<longrightarrow> replicate_ok cid pr)"

lemma getPeerReplicate_frame [simp]:
  "getPeerReplicate (so_emit es s) = getPeerReplicate s"
  "getPeerReplicate (driver_write c wb s) = getPeerReplicate s"
  "getPeerReplicate (putReplicate c pr s) = (getPeerReplicate s)(c \<mapsto> pr)"
  "getPeerReplicate (deleteReplicate c s) = (getPeerReplicate s)(c := None)"
  "getPeerReplicate (setKeyRanges t s) = getPeerReplicate s"
  "getPeerReplicate (addPeerToCache p s) = getPeerReplicate s"
  "getPeerReplicate (deletePeerFromCache i s) = getPeerReplicate s"
  "getPeerReplicate (cacheDroppedVoteMsg c m s) = getPeerReplicate s"
  "getPeerReplicate (snd (removeDroppedVoteMsg c s)) = getPeerReplicate s"
  "getPeerReplicate (removePendingSnapshot c s) = getPeerReplicate s"
  "getPeerReplicate (handleStaleMsg rm e g s) = getPeerReplicate s"
  by (auto simp: getPeerReplicate_def so_emit_def driver_write_def putReplicate_def deleteReplicate_def setKeyRanges_def
      addPeerToCache_def deletePeerFromCache_def cacheDroppedVoteMsg_def removeDroppedVoteMsg_def
      removePendingSnapshot_def handleStaleMsg_def)

lemma keyRanges_frame [simp]:
  "keyRanges (so_emit es s) = keyRanges s"
  "keyRanges (driver_write c wb s) = keyRanges s"
  "keyRanges (putReplicate c pr s) = keyRanges s"
  "keyRanges (deleteReplicate c s) = keyRanges s"
  "keyRanges (setKeyRanges t s) = t"
  "keyRanges (addPeerToCache p s) = keyRanges s"
  "keyRanges (deletePeerFromCache i s) = keyRanges s"
  "keyRanges (cacheDroppedVoteMsg c m s) = keyRanges s"
  "keyRanges (snd (removeDroppedVoteMsg c s)) = keyRanges s"
  "keyRanges (removePendingSnapshot c s) = keyRanges s"
  "keyRanges (handleStaleMsg rm e g s) = keyRanges s"
  by (auto simp: so_emit_def driver_write_def putReplicate_def deleteReplicate_def setKeyRanges_def
      addPeerToCache_def deletePeerFromCache_def cacheDroppedVoteMsg_def removeDroppedVoteMsg_def
      removePendingSnapshot_def handleStaleMsg_def)

lemma so_meta_frame [simp]:
  "so_meta (so_emit es s) = so_meta s"
  "so_meta (putReplicate c pr s) = so_meta s"
  "so_meta (deleteReplicate c s) = so_meta s"
  "so_meta (setKeyRanges t s) = so_meta s"
  "so_meta (addPeerToCache p s) = so_meta s"
  "so_meta (deletePeerFromCache i s) = so_meta s"
  "so_meta (cacheDroppedVoteMsg c m s) = so_meta s"
  "so_meta (snd (removeDroppedVoteMsg c s)) = so_meta s"
  "so_meta (removePendingSnapshot c s) = so_meta s"
  "so_meta (handleStaleMsg rm e g s) = so_meta s"
  by (auto simp: so_emit_def putReplicate_def deleteReplicate_def setKeyRanges_def
      addPeerToCache_def deletePeerFromCache_def cacheDroppedVoteMsg_def removeDroppedVoteMsg_def
      removePendingSnapshot_def handleStaleMsg_def)

lemma so_fixed_frame [simp]:
  "so_engines (so_emit es s) = so_engines s"
  "so_engines (driver_write c wb s) = so_engines s"
  "so_engines (putReplicate c pr s) = so_engines s"
  "so_engines (deleteReplicate c s) = so_engines s"
  "so_engines (setKeyRanges t s) = so_engines s"
  "so_engines (addPeerToCache p s) = so_engines s"
  "so_engines (cacheDroppedVoteMsg c m s) = so_engines s"
  "so_engines (snd (removeDroppedVoteMsg c s)) = so_engines s"
  "so_engines (removePendingSnapshot c s) = so_engines s"
  "so_engines (handleStaleMsg rm e g s) = so_engines s"
  "sv_id (so_view (so_emit es s)) = sv_id (so_view s)"
  "sv_id (so_view (cacheDroppedVoteMsg c m s)) = sv_id (so_view s)"
  "sv_id (so_view (handleStaleMsg rm e g s)) = sv_id (so_view s)"
  "sv_id (so_view (putReplicate c pr s)) = sv_id (so_view s)"
  "sv_id (so_view (addPeerToCache p s)) = sv_id (so_view s)"
  by (auto simp: so_emit_def driver_write_def putReplicate_def deleteReplicate_def setKeyRanges_def
      addPeerToCache_def cacheDroppedVoteMsg_def removeDroppedVoteMsg_def
      removePendingSnapshot_def handleStaleMsg_def)

lemma getDriver_cong: "so_meta s = so_meta t \<Longrightarrow> so_engines s = so_engines t \<Longrightarrow> getDriver s = getDriver t"
  by (simp add: getDriver_def fun_eq_iff)

lemma getDriver_write [simp]: "getDriver (driver_write c wb s) c = driver_Write (getDriver s c) wb"
  by (simp add: getDriver_def driver_write_def)

lemma store_wf_cong:
  "so_meta s = so_meta t \<Longrightarrow> keyRanges s = keyRanges t \<Longrightarrow> getPeerReplicate s = getPeerReplicate t \<Longrightarrow>
   store_wf s = store_wf t"
  by (simp add: store_wf_def)

lemma store_wf_simps [simp]:
  "store_wf (so_emit es s) = store_wf s"
  "store_wf (addPeerToCache p s) = store_wf s"
  "store_wf (deletePeerFromCache i s) = store_wf s"
  "store_wf (cacheDroppedVoteMsg c m s) = store_wf s"
  "store_wf (snd (removeDroppedVoteMsg c s)) = store_wf s"
  "store_wf (removePendingSnapshot c s) = store_wf s"
  "store_wf (handleStaleMsg rm e g s) = store_wf s"
  by (rule store_wf_cong; simp)+

lemma store_wf_intros [wf_intros]:
  "store_wf s \<Longrightarrow> store_wf (driver_write c wb s)"
  "store_wf s \<Longrightarrow> replicate_ok c pr \<Longrightarrow> store_wf (putReplicate c pr s)"
  "store_wf s \<Longrightarrow> store_wf (deleteReplicate c s)"
  "store_wf s \<Longrightarrow> cells_wf t \<Longrightarrow> store_wf (setKeyRanges t s)"
  by (auto simp: store_wf_def wf_intros) (auto simp: driver_write_def getDriver_def wf_intros)

lemma store_wfD:
  assumes "store_wf s"
  shows "kv_wf (so_meta s d)" "kv_wf (getDriver s c)" "cells_wf (keyRanges s)"
    "getPeerReplicate s cid = Some pr \<Longrightarrow> replicate_ok cid pr"
  using assms by (auto simp: store_wf_def getDriver_def)

subsection \<open>Creating and destroying\<close>

lemma init_cell:
  "initRaftState eng ps = Return ps' \<Longrightarrow> ps_cell ps' = ps_cell ps"
  "initApplyState eng ps = Return ps' \<Longrightarrow> ps_cell ps' = ps_cell ps"
  "initLastTerm eng ps = Return ps' \<Longrightarrow> ps_cell ps' = ps_cell ps"
  by (auto simp: initRaftState_def initApplyState_def initLastTerm_def Let_def
      split: outcome.split_asm option.split_asm stored.split_asm if_split_asm)

lemma newPeerStorage_cell: "newPeerStorage eng cell = Return ps \<Longrightarrow> ps_cell ps = cell"
  by (auto simp: newPeerStorage_def Let_def dest!: init_cell split: outcome.split_asm)

lemma newPeerReplicate_E:
  assumes "newPeerReplicate env s cell i = Return pr"
  shows "i \<noteq> 0" "pr_cellID pr = c_ID cell" "ps_cell (pr_ps pr) = cell" "pr_peer pr = newPeer i (sv_id (so_view s))"
proof -
  show i: "i \<noteq> 0" using assms by (auto simp: newPeerReplicate_def)
  with assms obtain ps where ps: "newPeerStorage (getDriver s (c_ID cell)) cell = Return ps"
    by (cases "newPeerStorage (getDriver s (c_ID cell)) cell") (simp_all add: newPeerReplicate_def)
  with i assms obtain n where "se_NewRawNode env i (getAppliedIndex ps) ps = Inr n"
    by (cases "se_NewRawNode env i (getAppliedIndex ps) ps") (simp_all add: newPeerReplicate_def)
  with i ps assms have "pr_cellID pr = c_ID cell \<and> pr_ps pr = ps \<and> pr_peer pr = newPeer i (sv_id (so_view s))"
    by (cases "if length (c_Peers cell) = 1 \<and> p_StoreID (hd (c_Peers cell)) = sv_id (so_view s)
        then se_Campaign env n else Inr n") (auto simp: newPeerReplicate_def)
  then show "pr_cellID pr = c_ID cell" "ps_cell (pr_ps pr) = cell" "pr_peer pr = newPeer i (sv_id (so_view s))"
    using newPeerStorage_cell [OF ps] by auto
qed

lemma doReplicate_E:
  assumes "doReplicate env s msg i = Return pr"
  shows "i \<noteq> 0" "pr_cellID pr = rm_CellID msg" "c_ID (ps_cell (pr_ps pr)) = rm_CellID msg"
    "c_Start (ps_cell (pr_ps pr)) = rm_Start msg" "c_End (ps_cell (pr_ps pr)) = rm_End msg"
    "p_ID (pr_peer pr) = i"
  using newPeerReplicate_E [OF assms [unfolded doReplicate_def]] by (simp_all add: newPeer_def)

lemma pr_destroy_E:
  assumes "pr_destroy pr s = Inr s'"
  obtains es where "s' = so_emit es (driver_write (pr_cellID pr)
      (updatePeerState (ps_cell (pr_ps pr)) PS_Tombstone (clearMeta (getDriver s (pr_cellID pr)) (pr_cellID pr) []))
      (snd (removeDroppedVoteMsg (pr_cellID pr) (removePendingSnapshot (pr_cellID pr) (so_emit [S_StopLoop (pr_cellID pr)] s)))))"
    "\<And>c m. S_Step c m \<notin> set es"
proof -
  have d: "getDriver (snd (removeDroppedVoteMsg c (removePendingSnapshot c (so_emit es s)))) = getDriver s" for c es
    by (rule getDriver_cong) simp_all
  have e: "so_emit [] t = t" for t :: "'a RaftStore" by (simp add: so_emit_def)
  show ?thesis
    using assms that [of "[]"] that
    by (auto simp: pr_destroy_def Let_def d e sbind_Inr_iff clearData_def split: if_splits)
qed

lemma destroyPeer_E:
  assumes "destroyPeer cellID p False s = Inr s'"
  obtains pr s1 t where "getPeerReplicate s cellID = Some pr" "\<not> isApplyingSnap (pr_ps pr)"
    "pr_destroy pr (deleteReplicate cellID s) = Inr s1"
    "s' = so_emit [S_IndexDestroy (c_ID (ps_cell (pr_ps pr)))] (setKeyRanges t s1)"
    "t = (if isInitialized (pr_ps pr) then snd (CellTree_Remove (keyRanges s1) (ps_cell (pr_ps pr))) else keyRanges s1)"
    "isInitialized (pr_ps pr) \<longrightarrow> fst (CellTree_Remove (keyRanges s1) (ps_cell (pr_ps pr)))"
proof -
  from assms obtain pr where pr: "getPeerReplicate s cellID = Some pr" "\<not> isApplyingSnap (pr_ps pr)"
    by (auto simp: destroyPeer_def split: option.splits if_split_asm)
  with assms obtain s1 s2 where 1: "pr_destroy pr (deleteReplicate cellID s) = Inr s1"
    and 2: "(if isInitialized (pr_ps pr) then (case CellTree_Remove (keyRanges s1) (ps_cell (pr_ps pr)) of
           (True, t) \<Rightarrow> Inr (setKeyRanges t s1) | (False, _) \<Rightarrow> Inl Fatalf) else Inr s1) = Inr s2"
    and 3: "s' = so_emit [S_IndexDestroy (c_ID (ps_cell (pr_ps pr)))] s2"
    by (clarsimp simp: destroyPeer_def sbind_Inr_iff)
  have "setKeyRanges (keyRanges s1) s1 = s1" by (simp add: setKeyRanges_def)
  with 2 have "s2 = setKeyRanges (if isInitialized (pr_ps pr) then snd (CellTree_Remove (keyRanges s1) (ps_cell (pr_ps pr)))
      else keyRanges s1) s1" "isInitialized (pr_ps pr) \<longrightarrow> fst (CellTree_Remove (keyRanges s1) (ps_cell (pr_ps pr)))"
    by (auto split: if_splits prod.splits bool.splits)
  with pr 1 3 show ?thesis using that by blast
qed

lemma destroyPeer_wf:
  assumes "destroyPeer cellID p async s = Inr s'" "store_wf s"
  shows "store_wf s'"
proof (cases async)
  case False
  with assms(1) have "destroyPeer cellID p False s = Inr s'" by simp
  then obtain pr s1 t where
    1: "pr_destroy pr (deleteReplicate cellID s) = Inr s1"
    and 2: "s' = so_emit [S_IndexDestroy (c_ID (ps_cell (pr_ps pr)))] (setKeyRanges t s1)"
    "t = (if isInitialized (pr_ps pr) then snd (CellTree_Remove (keyRanges s1) (ps_cell (pr_ps pr))) else keyRanges s1)"
    by (rule destroyPeer_E)
  from 1 have "store_wf s1" by (rule pr_destroy_E) (simp add: wf_intros assms(2))
  then show ?thesis by (simp add: 2 wf_intros store_wfD)
qed (use assms in \<open>auto simp: destroyPeer_def\<close>)

text \<open>What a synchronous destroy leaves behind.\<close>

lemma meta_key_range:
  assumes "cid + 1 \<noteq> 0"
  shows "getCellMetaPrefix cid \<le> getCellStateKey d \<and> getCellStateKey d \<le> getCellMetaPrefix (cid + 1) \<longleftrightarrow> d = cid"
    "\<not> (getCellRaftPrefix cid \<le> getCellStateKey d \<and> getCellStateKey d \<le> getCellRaftPrefix (cid + 1))"
    "\<not> getCellMetaPrefix cid \<le> getRaftLogKey d i"
proof -
  have "cid \<le> d \<and> d < cid + 1 \<longleftrightarrow> d = cid" using less_plus1_iff [OF assms, of d] by auto
  then show "getCellMetaPrefix cid \<le> getCellStateKey d \<and> getCellStateKey d \<le> getCellMetaPrefix (cid + 1) \<longleftrightarrow> d = cid"
    by (auto simp: key_defs key_consts key_order order.order_iff_strict [of "Uint64ToBytes d @ _"]
        dest: arg_cong [where f = length])
  show "\<not> (getCellRaftPrefix cid \<le> getCellStateKey d \<and> getCellStateKey d \<le> getCellRaftPrefix (cid + 1))"
    "\<not> getCellMetaPrefix cid \<le> getRaftLogKey d i"
    by (simp_all add: key_defs key_consts)
qed

lemma destroy_batch_map:
  assumes "kv_wf eng" "c_ID cell = cid" "cid + 1 \<noteq> 0"
  shows "kv_map (driver_Write eng (updatePeerState cell PS_Tombstone (clearMeta eng cid []))) (getCellStateKey d) =
      (if d = cid then Some (SCell \<lparr>cl_State = PS_Tombstone, cl_Cell = cell\<rparr>) else kv_map eng (getCellStateKey d))"
    "kv_map (driver_Write eng (updatePeerState cell PS_Tombstone (clearMeta eng cid []))) (getRaftLogKey d i) =
      (if d = cid then None else kv_map eng (getRaftLogKey d i))"
proof -
  have inj: "getCellStateKey d = getCellStateKey cid \<longleftrightarrow> d = cid"
    using meta_key_range(1) [OF assms(3)] by metis
  have m: "kv_map (driver_Write eng (updatePeerState cell PS_Tombstone (clearMeta eng cid []))) =
      (kv_map (driver_Write eng (clearMeta eng cid [])))(getCellStateKey cid \<mapsto> SCell \<lparr>cl_State = PS_Tombstone, cl_Cell = cell\<rparr>)"
    using assms by (simp add: updatePeerState_def driver_Write_Set)
  show "kv_map (driver_Write eng (updatePeerState cell PS_Tombstone (clearMeta eng cid []))) (getCellStateKey d) =
      (if d = cid then Some (SCell \<lparr>cl_State = PS_Tombstone, cl_Cell = cell\<rparr>) else kv_map eng (getCellStateKey d))"
    using inj meta_key_range [OF assms(3), of d] by (auto simp: m clearMeta_map assms(1))
  have "getRaftLogKey d i \<noteq> getCellStateKey cid" by (simp add: key_defs key_consts)
  then show "kv_map (driver_Write eng (updatePeerState cell PS_Tombstone (clearMeta eng cid []))) (getRaftLogKey d i) =
      (if d = cid then None else kv_map eng (getRaftLogKey d i))"
    using raft_key_range [OF assms(3), of d i] meta_key_range(3) [OF assms(3), of d i]
    by (auto simp: m clearMeta_map assms(1) domIff)
qed

lemma destroyPeer_effect:
  assumes "destroyPeer cid p False s = Inr s'" "store_wf s" "getPeerReplicate s cid = Some pr"
  shows "getPeerReplicate s' = (getPeerReplicate s)(cid := None)"
    "getDriver s' cid = driver_Write (getDriver s cid)
       (updatePeerState (ps_cell (pr_ps pr)) PS_Tombstone (clearMeta (getDriver s cid) cid []))"
    "keyRanges s' = (if isInitialized (pr_ps pr) then snd (CellTree_Remove (keyRanges s) (ps_cell (pr_ps pr))) else keyRanges s)"
    "isInitialized (pr_ps pr) \<Longrightarrow> fst (CellTree_Remove (keyRanges s) (ps_cell (pr_ps pr)))"
proof -
  from assms(1) obtain pr' s1 t where pr': "getPeerReplicate s cid = Some pr'"
    and 1: "pr_destroy pr' (deleteReplicate cid s) = Inr s1"
    and 2: "s' = so_emit [S_IndexDestroy (c_ID (ps_cell (pr_ps pr')))] (setKeyRanges t s1)"
    "t = (if isInitialized (pr_ps pr') then snd (CellTree_Remove (keyRanges s1) (ps_cell (pr_ps pr'))) else keyRanges s1)"
    "isInitialized (pr_ps pr') \<longrightarrow> fst (CellTree_Remove (keyRanges s1) (ps_cell (pr_ps pr')))"
    by (rule destroyPeer_E)
  have pr: "pr' = pr" "pr_cellID pr = cid" using pr' assms(3) store_wfD(4) [OF assms(2,3)] by (auto simp: replicate_ok_def)
  have d: "getDriver (deleteReplicate cid s) = getDriver s" by (rule getDriver_cong) simp_all
  from 1 obtain es where s1: "s1 = so_emit es (driver_write cid
      (updatePeerState (ps_cell (pr_ps pr)) PS_Tombstone (clearMeta (getDriver s cid) cid []))
      (snd (removeDroppedVoteMsg cid (removePendingSnapshot cid (so_emit [S_StopLoop cid] (deleteReplicate cid s))))))"
    by (rule pr_destroy_E) (auto simp: pr d)
  have g: "getDriver s' cid = getDriver (driver_write cid wb t) cid" if "s1 = so_emit es (driver_write cid wb t)" for wb t
    by (simp add: 2 that getDriver_def)
  have "getDriver (snd (removeDroppedVoteMsg cid (removePendingSnapshot cid (so_emit [S_StopLoop cid] (deleteReplicate cid s))))) = getDriver s"
    by (rule getDriver_cong) simp_all
  with g [OF s1] show "getDriver s' cid = driver_Write (getDriver s cid)
       (updatePeerState (ps_cell (pr_ps pr)) PS_Tombstone (clearMeta (getDriver s cid) cid []))" by simp
  show "getPeerReplicate s' = (getPeerReplicate s)(cid := None)"
    "keyRanges s' = (if isInitialized (pr_ps pr) then snd (CellTree_Remove (keyRanges s) (ps_cell (pr_ps pr))) else keyRanges s)"
    "isInitialized (pr_ps pr) \<Longrightarrow> fst (CellTree_Remove (keyRanges s) (ps_cell (pr_ps pr)))"
    using 2 s1 by (simp_all add: pr)
qed

subsection \<open>Messages\<close>

text \<open>The raft messages the store has handed to its peers.\<close>

definition steps :: "'n RaftStore \<Rightarrow> (u64 \<times> Message) list" where
  "steps s = List.map_filter (\<lambda>e. case e of S_Step c m \<Rightarrow> Some (c, m) | _ \<Rightarrow> None) (so_trace s)"

lemma map_filter_append: "List.map_filter f (xs @ ys) = List.map_filter f xs @ List.map_filter f ys"
  by (simp add: List.map_filter_def)

lemma steps_emit [simp]:
  "steps (so_emit es s) = steps s @ List.map_filter (\<lambda>e. case e of S_Step c m \<Rightarrow> Some (c, m) | _ \<Rightarrow> None) es"
  by (simp add: steps_def so_emit_def map_filter_append)

lemma steps_frame [simp]:
  "steps (driver_write c wb s) = steps s"
  "steps (putReplicate c pr s) = steps s"
  "steps (deleteReplicate c s) = steps s"
  "steps (setKeyRanges t s) = steps s"
  "steps (addPeerToCache p s) = steps s"
  "steps (cacheDroppedVoteMsg c m s) = steps s"
  "steps (snd (removeDroppedVoteMsg c s)) = steps s"
  "steps (removePendingSnapshot c s) = steps s"
  "steps (handleStaleMsg rm e g s) = steps s"
  by (auto simp: steps_def driver_write_def putReplicate_def deleteReplicate_def setKeyRanges_def
      addPeerToCache_def cacheDroppedVoteMsg_def removeDroppedVoteMsg_def so_emit_def map_filter_append
      removePendingSnapshot_def handleStaleMsg_def)

lemma no_steps: "(\<And>c m. S_Step c m \<notin> set es) \<Longrightarrow>
    List.map_filter (\<lambda>e. case e of S_Step c m \<Rightarrow> Some (c, m) | _ \<Rightarrow> None) es = []"
  by (induction es) (auto simp: split: store_event.splits)

lemma destroyPeer_steps:
  assumes "destroyPeer cid p async s = Inr s'"
  shows "steps s' = steps s"
proof (cases async)
  case False
  with assms have "destroyPeer cid p False s = Inr s'" by simp
  then show ?thesis
  proof (rule destroyPeer_E)
    fix pr s1 t
    assume 1: "pr_destroy pr (deleteReplicate cid s) = Inr s1"
      and 2: "s' = so_emit [S_IndexDestroy (c_ID (ps_cell (pr_ps pr)))] (setKeyRanges t s1)"
    from 1 have "steps s1 = steps s"
      by (rule pr_destroy_E) (simp add: no_steps)
    then show ?thesis by (simp add: 2)
  qed
qed (use assms in \<open>auto simp: destroyPeer_def\<close>)

lemma handleGCPeerMsg_frame:
  assumes "handleGCPeerMsg msg s = Inr s'"
  shows "steps s' = steps s" "store_wf s \<Longrightarrow> store_wf s'"
  using assms by (auto simp: handleGCPeerMsg_def destroyPeer_steps destroyPeer_wf split: option.splits if_splits)

lemma isMsgStale_frame:
  assumes "isMsgStale msg s = Inr (v, s')"
  shows "steps s' = steps s" "store_wf s' = store_wf s" "getPeerReplicate s' = getPeerReplicate s"
    "v = Current \<Longrightarrow> s' = s"
  using assms by (auto simp: isMsgStale_def Let_def split: option.splits if_splits outcome.splits)

definition msg_range_ok :: "RaftMessage \<Rightarrow> bool" where
  "msg_range_ok msg \<longleftrightarrow> rm_End msg = [] \<or> rm_Start msg < rm_End msg"

lemma create_from_msg_cases:
  assumes "create_from_msg env (rm_CellID msg) msg s = Inr (ok, s')"
  shows "\<not> ok \<and> (s' = s \<or> s' = cacheDroppedVoteMsg (rm_CellID msg) (rm_Message msg) s) \<or>
    (\<exists>pr. doReplicate env s msg (p_ID (rm_ToPeer msg)) = Return pr \<and> ok \<and> s' = adopt_replicate msg pr s)"
  using assms
  by (auto simp: create_from_msg_def Let_def sbind_Inr_iff split: if_split_asm outcome.split_asm)

lemma adopt_ok:
  assumes "doReplicate env s msg i = Return pr"
  shows "steps (adopt_replicate msg pr s) = steps s"
    "store_wf s \<Longrightarrow> msg_range_ok msg \<Longrightarrow> store_wf (adopt_replicate msg pr s)"
    "\<exists>pr'. getPeerReplicate (adopt_replicate msg pr s) (rm_CellID msg) = Some pr' \<and> p_ID (pr_peer pr') = i"
  using doReplicate_E [OF assms]
  by (auto simp: adopt_replicate_def Let_def replicate_ok_def valid_range_def msg_range_ok_def store_wfD intro!: store_wf_intros CellTree_Update_wf)

lemma create_from_msg_E:
  assumes "create_from_msg env (rm_CellID msg) msg s = Inr (ok, s')"
  shows "steps s' = steps s"
    "store_wf s \<Longrightarrow> msg_range_ok msg \<Longrightarrow> store_wf s'"
    "ok \<Longrightarrow> \<exists>pr. getPeerReplicate s' (rm_CellID msg) = Some pr \<and> p_ID (pr_peer pr) = p_ID (rm_ToPeer msg)"
  using create_from_msg_cases [OF assms] adopt_ok [of env s msg "p_ID (rm_ToPeer msg)"] by auto

lemma cancel_cell [simp]: "ps_cell (snd (cancelApplyingSnapJob ps)) = ps_cell ps"
  by (simp add: cancelApplyingSnapJob_def Let_def split: option.split)

lemma tryToCreatePeerReplicate_E:
  assumes "tryToCreatePeerReplicate env (rm_CellID msg) msg s = Inr (ok, s')" "store_wf s"
  shows "steps s' = steps s \<and> (msg_range_ok msg \<longrightarrow> store_wf s') \<and>
    (ok \<longrightarrow> (\<exists>pr. getPeerReplicate s' (rm_CellID msg) = Some pr \<and> p_ID (pr_peer pr) = p_ID (rm_ToPeer msg)))"
proof (cases "getPeerReplicate s (rm_CellID msg)")
  case None
  then show ?thesis
    using assms create_from_msg_E [of env msg s ok s'] by (simp add: tryToCreatePeerReplicate_def)
next
  case (Some p)
  note ok = store_wfD(4) [OF assms(2) Some]
  show ?thesis
  proof (cases "p_ID (pr_peer p) < p_ID (rm_ToPeer msg)")
    case False
    then show ?thesis using assms Some by (auto simp: tryToCreatePeerReplicate_def split: if_splits)
  next
    case True
    obtain cancelled ps where c: "(if isApplyingSnap (pr_ps p) then cancelApplyingSnapJob (pr_ps p) else (True, pr_ps p)) = (cancelled, ps)"
      by fastforce
    then have cell: "ps_cell ps = ps_cell (pr_ps p)" by (auto split: if_splits) (metis cancel_cell snd_conv)
    define s1 where "s1 = putReplicate (rm_CellID msg) (p\<lparr>pr_ps := ps\<rparr>) s"
    have s1: "store_wf s1" "steps s1 = steps s"
      using assms(2) ok by (simp_all add: s1_def replicate_ok_def cell wf_intros)
    have "p_ID (pr_peer p) > 0" using ok by (simp add: replicate_ok_def word_gt_0)
    then have "tryToCreatePeerReplicate env (rm_CellID msg) msg s =
        (if \<not> cancelled then Inr (False, s1)
         else sbind (destroyPeer (rm_CellID msg) (pr_peer p) (isInitialized ps) s1) (\<lambda>s.
           if isInitialized ps then Inr (False, s) else create_from_msg env (rm_CellID msg) msg s))"
      by (simp only: tryToCreatePeerReplicate_def Some option.case True if_True c Let_def prod.case s1_def
          ) simp
    with assms(1) consider "\<not> ok" "s' = s1"
      | s2 where "destroyPeer (rm_CellID msg) (pr_peer p) (isInitialized ps) s1 = Inr s2" "\<not> ok" "s' = s2"
      | s2 where "destroyPeer (rm_CellID msg) (pr_peer p) (isInitialized ps) s1 = Inr s2"
          "create_from_msg env (rm_CellID msg) msg s2 = Inr (ok, s')"
      by (auto simp: sbind_Inr_iff split: if_split_asm)
    then show ?thesis
      using s1 by cases (auto simp: destroyPeer_steps dest: destroyPeer_wf create_from_msg_E)
  qed
qed

lemma addPendingSnapshot_frame:
  assumes "addPendingSnapshot h s = Inr (b, s')"
  shows "steps s' = steps s" "store_wf s' = store_wf s" "getPeerReplicate s' = getPeerReplicate s"
  using assms by (auto simp: addPendingSnapshot_def sbind_Inr_iff steps_def store_wf_def getPeerReplicate_def split: if_splits)

lemma checkSnapshot_frame:
  assumes "checkSnapshot msg s = Inr (b, s')"
  shows "steps s' = steps s \<and> store_wf s' = store_wf s \<and> getPeerReplicate s' = getPeerReplicate s"
  using assms
  by (auto simp: checkSnapshot_def Let_def sbind_Inr_iff addPendingSnapshot_frame
      split: option.split_asm if_split_asm dest: addPendingSnapshot_frame)

lemma onRaftMessage_E:
  assumes "onRaftMessage env msg s = Inr s'" "store_wf s"
  shows "(msg_range_ok msg \<longrightarrow> store_wf s') \<and>
    (steps s' = steps s \<or>
     steps s' = steps s @ [(rm_CellID msg, rm_Message msg)] \<and> p_StoreID (rm_ToPeer msg) = sv_id (so_view s) \<and>
     (\<exists>pr. getPeerReplicate s' (rm_CellID msg) = Some pr \<and> p_ID (pr_peer pr) = p_ID (rm_ToPeer msg)))"
proof (cases "isRaftMsgValid s msg \<and> \<not> rm_IsTombstone msg")
  case False
  then show ?thesis
    using assms handleGCPeerMsg_frame [of msg s s'] by (auto simp: onRaftMessage_def split: if_splits)
next
  case True
  with assms(1) obtain v s1 where 1: "isMsgStale msg s = Inr (v, s1)"
    by (auto simp: onRaftMessage_def sbind_Inr_iff)
  show ?thesis
  proof (cases "v = Current")
    case False
    then show ?thesis using assms True 1 isMsgStale_frame [OF 1] by (auto simp: onRaftMessage_def)
  next
    case cur: True
    then have "s1 = s" by (rule isMsgStale_frame(4) [OF 1])
    with assms(1) True 1 cur obtain ok s2 where 2: "tryToCreatePeerReplicate env (rm_CellID msg) msg s = Inr (ok, s2)"
      and 3: "\<not> ok \<and> s' = s2 \<or> ok \<and> (\<exists>b s3. checkSnapshot msg s2 = Inr (b, s3) \<and>
         (\<not> b \<and> s' = s3 \<or> b \<and> s' = so_emit [S_Step (rm_CellID msg) (rm_Message msg)] (addPeerToCache (rm_FromPeer msg) s3)))"
      by (auto simp: onRaftMessage_def sbind_Inr_iff Let_def split: if_split_asm option.split_asm)
    from 3 tryToCreatePeerReplicate_E [OF 2 assms(2)] True checkSnapshot_frame [of msg s2] show ?thesis
      by (fastforce simp: isRaftMsgValid_def)
  qed
qed

subsection \<open>Admin results\<close>

lemma fold_addPeerToCache [simp]:
  "getPeerReplicate (fold addPeerToCache ps s) = getPeerReplicate s"
  "keyRanges (fold addPeerToCache ps s) = keyRanges s"
  "so_meta (fold addPeerToCache ps s) = so_meta s"
  by (induction ps arbitrary: s) simp_all

lemma split_step_frame:
  fixes s :: "'n RaftStore"
  shows "getPeerReplicate (case removeDroppedVoteMsg c s of (Some vote, s) \<Rightarrow> so_emit (g vote) s | (None, s) \<Rightarrow> s) = getPeerReplicate s"
    "keyRanges (case removeDroppedVoteMsg c s of (Some vote, s) \<Rightarrow> so_emit (g vote) s | (None, s) \<Rightarrow> s) = keyRanges s"
    "so_meta (case removeDroppedVoteMsg c s of (Some vote, s) \<Rightarrow> so_emit (g vote) s | (None, s) \<Rightarrow> s) = so_meta s"
  using getPeerReplicate_frame(9) [of c s] keyRanges_frame(9) [of c s] so_meta_frame(8) [of c s]
  by (cases "removeDroppedVoteMsg c s", simp split: option.split)+

lemma createPeerReplicate_E:
  assumes "createPeerReplicate env s cell = Return pr"
  shows "replicate_ok (c_ID cell) pr" "ps_cell (pr_ps pr) = cell"
proof -
  obtain i where "newPeerReplicate env s cell i = Return pr"
    using assms by (cases "findPeer cell (sv_id (so_view s))") (auto simp: createPeerReplicate_def)
  then show "replicate_ok (c_ID cell) pr" "ps_cell (pr_ps pr) = cell"
    using newPeerReplicate_E [of env s cell i pr] by (simp_all add: replicate_ok_def newPeer_def)
qed

lemma register_split_frame:
  fixes s :: "'n RaftStore"
  shows "getPeerReplicate (register_split env cid pr l r n s) =
      (getPeerReplicate s)(pr_cellID n \<mapsto> n\<lparr>pr_sizeDiffHint := cf_ThresholdSplitCheckBytes (se_cfg env)\<rparr>)"
    "keyRanges (register_split env cid pr l r n s) = CellTree_Update (CellTree_Update (keyRanges s) l) r"
    "so_meta (register_split env cid pr l r n s) = so_meta s"
  by (auto simp: register_split_def Let_def split_step_frame)

lemma doApplySplit_E:
  fixes s :: "'n RaftStore"
  assumes "doApplySplit env cid l r s = Inr s'"
  obtains pr newPR where "getPeerReplicate s cid = Some pr" "ps_cell (pr_ps newPR) = r" "replicate_ok (c_ID r) newPR"
    "getPeerReplicate s' = (getPeerReplicate s)(cid \<mapsto> pr\<lparr>pr_ps := (pr_ps pr)\<lparr>ps_cell := l\<rparr>\<rparr>, c_ID r \<mapsto> newPR)"
    "keyRanges s' = CellTree_Update (CellTree_Update (keyRanges s) l) r" "so_meta s' = so_meta s"
proof -
  obtain pr where pr: "getPeerReplicate s cid = Some pr"
    using assms by (auto simp: doApplySplit_def split: option.splits)
  define s1 where "s1 = fold addPeerToCache (c_Peers r) (putReplicate cid (pr\<lparr>pr_ps := (pr_ps pr)\<lparr>ps_cell := l\<rparr>\<rparr>) s)"
  from assms obtain n where n: "createPeerReplicate env s1 r = Return n"
    and s': "s' = register_split env cid (pr\<lparr>pr_ps := (pr_ps pr)\<lparr>ps_cell := l\<rparr>\<rparr>) l r n s1"
    unfolding doApplySplit_def pr option.case Let_def s1_def [symmetric]
    by (auto split: if_split_asm outcome.split_asm)
  note nok = createPeerReplicate_E [OF n]
  show ?thesis
    by (rule that [of pr "n\<lparr>pr_sizeDiffHint := cf_ThresholdSplitCheckBytes (se_cfg env)\<rparr>"])
      (use pr nok in \<open>auto simp: s' s1_def register_split_frame replicate_ok_def\<close>)
qed

lemma doApplySplit_wf:
  assumes "doApplySplit env cid l r s = Inr s'" "store_wf s" "c_ID l = cid" "valid_range l" "valid_range r"
  shows "store_wf s'"
  using assms(1)
proof (rule doApplySplit_E)
  fix pr newPR
  assume "getPeerReplicate s cid = Some pr" "replicate_ok (c_ID r) newPR"
    "getPeerReplicate s' = (getPeerReplicate s)(cid \<mapsto> pr\<lparr>pr_ps := (pr_ps pr)\<lparr>ps_cell := l\<rparr>\<rparr>, c_ID r \<mapsto> newPR)"
    "keyRanges s' = CellTree_Update (CellTree_Update (keyRanges s) l) r" "so_meta s' = so_meta s"
  then show ?thesis
    using assms(2-5) by (auto simp: store_wf_def replicate_ok_def wf_intros)
qed

lemma doApplyConfChange_wf:
  assumes "doApplyConfChange env cid cp s = Inr s'" "store_wf s" "c_ID (cp_cell cp) = cid"
  shows "store_wf s'"
proof -
  obtain pr where pr: "getPeerReplicate s cid = Some pr"
    using assms(1) by (auto simp: doApplyConfChange_def split: option.splits)
  define cc where "cc = (case cp_confChange cp of None \<Rightarrow> zeroConfChange | Some cc \<Rightarrow> cc)"
  define p1 where "p1 = pr\<lparr>pr_rn := se_ApplyConfChange env cc (pr_rn pr)\<rparr>"
  define p2 where "p2 = p1\<lparr>pr_ps := (pr_ps p1)\<lparr>ps_cell := cp_cell cp\<rparr>\<rparr>"
  have p: "replicate_ok cid p1" "replicate_ok cid p2"
    using store_wfD(4) [OF assms(2) pr] assms(3) by (simp_all add: replicate_ok_def p1_def p2_def)
  define s2 where "s2 = (if isLeader (se_rn env) p2 then so_emit [S_Heartbeat cid] (putReplicate cid p2 (putReplicate cid p1 s))
     else putReplicate cid p2 (putReplicate cid p1 s))"
  have s2: "store_wf (putReplicate cid p1 s)" "store_wf s2"
    using assms(2) p by (auto simp: s2_def wf_intros)
  have "doApplyConfChange env cid cp s =
      (if cc_NodeID cc = 0 then Inr (putReplicate cid p1 s)
       else case cc_Type cc of AddNode \<Rightarrow> Inr (addPeerToCache (cp_peer cp) s2)
         | RemoveNode \<Rightarrow>
             if p_StoreID (cp_peer cp) = sv_id (so_view (deletePeerFromCache (p_ID (cp_peer cp)) s2)) then
               if p_ID (cp_peer cp) = p_ID (pr_peer p2)
               then destroyPeer cid (cp_peer cp) False (deletePeerFromCache (p_ID (cp_peer cp)) s2) else Inl Fatalf
             else Inr (deletePeerFromCache (p_ID (cp_peer cp)) s2))"
    by (simp only: doApplyConfChange_def pr option.case Let_def cc_def p1_def p2_def s2_def)
  then show ?thesis
    using assms(1) s2 destroyPeer_wf [of cid "cp_peer cp" False "deletePeerFromCache (p_ID (cp_peer cp)) s2" s']
    by (simp split: if_split_asm ConfChangeType.split_asm)
qed

lemma doDestroy_wf: "doDestroy cid p s = Inr (as, s') \<Longrightarrow> store_wf s \<Longrightarrow> store_wf s'"
  by (auto simp: doDestroy_def sbind_Inr_iff getPeerReplicate_def store_wf_def split: option.splits
      dest!: destroyPeer_wf)

subsection \<open>Properties\<close>

lemma removed_cell:
  assumes "cells_wf t" "fst (CellTree_Remove t c)"
  shows "\<exists>r \<in> set t. c_ID r = c_ID c \<and> set (snd (CellTree_Remove t c)) = set t - {r}"
proof (cases "owner t (c_Start c)")
  case (Some r)
  then have "r \<in> set t" using assms(1) by (simp add: owner_Some)
  with Some assms show ?thesis by (auto simp: CellTree_Remove_eq split: if_splits)
qed (use assms in \<open>simp add: CellTree_Remove_eq\<close>)

lemma Search_owner_eq: "cells_wf t \<Longrightarrow> CellTree_Search t k = (case owner t k of None \<Rightarrow> emptyCell | Some c \<Rightarrow> c)"
  by (simp add: CellTree_Search_def CellTree_find_owner)

lemma split_tree:
  assumes "cells_wf t" "c \<in> set t" "valid_range l" "valid_range r"
    and cov: "\<And>j. covers c j \<longleftrightarrow> covers l j \<or> covers r j" "\<And>j. \<not> (covers l j \<and> covers r j)"
  shows "set (CellTree_Update (CellTree_Update t l) r) = {l, r} \<union> (set t - {c})"
proof -
  have dis: "\<not> overlap l d \<and> \<not> overlap r d" if "d \<in> set t" "d \<noteq> c" for d
    using cells_wf_same_owner [OF assms(1,2) that(1)] that(2) cov by (auto simp: overlap_def)
  have "overlap l c" "\<not> overlap r l"
    using overlap_refl [OF assms(3)] cov by (auto simp: overlap_def)
  then show ?thesis
    using dis by (auto simp: CellTree_Update_set CellTree_Update_wf assms)
qed

lemma split_owner:
  assumes "cells_wf t" "c \<in> set t" "valid_range l" "valid_range r"
    and cov: "\<And>j. covers c j \<longleftrightarrow> covers l j \<or> covers r j" "\<And>j. \<not> (covers l j \<and> covers r j)"
  shows "owner (CellTree_Update (CellTree_Update t l) r) j =
    (if covers l j then Some l else if covers r j then Some r else owner t j)"
proof (rule owner_eqI)
  fix d
  have other: "d \<in> set t \<Longrightarrow> covers d j \<Longrightarrow> covers c j \<Longrightarrow> d = c"
    using cells_wf_same_owner [OF assms(1), of d c] assms(2) by (auto simp: overlap_def)
  show "d \<in> set (CellTree_Update (CellTree_Update t l) r) \<and> covers d j \<longleftrightarrow>
      (if covers l j then Some l else if covers r j then Some r else owner t j) = Some d"
    unfolding split_tree [OF assms] using other cov [of j] by (auto simp: owner_Some [OF assms(1)])
qed (use assms in \<open>simp add: CellTree_Update_wf\<close>)

lemma split_ranges:
  assumes "covers c k" "k \<noteq> c_Start c" "c_Start l = c_Start c" "c_End l = k" "c_Start r = k" "c_End r = c_End c"
  shows "valid_range l" "valid_range r" "covers l j \<longleftrightarrow> covers c j \<and> j < k" "covers r j \<longleftrightarrow> covers c j \<and> \<not> j < k"
  using assms by (auto simp: covers_def valid_range_def)

text \<open>C3: a split command takes effect on the routing of the store.  When the command has cut the
  cell and the store adopts its result, keys of the cell below the split key are routed to the
  left cell, the other keys of the cell to the right cell, both of which are served by a peer with
  that cell, and the routing of every other key is unchanged.\<close>

theorem split_routes:
  assumes exec: "doExecSplit key newID ids ctx d w = Inr (resp, Some (ERSplit l r), err, ctx', d', w')"
    and app: "doApplySplit env (c_ID l) l r s = Inr s'"
    and wf: "store_wf s" "da_cell d \<in> set (keyRanges s)"
    and ne: "getOriginKey key \<noteq> Inr (c_Start (da_cell d))" "newID \<noteq> c_ID (da_cell d)"
  shows "\<exists>k. getOriginKey key = Inr k \<and>
    (\<forall>j. CellTree_Search (keyRanges s') j =
       (if covers (da_cell d) j then if j < k then l else r else CellTree_Search (keyRanges s) j)) \<and>
    map_option (\<lambda>pr. ps_cell (pr_ps pr)) (getPeerReplicate s' (c_ID l)) = Some l \<and>
    map_option (\<lambda>pr. ps_cell (pr_ps pr)) (getPeerReplicate s' (c_ID r)) = Some r \<and>
    (\<forall>i. i \<noteq> c_ID l \<and> i \<noteq> c_ID r \<longrightarrow> getPeerReplicate s' i = getPeerReplicate s i)"
  using exec
proof (rule split_cells)
  fix k
  assume k: "getOriginKey key = Inr k" "covers (da_cell d) k"
    and l: "l = (da_cell d)\<lparr>c_End := k, c_Epoch := (c_Epoch (da_cell d))\<lparr>e_CellVer := e_CellVer (c_Epoch (da_cell d)) + 1\<rparr>\<rparr>"
    and r: "r = \<lparr>c_ID = newID, c_Start = k, c_End = c_End (da_cell d), c_Epoch = c_Epoch l,
          c_Peers = map2 (\<lambda>i p. \<lparr>p_ID = i, p_StoreID = p_StoreID p\<rparr>) ids (c_Peers (da_cell d))\<rparr>"
  have "k \<noteq> c_Start (da_cell d)" using ne(1) k(1) by auto
  note rng = split_ranges [OF k(2) this, of l r]
  have rng': "valid_range l" "valid_range r" "\<And>j. covers l j \<longleftrightarrow> covers (da_cell d) j \<and> j < k"
    "\<And>j. covers r j \<longleftrightarrow> covers (da_cell d) j \<and> \<not> j < k"
    using rng by (simp_all add: l r)
  from app show ?thesis
  proof (rule doApplySplit_E)
    fix pr newPR
    assume e: "ps_cell (pr_ps newPR) = r"
      "getPeerReplicate s' = (getPeerReplicate s)(c_ID l \<mapsto> pr\<lparr>pr_ps := (pr_ps pr)\<lparr>ps_cell := l\<rparr>\<rparr>, c_ID r \<mapsto> newPR)"
      and t: "keyRanges s' = CellTree_Update (CellTree_Update (keyRanges s) l) r"
    have "cells_wf (keyRanges s')" using store_wfD(3) [OF wf(1)] rng' by (simp add: t CellTree_Update_wf)
    moreover have "owner (keyRanges s') j =
        (if covers l j then Some l else if covers r j then Some r else owner (keyRanges s) j)" for j
      unfolding t by (rule split_owner [OF store_wfD(3) [OF wf(1)] wf(2)]) (auto simp: rng')
    ultimately have "CellTree_Search (keyRanges s') j =
       (if covers (da_cell d) j then if j < k then l else r else CellTree_Search (keyRanges s) j)" for j
      using Search_owner_eq [OF store_wfD(3) [OF wf(1)], of j] by (auto simp: Search_owner_eq rng')
    moreover have "c_ID l \<noteq> c_ID r" using ne(2) by (simp add: l r)
    ultimately show ?thesis using k(1) e by simp
  qed
qed

definition demo_storeEnv :: "nat storeEnv" where
  "demo_storeEnv = \<lparr>se_rn = demo_rn, se_cfg = pe_cfg demo_penv, se_NewRawNode = (\<lambda>_ _ _. Inr 0), se_Campaign = Inr,
     se_ApplyConfChange = (\<lambda>_ n. n), se_keyConvertFun = (\<lambda>k f. f k)\<rparr>"

definition demo_pr1 :: "nat PeerReplicate" where
  "demo_pr1 = demo_replicate\<lparr>pr_ps := demo_ps\<lparr>ps_cell := demo_cell1\<rparr>\<rparr>"

definition demo_store :: "nat RaftStore" where
  "demo_store = \<lparr>so_view = \<lparr>sv_id = 1, sv_replicatesMap = [1 \<mapsto> demo_pr1], sv_keyRanges = [demo_cell1], sv_peerCache = (\<lambda>_. None)\<rparr>,
     so_engines = 1, so_meta = (\<lambda>_. driver_Write [] (writeInitialState 2 [])), so_pendingSnapshots = [], so_droppedVoteMsgs = (\<lambda>_. None),
     so_delegates = (\<lambda>_. None), so_trace = []\<rparr>"

lemma demo_store_wf: "store_wf demo_store"
  by (auto simp: store_wf_def demo_store_def getPeerReplicate_def replicate_ok_def demo_pr1_def demo_replicate_def
      demo_cell1_def valid_range_def wf_intros split: if_split_asm)

definition demo_left :: Cell where
  "demo_left = demo_cell1\<lparr>c_End := [5], c_Epoch := \<lparr>e_ConfVer = 1, e_CellVer = 2\<rparr>\<rparr>"

definition demo_right :: Cell where
  "demo_right = \<lparr>c_ID = 2, c_Start = [5], c_End = [], c_Epoch = \<lparr>e_ConfVer = 1, e_CellVer = 2\<rparr>,
     c_Peers = [\<lparr>p_ID = 7, p_StoreID = 1\<rparr>]\<rparr>"

lemma demo_split_returns: "case doApplySplit demo_storeEnv 1 demo_left demo_right demo_store of Inl _ \<Rightarrow> False | Inr _ \<Rightarrow> True"
  by code_simp

theorem split_routes_witness:
  "\<exists>s'. doApplySplit demo_storeEnv 1 demo_left demo_right demo_store = Inr s' \<and>
     CellTree_Search (keyRanges s') [4] = demo_left \<and> CellTree_Search (keyRanges s') [5] = demo_right"
proof -
  let ?ctx = "\<lparr>ax_wb = [], ax_applyState = initRaftApplyState, ax_req = emptyRequest, ax_index = 6, ax_term = 6\<rparr>"
  obtain resp err ctx' d' w' where
    e: "doExecSplit [0x7a, 5] 2 [7] ?ctx demo_delegate demo_world = Inr (resp, Some (ERSplit demo_left demo_right), err, ctx', d', w')"
    by (simp add: doExecSplit_def getOriginKey_def dataPrefixKey_def dataPrefix_def checkKeyInCell_covers covers_def
        demo_defs demo_left_def demo_right_def Let_def go_simps) blast
  obtain s' where a: "doApplySplit demo_storeEnv (c_ID demo_left) demo_left demo_right demo_store = Inr s'"
    using demo_split_returns by (auto simp: demo_left_def demo_cell1_def split: sum.splits)
  have "\<exists>k. getOriginKey [0x7a, 5] = Inr k \<and> (\<forall>j. CellTree_Search (keyRanges s') j =
       (if covers (da_cell demo_delegate) j then if j < k then demo_left else demo_right else CellTree_Search (keyRanges demo_store) j))"
    using split_routes [OF e a demo_store_wf]
    by (simp add: demo_defs demo_store_def getOriginKey_def dataPrefixKey_def)
  then have "CellTree_Search (keyRanges s') [4] = demo_left" "CellTree_Search (keyRanges s') [5] = demo_right"
    by (auto simp: getOriginKey_def dataPrefixKey_def demo_defs covers_def)
  moreover have "c_ID demo_left = 1" by (simp add: demo_left_def demo_cell1_def)
  ultimately show ?thesis using a by auto
qed

text \<open>C9: a raft message is handed on at most once, and only on the store it is addressed to and
  to a peer with the identity it is addressed to.\<close>

theorem message_reaches_target:
  assumes "onRaftMessage env msg s = Inr s'" "store_wf s"
  shows "steps s' = steps s \<or>
     steps s' = steps s @ [(rm_CellID msg, rm_Message msg)] \<and> p_StoreID (rm_ToPeer msg) = sv_id (so_view s) \<and>
     (\<exists>pr. getPeerReplicate s' (rm_CellID msg) = Some pr \<and> p_ID (pr_peer pr) = p_ID (rm_ToPeer msg))"
  using onRaftMessage_E [OF assms] by blast

definition demo_msg :: "u64 \<Rightarrow> u64 \<Rightarrow> RaftMessage" where
  "demo_msg confVer to = \<lparr>rm_CellID = 1, rm_FromPeer = \<lparr>p_ID = 9, p_StoreID = 3\<rparr>, rm_ToPeer = \<lparr>p_ID = to, p_StoreID = 1\<rparr>,
     rm_Message = zeroMessage\<lparr>mg_Type := MsgVote\<rparr>, rm_CellEpoch = \<lparr>e_ConfVer = confVer, e_CellVer = 1\<rparr>,
     rm_IsTombstone = False, rm_Start = [], rm_End = []\<rparr>"

lemmas demo_store_defs = demo_store_def demo_msg_def getPeerReplicate_def demo_pr1_def demo_replicate_def demo_cell1_def

theorem message_reaches_target_witness:
  "\<exists>s'. onRaftMessage demo_storeEnv (demo_msg 1 1) demo_store = Inr s' \<and> steps s' = [(1, zeroMessage\<lparr>mg_Type := MsgVote\<rparr>)]"
proof -
  have st: "onRaftMessage demo_storeEnv (demo_msg 1 1) demo_store =
      Inr (so_emit [S_Step 1 (zeroMessage\<lparr>mg_Type := MsgVote\<rparr>)] (addPeerToCache \<lparr>p_ID = 9, p_StoreID = 3\<rparr> demo_store))"
    by (simp add: onRaftMessage_def isRaftMsgValid_def isMsgStale_def tryToCreatePeerReplicate_def checkSnapshot_def
        isEpochStale_def zeroMessage_def demo_store_defs addPeerToCache_def Let_def)
  moreover have "steps demo_store = []" by (simp add: steps_def demo_store_def)
  ultimately show ?thesis using message_reaches_target [OF st demo_store_wf] by auto
qed

text \<open>C27: what destroying a peer leaves.  The peer is no longer registered, its cell state is a
  tombstone with the cell it served, none of its log entries is left, the records of other cells
  are as before, and an initialized peer's range is taken out of the key ranges.\<close>

theorem destroyed_peer_tombstone:
  assumes "destroyPeer cid p False s = Inr s'" "store_wf s" "getPeerReplicate s cid = Some pr" "cid + 1 \<noteq> 0"
  shows "getPeerReplicate s' = (getPeerReplicate s)(cid := None) \<and>
    loadCellLocalState cid (getDriver s' cid) True = Return (Some \<lparr>cl_State = PS_Tombstone, cl_Cell = ps_cell (pr_ps pr)\<rparr>) \<and>
    (\<forall>d i. KV_Get (getDriver s' cid) (getRaftLogKey d i) = (if d = cid then None else KV_Get (getDriver s cid) (getRaftLogKey d i))) \<and>
    (\<forall>d. d \<noteq> cid \<longrightarrow> KV_Get (getDriver s' cid) (getCellStateKey d) = KV_Get (getDriver s cid) (getCellStateKey d)) \<and>
    (isInitialized (pr_ps pr) \<longrightarrow> (\<exists>r \<in> set (keyRanges s). c_ID r = cid \<and> set (keyRanges s') = set (keyRanges s) - {r}))"
proof -
  note eff = destroyPeer_effect [OF assms(1-3)]
  have id: "c_ID (ps_cell (pr_ps pr)) = cid" using store_wfD(4) [OF assms(2,3)] by (simp add: replicate_ok_def)
  note m = destroy_batch_map [OF store_wfD(2) [OF assms(2)] id assms(4)]
  have wf: "kv_wf (getDriver s' cid)" using store_wfD(2) [OF assms(2), of cid] by (simp add: eff(2) wf_intros)
  have "\<exists>r \<in> set (keyRanges s). c_ID r = cid \<and> set (keyRanges s') = set (keyRanges s) - {r}" if "isInitialized (pr_ps pr)"
    using eff(3,4) that id removed_cell [OF store_wfD(3) [OF assms(2)], of "ps_cell (pr_ps pr)"] by simp
  then show ?thesis
    using eff(1) m wf store_wfD(2) [OF assms(2), of cid]
    by (simp add: loadCellLocalState_def KV_Get_map eff(2))
qed

theorem destroyed_peer_tombstone_witness:
  "\<exists>s'. destroyPeer 1 \<lparr>p_ID = 1, p_StoreID = 1\<rparr> False demo_store = Inr s' \<and>
     loadCellLocalState 1 (getDriver s' 1) True = Return (Some \<lparr>cl_State = PS_Tombstone, cl_Cell = demo_cell1\<rparr>)"
proof -
  have "case destroyPeer 1 \<lparr>p_ID = 1, p_StoreID = 1\<rparr> False demo_store of Inl _ \<Rightarrow> False | Inr _ \<Rightarrow> True" by code_simp
  then obtain s' where s: "destroyPeer 1 \<lparr>p_ID = 1, p_StoreID = 1\<rparr> False demo_store = Inr s'" by (auto split: sum.splits)
  have "getPeerReplicate demo_store 1 = Some demo_pr1" "ps_cell (pr_ps demo_pr1) = demo_cell1"
    by (simp_all add: demo_store_def getPeerReplicate_def demo_pr1_def)
  with destroyed_peer_tombstone [OF s demo_store_wf, of demo_pr1] s show ?thesis by auto
qed

lemma tombstone_stale:
  assumes "getPeerReplicate s (rm_CellID msg) = None"
    and "loadCellLocalState (rm_CellID msg) (getDriver s (rm_CellID msg)) True =
      Return (Some \<lparr>cl_State = PS_Tombstone, cl_Cell = cell\<rparr>)"
    and "e_ConfVer (rm_CellEpoch msg) \<le> e_ConfVer (c_Epoch cell)"
  shows "\<exists>v g. isMsgStale msg s = Inr (v, handleStaleMsg msg (c_Epoch cell) g s) \<and> v \<noteq> Current"
proof (cases "isEpochStale (rm_CellEpoch msg) (c_Epoch cell)")
  case False
  then have "e_ConfVer (rm_CellEpoch msg) = e_ConfVer (c_Epoch cell)" using assms(3) by (simp add: isEpochStale_def)
  moreover have "s = handleStaleMsg msg (c_Epoch cell) False s" by (simp add: handleStaleMsg_def)
  ultimately show ?thesis using False assms(1,2) by (auto simp: isMsgStale_def Let_def)
qed (use assms(1,2) in \<open>auto simp: isMsgStale_def Let_def\<close>)

text \<open>C4: a destroyed peer does not come back by an old message.  After a destroy, a raft message
  of the same cell whose configuration version is not newer than the destroyed peer's creates no
  peer, reaches no peer and leaves the stored records alone; at most it is answered by telling the
  sender to remove itself.\<close>

theorem tombstone_blocks_old:
  assumes "destroyPeer (rm_CellID msg) p False s = Inr s1" "store_wf s" "getPeerReplicate s (rm_CellID msg) = Some pr"
    and "rm_CellID msg + 1 \<noteq> 0" "e_ConfVer (rm_CellEpoch msg) \<le> e_ConfVer (c_Epoch (ps_cell (pr_ps pr)))"
  shows "\<exists>s2. onRaftMessage env msg s1 = Inr s2 \<and> getPeerReplicate s2 = getPeerReplicate s1 \<and>
    getPeerReplicate s2 (rm_CellID msg) = None \<and> steps s2 = steps s1 \<and> so_meta s2 = so_meta s1"
proof -
  note eff = destroyPeer_effect [OF assms(1-3)]
  have id: "c_ID (ps_cell (pr_ps pr)) = rm_CellID msg" using store_wfD(4) [OF assms(2,3)] by (simp add: replicate_ok_def)
  have none: "getPeerReplicate s1 (rm_CellID msg) = None" by (simp add: eff(1))
  have wf: "kv_wf (getDriver s1 (rm_CellID msg))" using store_wfD(2) [OF assms(2), of "rm_CellID msg"] by (simp add: eff(2) wf_intros)
  have "loadCellLocalState (rm_CellID msg) (getDriver s1 (rm_CellID msg)) True =
      Return (Some \<lparr>cl_State = PS_Tombstone, cl_Cell = ps_cell (pr_ps pr)\<rparr>)"
    using destroy_batch_map(1) [OF store_wfD(2) [OF assms(2)] id assms(4)] wf
    by (simp add: loadCellLocalState_def KV_Get_map eff(2))
  then obtain v g where "isMsgStale msg s1 = Inr (v, handleStaleMsg msg (c_Epoch (ps_cell (pr_ps pr))) g s1)" "v \<noteq> Current"
    using tombstone_stale [OF none _ assms(5)] by blast
  then show ?thesis
    using none by (auto simp: onRaftMessage_def handleGCPeerMsg_def)
qed

theorem tombstone_blocks_old_witness:
  "\<exists>s1 s2. destroyPeer 1 \<lparr>p_ID = 1, p_StoreID = 1\<rparr> False demo_store = Inr s1 \<and>
     onRaftMessage demo_storeEnv (demo_msg 1 1) s1 = Inr s2 \<and> getPeerReplicate s2 1 = None"
proof -
  have "case destroyPeer 1 \<lparr>p_ID = 1, p_StoreID = 1\<rparr> False demo_store of Inl _ \<Rightarrow> False | Inr _ \<Rightarrow> True" by code_simp
  then obtain s1 where s: "destroyPeer (rm_CellID (demo_msg 1 1)) \<lparr>p_ID = 1, p_StoreID = 1\<rparr> False demo_store = Inr s1"
    by (auto simp: demo_msg_def split: sum.splits)
  have "getPeerReplicate demo_store (rm_CellID (demo_msg 1 1)) = Some demo_pr1" by (simp add: demo_store_def getPeerReplicate_def demo_msg_def)
  with tombstone_blocks_old [OF s demo_store_wf, of demo_pr1 demo_storeEnv] s show ?thesis
    by (auto simp: demo_msg_def demo_pr1_def demo_cell1_def)
qed

end
