(* ===== verification/Raft_Store_Ranges.thy ===== *)
theory Raft_Store_Ranges
  imports Raft_Store_Props
begin

text \<open>
  The key ranges of a store and its registered peers.  The tree of ranges that routes requests
  holds exactly the ranges of the initialised peers the store has registered; every handler that
  creates, splits, changes or destroys a peer, and the ready loop that installs a snapshot, keeps it so.
\<close>

subsection \<open>Ranges of the registered peers\<close>

definition range_of :: "Cell \<Rightarrow> u64 \<times> bytes \<times> bytes" where
  "range_of c = (c_ID c, c_Start c, c_End c)"

definition peer_ranges :: "(u64 \<rightharpoonup> 'n PeerReplicate) \<Rightarrow> (u64 \<times> bytes \<times> bytes) set" where
  "peer_ranges m = {range_of (ps_cell (pr_ps pr)) |cid pr. m cid = Some pr \<and> isInitialized (pr_ps pr)}"

definition routed :: "'n RaftStore \<Rightarrow> bool" where
  "routed s \<longleftrightarrow> range_of ` set (keyRanges s) = peer_ranges (getPeerReplicate s) \<and> (\<forall>r \<in> set (keyRanges s). c_ID r \<noteq> 0)"

definition peers_ok :: "(u64 \<rightharpoonup> 'n PeerReplicate) \<Rightarrow> bool" where
  "peers_ok m \<longleftrightarrow> (\<forall>cid pr. m cid = Some pr \<longrightarrow> replicate_ok cid pr)"

lemma store_wf_peers: "store_wf s \<Longrightarrow> peers_ok (getPeerReplicate s)"
  by (simp add: store_wf_def peers_ok_def)

lemma range_of_sel [simp]: "fst (range_of c) = c_ID c"
  by (simp add: range_of_def)

lemma range_of_covers: "range_of a = range_of b \<Longrightarrow> covers a k = covers b k"
  by (simp add: range_of_def covers_def)

lemma peer_range:
  assumes "peers_ok m" "x \<in> peer_ranges m"
  shows "\<exists>pr. m (fst x) = Some pr \<and> isInitialized (pr_ps pr) \<and> x = range_of (ps_cell (pr_ps pr))"
proof -
  from assms(2) obtain cid pr where x: "x = range_of (ps_cell (pr_ps pr))" "m cid = Some pr" "isInitialized (pr_ps pr)"
    by (auto simp: peer_ranges_def)
  with assms(1) have "fst x = cid" by (auto simp: peers_ok_def replicate_ok_def)
  with x show ?thesis by simp
qed

lemma peer_rangeI: "m cid = Some pr \<Longrightarrow> isInitialized (pr_ps pr) \<Longrightarrow> range_of (ps_cell (pr_ps pr)) \<in> peer_ranges m"
  by (auto simp: peer_ranges_def)

lemma peer_ranges_put:
  assumes "peers_ok m"
  shows "peer_ranges (m(c \<mapsto> pr)) =
    (if isInitialized (pr_ps pr) then {range_of (ps_cell (pr_ps pr))} else {}) \<union> {x \<in> peer_ranges m. fst x \<noteq> c}"
proof -
  have "fst (range_of (ps_cell (pr_ps p))) = i" if "m i = Some p" for i p
    using that assms by (auto simp: peers_ok_def replicate_ok_def)
  then show ?thesis unfolding peer_ranges_def by (auto split: if_splits)
qed

lemma peer_ranges_delete:
  assumes "peers_ok m"
  shows "peer_ranges (m(c := None)) = {x \<in> peer_ranges m. fst x \<noteq> c}"
proof -
  have "fst (range_of (ps_cell (pr_ps p))) = i" if "m i = Some p" for i p
    using that assms by (auto simp: peers_ok_def replicate_ok_def)
  then show ?thesis unfolding peer_ranges_def by (auto split: if_splits)
qed

lemma no_peer_range:
  assumes "peers_ok m" "m c = None \<or> (\<exists>pr. m c = Some pr \<and> \<not> isInitialized (pr_ps pr))"
  shows "{x \<in> peer_ranges m. fst x \<noteq> c} = peer_ranges m"
  using assms(2) peer_range [OF assms(1)] by fastforce

lemma own_peer_range:
  assumes "peers_ok m" "m c = Some pr" "isInitialized (pr_ps pr)"
  shows "{x \<in> peer_ranges m. fst x \<noteq> c} = peer_ranges m - {range_of (ps_cell (pr_ps pr))}"
proof -
  have "c_ID (ps_cell (pr_ps pr)) = c" using assms(1,2) by (auto simp: peers_ok_def replicate_ok_def)
  moreover have "x = range_of (ps_cell (pr_ps pr))" if "x \<in> peer_ranges m" "fst x = c" for x
    using assms(2) that(2) peer_range [OF assms(1) that(1)] by auto
  ultimately show ?thesis by auto
qed

text \<open>A change of a replicate that keeps its range.\<close>

lemma peer_ranges_same:
  assumes "peers_ok m" "m c = Some pr" "isInitialized (pr_ps pr') = isInitialized (pr_ps pr)"
    and "range_of (ps_cell (pr_ps pr')) = range_of (ps_cell (pr_ps pr))"
  shows "peer_ranges (m(c \<mapsto> pr')) = peer_ranges m"
proof (cases "isInitialized (pr_ps pr)")
  case True
  show ?thesis
    unfolding peer_ranges_put [OF assms(1)] own_peer_range [OF assms(1,2) True]
    using True assms(3,4) peer_rangeI [of m, OF assms(2) True] by auto
next
  case False
  then show ?thesis
    unfolding peer_ranges_put [OF assms(1)] using assms(2,3) no_peer_range [OF assms(1)] by auto
qed

lemma range_of_inj:
  assumes "cells_wf t" "a \<in> set t" "b \<in> set t" "range_of a = range_of b"
  shows "a = b"
proof -
  have "overlap a b"
    using overlap_refl [of a] assms cells_wf_valid [OF assms(1,2)] range_of_covers [OF assms(4)] by (auto simp: overlap_def)
  then show ?thesis by (rule cells_wf_same_owner [OF assms(1-3)])
qed

lemma image_remove:
  assumes "cells_wf t" "r \<in> set t"
  shows "range_of ` (set t - {r}) = range_of ` set t - {range_of r}"
  using range_of_inj [OF assms(1)] assms(2) by blast

lemma routed_cong:
  "keyRanges s = keyRanges t \<Longrightarrow> getPeerReplicate s = getPeerReplicate t \<Longrightarrow> routed s = routed t"
  by (simp add: routed_def)

lemma routed_simps [simp]:
  "routed (so_emit es s) = routed s"
  "routed (addPeerToCache p s) = routed s"
  "routed (deletePeerFromCache i s) = routed s"
  "routed (cacheDroppedVoteMsg c m s) = routed s"
  "routed (handleStaleMsg rm e g s) = routed s"
  by (rule routed_cong; simp)+

subsection \<open>Destroying a peer\<close>

lemma destroyPeer_routed:
  assumes "destroyPeer cid p async s = Inr s'" "store_wf s" "routed s"
  shows "routed s'"
proof (cases async)
  case False
  with assms(1) have d: "destroyPeer cid p False s = Inr s'" by simp
  then obtain pr where pr: "getPeerReplicate s cid = Some pr" by (rule destroyPeer_E)
  note eff = destroyPeer_effect [OF d assms(2) pr]
  note ok = store_wf_peers [OF assms(2)] and wf = store_wfD(3) [OF assms(2)]
  have id: "c_ID (ps_cell (pr_ps pr)) = cid" using store_wfD(4) [OF assms(2) pr] by (simp add: replicate_ok_def)
  show ?thesis
  proof (cases "isInitialized (pr_ps pr)")
    case True
    obtain r where r: "r \<in> set (keyRanges s)" "c_ID r = cid" "set (keyRanges s') = set (keyRanges s) - {r}"
      using removed_cell [OF wf eff(4) [OF True]] True id by (auto simp: eff(3))
    have "range_of r \<in> peer_ranges (getPeerReplicate s)" using r(1) assms(3) by (auto simp: routed_def)
    from peer_range [OF ok this] have "range_of r = range_of (ps_cell (pr_ps pr))" unfolding range_of_sel r(2) pr by blast
    then show ?thesis
      using assms(3) r(3) image_remove [OF wf r(1)]
      by (simp add: routed_def eff(1) peer_ranges_delete [OF ok] own_peer_range [OF ok pr True])
  next
    case False
    then have "{x \<in> peer_ranges (getPeerReplicate s). fst x \<noteq> cid} = peer_ranges (getPeerReplicate s)"
      using no_peer_range [OF ok, of cid] pr by blast
    then show ?thesis
      using assms(3) False by (simp add: routed_def eff(1,3) peer_ranges_delete [OF ok])
  qed
qed (use assms in \<open>auto simp: destroyPeer_def\<close>)

lemma doDestroy_routed:
  assumes "doDestroy cid p s = Inr (as, s')" "store_wf s" "routed s"
  shows "routed s'"
proof -
  let ?s = "s\<lparr>so_delegates := (so_delegates s)(cid := None)\<rparr>"
  have "store_wf ?s" "routed ?s"
    using assms(2,3) by (simp_all add: store_wf_def routed_def getPeerReplicate_def [abs_def])
  moreover have "destroyPeer cid p False ?s = Inr s'" using assms(1) by (auto simp: doDestroy_def sbind_Inr_iff)
  ultimately show ?thesis using destroyPeer_routed by blast
qed

subsection \<open>Messages\<close>

text \<open>A message that may create a peer.  Its range meets at most the cell that contains its first key; the
  check of the code looks at that cell only.\<close>

definition may_create :: "RaftMessage \<Rightarrow> bool" where
  "may_create msg \<longleftrightarrow> mg_Type (rm_Message msg) = MsgVote \<or>
     mg_Type (rm_Message msg) = MsgHeartbeat \<and> mg_Commit (rm_Message msg) = 0"

definition in_range :: "RaftMessage \<Rightarrow> bytes \<Rightarrow> bool" where
  "in_range msg k \<longleftrightarrow> rm_Start msg \<le> k \<and> (rm_End msg = [] \<or> k < rm_End msg)"

definition msg_fits :: "RaftMessage \<Rightarrow> 'n RaftStore \<Rightarrow> bool" where
  "msg_fits msg s \<longleftrightarrow> rm_CellID msg \<noteq> 0 \<and> msg_range_ok msg \<and>
     (may_create msg \<longrightarrow> (\<forall>r \<in> set (keyRanges s). \<forall>k. covers r k \<and> in_range msg k \<longrightarrow> covers r (rm_Start msg)))"

text \<open>The check that the range of the message is free.\<close>

lemma create_range_free:
  assumes "create_from_msg env (rm_CellID msg) msg s = Inr (True, s')" "store_wf s" "routed s" "msg_range_ok msg"
  shows "may_create msg \<and> owner (keyRanges s) (rm_Start msg) = None \<and>
    (\<exists>pr. doReplicate env s msg (p_ID (rm_ToPeer msg)) = Return pr \<and> s' = adopt_replicate msg pr s)"
proof -
  note wf = store_wfD(3) [OF assms(2)]
  have m: "may_create msg" using assms(1) by (auto simp: create_from_msg_def may_create_def Let_def split: if_split_asm)
  have "owner (keyRanges s) (rm_Start msg) = None"
  proof (rule ccontr)
    assume "owner (keyRanges s) (rm_Start msg) \<noteq> None"
    then obtain c where c: "owner (keyRanges s) (rm_Start msg) = Some c" by blast
    then have cc: "c \<in> set (keyRanges s)" "covers c (rm_Start msg)" using owner_Some [OF wf] by blast+
    have srch: "CellTree_Search (keyRanges s) (rm_Start msg) = c" by (simp add: Search_owner_eq [OF wf] c)
    have "c_ID c \<noteq> 0" using cc(1) assms(3) by (simp add: routed_def)
    moreover have "getDataKey (c_Start c) < getDataEndKey (rm_End msg)"
      using cc(2) assms(4) by (auto simp: getDataEndKey_def covers_def msg_range_ok_def)
    ultimately show False
      using assms(1) by (auto simp: create_from_msg_def Let_def srch encStartKey_def word_gt_0 go_simps split: if_split_asm)
  qed
  with m create_from_msg_cases [OF assms(1)] show ?thesis by auto
qed

lemma adopt_routed:
  assumes "doReplicate env s msg i = Return pr" "store_wf s" "routed s" "msg_fits msg s" "may_create msg"
    and "owner (keyRanges s) (rm_Start msg) = None" "getPeerReplicate s (rm_CellID msg) = None"
  shows "routed (adopt_replicate msg pr s)"
proof -
  note E = doReplicate_E [OF assms(1)] and ok = store_wf_peers [OF assms(2)]
  define cell where "cell = (ps_cell (pr_ps pr))\<lparr>c_Peers := c_Peers (ps_cell (pr_ps pr)) @ [rm_ToPeer msg, rm_FromPeer msg]\<rparr>"
  have c: "range_of cell = (rm_CellID msg, rm_Start msg, rm_End msg)" "c_ID cell = rm_CellID msg" "c_Peers cell \<noteq> []"
    "\<And>k. covers cell k \<longleftrightarrow> in_range msg k" "valid_range cell"
    using E assms(4) by (auto simp: cell_def range_of_def covers_def in_range_def valid_range_def msg_fits_def msg_range_ok_def)
  have "\<not> overlap cell r" if "r \<in> set (keyRanges s)" for r
    using that assms(4-6) by (auto simp: overlap_def c(4) msg_fits_def owner_None)
  then have t: "set (CellTree_Update (keyRanges s) cell) = insert cell (set (keyRanges s))"
    using CellTree_Update_set [OF store_wfD(3) [OF assms(2)] c(5)] by auto
  have "peer_ranges (getPeerReplicate (adopt_replicate msg pr s)) = insert (range_of cell) (peer_ranges (getPeerReplicate s))"
    using c(3) no_peer_range [OF ok, of "rm_CellID msg"] assms(7)
    by (simp add: adopt_replicate_def Let_def cell_def [symmetric] peer_ranges_put [OF ok] isInitialized_def)
  moreover have "keyRanges (adopt_replicate msg pr s) = CellTree_Update (keyRanges s) cell"
    by (simp add: adopt_replicate_def Let_def cell_def [symmetric])
  ultimately show ?thesis
    using assms(3,4) by (auto simp: routed_def t c(2) msg_fits_def)
qed

lemma create_routed:
  assumes "create_from_msg env (rm_CellID msg) msg s = Inr (b, s')" "store_wf s" "routed s" "msg_fits msg s"
    and "getPeerReplicate s (rm_CellID msg) = None"
  shows "routed s'"
proof (cases b)
  case True
  with assms(1) have 1: "create_from_msg env (rm_CellID msg) msg s = Inr (True, s')" by simp
  have "msg_range_ok msg" using assms(4) by (simp add: msg_fits_def)
  from create_range_free [OF 1 assms(2,3) this] adopt_routed [OF _ assms(2-4) _ _ assms(5)] show ?thesis by blast
next
  case False
  with create_from_msg_cases [OF assms(1)] assms(3) show ?thesis by auto
qed

lemma cancel_same:
  "isInitialized (snd (cancelApplyingSnapJob ps)) = isInitialized ps"
  by (simp add: isInitialized_def)

lemma tryToCreate_routed:
  assumes "tryToCreatePeerReplicate env (rm_CellID msg) msg s = Inr (b, s')" "store_wf s" "routed s" "msg_fits msg s"
  shows "routed s'"
proof (cases "getPeerReplicate s (rm_CellID msg)")
  case None
  then show ?thesis using assms create_routed [of env msg s b s'] by (simp add: tryToCreatePeerReplicate_def)
next
  case (Some p)
  note ok = store_wf_peers [OF assms(2)]
  define c where "c = (if isApplyingSnap (pr_ps p) then cancelApplyingSnapJob (pr_ps p) else (True, pr_ps p))"
  define s1 where "s1 = putReplicate (rm_CellID msg) (p\<lparr>pr_ps := snd c\<rparr>) s"
  have cell: "ps_cell (snd c) = ps_cell (pr_ps p)" "isInitialized (snd c) = isInitialized (pr_ps p)"
    by (simp_all add: c_def cancel_same)
  have wf1: "store_wf s1"
    using assms(2) store_wfD(4) [OF assms(2) Some] by (simp add: s1_def replicate_ok_def cell wf_intros)
  have r1: "routed s1"
    using assms(3) peer_ranges_same [OF ok Some, of "p\<lparr>pr_ps := snd c\<rparr>"] cell by (simp add: routed_def s1_def)
  have f1: "msg_fits msg s1" using assms(4) by (simp add: msg_fits_def s1_def)
  consider "s' = s" | "s' = s1" | s2 where "destroyPeer (rm_CellID msg) (pr_peer p) (isInitialized (snd c)) s1 = Inr s2" "s' = s2"
    | s2 where "destroyPeer (rm_CellID msg) (pr_peer p) False s1 = Inr s2" "\<not> isInitialized (snd c)"
        "create_from_msg env (rm_CellID msg) msg s2 = Inr (b, s')"
  proof -
    have "tryToCreatePeerReplicate env (rm_CellID msg) msg s =
        (if p_ID (pr_peer p) < p_ID (rm_ToPeer msg) then
           if \<not> fst c then Inr (False, s1)
           else if p_ID (pr_peer p) > 0 then
             sbind (destroyPeer (rm_CellID msg) (pr_peer p) (isInitialized (snd c)) s1) (\<lambda>s.
               if isInitialized (snd c) then Inr (False, s) else create_from_msg env (rm_CellID msg) msg s)
           else Inr (True, s1)
         else Inr (\<not> p_ID (pr_peer p) > p_ID (rm_ToPeer msg), s))"
      by (simp add: tryToCreatePeerReplicate_def Some Let_def c_def [symmetric] case_prod_beta s1_def) auto
    with assms(1) that show thesis by (auto simp: sbind_Inr_iff split: if_split_asm)
  qed
  then show ?thesis
  proof cases
    case (3 s2)
    then show ?thesis using destroyPeer_routed [OF _ wf1 r1] by blast
  next
    case (4 s2)
    have pr: "getPeerReplicate s1 (rm_CellID msg) = Some (p\<lparr>pr_ps := snd c\<rparr>)" by (simp add: s1_def)
    note eff = destroyPeer_effect [OF 4(1) wf1 pr]
    have "keyRanges s2 = keyRanges s1" "getPeerReplicate s2 (rm_CellID msg) = None" using eff(1,3) 4(2) by simp_all
    moreover from this(1) f1 have "msg_fits msg s2" by (simp add: msg_fits_def)
    ultimately show ?thesis
      using create_routed [OF 4(3) destroyPeer_wf [OF 4(1) wf1] destroyPeer_routed [OF 4(1) wf1 r1]] by blast
  qed (use assms(3) r1 in auto)
qed

lemma onRaftMessage_routed:
  assumes "onRaftMessage env msg s = Inr s'" "store_wf s" "routed s" "msg_fits msg s"
  shows "routed s'"
proof (cases "isRaftMsgValid s msg \<and> \<not> rm_IsTombstone msg")
  case False
  then show ?thesis
    using assms destroyPeer_routed [OF _ assms(2,3)]
    by (auto simp: onRaftMessage_def handleGCPeerMsg_def split: if_splits option.splits)
next
  case True
  with assms(1) obtain v s1 where 1: "isMsgStale msg s = Inr (v, s1)"
    by (auto simp: onRaftMessage_def sbind_Inr_iff)
  show ?thesis
  proof (cases "v = Current")
    case False
    have "routed s1" using 1 assms(3) by (auto simp: isMsgStale_def Let_def split: option.splits if_splits outcome.splits)
    with False show ?thesis using assms(1) True 1 by (auto simp: onRaftMessage_def)
  next
    case cur: True
    then have "s1 = s" by (rule isMsgStale_frame(4) [OF 1])
    with assms(1) True 1 cur obtain b s2 where 2: "tryToCreatePeerReplicate env (rm_CellID msg) msg s = Inr (b, s2)"
      and 3: "s' = s2 \<or> (\<exists>b s3. checkSnapshot msg s2 = Inr (b, s3) \<and>
         (s' = s3 \<or> s' = so_emit [S_Step (rm_CellID msg) (rm_Message msg)] (addPeerToCache (rm_FromPeer msg) s3)))"
      by (auto simp: onRaftMessage_def sbind_Inr_iff Let_def split: if_split_asm option.split_asm)
    have add: "keyRanges s3 = keyRanges s2" if "addPendingSnapshot h s2 = Inr (b', s3)" for h b' s3
      using that by (auto simp: addPendingSnapshot_def sbind_Inr_iff split: if_splits)
    have "keyRanges s3 = keyRanges s2" if "checkSnapshot msg s2 = Inr (b', s3)" for b' s3
      using that by (auto simp: checkSnapshot_def Let_def sbind_Inr_iff split: option.split_asm if_split_asm dest: add)
    then have "routed s3 = routed s2" if "checkSnapshot msg s2 = Inr (b', s3)" for b' s3
      using that checkSnapshot_frame [OF that] routed_cong by metis
    with 3 tryToCreate_routed [OF 2 assms(2-4)] show ?thesis by auto
  qed
qed

subsection \<open>Results of admin commands\<close>

text \<open>The two halves of a split share its key inside the cell; the right half is a new cell.\<close>

definition split_of :: "Cell \<Rightarrow> Cell \<Rightarrow> Cell \<Rightarrow> bool" where
  "split_of c l r \<longleftrightarrow> c_ID l = c_ID c \<and> c_Start l = c_Start c \<and> c_End l = c_Start r \<and> c_End r = c_End c \<and>
     covers c (c_Start r) \<and> c_Start r \<noteq> c_Start c \<and> c_Peers c \<noteq> [] \<and> c_Peers l \<noteq> [] \<and> c_ID r \<noteq> c_ID c \<and> c_ID r \<noteq> 0"

text \<open>A membership change keeps the range and leaves a peer where there was one.\<close>

definition change_of :: "Cell \<Rightarrow> Cell \<Rightarrow> bool" where
  "change_of c c' \<longleftrightarrow> range_of c' = range_of c \<and> (c_Peers c' = [] \<longleftrightarrow> c_Peers c = [])"

text \<open>Both are what the apply worker hands out, see \<open>split_cells\<close>.\<close>

lemma exec_split_of:
  assumes "doExecSplit key newID ids ctx d w = Inr (resp, Some (ERSplit l r), err, ctx', d', w')"
    and "getOriginKey key \<noteq> Inr (c_Start (da_cell d))" "newID \<noteq> c_ID (da_cell d)" "newID \<noteq> 0" "c_Peers (da_cell d) \<noteq> []"
  shows "split_of (da_cell d) l r"
  using assms(1)
proof (rule split_cells)
  fix k
  assume "getOriginKey key = Inr k" "covers (da_cell d) k"
    "l = (da_cell d)\<lparr>c_End := k, c_Epoch := (c_Epoch (da_cell d))\<lparr>e_CellVer := e_CellVer (c_Epoch (da_cell d)) + 1\<rparr>\<rparr>"
    "r = \<lparr>c_ID = newID, c_Start = k, c_End = c_End (da_cell d), c_Epoch = c_Epoch l,
          c_Peers = map2 (\<lambda>i p. \<lparr>p_ID = i, p_StoreID = p_StoreID p\<rparr>) ids (c_Peers (da_cell d))\<rparr>"
  then show ?thesis using assms(2-5) by (auto simp: split_of_def)
qed

lemma doApplySplit_guard:
  assumes "doApplySplit env cid l r s = Inr s'" "cid \<noteq> c_ID r"
  shows "getPeerReplicate s (c_ID r) = None \<or> (\<exists>pr. getPeerReplicate s (c_ID r) = Some pr \<and> \<not> isInitialized (pr_ps pr))"
proof -
  obtain pr where pr: "getPeerReplicate s cid = Some pr"
    using assms(1) by (auto simp: doApplySplit_def split: option.splits)
  show ?thesis
    using assms unfolding doApplySplit_def pr option.case Let_def
    by (cases "getPeerReplicate s (c_ID r)") (auto split: if_split_asm)
qed

lemma doApplySplit_right:
  assumes "doApplySplit env cid l r s = Inr s'"
  shows "c_Peers r \<noteq> []"
proof
  assume "c_Peers r = []"
  then have "createPeerReplicate env t r = Fail ''find no peer for store in cell''" for t
    by (simp add: createPeerReplicate_def findPeer_def)
  with assms show False by (auto simp: doApplySplit_def Let_def split: option.split_asm if_split_asm)
qed

lemma doApplySplit_routed:
  assumes "doApplySplit env cid l r s = Inr s'" "store_wf s" "routed s" "getPeerReplicate s cid = Some pr"
    and "split_of (ps_cell (pr_ps pr)) l r"
  shows "store_wf s' \<and> routed s'"
proof -
  let ?c = "ps_cell (pr_ps pr)" and ?m = "getPeerReplicate s"
  note wf = store_wfD(3) [OF assms(2)] and ok = store_wf_peers [OF assms(2)]
  have sp: "c_ID l = cid" "c_Start l = c_Start ?c" "c_End l = c_Start r" "c_End r = c_End ?c" "covers ?c (c_Start r)"
    "c_Start r \<noteq> c_Start ?c" "c_Peers l \<noteq> []" "c_ID r \<noteq> cid" "c_ID r \<noteq> 0" "isInitialized (pr_ps pr)"
    using assms(5) store_wfD(4) [OF assms(2,4)] by (auto simp: split_of_def replicate_ok_def isInitialized_def)
  note rng = split_ranges [OF sp(5,6,2,3) refl sp(4)]
  obtain r0 where r0: "r0 \<in> set (keyRanges s)" "range_of r0 = range_of ?c"
    using peer_rangeI [of ?m, OF assms(4) sp(10)] assms(3) unfolding routed_def by (metis imageE)
  have set: "set (CellTree_Update (CellTree_Update (keyRanges s) l) r) = {l, r} \<union> (set (keyRanges s) - {r0})"
    by (rule split_tree [OF wf r0(1) rng(1,2)]) (auto simp: rng(3,4) range_of_covers [OF r0(2)])
  have "store_wf s'" by (rule doApplySplit_wf [OF assms(1,2) sp(1) rng(1,2)])
  moreover from assms(1) have "routed s'"
  proof (rule doApplySplit_E)
    fix pr' newPR
    assume e: "getPeerReplicate s cid = Some pr'" "ps_cell (pr_ps newPR) = r" "replicate_ok (c_ID r) newPR"
      "getPeerReplicate s' = ?m(cid \<mapsto> pr'\<lparr>pr_ps := (pr_ps pr')\<lparr>ps_cell := l\<rparr>\<rparr>, c_ID r \<mapsto> newPR)"
      "keyRanges s' = CellTree_Update (CellTree_Update (keyRanges s) l) r"
    let ?pl = "pr\<lparr>pr_ps := (pr_ps pr)\<lparr>ps_cell := l\<rparr>\<rparr>"
    have pr': "pr' = pr" using e(1) assms(4) by simp
    have okl: "peers_ok (?m(cid \<mapsto> ?pl))"
      using ok store_wfD(4) [OF assms(2,4)] sp(1) by (simp add: peers_ok_def replicate_ok_def)
    have "isInitialized (pr_ps newPR)" "isInitialized (pr_ps ?pl)"
      using doApplySplit_right [OF assms(1)] sp(7) by (simp_all add: isInitialized_def e(2))
    then have "peer_ranges (getPeerReplicate s') =
        {range_of r} \<union> {x \<in> {range_of l} \<union> {x \<in> peer_ranges ?m. fst x \<noteq> cid}. fst x \<noteq> c_ID r}"
      unfolding e(4) pr' peer_ranges_put [OF okl] peer_ranges_put [OF ok] e(2) by simp
    also have "{x \<in> {range_of l} \<union> {x \<in> peer_ranges ?m. fst x \<noteq> cid}. fst x \<noteq> c_ID r} =
        {range_of l} \<union> {x \<in> {x \<in> peer_ranges ?m. fst x \<noteq> c_ID r}. fst x \<noteq> cid}"
      using sp(1,8) by auto
    also have "{x \<in> peer_ranges ?m. fst x \<noteq> c_ID r} = peer_ranges ?m"
      by (rule no_peer_range [OF ok doApplySplit_guard [OF assms(1)]]) (use sp(8) in simp)
    also have "{x \<in> peer_ranges ?m. fst x \<noteq> cid} = range_of ` (set (keyRanges s) - {r0})"
      using assms(3) by (simp add: own_peer_range [OF ok assms(4) sp(10)] image_remove [OF wf r0(1)] r0(2) routed_def)
    finally have "peer_ranges (getPeerReplicate s') = range_of ` set (keyRanges s')"
      unfolding e(5) set by (simp add: insert_commute image_Un)
    moreover have "cid \<noteq> 0" using r0 assms(3) store_wfD(4) [OF assms(2,4)] by (auto simp: routed_def range_of_def replicate_ok_def)
    ultimately show ?thesis using assms(3) sp(1,9) by (auto simp: routed_def e(5) set)
  qed
  ultimately show ?thesis ..
qed

lemma doApplyConfChange_routed:
  assumes "doApplyConfChange env cid cp s = Inr s'" "store_wf s" "routed s" "getPeerReplicate s cid = Some pr"
    and "change_of (ps_cell (pr_ps pr)) (cp_cell cp)"
  shows "store_wf s' \<and> routed s'"
proof -
  note ok = store_wf_peers [OF assms(2)]
  have id: "c_ID (cp_cell cp) = cid"
    using assms(5) store_wfD(4) [OF assms(2,4)] by (auto simp: change_of_def range_of_def replicate_ok_def)
  have wf: "store_wf s'" by (rule doApplyConfChange_wf [OF assms(1,2) id])
  define cc where "cc = (case cp_confChange cp of None \<Rightarrow> zeroConfChange | Some cc \<Rightarrow> cc)"
  define p1 where "p1 = pr\<lparr>pr_rn := se_ApplyConfChange env cc (pr_rn pr)\<rparr>"
  define p2 where "p2 = p1\<lparr>pr_ps := (pr_ps p1)\<lparr>ps_cell := cp_cell cp\<rparr>\<rparr>"
  define s2 where "s2 = (if isLeader (se_rn env) p2 then so_emit [S_Heartbeat cid] (putReplicate cid p2 (putReplicate cid p1 s))
     else putReplicate cid p2 (putReplicate cid p1 s))"
  have same: "peer_ranges ((getPeerReplicate s)(cid \<mapsto> p1)) = peer_ranges (getPeerReplicate s)"
    "peer_ranges ((getPeerReplicate s)(cid \<mapsto> p2)) = peer_ranges (getPeerReplicate s)"
    using assms(5) by (auto intro!: peer_ranges_same [OF ok assms(4)] simp: p1_def p2_def change_of_def isInitialized_def)
  have p: "replicate_ok cid p1" "replicate_ok cid p2"
    using store_wfD(4) [OF assms(2,4)] id by (simp_all add: replicate_ok_def p1_def p2_def)
  have 1: "routed (putReplicate cid p1 s)" using assms(3) same(1) by (simp add: routed_def)
  have 2: "routed s2" "store_wf s2" using assms(2,3) same(2) p by (auto simp: routed_def s2_def wf_intros)
  have "doApplyConfChange env cid cp s =
      (if cc_NodeID cc = 0 then Inr (putReplicate cid p1 s)
       else case cc_Type cc of AddNode \<Rightarrow> Inr (addPeerToCache (cp_peer cp) s2)
         | RemoveNode \<Rightarrow>
             if p_StoreID (cp_peer cp) = sv_id (so_view (deletePeerFromCache (p_ID (cp_peer cp)) s2)) then
               if p_ID (cp_peer cp) = p_ID (pr_peer p2)
               then destroyPeer cid (cp_peer cp) False (deletePeerFromCache (p_ID (cp_peer cp)) s2) else Inl Fatalf
             else Inr (deletePeerFromCache (p_ID (cp_peer cp)) s2))"
    by (simp only: doApplyConfChange_def assms(4) option.case Let_def cc_def p1_def p2_def s2_def)
  then have "routed s'"
    using assms(1) 1 2 destroyPeer_routed [of cid "cp_peer cp" False "deletePeerFromCache (p_ID (cp_peer cp)) s2" s']
    by (simp split: if_split_asm ConfChangeType.split_asm)
  with wf show ?thesis ..
qed

subsection \<open>The apply result and the ready loop\<close>

lemma pop_reads_frame: "pop_reads env n pr = Inr (as, pr') \<Longrightarrow> pr_ps pr' = pr_ps pr \<and> pr_ident pr' = pr_ident pr"
  by (induction n arbitrary: pr as)
    (fastforce simp: sbind_Inr_iff riq_pop_def pr_ident_def split: prod.splits option.splits list.splits)+

lemma doPostApply_frame:
  "doPostApply re res pr = Inr (as, pr') \<Longrightarrow> ps_cell (pr_ps pr') = ps_cell (pr_ps pr) \<and> pr_ident pr' = pr_ident pr"
  by (auto simp: doPostApply_def Let_def sbind_Inr_iff pr_ident_def split: if_splits dest!: pop_reads_frame)

text \<open>What the apply worker reports of the cell of the peer.\<close>

definition result_of :: "Cell \<Rightarrow> asyncApplyResult \<Rightarrow> bool" where
  "result_of c res \<longleftrightarrow> ar_cellID res = c_ID c \<and>
     (case ar_result res of
        Some (ERSplit l r) \<Rightarrow> split_of c l r
      | Some (ERChangePeer cp) \<Rightarrow> change_of c (cp_cell cp)
      | _ \<Rightarrow> True)"

lemma put_same:
  assumes "store_wf s" "routed s" "getPeerReplicate s cid = Some pr" "pr_ident pr' = pr_ident pr"
    and "ps_cell (pr_ps pr') = ps_cell (pr_ps pr)"
  shows "store_wf (putReplicate cid pr' s) \<and> routed (putReplicate cid pr' s)"
proof -
  have "replicate_ok cid pr'" using store_wfD(4) [OF assms(1,3)] assms(4,5) by (simp add: replicate_ok_def pr_ident_def)
  then show ?thesis
    using assms(1,2) peer_ranges_same [OF store_wf_peers [OF assms(1)] assms(3), of pr'] assms(5)
    by (simp add: wf_intros routed_def isInitialized_def)
qed

lemma doPollApply_routed:
  assumes "doPollApply re env res pr s = Inr (as, s')" "store_wf s" "routed s" "getPeerReplicate s cid = Some pr"
    and "result_of (ps_cell (pr_ps pr)) res"
  shows "store_wf s' \<and> routed s'"
proof -
  obtain pr1 where 1: "doPostApply re res pr = Inr (as, pr1)"
    and 2: "doPostApplyResult env res (putReplicate (pr_cellID pr1) pr1 s) = Inr s'"
    using assms(1) by (auto simp: doPollApply_def sbind_Inr_iff)
  note f = doPostApply_frame [OF 1] and r = store_wfD(4) [OF assms(2,4)]
  have ids: "pr_cellID pr1 = cid" "c_ID (ps_cell (pr_ps pr)) = cid" using f r by (simp_all add: pr_ident_def replicate_ok_def)
  let ?s = "putReplicate cid pr1 s"
  have s: "store_wf ?s" "routed ?s" using put_same [OF assms(2-4)] f by simp_all
  have pr1: "getPeerReplicate ?s cid = Some pr1" by simp
  have res: "ar_cellID res = cid" "ps_cell (pr_ps pr1) = ps_cell (pr_ps pr)" using assms(5) ids f by (simp_all add: result_of_def)
  note run = 2 [unfolded doPostApplyResult_def ids(1) res(1)]
  show ?thesis
  proof (cases "ar_result res")
    case None
    with run s show ?thesis by simp
  next
    case (Some x)
    show ?thesis
    proof (cases x)
      case (ERChangePeer cp)
      then show ?thesis
        using run Some assms(5) doApplyConfChange_routed [OF _ s pr1] res(2) by (simp add: result_of_def)
    next
      case (ERSplit l r)
      then show ?thesis
        using run Some assms(5) doApplySplit_routed [OF _ s pr1] res(2) by (simp add: result_of_def)
    next
      case (ERRaftGC st fi)
      then obtain a b p2 where g: "doApplyRaftLogGC st fi pr1 = Inr ((a, b), p2)"
        and s': "s' = so_emit [S_LogGC cid a b] (putReplicate cid p2 ?s)"
        using run Some by (auto simp: sbind_Inr_iff)
      have "pr_ident p2 = pr_ident pr1" "ps_cell (pr_ps p2) = ps_cell (pr_ps pr1)"
        using g by (auto simp: doApplyRaftLogGC_def Let_def pr_ident_def split: if_splits)
      then show ?thesis using put_same [OF s pr1] by (simp add: s')
    qed
  qed
qed

text \<open>A turn of the ready loop of a peer works on the peer, on the engine of its cell and on the key
  ranges of the store.\<close>

definition ready_view :: "u64 \<Rightarrow> 'n PeerReplicate \<Rightarrow> 'n RaftStore \<Rightarrow> 'n readyState" where
  "ready_view cid pr s =
     \<lparr>ry_pr = pr, ry_eng = getDriver s cid, ry_keyRanges = keyRanges s, ry_trace = [], ry_answers = []\<rparr>"

definition adopt_ready :: "u64 \<Rightarrow> 'n readyState \<Rightarrow> 'n RaftStore \<Rightarrow> 'n RaftStore" where
  "adopt_ready cid rs s =
     setKeyRanges (ry_keyRanges rs) (putReplicate cid (ry_pr rs)
       (s\<lparr>so_meta := (so_meta s)(driver_index (so_engines s) cid := ry_eng rs)\<rparr>))"

text \<open>A snapshot that is installed overlaps no other cell of the store.\<close>

definition snap_fits :: "Cell \<Rightarrow> 'n RaftStore \<Rightarrow> bool" where
  "snap_fits c s \<longleftrightarrow> valid_range c \<and> c_Peers c \<noteq> [] \<and> c_ID c \<noteq> 0 \<and> (\<forall>r \<in> set (keyRanges s). overlap c r \<longrightarrow> c_ID r = c_ID c)"

lemma updateKeyRange_routed:
  assumes "updateKeyRange \<lparr>sr_prevCell = ps_cell (pr_ps pr), sr_cell = cell\<rparr> (keyRanges s) = Inr t"
    and "store_wf s" "routed s" "getPeerReplicate s cid = Some pr" "snap_fits cell s" "c_ID cell = cid"
    and "ps_cell (pr_ps pr') = cell"
  shows "cells_wf t \<and> range_of ` set t = peer_ranges ((getPeerReplicate s)(cid \<mapsto> pr')) \<and> (\<forall>r \<in> set t. c_ID r \<noteq> 0)"
proof -
  note wf = store_wfD(3) [OF assms(2)] and ok = store_wf_peers [OF assms(2)]
  have id: "c_ID (ps_cell (pr_ps pr)) = cid" using store_wfD(4) [OF assms(2,4)] by (simp add: replicate_ok_def)
  have fit: "valid_range cell" "c_Peers cell \<noteq> []" "cid \<noteq> 0" "\<And>r. r \<in> set (keyRanges s) \<Longrightarrow> overlap cell r \<Longrightarrow> c_ID r = cid"
    using assms(5,6) by (auto simp: snap_fits_def)
  have own: "range_of r = range_of (ps_cell (pr_ps pr)) \<and> isInitialized (pr_ps pr)" if "r \<in> set (keyRanges s)" "c_ID r = cid" for r
  proof -
    have "range_of r \<in> peer_ranges (getPeerReplicate s)" using that(1) assms(3) by (auto simp: routed_def)
    from peer_range [OF ok this] show ?thesis unfolding range_of_sel that(2) assms(4) by blast
  qed
  obtain t1 where t1: "t = CellTree_Update t1 cell" "cells_wf t1" "set t1 = {r \<in> set (keyRanges s). c_ID r \<noteq> cid}"
  proof (cases "isInitialized (pr_ps pr)")
    case True
    then obtain t1 where rm: "CellTree_Remove (keyRanges s) (ps_cell (pr_ps pr)) = (True, t1)" "t = CellTree_Update t1 cell"
      using assms(1) by (auto simp: updateKeyRange_def isInitialized_def sbind_Inr_iff split: prod.split_asm bool.split_asm)
    with removed_cell [OF wf, of "ps_cell (pr_ps pr)"] id obtain r where r: "r \<in> set (keyRanges s)" "c_ID r = cid" "set t1 = set (keyRanges s) - {r}"
      by auto
    have "x = r" if "x \<in> set (keyRanges s)" "c_ID x = cid" for x
      using range_of_inj [OF wf that(1) r(1)] own [OF that] own [OF r(1,2)] by simp
    then have "set t1 = {r \<in> set (keyRanges s). c_ID r \<noteq> cid}" unfolding r(3) using r(2) by blast
    moreover have "cells_wf t1" using CellTree_Remove_wf [OF wf, of "ps_cell (pr_ps pr)"] rm(1) by simp
    ultimately show thesis using that rm(2) by blast
  next
    case False
    then have "t = CellTree_Update (keyRanges s) cell" using assms(1) by (simp add: updateKeyRange_def isInitialized_def)
    moreover have "set (keyRanges s) = {r \<in> set (keyRanges s). c_ID r \<noteq> cid}" using own False by blast
    ultimately show thesis using that wf by blast
  qed
  have set: "set t = insert cell {r \<in> set (keyRanges s). c_ID r \<noteq> cid}"
    unfolding t1(1) CellTree_Update_set [OF t1(2) fit(1)] t1(3) using fit(4) by auto
  have "range_of ` {r \<in> set (keyRanges s). c_ID r \<noteq> cid} = {x \<in> range_of ` set (keyRanges s). fst x \<noteq> cid}" by auto
  then have "range_of ` set t = peer_ranges ((getPeerReplicate s)(cid \<mapsto> pr'))"
    using assms(3,7) fit(2) by (simp add: set peer_ranges_put [OF ok] isInitialized_def routed_def)
  moreover have "cells_wf t" by (simp add: t1(1) CellTree_Update_wf [OF t1(2) fit(1)])
  ultimately show ?thesis using set fit(3) assms(3,6) by (auto simp: routed_def)
qed

lemma ready_routed:
  assumes "handleReady re (ready_view cid pr s) = Inr rs" "store_wf s" "routed s" "getPeerReplicate s cid = Some pr"
    and "\<And>h. cx_snap (fst (snd (turn_ctx re (ready_view cid pr s)))) = Some h \<Longrightarrow> snap_fits (sh_Cell h) s"
  shows "store_wf (adopt_ready cid rs s) \<and> routed (adopt_ready cid rs s)"
proof -
  note r = store_wfD(4) [OF assms(2,4)]
  have v: "ry_pr (ready_view cid pr s) = pr" "ry_eng (ready_view cid pr s) = getDriver s cid" "ry_keyRanges (ready_view cid pr s) = keyRanges s"
    by (simp_all add: ready_view_def)
  have wf0: "kv_wf (ry_eng (ready_view cid pr s))" unfolding v(2) by (rule store_wfD(2) [OF assms(2)])
  note R = ready_ranges [OF assms(1) wf0, unfolded v]
  have g: "getPeerReplicate (adopt_ready cid rs s) = (getPeerReplicate s)(cid \<mapsto> ry_pr rs)" "keyRanges (adopt_ready cid rs s) = ry_keyRanges rs"
    "so_meta (adopt_ready cid rs s) = (so_meta s)(driver_index (so_engines s) cid := ry_eng rs)"
    by (auto simp: adopt_ready_def getPeerReplicate_def setKeyRanges_def putReplicate_def)
  have wf: "store_wf (adopt_ready cid rs s)" if "cells_wf (ry_keyRanges rs)" "replicate_ok cid (ry_pr rs)"
    using assms(2) that R by (simp add: store_wf_def g)
  consider "ps_cell (pr_ps (ry_pr rs)) = ps_cell (pr_ps pr)" "ry_keyRanges rs = keyRanges s"
    | h where "cx_snap (fst (snd (turn_ctx re (ready_view cid pr s)))) = Some h" "ps_cell (pr_ps (ry_pr rs)) = sh_Cell h"
      "c_ID (sh_Cell h) = c_ID (ps_cell (pr_ps pr))"
      "updateKeyRange \<lparr>sr_prevCell = ps_cell (pr_ps pr), sr_cell = sh_Cell h\<rparr> (keyRanges s) = Inr (ry_keyRanges rs)"
    using R by blast
  then show ?thesis
  proof cases
    case 1
    have "replicate_ok cid (ry_pr rs)" using r R 1 by (simp add: replicate_ok_def pr_ident_def)
    moreover have "routed (adopt_ready cid rs s)"
      using put_same [OF assms(2-4) _ 1(1)] R 1(2) by (simp add: routed_def g)
    ultimately show ?thesis using wf store_wfD(3) [OF assms(2)] 1(2) by simp
  next
    case (2 h)
    have id: "c_ID (sh_Cell h) = cid" using 2(3) r by (simp add: replicate_ok_def)
    have "replicate_ok cid (ry_pr rs)" using r R 2(2) id by (simp add: replicate_ok_def pr_ident_def)
    moreover note updateKeyRange_routed [OF 2(4) assms(2-4) assms(5) [OF 2(1)] id 2(2)]
    ultimately show ?thesis using wf by (simp add: routed_def g)
  qed
qed

subsection \<open>The store as a state machine\<close>

text \<open>Each rule is one handler run to completion: a raft message, the negotiation of a snapshot, the result
  of a split check, the result of an applied command (membership change, split, log truncation or none), the
  removal of a peer on the apply worker, a turn of the ready loop of a peer (with the snapshot it may install), a
  client request.\<close>

inductive store_step :: "'n storeEnv \<Rightarrow> 'n RaftStore \<Rightarrow> 'n RaftStore \<Rightarrow> bool" for env where
  Step_message: "onRaftMessage env msg s = Inr s' \<Longrightarrow> msg_fits msg s \<Longrightarrow> store_step env s s'"
| Step_snapshot_ask: "store_step env s (onSnapshotAsk h s)"
| Step_split_check: "store_step env s (onSplitCheckResult env cid e k s)"
| Step_apply_result: "doPollApply re env res pr s = Inr (as, s') \<Longrightarrow> getPeerReplicate s cid = Some pr \<Longrightarrow>
    result_of (ps_cell (pr_ps pr)) res \<Longrightarrow> store_step env s s'"
| Step_destroy: "doDestroy cid p s = Inr (as, s') \<Longrightarrow> store_step env s s'"
| Step_ready: "handleReady re (ready_view cid pr s) = Inr rs \<Longrightarrow> getPeerReplicate s cid = Some pr \<Longrightarrow>
    (\<And>h. cx_snap (fst (snd (turn_ctx re (ready_view cid pr s)))) = Some h \<Longrightarrow> snap_fits (sh_Cell h) s) \<Longrightarrow>
    store_step env s (adopt_ready cid rs s)"
| Step_request: "OnProxyReq env req cb s = Inr s' \<Longrightarrow> store_step env s s'"

inductive_cases store_stepE: "store_step env s s'"

lemma store_step_routed:
  assumes "store_step env s s'" "store_wf s" "routed s"
  shows "store_wf s' \<and> routed s'"
  using assms
proof (induction rule: store_step.induct)
  case (Step_message msg s s')
  then show ?case
    using onRaftMessage_E [of env msg s s'] onRaftMessage_routed [of env msg s s'] by (simp add: msg_fits_def)
next
  case (Step_apply_result re res pr s as s' cid)
  then show ?case using doPollApply_routed by blast
next
  case (Step_destroy cid p s as s')
  then show ?case using doDestroy_wf doDestroy_routed by blast
next
  case (Step_ready re cid pr s rs)
  then show ?case using ready_routed by blast
qed (auto simp: onSnapshotAsk_def onSplitCheckResult_def OnProxyReq_def Let_def split: option.splits if_splits)

lemma store_steps_routed:
  "(store_step env)\<^sup>*\<^sup>* s s' \<Longrightarrow> store_wf s \<Longrightarrow> routed s \<Longrightarrow> store_wf s' \<and> routed s'"
  by (induction rule: rtranclp_induct) (auto dest: store_step_routed)

text \<open>With the ranges of the tree those of the peers, a search finds the peer that serves the key.\<close>

lemma routed_search:
  assumes "store_wf s" "routed s" "cid \<noteq> 0"
  shows "c_ID (CellTree_Search (keyRanges s) k) = cid \<longleftrightarrow>
    (\<exists>pr. getPeerReplicate s cid = Some pr \<and> isInitialized (pr_ps pr) \<and> covers (ps_cell (pr_ps pr)) k)"
proof
  note wf = store_wfD(3) [OF assms(1)] and ok = store_wf_peers [OF assms(1)]
  {
    assume c: "c_ID (CellTree_Search (keyRanges s) k) = cid"
    then obtain r where r: "owner (keyRanges s) k = Some r" "c_ID r = cid"
      using assms(3) by (auto simp: Search_owner_eq [OF wf] emptyCell_def split: option.splits)
    then have in_t: "r \<in> set (keyRanges s)" "covers r k" using owner_Some [OF wf] by blast+
    then have "range_of r \<in> peer_ranges (getPeerReplicate s)" using assms(2) by (auto simp: routed_def)
    from peer_range [OF ok this] obtain pr where "getPeerReplicate s cid = Some pr" "isInitialized (pr_ps pr)"
      "range_of r = range_of (ps_cell (pr_ps pr))"
      unfolding range_of_sel r(2) by blast
    with range_of_covers in_t(2) show "\<exists>pr. getPeerReplicate s cid = Some pr \<and> isInitialized (pr_ps pr) \<and> covers (ps_cell (pr_ps pr)) k"
      by blast
  next
    assume "\<exists>pr. getPeerReplicate s cid = Some pr \<and> isInitialized (pr_ps pr) \<and> covers (ps_cell (pr_ps pr)) k"
    then obtain pr where pr: "getPeerReplicate s cid = Some pr" "isInitialized (pr_ps pr)" "covers (ps_cell (pr_ps pr)) k" by blast
    then obtain r where r: "r \<in> set (keyRanges s)" "range_of r = range_of (ps_cell (pr_ps pr))"
      using peer_rangeI [of "getPeerReplicate s", OF pr(1,2)] assms(2) unfolding routed_def by (metis imageE)
    then have "owner (keyRanges s) k = Some r" using owner_Some [OF wf] range_of_covers pr(3) by blast
    moreover have "c_ID r = cid" using r(2) store_wfD(4) [OF assms(1) pr(1)] by (simp add: range_of_def replicate_ok_def)
    ultimately show "c_ID (CellTree_Search (keyRanges s) k) = cid" by (simp add: Search_owner_eq [OF wf])
  }
qed

subsection \<open>Properties\<close>


definition demo_split_result :: asyncApplyResult where
  "demo_split_result = \<lparr>ar_cellID = 1, ar_appliedIndexTerm = 6, ar_applyState = initRaftApplyState,
     ar_result = Some (ERSplit demo_left demo_right), ar_metrics = emptyApplyMetrics\<rparr>"

lemma demo_store_routed: "routed demo_store"
  by (auto simp: routed_def peer_ranges_def demo_store_def getPeerReplicate_def range_of_def demo_pr1_def demo_replicate_def
      demo_cell1_def isInitialized_def split: if_split_asm)

lemma demo_poll_returns:
  "case doPollApply demo_re demo_storeEnv demo_split_result demo_pr1 demo_store of Inl _ \<Rightarrow> False
   | Inr (_, s) \<Rightarrow> case getPeerReplicate s 2 of None \<Rightarrow> False | Some pr \<Rightarrow> ps_cell (pr_ps pr) = demo_right"
  by code_simp


end
