(* ===== verification/Pd_Store.thy ===== *)
theory Pd_Store
  imports Metapb Bytes_Util "HOL-Library.Char_ord"
begin

text \<open>
  \<^verbatim>\<open>pkg/pdserver/store.go\<close>, \<^verbatim>\<open>store_id.go\<close>, \<^verbatim>\<open>store_leader.go\<close> and \<^verbatim>\<open>store_cluster.go\<close>: the metadata
  the placement driver keeps in etcd.  The etcd client is a parameter: reads, range reads and
  guarded transactions over a client state \<open>'s\<close>.  What the code relies on is \<open>etcd_laws\<close>,
  the documented behaviour of those calls.
\<close>

subsection \<open>The etcd client\<close>

datatype Cmp = CmpValue string bytes | CmpCreateRevision0 string

datatype Op = OpPut string bytes | OpDelete string

record 's etcd =
  ec_Get :: "string \<Rightarrow> 's \<Rightarrow> string + bytes option"
  ec_Range :: "string \<Rightarrow> string \<Rightarrow> nat \<Rightarrow> 's \<Rightarrow> string + (string \<times> bytes) list"
  ec_Commit :: "Cmp list \<Rightarrow> Op list \<Rightarrow> 's \<Rightarrow> (string + bool) \<times> 's"

fun cmp_holds :: "(string \<rightharpoonup> bytes) \<Rightarrow> Cmp \<Rightarrow> bool" where
  "cmp_holds kvs (CmpValue k v) = (kvs k = Some v)"
| "cmp_holds kvs (CmpCreateRevision0 k) = (kvs k = None)"

fun op_apply :: "Op \<Rightarrow> (string \<rightharpoonup> bytes) \<Rightarrow> (string \<rightharpoonup> bytes)" where
  "op_apply (OpPut k v) kvs = kvs(k \<mapsto> v)"
| "op_apply (OpDelete k) kvs = kvs(k := None)"

definition entries :: "(string \<rightharpoonup> bytes) \<Rightarrow> string \<Rightarrow> string \<Rightarrow> (string \<times> bytes) list" where
  "entries kvs a b = map (\<lambda>k. (k, the (kvs k))) (sorted_list_of_set {k \<in> dom kvs. a \<le> k \<and> k < b})"

text \<open>A read returns the stored value; a range read the first entries of the range in key order;
  a transaction is applied as a whole when its comparisons hold and not at all otherwise.  When the
  call itself fails the transaction may or may not have been applied.\<close>

definition etcd_laws :: "'s etcd \<Rightarrow> ('s \<Rightarrow> string \<rightharpoonup> bytes) \<Rightarrow> bool" where
  "etcd_laws E kvs \<longleftrightarrow>
     (\<forall>k s v. ec_Get E k s = Inr v \<longrightarrow> v = kvs s k) \<and>
     (\<forall>a b n s es. ec_Range E a b n s = Inr es \<longrightarrow> es = take n (entries (kvs s) a b)) \<and>
     (\<forall>cs ops s r s'. ec_Commit E cs ops s = (r, s') \<longrightarrow>
        (r = Inr True \<longrightarrow> (\<forall>c \<in> set cs. cmp_holds (kvs s) c) \<and> kvs s' = fold op_apply ops (kvs s)) \<and>
        (r = Inr False \<longrightarrow> kvs s' = kvs s) \<and>
        (\<forall>e. r = Inl e \<longrightarrow> kvs s' = kvs s \<or>
           (\<forall>c \<in> set cs. cmp_holds (kvs s) c) \<and> kvs s' = fold op_apply ops (kvs s)))"

subsection \<open>Access\<close>

definition getValue :: "'s etcd \<Rightarrow> string \<Rightarrow> 's \<Rightarrow> string + bytes option" where
  "getValue E key s = ec_Get E key s"

definition committed :: "string \<Rightarrow> (string + bool) \<times> 's \<Rightarrow> string option \<times> 's" where
  "committed failed res =
     (case res of (Inl err, s) \<Rightarrow> (Some err, s)
      | (Inr ok, s) \<Rightarrow> (if \<not> ok then Some failed else None, s))"

definition errTxnFailed :: string where
  "errTxnFailed = ''failed to commit transaction''"

definition errMaybeNotLeader :: string where
  "errMaybeNotLeader = ''may be not leader''"

definition pd_save :: "'s etcd \<Rightarrow> string \<Rightarrow> bytes \<Rightarrow> 's \<Rightarrow> string option \<times> 's" where
  "pd_save E key value s = committed errTxnFailed (ec_Commit E [] [OpPut key value] s)"

definition pd_create :: "'s etcd \<Rightarrow> string \<Rightarrow> bytes \<Rightarrow> 's \<Rightarrow> string option \<times> 's" where
  "pd_create E key value s = committed errTxnFailed (ec_Commit E [CmpCreateRevision0 key] [OpPut key value] s)"

definition pd_delete :: "'s etcd \<Rightarrow> string \<Rightarrow> 's \<Rightarrow> string option \<times> 's" where
  "pd_delete E key s = committed errTxnFailed (ec_Commit E [] [OpDelete key] s)"

subsection \<open>Keys\<close>

fun dec_digits :: "nat \<Rightarrow> nat \<Rightarrow> string" where
  "dec_digits 0 n = []"
| "dec_digits (Suc w) n = dec_digits w (n div 10) @ [char_of (48 + n mod 10)]"

fun dec :: "nat \<Rightarrow> string" where
  "dec n = (if n < 10 then [char_of (48 + n)] else dec (n div 10) @ [char_of (48 + n mod 10)])"

declare dec.simps [simp del]

definition pdIDPath :: string where "pdIDPath = ''/pd/meta/id''"
definition pdLeaderPath :: string where "pdLeaderPath = ''/pd/meta/leader''"
definition pdClusterRootPath :: string where "pdClusterRootPath = ''/pd/cluster''"

definition getClusterMetaKey :: "u64 \<Rightarrow> string" where
  "getClusterMetaKey clusterID = pdClusterRootPath @ ''/'' @ dec (unat clusterID)"

text \<open>\<^verbatim>\<open>%020d\<close>: every 64-bit number has at most twenty digits.\<close>

definition getStoreMetaKey :: "u64 \<Rightarrow> u64 \<Rightarrow> string" where
  "getStoreMetaKey clusterID storeID = getClusterMetaKey clusterID @ ''/stores/'' @ dec_digits 20 (unat storeID)"

definition pd_getCellMetaKey :: "u64 \<Rightarrow> u64 \<Rightarrow> string" where
  "pd_getCellMetaKey clusterID cellID = getClusterMetaKey clusterID @ ''/cells/'' @ dec_digits 20 (unat cellID)"

definition endID :: u64 where "endID = - 1"

subsection \<open>Identifiers and leadership\<close>

definition leaderCmp :: "bytes \<Rightarrow> Cmp" where
  "leaderCmp leaderSignature = CmpValue pdLeaderPath leaderSignature"

definition leaderTxn :: "'s etcd \<Rightarrow> bytes \<Rightarrow> Cmp list \<Rightarrow> Op list \<Rightarrow> 's \<Rightarrow> (string + bool) \<times> 's" where
  "leaderTxn E leaderSignature cs ops s = ec_Commit E (cs @ [leaderCmp leaderSignature]) ops s"

definition GetID :: "'s etcd \<Rightarrow> 's \<Rightarrow> string + u64" where
  "GetID E s =
     (case getValue E pdIDPath s of
        Inl err \<Rightarrow> Inl err
      | Inr None \<Rightarrow> Inr 0
      | Inr (Some b) \<Rightarrow> (case BytesToUint64 b of None \<Rightarrow> Inl ''invalid data'' | Some v \<Rightarrow> Inr v))"

definition CreateID :: "'s etcd \<Rightarrow> bytes \<Rightarrow> u64 \<Rightarrow> 's \<Rightarrow> string option \<times> 's" where
  "CreateID E leaderSignature v s =
     committed errMaybeNotLeader
       (leaderTxn E leaderSignature [CmpCreateRevision0 pdIDPath] [OpPut pdIDPath (Uint64ToBytes v)] s)"

definition UpdateID :: "'s etcd \<Rightarrow> bytes \<Rightarrow> u64 \<Rightarrow> u64 \<Rightarrow> 's \<Rightarrow> string option \<times> 's" where
  "UpdateID E leaderSignature old v s =
     committed errMaybeNotLeader
       (leaderTxn E leaderSignature [CmpValue pdIDPath (Uint64ToBytes old)] [OpPut pdIDPath (Uint64ToBytes v)] s)"

definition ResignLeader :: "'s etcd \<Rightarrow> bytes \<Rightarrow> 's \<Rightarrow> string option \<times> 's" where
  "ResignLeader E leaderSignature s =
     committed ''resign leader failed, we are not leader already'' (leaderTxn E leaderSignature [] [OpDelete pdLeaderPath] s)"

text \<open>The election itself: the lease and its keep-alive are etcd's.\<close>

definition CampaignLeader :: "'s etcd \<Rightarrow> bytes \<Rightarrow> 's \<Rightarrow> string option \<times> 's" where
  "CampaignLeader E leaderSignature s =
     committed ''campaign leader failed, other server may campaign ok''
       (ec_Commit E [CmpCreateRevision0 pdLeaderPath] [OpPut pdLeaderPath leaderSignature] s)"

subsection \<open>Cluster metadata\<close>

text \<open>Marshalling of the stored messages is generated code and a parameter.\<close>

record Cluster =
  cr_ID :: u64
  cr_MaxReplicas :: "32 word"

record pdCodec =
  pc_cluster :: "Cluster \<Rightarrow> bytes"
  pc_store :: "Store \<Rightarrow> bytes"
  pc_cell :: "Cell \<Rightarrow> bytes"
  pc_uncell :: "bytes \<Rightarrow> Cell option"
  pc_unstore :: "bytes \<Rightarrow> Store option"
  pc_uncluster :: "bytes \<Rightarrow> Cluster option"

definition SetCellMeta :: "'s etcd \<Rightarrow> pdCodec \<Rightarrow> u64 \<Rightarrow> Cell \<Rightarrow> 's \<Rightarrow> string option \<times> 's" where
  "SetCellMeta E codec clusterID cell s = pd_save E (pd_getCellMetaKey clusterID (c_ID cell)) (pc_cell codec cell) s"

definition SetStoreMeta :: "'s etcd \<Rightarrow> pdCodec \<Rightarrow> u64 \<Rightarrow> Store \<Rightarrow> 's \<Rightarrow> string option \<times> 's" where
  "SetStoreMeta E codec clusterID st s = pd_save E (getStoreMetaKey clusterID (s_ID st)) (pc_store codec st) s"

definition SetClusterBootstrapped ::
  "'s etcd \<Rightarrow> pdCodec \<Rightarrow> u64 \<Rightarrow> Cluster \<Rightarrow> Store \<Rightarrow> Cell list \<Rightarrow> 's \<Rightarrow> (string + bool) \<times> 's" where
  "SetClusterBootstrapped E codec clusterID cluster st cells s =
     ec_Commit E [CmpCreateRevision0 (getClusterMetaKey clusterID)]
       ([OpPut (getClusterMetaKey clusterID) (pc_cluster codec cluster),
         OpPut (getStoreMetaKey clusterID (s_ID st)) (pc_store codec st)] @
        map (\<lambda>c. OpPut (pd_getCellMetaKey clusterID (c_ID c)) (pc_cell codec c)) cells) s"

definition LoadClusterMeta :: "'s etcd \<Rightarrow> pdCodec \<Rightarrow> u64 \<Rightarrow> 's \<Rightarrow> string + Cluster option" where
  "LoadClusterMeta E codec clusterID s =
     (case getValue E (getClusterMetaKey clusterID) s of
        Inl err \<Rightarrow> Inl err
      | Inr None \<Rightarrow> Inr None
      | Inr (Some data) \<Rightarrow> (case pc_uncluster codec data of None \<Rightarrow> Inl ''unmarshal'' | Some v \<Rightarrow> Inr (Some v)))"

text \<open>\<^verbatim>\<open>LoadStoreMeta\<close> and \<^verbatim>\<open>LoadCellMeta\<close> are the same loop over pages of \<open>limit\<close> records, for a key, an
  unmarshalling and an identifier of their own; the loop takes one unit of fuel per page.\<close>

fun load_page :: "(bytes \<Rightarrow> 'v option) \<Rightarrow> ('v \<Rightarrow> u64) \<Rightarrow> (string \<times> bytes) list \<Rightarrow> u64 \<Rightarrow> (string + u64) \<times> 'v list" where
  "load_page unmarshal getID [] startID = (Inr startID, [])"
| "load_page unmarshal getID ((_, b) # es) startID =
     (case unmarshal b of
        None \<Rightarrow> (Inl ''unmarshal'', [])
      | Some v \<Rightarrow> (let (r, vs) = load_page unmarshal getID es (getID v + 1) in (r, v # vs)))"

fun load_pages ::
  "nat \<Rightarrow> 's etcd \<Rightarrow> (u64 \<Rightarrow> string) \<Rightarrow> (bytes \<Rightarrow> 'v option) \<Rightarrow> ('v \<Rightarrow> u64) \<Rightarrow> nat \<Rightarrow> u64 \<Rightarrow> 's \<Rightarrow>
   (string option \<times> 'v list) option" where
  "load_pages 0 E key unmarshal getID limit startID s = None"
| "load_pages (Suc fuel) E key unmarshal getID limit startID s =
     (case ec_Range E (key startID) (key endID) limit s of
        Inl err \<Rightarrow> Some (Some err, [])
      | Inr es \<Rightarrow>
          (case load_page unmarshal getID es startID of
             (Inl err, vs) \<Rightarrow> Some (Some err, vs)
           | (Inr startID, vs) \<Rightarrow>
               if length es < limit then Some (None, vs)
               else map_option (\<lambda>(err, ws). (err, vs @ ws)) (load_pages fuel E key unmarshal getID limit startID s)))"

definition LoadCellMeta :: "nat \<Rightarrow> 's etcd \<Rightarrow> pdCodec \<Rightarrow> u64 \<Rightarrow> nat \<Rightarrow> 's \<Rightarrow> (string option \<times> Cell list) option" where
  "LoadCellMeta fuel E codec clusterID limit s =
     load_pages fuel E (pd_getCellMetaKey clusterID) (pc_uncell codec) c_ID limit 0 s"

definition LoadStoreMeta :: "nat \<Rightarrow> 's etcd \<Rightarrow> pdCodec \<Rightarrow> u64 \<Rightarrow> nat \<Rightarrow> 's \<Rightarrow> (string option \<times> Store list) option" where
  "LoadStoreMeta fuel E codec clusterID limit s =
     load_pages fuel E (getStoreMetaKey clusterID) (pc_unstore codec) s_ID limit 0 s"

lemma etcd_get: "etcd_laws E kvs \<Longrightarrow> ec_Get E k s = Inr v \<Longrightarrow> v = kvs s k"
  by (auto simp: etcd_laws_def)

lemma etcd_range: "etcd_laws E kvs \<Longrightarrow> ec_Range E a b n s = Inr es \<Longrightarrow> es = take n (entries (kvs s) a b)"
  unfolding etcd_laws_def by blast

lemma etcd_commit:
  assumes "etcd_laws E kvs" "ec_Commit E cs ops s = (r, s')"
  shows "r = Inr True \<Longrightarrow> (\<forall>c \<in> set cs. cmp_holds (kvs s) c) \<and> kvs s' = fold op_apply ops (kvs s)"
    "r \<noteq> Inr True \<Longrightarrow> kvs s' = kvs s \<or> (\<forall>c \<in> set cs. cmp_holds (kvs s) c) \<and> kvs s' = fold op_apply ops (kvs s)"
proof -
  have l: "(r = Inr True \<longrightarrow> (\<forall>c \<in> set cs. cmp_holds (kvs s) c) \<and> kvs s' = fold op_apply ops (kvs s)) \<and>
        (r = Inr False \<longrightarrow> kvs s' = kvs s) \<and>
        (\<forall>e. r = Inl e \<longrightarrow> kvs s' = kvs s \<or> (\<forall>c \<in> set cs. cmp_holds (kvs s) c) \<and> kvs s' = fold op_apply ops (kvs s))"
    using assms unfolding etcd_laws_def by blast
  show "r = Inr True \<Longrightarrow> (\<forall>c \<in> set cs. cmp_holds (kvs s) c) \<and> kvs s' = fold op_apply ops (kvs s)" using l by blast
  show "r \<noteq> Inr True \<Longrightarrow> kvs s' = kvs s \<or> (\<forall>c \<in> set cs. cmp_holds (kvs s) c) \<and> kvs s' = fold op_apply ops (kvs s)"
    using l by (cases r) (auto simp: all_bool_eq)
qed

subsection \<open>Order of the keys\<close>

lemma snoc_less: "length xs = length ys \<Longrightarrow> xs @ [x] < ys @ [y] \<longleftrightarrow> xs < ys \<or> xs = ys \<and> x < (y :: 'a :: linorder)"
  by (induction xs ys rule: list_induct2) auto

lemma length_dec_digits [simp]: "length (dec_digits w n) = w"
  by (induction w n rule: dec_digits.induct) auto

lemma digit_less: "a < 10 \<Longrightarrow> b < 10 \<Longrightarrow> char_of (48 + a) < (char_of (48 + b) :: char) \<longleftrightarrow> a < (b :: nat)"
  by (simp add: less_char_def)

lemma div_mod_less: "(a :: nat) div 10 < b div 10 \<or> a div 10 = b div 10 \<and> a mod 10 < b mod 10 \<longleftrightarrow> a < b"
  using div_mult_mod_eq [of a 10] div_mult_mod_eq [of b 10] mod_less_divisor [of 10 a] mod_less_divisor [of 10 b]
  by (cases "a div 10" "b div 10" rule: linorder_cases) linarith+

lemma dec_digits_less: "n < 10 ^ w \<Longrightarrow> m < 10 ^ w \<Longrightarrow> dec_digits w n < dec_digits w m \<longleftrightarrow> n < m"
proof (induction w arbitrary: n m)
  case (Suc w)
  have b: "n div 10 < 10 ^ w" "m div 10 < 10 ^ w" using Suc.prems by (simp_all add: less_mult_imp_div_less)
  have eq: "dec_digits w (n div 10) = dec_digits w (m div 10) \<longleftrightarrow> n div 10 = m div 10"
    using Suc.IH [OF b] Suc.IH [OF b(2,1)] by (metis less_irrefl linorder_neqE)
  show ?case
    by (simp add: snoc_less Suc.IH [OF b] eq digit_less div_mod_less)
qed simp

lemma unat_20_digits: "unat (w :: u64) < 10 ^ 20"
  by (rule less_le_trans [OF unsigned_less]) simp

lemma sorted_list_of_set_mono_image:
  assumes "\<And>x y. f x < f y \<longleftrightarrow> x < (y :: 'a :: linorder)" "finite A"
  shows "sorted_list_of_set (f ` A) = map f (sorted_list_of_set A)"
proof (rule sorted_distinct_set_unique)
  have "\<And>x y. f x \<le> f y \<longleftrightarrow> x \<le> y" using assms(1) by (metis not_less)
  then have "sorted (map f (sorted_list_of_set A)) = sorted (sorted_list_of_set A)" by (simp add: sorted_map)
  then show "sorted (map f (sorted_list_of_set A))" by simp
  have "inj f" by (rule injI) (metis assms(1) less_irrefl linorder_neqE)
  then show "distinct (map f (sorted_list_of_set A))" by (simp add: distinct_map inj_on_subset [OF _ subset_UNIV])
qed (use assms in auto)

subsection \<open>Loading all records\<close>

lemma less_endID [simp]: "i < endID \<longleftrightarrow> i \<noteq> endID"
  unfolding endID_def order.strict_iff_order by simp

text \<open>The records of one kind: \<open>m\<close> maps each stored identifier to its record.\<close>

definition records_stored ::
  "(u64 \<Rightarrow> string) \<Rightarrow> ('v \<Rightarrow> bytes) \<Rightarrow> (bytes \<Rightarrow> 'v option) \<Rightarrow> ('v \<Rightarrow> u64) \<Rightarrow> (u64 \<rightharpoonup> 'v) \<Rightarrow> (string \<rightharpoonup> bytes) \<Rightarrow> bool" where
  "records_stored key marshal unmarshal getID m kvs \<longleftrightarrow>
     (\<forall>i c. m i = Some c \<longrightarrow> getID c = i \<and> i \<noteq> endID \<and> unmarshal (marshal c) = Some c) \<and>
     (\<forall>i. i \<noteq> endID \<longrightarrow> kvs (key i) = map_option marshal (m i)) \<and>
     (\<forall>k \<in> dom kvs. key 0 \<le> k \<and> k < key endID \<longrightarrow> k \<in> range key)"

definition cells_stored :: "pdCodec \<Rightarrow> u64 \<Rightarrow> (u64 \<rightharpoonup> Cell) \<Rightarrow> (string \<rightharpoonup> bytes) \<Rightarrow> bool" where
  "cells_stored codec cid = records_stored (pd_getCellMetaKey cid) (pc_cell codec) (pc_uncell codec) c_ID"

definition stores_stored :: "pdCodec \<Rightarrow> u64 \<Rightarrow> (u64 \<rightharpoonup> Store) \<Rightarrow> (string \<rightharpoonup> bytes) \<Rightarrow> bool" where
  "stores_stored codec cid = records_stored (getStoreMetaKey cid) (pc_store codec) (pc_unstore codec) s_ID"

lemma sorted_drop_above:
  fixes A :: "u64 set"
  assumes "n < length (sorted_list_of_set A)" "l = sorted_list_of_set A ! n"
  shows "drop (Suc n) (sorted_list_of_set A) = sorted_list_of_set {i \<in> A. l < i}"
proof -
  let ?L = "sorted_list_of_set A"
  have split: "take (Suc n) ?L = take n ?L @ [l]" using assms by (simp add: take_Suc_conv_app_nth)
  have "sorted_wrt (<) (take (Suc n) ?L @ drop (Suc n) ?L)" by simp
  then have cut: "\<forall>x \<in> set (take (Suc n) ?L). \<forall>y \<in> set (drop (Suc n) ?L). x < y" "sorted_wrt (<) (take n ?L @ [l])"
    unfolding sorted_wrt_append split [symmetric] by auto
  have "set (drop (Suc n) ?L) = {i \<in> A. l < i}"
  proof -
    have "A = set (take (Suc n) ?L) \<union> set (drop (Suc n) ?L)"
      by (metis append_take_drop_id finite set_append set_sorted_list_of_set)
    moreover have "\<not> l < x" if "x \<in> set (take (Suc n) ?L)" for x
      using that cut(2) unfolding split by (auto simp: sorted_wrt_append)
    ultimately show ?thesis using cut(1) split by auto
  qed
  then show ?thesis
    by (intro sorted_distinct_set_unique) (auto simp: sorted_wrt_drop)
qed

text \<open>What the loop relies on: keys are in the order of the identifiers.\<close>

locale ordered_keys =
  fixes key :: "u64 \<Rightarrow> string"
  assumes key_less [simp]: "key a < key b \<longleftrightarrow> a < b"
begin

lemma key_le [simp]: "key a \<le> key b \<longleftrightarrow> a \<le> b"
  using key_less [of b a] by (simp only: not_less [symmetric])

lemma key_inj: "inj key"
  by (rule injI) (metis key_le order_antisym order_refl)

lemma entries_records:
  assumes "records_stored key marshal unmarshal getID m kvs"
  shows "entries kvs (key a) (key endID) =
    map (\<lambda>i. (key i, marshal (the (m i)))) (sorted_list_of_set {i \<in> dom m. a \<le> i})"
proof -
  have "\<exists>i. k = key i \<and> a \<le> i \<and> i \<noteq> endID" if "k \<in> dom kvs" "key a \<le> k" "k < key endID" for k
  proof -
    have "key 0 \<le> k" using that(2) by (rule order_trans [rotated]) simp
    then have "k \<in> range key" using assms that unfolding records_stored_def by blast
    then obtain i where "k = key i" by blast
    then show ?thesis using that by auto
  qed
  then have "{k \<in> dom kvs. key a \<le> k \<and> k < key endID} =
      key ` {i \<in> dom m. a \<le> i}"
    using assms by (fastforce simp: records_stored_def)
  then have "entries kvs (key a) (key endID) =
      map (\<lambda>i. (key i, the (kvs (key i)))) (sorted_list_of_set {i \<in> dom m. a \<le> i})"
    by (simp add: entries_def sorted_list_of_set_mono_image)
  also have "\<dots> = map (\<lambda>i. (key i, marshal (the (m i)))) (sorted_list_of_set {i \<in> dom m. a \<le> i})"
    using assms by (intro map_cong) (auto simp: records_stored_def)
  finally show ?thesis .
qed

lemma load_page_records:
  assumes "records_stored key marshal unmarshal getID m kvs" "set is \<subseteq> dom m"
  shows "load_page unmarshal getID (map (\<lambda>i. (key i, marshal (the (m i)))) is) a =
    (Inr (if is = [] then a else last is + 1), map (the \<circ> m) is)"
  using assms(2)
proof (induction "is" arbitrary: a)
  case (Cons i "is")
  then obtain c where "m i = Some c" by auto
  with Cons assms(1) show ?case by (simp add: records_stored_def)
qed simp

lemma load_pages_from:
  assumes laws: "etcd_laws E kvs" and st: "records_stored key marshal unmarshal getID m (kvs s)" and lim: "0 < limit"
    and rd: "\<And>a. \<exists>es. ec_Range E (key a) (key endID) limit s = Inr es"
  shows "card {i \<in> dom m. a \<le> i} < fuel \<Longrightarrow>
    load_pages fuel E key unmarshal getID limit a s = Some (None, map (the \<circ> m) (sorted_list_of_set {i \<in> dom m. a \<le> i}))"
proof (induction fuel arbitrary: a)
  case (Suc fuel)
  define L where "L = sorted_list_of_set {i \<in> dom m. a \<le> i}"
  have setL: "set L = {i \<in> dom m. a \<le> i}" by (simp add: L_def)
  obtain es where r: "ec_Range E (key a) (key endID) limit s = Inr es" using rd by blast
  then have es: "es = map (\<lambda>i. (key i, marshal (the (m i)))) (take limit L)"
    using etcd_range [OF laws r] entries_records [OF st, of a] by (simp add: L_def take_map)
  have "set (take limit L) \<subseteq> dom m" using setL by (auto dest: in_set_takeD)
  note page = load_page_records [OF st this, of a]
  show ?case
  proof (cases "length L < limit")
    case True
    then show ?thesis using page by (simp add: r es L_def)
  next
    case False
    define l where "l = L ! (limit - 1)"
    have n: "limit - 1 < length L" "Suc (limit - 1) = limit" using False lim by simp_all
    have "l \<in> dom m" "a \<le> l" using setL nth_mem [OF n(1)] by (auto simp: l_def)
    then have "l \<noteq> endID" using st by (auto simp: records_stored_def)
    then have above: "l + 1 \<le> i \<longleftrightarrow> l < i" for i
      using less_plus1_nz [of l endID] less_plus1_iff [of l] by (metis less_endID not_less)
    have "{i \<in> {i \<in> dom m. a \<le> i}. l < i} = {i \<in> dom m. l + 1 \<le> i}" using \<open>a \<le> l\<close> by (auto simp: above)
    then have rest: "drop limit L = sorted_list_of_set {i \<in> dom m. l + 1 \<le> i}"
      using sorted_drop_above [of "limit - 1" "{i \<in> dom m. a \<le> i}" l] n by (simp only: L_def [symmetric] l_def [symmetric])
    have "card {i \<in> dom m. l + 1 \<le> i} < card {i \<in> dom m. a \<le> i}"
      using \<open>l \<in> dom m\<close> \<open>a \<le> l\<close> by (intro psubset_card_mono) (auto simp: above)
    then have ih: "load_pages fuel E key unmarshal getID limit (l + 1) s = Some (None, map (the \<circ> m) (drop limit L))"
      using Suc.IH [of "l + 1"] Suc.prems rest by simp
    have "take limit L = take (limit - 1) L @ [l]" using take_Suc_conv_app_nth [OF n(1)] n(2) by (simp add: l_def)
    then have "take limit L \<noteq> []" "last (take limit L) = l" by simp_all
    then show ?thesis
      using page False ih by (simp add: r es L_def [symmetric] map_append [symmetric] del: map_append)
  qed
qed simp

end

lemma cell_key_less: "pd_getCellMetaKey c a < pd_getCellMetaKey c b \<longleftrightarrow> a < b"
  using dec_digits_less [OF unat_20_digits unat_20_digits, of a b]
  by (simp add: pd_getCellMetaKey_def word_less_nat_alt)

lemma store_key_less: "getStoreMetaKey c a < getStoreMetaKey c b \<longleftrightarrow> a < b"
  using dec_digits_less [OF unat_20_digits unat_20_digits, of a b]
  by (simp add: getStoreMetaKey_def word_less_nat_alt)

interpretation cell_keys: ordered_keys "pd_getCellMetaKey c" for c
  by unfold_locales (rule cell_key_less)

interpretation store_keys: ordered_keys "getStoreMetaKey c" for c
  by unfold_locales (rule store_key_less)

text \<open>C31: reading the cells back.  With a page size of at least one and more fuel than there are
  stored cells, \<^verbatim>\<open>LoadCellMeta\<close> ends without an error and hands over every stored cell exactly
  once, in the order of the identifiers, whatever the number of pages.\<close>

theorem LoadCellMeta_complete:
  assumes "etcd_laws E kvs" "cells_stored codec cid m (kvs s)" "0 < limit"
    and "\<And>a. \<exists>es. ec_Range E (pd_getCellMetaKey cid a) (pd_getCellMetaKey cid endID) limit s = Inr es"
    and "card (dom m) < fuel"
  shows "LoadCellMeta fuel E codec cid limit s = Some (None, map (the \<circ> m) (sorted_list_of_set (dom m)))"
  using cell_keys.load_pages_from [OF assms(1) assms(2) [unfolded cells_stored_def] assms(3,4), of 0 fuel] assms(5)
  by (simp add: LoadCellMeta_def)

lemma LoadStoreMeta_all:
  assumes "etcd_laws E kvs" "stores_stored codec cid m (kvs s)" "0 < limit"
    and "\<And>a. \<exists>es. ec_Range E (getStoreMetaKey cid a) (getStoreMetaKey cid endID) limit s = Inr es"
    and "card (dom m) < fuel"
  shows "LoadStoreMeta fuel E codec cid limit s = Some (None, map (the \<circ> m) (sorted_list_of_set (dom m)))"
  using store_keys.load_pages_from [OF assms(1) assms(2) [unfolded stores_stored_def] assms(3,4), of 0 fuel] assms(5)
  by (simp add: LoadStoreMeta_def)

text \<open>An etcd that never fails, over a plain map, and a codec for cells of one identifier.\<close>

definition map_etcd :: "(string \<rightharpoonup> bytes) etcd" where
  "map_etcd = \<lparr>ec_Get = (\<lambda>k s. Inr (s k)), ec_Range = (\<lambda>a b n s. Inr (take n (entries s a b))),
     ec_Commit = (\<lambda>cs ops s. if \<forall>c \<in> set cs. cmp_holds s c then (Inr True, fold op_apply ops s) else (Inr False, s))\<rparr>"

lemma map_etcd_laws: "etcd_laws map_etcd (\<lambda>s. s)"
  by (auto simp: etcd_laws_def map_etcd_def split: if_splits)

definition demo_codec :: pdCodec where
  "demo_codec = \<lparr>pc_cluster = (\<lambda>_. []), pc_store = (\<lambda>_. []), pc_cell = (\<lambda>c. Uint64ToBytes (c_ID c)),
     pc_uncell = map_option (\<lambda>i. emptyCell\<lparr>c_ID := i\<rparr>) \<circ> BytesToUint64,
     pc_unstore = (\<lambda>_. None), pc_uncluster = (\<lambda>_. None)\<rparr>"

theorem LoadCellMeta_complete_witness:
  "LoadCellMeta 3 map_etcd demo_codec 1 1
     [pd_getCellMetaKey 1 9 \<mapsto> Uint64ToBytes 9, pd_getCellMetaKey 1 4 \<mapsto> Uint64ToBytes 4] =
   Some (None, [emptyCell\<lparr>c_ID := 4\<rparr>, emptyCell\<lparr>c_ID := 9\<rparr>])"
proof -
  let ?m = "[9 \<mapsto> emptyCell\<lparr>c_ID := 9\<rparr>, 4 \<mapsto> emptyCell\<lparr>c_ID := 4\<rparr>] :: u64 \<rightharpoonup> Cell"
  let ?s = "[pd_getCellMetaKey 1 9 \<mapsto> Uint64ToBytes 9, pd_getCellMetaKey 1 4 \<mapsto> Uint64ToBytes 4]"
  have "cells_stored demo_codec 1 ?m ?s"
    by (auto simp: cells_stored_def records_stored_def demo_codec_def endID_def BytesToUint64_def emptyCell_def inj_eq [OF cell_keys.key_inj])
  then have "LoadCellMeta 3 map_etcd demo_codec 1 1 ?s = Some (None, map (the \<circ> ?m) (sorted_list_of_set (dom ?m)))"
    by (intro LoadCellMeta_complete [where kvs = "\<lambda>s. s", OF map_etcd_laws]) (simp_all add: map_etcd_def)
  then show ?thesis by simp
qed

end
