(* ===== verification/Pd_Alloc.thy ===== *)
theory Pd_Alloc
  imports Pd_Store
begin

text \<open>
  \<^verbatim>\<open>pkg/pdserver/alloc.go\<close>: identifiers are handed out from windows of 1000 that a server reserves
  in etcd.  Several servers share the record; one that is no longer the leader may still be
  about to commit a reservation, and a reservation whose answer is lost may have been made.
\<close>

definition batch :: u64 where "batch = 1000"

record idAllocator =
  al_base :: u64
  al_end :: u64

definition newIDAllocator :: idAllocator where
  "newIDAllocator = \<lparr>al_base = 0, al_end = 0\<rparr>"

text \<open>The second half of \<^verbatim>\<open>generate\<close>: reserve the window after the value that was read.\<close>

definition reserve :: "'s etcd \<Rightarrow> bytes \<Rightarrow> u64 \<Rightarrow> 's \<Rightarrow> (string + u64) \<times> 's" where
  "reserve E leaderSignature v s =
     (let max = v + batch
      in case (if v = 0 then CreateID E leaderSignature max s else UpdateID E leaderSignature v max s) of
           (Some err, s) \<Rightarrow> (Inl err, s)
         | (None, s) \<Rightarrow> (Inr max, s))"

definition generate :: "'s etcd \<Rightarrow> bytes \<Rightarrow> 's \<Rightarrow> (string + u64) \<times> 's" where
  "generate E leaderSignature s =
     (case GetID E s of Inl err \<Rightarrow> (Inl err, s) | Inr v \<Rightarrow> reserve E leaderSignature v s)"

definition take_id :: "idAllocator \<Rightarrow> u64 \<times> idAllocator" where
  "take_id alloc = (al_base alloc + 1, alloc\<lparr>al_base := al_base alloc + 1\<rparr>)"

definition adopt_window :: "u64 \<Rightarrow> idAllocator \<Rightarrow> idAllocator" where
  "adopt_window e alloc = alloc\<lparr>al_end := e, al_base := e - batch\<rparr>"

definition newID :: "'s etcd \<Rightarrow> bytes \<Rightarrow> idAllocator \<Rightarrow> 's \<Rightarrow> (string + u64) \<times> idAllocator \<times> 's" where
  "newID E leaderSignature alloc s =
     (if al_base alloc = al_end alloc then
        (case generate E leaderSignature s of
           (Inl err, s) \<Rightarrow> (Inl err, alloc, s)
         | (Inr e, s) \<Rightarrow> (let (i, alloc) = take_id (adopt_window e alloc) in (Inr i, alloc, s)))
      else let (i, alloc) = take_id alloc in (Inr i, alloc, s))"

subsection \<open>Servers sharing the record\<close>

text \<open>A server holds its mutex while it allocates, but the read and the reservation of one server
  interleave with those of the others: between them the server holds the value it read.\<close>

record server =
  sv_alloc :: idAllocator
  sv_read :: "u64 option"

definition freshServer :: server where
  "freshServer = \<lparr>sv_alloc = newIDAllocator, sv_read = None\<rparr>"

inductive id_run ::
  "'s etcd \<Rightarrow> ('s \<Rightarrow> string \<rightharpoonup> bytes) \<Rightarrow> (nat \<Rightarrow> bytes) \<Rightarrow> nat \<Rightarrow> u64 list \<Rightarrow> (nat \<Rightarrow> server) \<Rightarrow> 's \<Rightarrow> bool"
  for E kvs sig where
  Run_start: "kvs s pdIDPath = None \<Longrightarrow> id_run E kvs sig 0 [] (\<lambda>_. freshServer) s"
| Run_local: "id_run E kvs sig n ids sv s \<Longrightarrow> al_base (sv_alloc (sv i)) \<noteq> al_end (sv_alloc (sv i)) \<Longrightarrow> sv_read (sv i) = None \<Longrightarrow>
    newID E (sig i) (sv_alloc (sv i)) s = (Inr x, a, s') \<Longrightarrow>
    id_run E kvs sig n (ids @ [x]) (sv(i := (sv i)\<lparr>sv_alloc := a\<rparr>)) s'"
| Run_read: "id_run E kvs sig n ids sv s \<Longrightarrow> al_base (sv_alloc (sv i)) = al_end (sv_alloc (sv i)) \<Longrightarrow> sv_read (sv i) = None \<Longrightarrow>
    GetID E s = Inr v \<Longrightarrow> id_run E kvs sig n ids (sv(i := (sv i)\<lparr>sv_read := Some v\<rparr>)) s"
| Run_reserve: "id_run E kvs sig n ids sv s \<Longrightarrow> sv_read (sv i) = Some v \<Longrightarrow> reserve E (sig i) v s = (Inr e, s') \<Longrightarrow>
    take_id (adopt_window e (sv_alloc (sv i))) = (x, a) \<Longrightarrow>
    id_run E kvs sig (Suc n) (ids @ [x]) (sv(i := \<lparr>sv_alloc = a, sv_read = None\<rparr>)) s'"
| Run_refused: "id_run E kvs sig n ids sv s \<Longrightarrow> sv_read (sv i) = Some v \<Longrightarrow> reserve E (sig i) v s = (Inl err, s') \<Longrightarrow>
    id_run E kvs sig (Suc n) ids (sv(i := (sv i)\<lparr>sv_read := None\<rparr>)) s'"
| Run_restart: "id_run E kvs sig n ids sv s \<Longrightarrow> id_run E kvs sig n ids (sv(i := freshServer)) s"
| Run_other: "id_run E kvs sig n ids sv s \<Longrightarrow> kvs s' pdIDPath = kvs s pdIDPath \<Longrightarrow> id_run E kvs sig n ids sv s'"

text \<open>Run without interruption, the two halves are \<^verbatim>\<open>newID\<close>.\<close>

lemma newID_phases:
  assumes "al_base a = al_end a" "GetID E s = Inr v" "reserve E leaderSignature v s = (Inr e, s')"
  shows "newID E leaderSignature a s = (let (x, b) = take_id (adopt_window e a) in (Inr x, b, s'))"
  using assms by (simp add: newID_def generate_def)

subsection \<open>The invariant\<close>

definition stored_id :: "(string \<rightharpoonup> bytes) \<Rightarrow> nat" where
  "stored_id kvs = (case kvs pdIDPath of None \<Rightarrow> 0 | Some b \<Rightarrow> unat (be_word b))"

definition window :: "server \<Rightarrow> nat set" where
  "window sv = {unat (al_base (sv_alloc sv)) <.. unat (al_end (sv_alloc sv))}"

definition ids_inv :: "(string \<rightharpoonup> bytes) \<Rightarrow> nat \<Rightarrow> u64 list \<Rightarrow> (nat \<Rightarrow> server) \<Rightarrow> bool" where
  "ids_inv kvs n ids sv \<longleftrightarrow>
     distinct ids \<and> stored_id kvs \<le> n * 1000 \<and>
     (\<forall>b. kvs pdIDPath = Some b \<longrightarrow> (\<exists>v. v \<noteq> 0 \<and> b = Uint64ToBytes v)) \<and>
     (\<forall>x \<in> set ids. unat x \<le> stored_id kvs) \<and>
     (\<forall>i. unat (al_base (sv_alloc (sv i))) \<le> unat (al_end (sv_alloc (sv i))) \<and>
          unat (al_end (sv_alloc (sv i))) \<le> stored_id kvs \<and> window (sv i) \<inter> unat ` set ids = {}) \<and>
     (\<forall>i j. i \<noteq> j \<longrightarrow> window (sv i) \<inter> window (sv j) = {})"

lemma reserve_cases:
  assumes "etcd_laws E kvs" "reserve E sg v s = (r, s')"
  shows "kvs s' = kvs s \<and> (\<exists>err. r = Inl err) \<or>
    (if v = 0 then kvs s pdIDPath = None else kvs s pdIDPath = Some (Uint64ToBytes v)) \<and>
    kvs s' = (kvs s)(pdIDPath \<mapsto> Uint64ToBytes (v + batch)) \<and> (r = Inr (v + batch) \<or> (\<exists>err. r = Inl err))"
proof -
  define cs where "cs = [if v = 0 then CmpCreateRevision0 pdIDPath else CmpValue pdIDPath (Uint64ToBytes v), leaderCmp sg]"
  define ops where "ops = [OpPut pdIDPath (Uint64ToBytes (v + batch))]"
  obtain r' where c: "ec_Commit E cs ops s = (r', s')" and r: "r = (case r' of Inl err \<Rightarrow> Inl err | Inr True \<Rightarrow> Inr (v + batch) | Inr False \<Rightarrow> Inl errMaybeNotLeader)"
    using assms(2) by (auto simp: reserve_def CreateID_def UpdateID_def leaderTxn_def committed_def cs_def ops_def Let_def
        split: if_splits prod.splits sum.splits option.splits bool.splits)
  have applied: "(\<forall>c \<in> set cs. cmp_holds (kvs s) c) \<and> kvs s' = fold op_apply ops (kvs s) \<Longrightarrow>
    (if v = 0 then kvs s pdIDPath = None else kvs s pdIDPath = Some (Uint64ToBytes v)) \<and>
    kvs s' = (kvs s)(pdIDPath \<mapsto> Uint64ToBytes (v + batch))"
    by (auto simp: cs_def ops_def split: if_splits)
  have "r = Inr (v + batch) \<and> r' = Inr True \<or> r' \<noteq> Inr True \<and> (\<exists>err. r = Inl err)"
    unfolding r by (auto split: sum.split bool.split)
  with etcd_commit [OF assms(1) c] applied show ?thesis by blast
qed

lemma stored_id_update [simp]: "stored_id (kvs(pdIDPath \<mapsto> Uint64ToBytes v)) = unat v"
  by (simp add: stored_id_def)

lemma ids_inv_mono:
  assumes "ids_inv kvs n ids sv" "n \<le> n'" "stored_id kvs \<le> stored_id kvs'" "stored_id kvs' \<le> n' * 1000"
    and "\<forall>b. kvs' pdIDPath = Some b \<longrightarrow> (\<exists>v. v \<noteq> 0 \<and> b = Uint64ToBytes v)"
    and "\<And>i. sv_alloc (sv' i) = sv_alloc (sv i)"
  shows "ids_inv kvs' n' ids sv'"
  using assms unfolding ids_inv_def window_def by (auto intro: order_trans)

lemma ids_inv_local:
  assumes inv: "ids_inv kvs n ids sv" and ne: "al_base (sv_alloc (sv i)) \<noteq> al_end (sv_alloc (sv i))"
    and a: "take_id (sv_alloc (sv i)) = (x, a)"
  shows "ids_inv kvs n (ids @ [x]) (sv(i := (sv i)\<lparr>sv_alloc := a\<rparr>))"
proof -
  let ?b = "al_base (sv_alloc (sv i))" and ?e = "al_end (sv_alloc (sv i))"
  have "unat ?b \<le> unat ?e" using inv by (simp add: ids_inv_def)
  then have "unat ?b < unat ?e" using ne by (metis le_neq_implies_less unsigned_word_eqI)
  then have b1: "unat (?b + 1) = Suc (unat ?b)" by (intro unat_plus1 less_plus1_nz [of _ ?e]) (simp add: word_less_nat_alt)
  have x: "x = ?b + 1" "a = (sv_alloc (sv i))\<lparr>al_base := ?b + 1\<rparr>" using a by (auto simp: take_id_def)
  let ?sv = "sv(i := (sv i)\<lparr>sv_alloc := a\<rparr>)"
  have win: "window (?sv i) = window (sv i) - {unat x}" "unat x \<in> window (sv i)"
    using \<open>unat ?b < unat ?e\<close> by (auto simp: window_def x b1)
  have sub: "window (?sv j) \<subseteq> window (sv j)" for j using win by (cases "j = i") auto
  have "window (sv i) \<inter> unat ` set ids = {}" using inv by (simp add: ids_inv_def)
  then have "x \<notin> set ids" using win(2) by blast
  moreover have "window (?sv j) \<inter> unat ` set (ids @ [x]) = {}" for j
    using inv win sub [of j] by (cases "j = i") (fastforce simp: ids_inv_def)+
  moreover have "window (?sv j) \<inter> window (?sv k) = {}" if "j \<noteq> k" for j k
    using inv that sub [of j] sub [of k] by (fastforce simp: ids_inv_def)
  moreover have "unat (al_base (sv_alloc (?sv j))) \<le> unat (al_end (sv_alloc (?sv j))) \<and>
      unat (al_end (sv_alloc (?sv j))) \<le> stored_id kvs" for j
    using inv \<open>unat ?b < unat ?e\<close> by (auto simp: ids_inv_def x b1)
  moreover have "unat x \<le> stored_id kvs"
    using inv \<open>unat ?b < unat ?e\<close> unfolding ids_inv_def x b1 by (metis Suc_leI order_trans)
  ultimately show ?thesis using inv by (auto simp: ids_inv_def)
qed

lemma unat_window:
  assumes "unat v \<le> n * 1000" "Suc n * 1000 < 2 ^ 64"
  shows "unat (v + batch) = unat v + 1000"
proof -
  have "unat v + unat batch < 2 ^ LENGTH(64)" using assms by (simp add: batch_def)
  then show ?thesis by (subst unat_add_lem [THEN iffD1]) (simp_all add: batch_def)
qed

lemma ids_inv_reserve:
  assumes inv: "ids_inv kvs n ids sv" and v: "if v = 0 then kvs pdIDPath = None else kvs pdIDPath = Some (Uint64ToBytes v)"
    and n: "Suc n * 1000 < 2 ^ 64" and a: "take_id (adopt_window (v + batch) (sv_alloc (sv i))) = (x, a)"
  shows "ids_inv (kvs(pdIDPath \<mapsto> Uint64ToBytes (v + batch))) (Suc n) (ids @ [x]) (sv(i := \<lparr>sv_alloc = a, sv_read = None\<rparr>))"
proof -
  have st: "stored_id kvs = unat v" using v by (auto simp: stored_id_def split: if_splits)
  then have "unat v \<le> n * 1000" using inv by (simp add: ids_inv_def)
  note e = unat_window [OF this n]
  have b: "v + batch - batch = v" by simp
  have v1: "unat (v + 1) = Suc (unat v)"
    using e by (intro unat_plus1 less_plus1_nz [of _ "v + batch"]) (simp add: word_less_nat_alt)
  have x: "x = v + 1" "al_base a = v + 1" "al_end a = v + batch" using a by (auto simp: take_id_def adopt_window_def b)
  let ?sv = "sv(i := \<lparr>sv_alloc = a, sv_read = None\<rparr>)"
  have old: "window (sv j) \<subseteq> {..unat v}" "unat y \<le> unat v" if "y \<in> set ids" for j y
    using inv that by (auto simp: ids_inv_def window_def st intro: order_trans)
  have old': "window (sv j) \<subseteq> {..unat v}" for j
    using inv by (auto simp: ids_inv_def window_def st intro: order_trans)
  have new: "window (?sv i) = {Suc (unat v) <.. unat v + 1000}" by (simp add: window_def x v1 e)
  have "distinct (ids @ [x])" using inv old(2) [of x] by (auto simp: ids_inv_def x v1)
  moreover have "window (?sv j) \<inter> unat ` set (ids @ [x]) = {}" for j
  proof (cases "j = i")
    case True
    then show ?thesis using new old(2) by (fastforce simp: x v1)
  next
    case False
    then show ?thesis using inv old' [of j] by (fastforce simp: ids_inv_def x v1)
  qed
  moreover have "window (?sv j) \<inter> window (?sv k) = {}" if "j \<noteq> k" for j k
  proof -
    have "window (?sv i) \<inter> window (sv l) = {}" for l using new old' [of l] by fastforce
    then show ?thesis using inv that by (cases "j = i"; cases "k = i") (auto simp: ids_inv_def)
  qed
  moreover have "unat (al_base (sv_alloc (?sv j))) \<le> unat (al_end (sv_alloc (?sv j))) \<and>
      unat (al_end (sv_alloc (?sv j))) \<le> unat v + 1000" for j
  proof (cases "j = i")
    case False
    then have "unat (al_end (sv_alloc (sv j))) \<le> unat v" using inv by (simp add: ids_inv_def st)
    then show ?thesis using False inv by (simp add: ids_inv_def)
  qed (simp add: x e v1)
  moreover have "v + batch \<noteq> 0" using e by auto
  moreover have "unat y \<le> unat v + 1000" if "y \<in> set (ids @ [x])" for y
    using that old(2) [of y] by (auto simp: x v1)
  ultimately show ?thesis
    using \<open>unat v \<le> n * 1000\<close> unfolding ids_inv_def stored_id_update e by auto
qed

lemma id_run_inv:
  assumes laws: "etcd_laws E kvs"
  shows "id_run E kvs sig n ids sv s \<Longrightarrow> n * 1000 < 2 ^ 64 \<Longrightarrow> ids_inv (kvs s) n ids sv"
proof (induction rule: id_run.induct)
  case (Run_start s)
  then show ?case by (simp add: ids_inv_def stored_id_def freshServer_def newIDAllocator_def window_def)
next
  case (Run_local n ids sv s i x a s')
  then have "take_id (sv_alloc (sv i)) = (x, a)" "s' = s" by (auto simp: newID_def Let_def split: prod.splits)
  with ids_inv_local [OF Run_local.IH [OF Run_local.prems] Run_local.hyps(2)] show ?case by (simp only:)
next
  case (Run_read n ids sv s i v)
  then show ?case by (simp add: ids_inv_def window_def)
next
  case (Run_reserve n ids sv s i v e s' x a)
  have c: "if v = 0 then kvs s pdIDPath = None else kvs s pdIDPath = Some (Uint64ToBytes v)"
    "kvs s' = (kvs s)(pdIDPath \<mapsto> Uint64ToBytes (v + batch))" "e = v + batch"
    using reserve_cases [OF laws Run_reserve.hyps(3)] by auto
  have "ids_inv (kvs s) n ids sv" using Run_reserve by simp
  from ids_inv_reserve [OF this c(1) Run_reserve.prems Run_reserve.hyps(4) [unfolded c(3)]]
  show ?case unfolding c(2) .
next
  case (Run_refused n ids sv s i v err s')
  have inv: "ids_inv (kvs s) n ids sv" using Run_refused by simp
  consider "kvs s' = kvs s" | "if v = 0 then kvs s pdIDPath = None else kvs s pdIDPath = Some (Uint64ToBytes v)"
    "kvs s' = (kvs s)(pdIDPath \<mapsto> Uint64ToBytes (v + batch))"
    using reserve_cases [OF laws Run_refused.hyps(3)] by blast
  then have "stored_id (kvs s) \<le> stored_id (kvs s') \<and> stored_id (kvs s') \<le> Suc n * 1000 \<and>
      (\<forall>b. kvs s' pdIDPath = Some b \<longrightarrow> (\<exists>v. v \<noteq> 0 \<and> b = Uint64ToBytes v))"
  proof cases
    case 1
    then show ?thesis using inv by (auto simp: ids_inv_def)
  next
    case 2
    note v = 2(1) and s' = 2(2)
    obtain x a where a: "take_id (adopt_window (v + batch) (sv_alloc (sv i))) = (x, a)" by fastforce
    have "stored_id (kvs s) = unat v" using v by (auto simp: stored_id_def split: if_splits)
    moreover from ids_inv_reserve [OF inv v Run_refused.prems a]
    have "unat (v + batch) \<le> Suc n * 1000" "unat x \<le> unat (v + batch)" "v + batch \<noteq> 0"
      unfolding ids_inv_def stored_id_update by auto
    moreover have "unat v \<le> n * 1000" using inv \<open>stored_id (kvs s) = unat v\<close> by (simp add: ids_inv_def)
    ultimately show ?thesis
      using v Run_refused.prems unat_window [of v n] by (simp add: s')
  qed
  then show ?case by (intro ids_inv_mono [OF inv]) auto
next
  case (Run_restart n ids sv s i)
  then show ?case by (auto simp: ids_inv_def freshServer_def newIDAllocator_def window_def)
next
  case (Run_other n ids sv s s')
  then show ?case by (simp add: ids_inv_def stored_id_def)
qed

text \<open>C5: identifiers are unique.  Whatever servers share the record in etcd, however their reads
  and reservations interleave, whether or not they still lead, and whether or not answers of etcd
  are lost or servers restart, no identifier is handed out twice, as long as the windows asked for
  fit into 64 bits.\<close>

theorem ids_unique:
  assumes "etcd_laws E kvs" "id_run E kvs sig n ids sv s" "n * 1000 < 2 ^ 64"
  shows "distinct ids"
  using id_run_inv [OF assms] by (simp add: ids_inv_def)

theorem ids_unique_witness:
  "\<exists>sv s. id_run map_etcd (\<lambda>s. s) (\<lambda>_. [7]) 1 [1, 2] sv s \<and> distinct [1 :: u64, 2]"
proof -
  let ?s = "[pdLeaderPath \<mapsto> [7]]"
  let ?s' = "?s(pdIDPath \<mapsto> Uint64ToBytes 1000)"
  have "id_run map_etcd (\<lambda>s. s) (\<lambda>_. [7]) 0 [] (\<lambda>_. freshServer) ?s"
    by (rule Run_start) (simp add: pdIDPath_def pdLeaderPath_def)
  then have 1: "id_run map_etcd (\<lambda>s. s) (\<lambda>_. [7]) 0 [] ((\<lambda>_. freshServer)(0 := freshServer\<lparr>sv_read := Some 0\<rparr>)) ?s"
    by (rule Run_read [where i = 0, simplified])
      (simp_all add: freshServer_def newIDAllocator_def GetID_def getValue_def map_etcd_def pdIDPath_def pdLeaderPath_def)
  let ?sv = "(\<lambda>_. freshServer)(0 := \<lparr>sv_alloc = \<lparr>al_base = 1, al_end = 1000\<rparr>, sv_read = None\<rparr>)"
  have "id_run map_etcd (\<lambda>s. s) (\<lambda>_. [7]) (Suc 0) ([] @ [1])
      (((\<lambda>_. freshServer)(0 := freshServer\<lparr>sv_read := Some 0\<rparr>))(0 := \<lparr>sv_alloc = \<lparr>al_base = 1, al_end = 1000\<rparr>, sv_read = None\<rparr>)) ?s'"
    by (rule Run_reserve [OF 1, where v = 0 and e = 1000])
      (simp_all add: reserve_def CreateID_def leaderTxn_def leaderCmp_def committed_def map_etcd_def batch_def freshServer_def
        newIDAllocator_def take_id_def adopt_window_def pdIDPath_def pdLeaderPath_def)
  then have 2: "id_run map_etcd (\<lambda>s. s) (\<lambda>_. [7]) 1 [1] ?sv ?s'" by simp
  have "newID map_etcd [7] (sv_alloc (?sv 0)) ?s' = (Inr 2, \<lparr>al_base = 2, al_end = 1000\<rparr>, ?s')"
    by (simp add: newID_def take_id_def)
  with Run_local [OF 2, of 0 2 "\<lparr>al_base = 2, al_end = 1000\<rparr>" ?s']
  obtain sv s where r: "id_run map_etcd (\<lambda>s. s) (\<lambda>_. [7]) 1 [1, 2] sv s" by auto
  then have "distinct [1 :: u64, 2]" by (rule ids_unique [OF map_etcd_laws]) simp
  with r show ?thesis by blast
qed

end
