(* ===== verification/Pd_Cache.thy ===== *)
theory Pd_Cache
  imports Pd_Alloc Cell_Tree "HOL-Library.AList"
begin

text \<open>
  \<^verbatim>\<open>pkg/pdserver/cache.go\<close>, \<^verbatim>\<open>cache_cell.go\<close>, \<^verbatim>\<open>cache_store.go\<close>: what the placement driver knows of
  cells and stores, fed by their heartbeats.  The inner maps of the leader and follower index
  are total: a missing inner map of the code reads and deletes like an empty one.
\<close>

subsection \<open>Cells\<close>

record PeerStats =
  pt_Peer :: Peer
  pt_DownSeconds :: u64

record CellInfo =
  ci_Meta :: Cell
  ci_LeaderPeer :: "Peer option"
  ci_DownPeers :: "PeerStats list"
  ci_PendingPeers :: "Peer list"

definition newCellInfo :: "Cell \<Rightarrow> Peer option \<Rightarrow> CellInfo" where
  "newCellInfo cell leader = \<lparr>ci_Meta = cell, ci_LeaderPeer = leader, ci_DownPeers = [], ci_PendingPeers = []\<rparr>"

abbreviation ci_ID :: "CellInfo \<Rightarrow> u64" where
  "ci_ID i \<equiv> c_ID (ci_Meta i)"

abbreviation ci_Peers :: "CellInfo \<Rightarrow> Peer list" where
  "ci_Peers i \<equiv> c_Peers (ci_Meta i)"

definition getFollowers :: "CellInfo \<Rightarrow> (u64 \<times> Peer) list" where
  "getFollowers cc =
     fold (\<lambda>peer m. if (case ci_LeaderPeer cc of None \<Rightarrow> True | Some l \<Rightarrow> p_ID l \<noteq> p_ID peer)
                    then AList.update (p_StoreID peer) peer m else m) (ci_Peers cc) []"

definition getStorePeer :: "CellInfo \<Rightarrow> u64 \<Rightarrow> Peer option" where
  "getStorePeer cc storeID = find (\<lambda>peer. p_StoreID peer = storeID) (ci_Peers cc)"

definition removeStorePeer :: "CellInfo \<Rightarrow> u64 \<Rightarrow> CellInfo" where
  "removeStorePeer cc storeID =
     cc\<lparr>ci_Meta := (ci_Meta cc)\<lparr>c_Peers := filter (\<lambda>peer. p_StoreID peer \<noteq> storeID) (ci_Peers cc)\<rparr>\<rparr>"

definition getPendingPeer :: "CellInfo \<Rightarrow> u64 \<Rightarrow> Peer option" where
  "getPendingPeer cc peerID = find (\<lambda>peer. p_ID peer = peerID) (ci_PendingPeers cc)"

definition ci_getPeer :: "CellInfo \<Rightarrow> u64 \<Rightarrow> Peer option" where
  "ci_getPeer cc peerID = find (\<lambda>peer. p_ID peer = peerID) (ci_Peers cc)"

definition getStoreIDs :: "CellInfo \<Rightarrow> u64 list" where
  "getStoreIDs cc = remdups (map p_StoreID (ci_Peers cc))"

record cellCache =
  cc_tree :: CellTree
  cc_cells :: "u64 \<rightharpoonup> CellInfo"
  cc_leaders :: "u64 \<Rightarrow> u64 \<rightharpoonup> CellInfo"
  cc_followers :: "u64 \<Rightarrow> u64 \<rightharpoonup> CellInfo"

definition newCellCache :: cellCache where
  "newCellCache = \<lparr>cc_tree = NewCellTree, cc_cells = (\<lambda>_. None), cc_leaders = (\<lambda>_ _. None), cc_followers = (\<lambda>_ _. None)\<rparr>"

definition unindex_peer :: "CellInfo \<Rightarrow> Peer \<Rightarrow> cellCache \<Rightarrow> cellCache" where
  "unindex_peer origin peer cc =
     cc\<lparr>cc_leaders := (cc_leaders cc)(p_StoreID peer := (cc_leaders cc (p_StoreID peer))(ci_ID origin := None)),
        cc_followers := (cc_followers cc)(p_StoreID peer := (cc_followers cc (p_StoreID peer))(ci_ID origin := None))\<rparr>"

definition removeCell :: "CellInfo \<Rightarrow> cellCache \<Rightarrow> cellCache" where
  "removeCell origin cc =
     fold (unindex_peer origin) (ci_Peers origin)
       (cc\<lparr>cc_tree := snd (CellTree_Remove (cc_tree cc) (ci_Meta origin)), cc_cells := (cc_cells cc)(ci_ID origin := None)\<rparr>)"

definition index_peer :: "CellInfo \<Rightarrow> Peer \<Rightarrow> Peer \<Rightarrow> cellCache \<Rightarrow> cellCache" where
  "index_peer origin leader peer cc =
     (if p_ID peer = p_ID leader
      then cc\<lparr>cc_leaders := (cc_leaders cc)(p_StoreID peer := (cc_leaders cc (p_StoreID peer))(ci_ID origin \<mapsto> origin))\<rparr>
      else cc\<lparr>cc_followers := (cc_followers cc)(p_StoreID peer := (cc_followers cc (p_StoreID peer))(ci_ID origin \<mapsto> origin))\<rparr>)"

definition addOrUpdate :: "CellInfo \<Rightarrow> cellCache \<Rightarrow> cellCache" where
  "addOrUpdate origin cc =
     (let cc = (case cc_cells cc (ci_ID origin) of Some cell \<Rightarrow> removeCell cell cc | None \<Rightarrow> cc);
          cc = cc\<lparr>cc_tree := CellTree_Update (cc_tree cc) (ci_Meta origin), cc_cells := (cc_cells cc)(ci_ID origin \<mapsto> origin)\<rparr>
      in case ci_LeaderPeer origin of
           None \<Rightarrow> cc
         | Some leader \<Rightarrow> if p_ID leader = 0 then cc else fold (index_peer origin leader) (ci_Peers origin) cc)"

definition createAndAdd :: "Cell \<Rightarrow> cellCache \<Rightarrow> cellCache" where
  "createAndAdd cell cc = addOrUpdate (newCellInfo cell None) cc"

definition searchCell :: "cellCache \<Rightarrow> bytes \<Rightarrow> CellInfo option" where
  "searchCell cc startKey =
     (let cell = CellTree_Search (cc_tree cc) startKey
      in if c_ID cell = 0 then None else cc_cells cc (c_ID cell))"

text \<open>A random cell is the first suitable one in the iteration order of the map, which is a
  parameter: any enumeration of the map's cells.\<close>

fun randCell :: "CellInfo list \<Rightarrow> fault + CellInfo option" where
  "randCell [] = Inr None"
| "randCell (cell # cells) =
     (if ci_LeaderPeer cell = None then Inl Fatalf
      else if length (ci_DownPeers cell) > 0 then randCell cells
      else if length (ci_PendingPeers cell) > 0 then randCell cells
      else Inr (Some cell))"

type_synonym cellOrder = "(u64 \<rightharpoonup> CellInfo) \<Rightarrow> CellInfo list"

definition randFollowerCell :: "cellOrder \<Rightarrow> cellCache \<Rightarrow> u64 \<Rightarrow> fault + CellInfo option" where
  "randFollowerCell ord cc storeID = randCell (ord (cc_followers cc storeID))"

definition randLeaderCell :: "cellOrder \<Rightarrow> cellCache \<Rightarrow> u64 \<Rightarrow> fault + CellInfo option" where
  "randLeaderCell ord cc storeID = randCell (ord (cc_leaders cc storeID))"

definition getStoreLeaderCount :: "cellCache \<Rightarrow> u64 \<Rightarrow> nat" where
  "getStoreLeaderCount cc storeID = card (dom (cc_leaders cc storeID))"

text \<open>\<^verbatim>\<open>idCache\<close>: identifiers with an expiry time.\<close>

record idCache =
  ic_items :: "u64 \<rightharpoonup> int"
  ic_ttl :: int

definition idCache_set :: "int \<Rightarrow> u64 \<Rightarrow> idCache \<Rightarrow> idCache" where
  "idCache_set now i c = c\<lparr>ic_items := (ic_items c)(i \<mapsto> now + ic_ttl c)\<rparr>"

definition idCache_get :: "int \<Rightarrow> u64 \<Rightarrow> idCache \<Rightarrow> bool" where
  "idCache_get now i c = (case ic_items c i of None \<Rightarrow> False | Some expire \<Rightarrow> \<not> expire < now)"

definition idCache_doGC :: "int \<Rightarrow> idCache \<Rightarrow> idCache" where
  "idCache_doGC now c =
     c\<lparr>ic_items := (\<lambda>i. case ic_items c i of None \<Rightarrow> None | Some expire \<Rightarrow> if expire < now then None else Some expire)\<rparr>"

subsection \<open>Stores\<close>

text \<open>Times are in nanoseconds since the zero time; \<^verbatim>\<open>Status\<close> is never nil, both constructors
  set it.\<close>

record StoreStats =
  tt_StoreID :: u64
  tt_Capacity :: u64
  tt_Available :: u64
  tt_CellCount :: "32 word"
  tt_SendingSnapCount :: "32 word"
  tt_ReceivingSnapCount :: "32 word"
  tt_ApplyingSnapCount :: "32 word"
  tt_IsBusy :: bool
  tt_LogLevel :: int

definition zeroStats :: StoreStats where
  "zeroStats = \<lparr>tt_StoreID = 0, tt_Capacity = 0, tt_Available = 0, tt_CellCount = 0, tt_SendingSnapCount = 0,
     tt_ReceivingSnapCount = 0, tt_ApplyingSnapCount = 0, tt_IsBusy = False, tt_LogLevel = 0\<rparr>"

record StoreStatus =
  ss_Stats :: StoreStats
  ss_LeaderCount :: "32 word"
  ss_LastHeartbeatTS :: int
  ss_blocked :: bool

definition newStoreStatus :: StoreStatus where
  "newStoreStatus = \<lparr>ss_Stats = zeroStats, ss_LeaderCount = 0, ss_LastHeartbeatTS = 0, ss_blocked = False\<rparr>"

record StoreInfo =
  si_Meta :: Store
  si_Status :: StoreStatus

definition newStoreInfo :: "Store \<Rightarrow> StoreInfo" where
  "newStoreInfo st = \<lparr>si_Meta = st, si_Status = newStoreStatus\<rparr>"

definition isUp :: "StoreInfo \<Rightarrow> bool" where "isUp s = (s_State (si_Meta s) = UP)"
definition isTombstone :: "StoreInfo \<Rightarrow> bool" where "isTombstone s = (s_State (si_Meta s) = Tombstone)"
definition isOffline :: "StoreInfo \<Rightarrow> bool" where "isOffline s = (s_State (si_Meta s) = Down)"

text \<open>Times are integers.  For a store without a heartbeat the code's difference, to the zero time,
  saturates at the largest duration; here it is the plain difference, which is larger still.\<close>

definition downTime :: "int \<Rightarrow> StoreInfo \<Rightarrow> int" where
  "downTime now s = now - ss_LastHeartbeatTS (si_Status s)"

text \<open>The stores as an association list: the iteration order of the code's map is unspecified,
  here it is the order of the list.\<close>

type_synonym storeCache = "(u64 \<times> StoreInfo) list"

definition createStoreInfo :: "Store \<Rightarrow> storeCache \<Rightarrow> storeCache" where
  "createStoreInfo st sc = (if map_of sc (s_ID st) \<noteq> None then sc else AList.update (s_ID st) (newStoreInfo st) sc)"

definition updateStoreInfo :: "StoreInfo \<Rightarrow> storeCache \<Rightarrow> storeCache" where
  "updateStoreInfo st sc = AList.update (s_ID (si_Meta st)) st sc"

definition getStore :: "storeCache \<Rightarrow> u64 \<Rightarrow> StoreInfo option" where
  "getStore sc storeID = map_of sc storeID"

definition getStores :: "storeCache \<Rightarrow> StoreInfo list" where
  "getStores sc = map snd sc"

definition setStoreOffline :: "storeCache \<Rightarrow> u64 \<Rightarrow> string + StoreInfo option" where
  "setStoreOffline sc storeID =
     (case getStore sc storeID of
        None \<Rightarrow> Inl ''store is not found''
      | Some store \<Rightarrow>
          if isOffline store then Inr None
          else if isTombstone store then Inl ''store has been removed''
          else Inr (Some (store\<lparr>si_Meta := (si_Meta store)\<lparr>s_State := Down\<rparr>\<rparr>)))"

definition setStoreTombstone :: "storeCache \<Rightarrow> u64 \<Rightarrow> bool \<Rightarrow> string + StoreInfo option" where
  "setStoreTombstone sc storeID force =
     (case getStore sc storeID of
        None \<Rightarrow> Inl ''store is not found''
      | Some store \<Rightarrow>
          if isTombstone store then Inr None
          else if isUp store \<and> \<not> force then Inl ''store is still up, please remove store gracefully''
          else Inr (Some (store\<lparr>si_Meta := (si_Meta store)\<lparr>s_State := Tombstone\<rparr>, si_Status := newStoreStatus\<rparr>)))"

definition getCellStores :: "storeCache \<Rightarrow> CellInfo \<Rightarrow> StoreInfo list" where
  "getCellStores sc cell = List.map_filter (getStore sc) (getStoreIDs cell)"

definition getFollowerStores :: "storeCache \<Rightarrow> CellInfo \<Rightarrow> StoreInfo list" where
  "getFollowerStores sc cell = List.map_filter (\<lambda>(i, _). getStore sc i) (getFollowers cell)"

definition getLabelValue :: "StoreInfo \<Rightarrow> string \<Rightarrow> string" where
  "getLabelValue s key = (case map_of (s_Lables (si_Meta s)) key of None \<Rightarrow> [] | Some v \<Rightarrow> v)"

fun getLocationID :: "StoreInfo \<Rightarrow> string list \<Rightarrow> string \<Rightarrow> string" where
  "getLocationID s [] i = i"
| "getLocationID s (k # ks) i =
     (let v = getLabelValue s k in if length v = 0 then [] else getLocationID s ks (i @ v))"

subsection \<open>The cache and its heartbeats\<close>

datatype WatchEvent =
    CellCreated Cell "Store option"
  | CellLeaderChanged Cell "Store option"
  | CellRangeChaned Cell "Store option"
  | CellPeersChaned Cell "Store option"
  | StoreUp Store
  | StoreDown Store
  | StoreTombstone Store

text \<open>\<^verbatim>\<open>ch_events\<close> are the events handed to the watcher notifier, \<^verbatim>\<open>ch_etcd\<close> the state of the etcd client.\<close>

record 's pdCache =
  ch_sc :: storeCache
  ch_cc :: cellCache
  ch_alloc :: idAllocator
  ch_events :: "WatchEvent list"
  ch_etcd :: 's

definition newCache :: "'s \<Rightarrow> 's pdCache" where
  "newCache s = \<lparr>ch_sc = [], ch_cc = newCellCache, ch_alloc = newIDAllocator, ch_events = [], ch_etcd = s\<rparr>"

record 's pdEnv =
  pv_etcd :: "'s etcd"
  pv_codec :: pdCodec
  pv_clusterID :: u64
  pv_leaderSignature :: bytes

definition cache_newID :: "'s pdEnv \<Rightarrow> 's pdCache \<Rightarrow> (string + u64) \<times> 's pdCache" where
  "cache_newID env c =
     (let (r, alloc, s) = newID (pv_etcd env) (pv_leaderSignature env) (ch_alloc c) (ch_etcd c)
      in (r, c\<lparr>ch_alloc := alloc, ch_etcd := s\<rparr>))"

definition allocPeer :: "'s pdEnv \<Rightarrow> u64 \<Rightarrow> bool \<Rightarrow> 's pdCache \<Rightarrow> (string + Peer) \<times> 's pdCache" where
  "allocPeer env storeID allocPeerID c =
     (if allocPeerID then
        (case cache_newID env c of
           (Inl err, c) \<Rightarrow> (Inl err, c)
         | (Inr peerID, c) \<Rightarrow> (Inr \<lparr>p_ID = peerID, p_StoreID = storeID\<rparr>, c))
      else (Inr \<lparr>p_ID = 0, p_StoreID = storeID\<rparr>, c))"

definition doSaveCellInfo :: "'s pdEnv \<Rightarrow> CellInfo \<Rightarrow> 's pdCache \<Rightarrow> string option \<times> 's pdCache" where
  "doSaveCellInfo env source c =
     (case SetCellMeta (pv_etcd env) (pv_codec env) (pv_clusterID env) (ci_Meta source) (ch_etcd c) of
        (Some err, s) \<Rightarrow> (Some err, c\<lparr>ch_etcd := s\<rparr>)
      | (None, s) \<Rightarrow> (None, c\<lparr>ch_etcd := s, ch_cc := addOrUpdate source (ch_cc c)\<rparr>))"

definition notifyStoreRange :: "u64 \<Rightarrow> 's pdCache \<Rightarrow> 's pdCache" where
  "notifyStoreRange i c =
     (case getStore (ch_sc c) i of
        None \<Rightarrow> c
      | Some store \<Rightarrow>
          (let et = (case s_State (si_Meta store) of UP \<Rightarrow> StoreUp | Down \<Rightarrow> StoreDown | Tombstone \<Rightarrow> StoreTombstone)
           in c\<lparr>ch_events := ch_events c @ [et (si_Meta store)]\<rparr>))"

definition notifyChangedRange :: "u64 \<Rightarrow> (Cell \<Rightarrow> Store option \<Rightarrow> WatchEvent) \<Rightarrow> 's pdCache \<Rightarrow> fault + 's pdCache" where
  "notifyChangedRange i et c =
     (case cc_cells (ch_cc c) i of
        None \<Rightarrow> Inl Panic
      | Some cr \<Rightarrow>
          sbind (case ci_LeaderPeer cr of
                   None \<Rightarrow> Inr None
                 | Some l \<Rightarrow> (case getStore (ch_sc c) (p_StoreID l) of None \<Rightarrow> Inl Panic | Some st \<Rightarrow> Inr (Some (si_Meta st))))
            (\<lambda>st. Inr (c\<lparr>ch_events := ch_events c @ [et (ci_Meta cr) st]\<rparr>)))"

definition errStaleCell :: string where
  "errStaleCell = ''stale cell epoch''"

definition handleCellHeartbeat :: "'s pdEnv \<Rightarrow> CellInfo \<Rightarrow> 's pdCache \<Rightarrow> fault + string option \<times> 's pdCache" where
  "handleCellHeartbeat env source c =
     (case cc_cells (ch_cc c) (ci_ID source) of
        None \<Rightarrow>
          (case doSaveCellInfo env source c of
             (Some err, c) \<Rightarrow> Inr (Some err, c)
           | (None, c) \<Rightarrow> sbind (notifyChangedRange (ci_ID source) CellCreated c) (\<lambda>c. Inr (None, c)))
      | Some current \<Rightarrow>
          (let currentEpoch = c_Epoch (ci_Meta current); sourceEpoch = c_Epoch (ci_Meta source)
           in if e_CellVer sourceEpoch < e_CellVer currentEpoch \<or> e_ConfVer sourceEpoch < e_ConfVer currentEpoch
              then Inr (Some errStaleCell, c)
              else
                (let rangeChanged = e_CellVer sourceEpoch > e_CellVer currentEpoch;
                     peersChanged = e_ConfVer sourceEpoch > e_ConfVer currentEpoch
                 in if rangeChanged \<or> peersChanged then
                      (case doSaveCellInfo env source c of
                         (Some err, c) \<Rightarrow> Inr (Some err, c)
                       | (None, c) \<Rightarrow>
                           sbind (notifyChangedRange (ci_ID source) (if rangeChanged then CellRangeChaned else CellPeersChaned) c)
                             (\<lambda>c. Inr (None, c)))
                    else
                      sbind (case ci_LeaderPeer current of
                               None \<Rightarrow> Inr True
                             | Some l \<Rightarrow> (case ci_LeaderPeer source of None \<Rightarrow> Inl Panic | Some l' \<Rightarrow> Inr (p_ID l \<noteq> p_ID l')))
                        (\<lambda>leaderChanged.
                          let c = c\<lparr>ch_cc := addOrUpdate source (ch_cc c)\<rparr>
                          in if leaderChanged
                             then sbind (notifyChangedRange (ci_ID source) CellLeaderChanged c) (\<lambda>c. Inr (None, c))
                             else Inr (None, c)))))"

subsection \<open>The indexes agree\<close>

definition leads :: "CellInfo \<Rightarrow> u64 \<Rightarrow> bool" where
  "leads i storeID \<longleftrightarrow> (\<exists>l. ci_LeaderPeer i = Some l \<and> p_ID l \<noteq> 0 \<and>
     (\<exists>p \<in> set (ci_Peers i). p_ID p = p_ID l \<and> p_StoreID p = storeID))"

definition follows :: "CellInfo \<Rightarrow> u64 \<Rightarrow> bool" where
  "follows i storeID \<longleftrightarrow> (\<exists>l. ci_LeaderPeer i = Some l \<and> p_ID l \<noteq> 0 \<and>
     (\<exists>p \<in> set (ci_Peers i). p_ID p \<noteq> p_ID l \<and> p_StoreID p = storeID))"

definition indexed :: "(u64 \<rightharpoonup> CellInfo) \<Rightarrow> (CellInfo \<Rightarrow> u64 \<Rightarrow> bool) \<Rightarrow> u64 \<Rightarrow> u64 \<rightharpoonup> CellInfo" where
  "indexed cells P storeID cellID =
     (case cells cellID of None \<Rightarrow> None | Some i \<Rightarrow> if P i storeID then Some i else None)"

definition cache_ok :: "cellCache \<Rightarrow> bool" where
  "cache_ok cc \<longleftrightarrow> cells_wf (cc_tree cc) \<and>
     (\<forall>c \<in> set (cc_tree cc). \<exists>i. cc_cells cc (c_ID c) = Some i \<and> ci_Meta i = c) \<and>
     (\<forall>cid i. cc_cells cc cid = Some i \<longrightarrow> ci_ID i = cid \<and> valid_range (ci_Meta i)) \<and>
     cc_leaders cc = indexed (cc_cells cc) leads \<and>
     cc_followers cc = indexed (cc_cells cc) follows"

lemma unindex_peers_fields:
  "cc_tree (fold (unindex_peer i) ps cc) = cc_tree cc"
  "cc_cells (fold (unindex_peer i) ps cc) = cc_cells cc"
  "cc_leaders (fold (unindex_peer i) ps cc) = (\<lambda>sid. if sid \<in> p_StoreID ` set ps
     then (cc_leaders cc sid)(ci_ID i := None) else cc_leaders cc sid)"
  "cc_followers (fold (unindex_peer i) ps cc) = (\<lambda>sid. if sid \<in> p_StoreID ` set ps
     then (cc_followers cc sid)(ci_ID i := None) else cc_followers cc sid)"
  by (induction ps arbitrary: cc) (auto simp: unindex_peer_def fun_eq_iff)

lemma removeCell_fields:
  "cc_tree (removeCell i cc) = snd (CellTree_Remove (cc_tree cc) (ci_Meta i))"
  "cc_cells (removeCell i cc) = (cc_cells cc)(ci_ID i := None)"
  "cc_leaders (removeCell i cc) = (\<lambda>sid. if sid \<in> p_StoreID ` set (ci_Peers i)
     then (cc_leaders cc sid)(ci_ID i := None) else cc_leaders cc sid)"
  "cc_followers (removeCell i cc) = (\<lambda>sid. if sid \<in> p_StoreID ` set (ci_Peers i)
     then (cc_followers cc sid)(ci_ID i := None) else cc_followers cc sid)"
  by (simp_all add: removeCell_def unindex_peers_fields fun_eq_iff)

lemma index_peers_fields:
  "cc_tree (fold (index_peer o' l) ps cc) = cc_tree cc"
  "cc_cells (fold (index_peer o' l) ps cc) = cc_cells cc"
  "cc_leaders (fold (index_peer o' l) ps cc) = (\<lambda>sid. if \<exists>p \<in> set ps. p_ID p = p_ID l \<and> p_StoreID p = sid
     then (cc_leaders cc sid)(ci_ID o' \<mapsto> o') else cc_leaders cc sid)"
  "cc_followers (fold (index_peer o' l) ps cc) = (\<lambda>sid. if \<exists>p \<in> set ps. p_ID p \<noteq> p_ID l \<and> p_StoreID p = sid
     then (cc_followers cc sid)(ci_ID o' \<mapsto> o') else cc_followers cc sid)"
  by (induction ps arbitrary: cc) (auto simp: index_peer_def fun_eq_iff)

lemma cache_okD:
  assumes "cache_ok cc"
  shows "cells_wf (cc_tree cc)"
    and "c \<in> set (cc_tree cc) \<Longrightarrow> \<exists>i. cc_cells cc (c_ID c) = Some i \<and> ci_Meta i = c"
    and "cc_cells cc cid = Some i \<Longrightarrow> ci_ID i = cid" "cc_cells cc cid = Some i \<Longrightarrow> valid_range (ci_Meta i)"
    and "cc_leaders cc = indexed (cc_cells cc) leads" "cc_followers cc = indexed (cc_cells cc) follows"
  using assms by (auto simp: cache_ok_def)

text \<open>Both indexes: dropping a cell from the stores of its peers, and adding it where it belongs.\<close>

lemma indexed_remove:
  assumes "cells cid = Some i" "\<And>sid. P i sid \<Longrightarrow> sid \<in> S"
  shows "(\<lambda>sid. if sid \<in> S then (indexed cells P sid)(cid := None) else indexed cells P sid) =
    indexed (cells(cid := None)) P"
  using assms by (force simp: indexed_def fun_eq_iff)

lemma indexed_none: "cells cid = None \<Longrightarrow> indexed (cells(cid := None)) P = indexed cells P"
  by (simp add: indexed_def fun_eq_iff)

lemma indexed_add:
  "cells cid = None \<Longrightarrow> (\<lambda>sid. if P i sid then (indexed cells P sid)(cid \<mapsto> i) else indexed cells P sid) =
    indexed (cells(cid \<mapsto> i)) P"
  by (auto simp: indexed_def fun_eq_iff)

text \<open>What \<^verbatim>\<open>addOrUpdate\<close> starts from: the cell is in no index.\<close>

lemma removed_tree:
  assumes ok: "cache_ok cc" and cell: "cc_cells cc cid = Some cell" and c: "c \<in> set (cc_tree (removeCell cell cc))"
  shows "c \<in> set (cc_tree cc)" and "c_ID c \<noteq> cid"
proof -
  note wf = cache_okD(1) [OF ok]
  have id: "ci_ID cell = cid" by (rule cache_okD(3) [OF ok cell])
  have rem: "cc_tree (removeCell cell cc) = (case owner (cc_tree cc) (c_Start (ci_Meta cell)) of
      None \<Rightarrow> cc_tree cc | Some r \<Rightarrow> if c_ID r = cid then filter (\<lambda>d. d \<noteq> r) (cc_tree cc) else cc_tree cc)"
    by (simp add: removeCell_fields CellTree_Remove_eq [OF wf] id split: option.split)
  then show tree: "c \<in> set (cc_tree cc)" using c by (auto split: option.splits if_splits)
  show "c_ID c \<noteq> cid"
  proof
    assume "c_ID c = cid"
    then have "c = ci_Meta cell" using cache_okD(2) [OF ok tree] cell by auto
    then have "owner (cc_tree cc) (c_Start (ci_Meta cell)) = Some c"
      using tree cells_wf_valid [OF wf tree] owner_Some [OF wf] by simp
    then show False using c rem \<open>c_ID c = cid\<close> by simp
  qed
qed

lemma removeCell_ok:
  assumes ok: "cache_ok cc" and cell: "cc_cells cc cid = Some cell"
  shows "cache_ok (removeCell cell cc)" and "cc_cells (removeCell cell cc) = (cc_cells cc)(cid := None)"
proof -
  have id: "ci_ID cell = cid" by (rule cache_okD(3) [OF ok cell])
  show cells: "cc_cells (removeCell cell cc) = (cc_cells cc)(cid := None)" by (simp add: removeCell_fields id)
  have "cc_leaders (removeCell cell cc) = indexed ((cc_cells cc)(cid := None)) leads"
    unfolding removeCell_fields id cache_okD(5) [OF ok] by (rule indexed_remove [of "cc_cells cc" cid cell, OF cell]) (auto simp: leads_def)
  moreover have "cc_followers (removeCell cell cc) = indexed ((cc_cells cc)(cid := None)) follows"
    unfolding removeCell_fields id cache_okD(6) [OF ok] by (rule indexed_remove [of "cc_cells cc" cid cell, OF cell]) (auto simp: follows_def)
  moreover have "cells_wf (cc_tree (removeCell cell cc))"
    by (simp add: removeCell_fields CellTree_Remove_wf cache_okD(1) [OF ok])
  moreover have "\<forall>c \<in> set (cc_tree (removeCell cell cc)). \<exists>i. ((cc_cells cc)(cid := None)) (c_ID c) = Some i \<and> ci_Meta i = c"
    using removed_tree [OF ok cell] cache_okD(2) [OF ok] by simp
  ultimately show "cache_ok (removeCell cell cc)"
    unfolding cache_ok_def cells using cache_okD(3,4) [OF ok] by simp
qed

lemma addOrUpdate_fields:
  assumes ok: "cache_ok cc" and v: "valid_range (ci_Meta i)"
  shows "cache_ok (addOrUpdate i cc)" and "cc_cells (addOrUpdate i cc) = (cc_cells cc)(ci_ID i \<mapsto> i)"
    and "ci_Meta i \<in> set (cc_tree (addOrUpdate i cc))"
proof -
  define cc0 where "cc0 = (case cc_cells cc (ci_ID i) of Some cell \<Rightarrow> removeCell cell cc | None \<Rightarrow> cc)"
  have ok0: "cache_ok cc0" and cells0: "cc_cells cc0 = (cc_cells cc)(ci_ID i := None)"
    using ok removeCell_ok [OF ok] by (auto simp: cc0_def split: option.splits)
  then have none: "cc_cells cc0 (ci_ID i) = None" by simp
  note wf = cache_okD(1) [OF ok0]
  note fields = addOrUpdate_def cc0_def [symmetric] index_peers_fields Let_def
  have tree: "cc_tree (addOrUpdate i cc) = CellTree_Update (cc_tree cc0) (ci_Meta i)"
    by (simp add: fields split: option.splits)
  show cells: "cc_cells (addOrUpdate i cc) = (cc_cells cc)(ci_ID i \<mapsto> i)"
    by (simp add: fields cells0 split: option.splits)
  have cells': "cc_cells (addOrUpdate i cc) = (cc_cells cc0)(ci_ID i \<mapsto> i)" by (simp add: cells cells0)
  show "ci_Meta i \<in> set (cc_tree (addOrUpdate i cc))" by (simp add: tree CellTree_Update_set [OF wf v])
  have "cc_leaders (addOrUpdate i cc) =
      (\<lambda>sid. if leads i sid then (cc_leaders cc0 sid)(ci_ID i \<mapsto> i) else cc_leaders cc0 sid)"
    by (auto simp: fields leads_def fun_eq_iff split: option.split)
  then have "cc_leaders (addOrUpdate i cc) = indexed (cc_cells (addOrUpdate i cc)) leads"
    by (simp only: cells' cache_okD(5) [OF ok0] indexed_add [of "cc_cells cc0" "ci_ID i", OF none])
  moreover have "cc_followers (addOrUpdate i cc) =
      (\<lambda>sid. if follows i sid then (cc_followers cc0 sid)(ci_ID i \<mapsto> i) else cc_followers cc0 sid)"
    by (auto simp: fields follows_def fun_eq_iff split: option.split)
  then have "cc_followers (addOrUpdate i cc) = indexed (cc_cells (addOrUpdate i cc)) follows"
    by (simp only: cells' cache_okD(6) [OF ok0] indexed_add [of "cc_cells cc0" "ci_ID i", OF none])
  moreover have "\<forall>c \<in> set (cc_tree (addOrUpdate i cc)). \<exists>j. cc_cells (addOrUpdate i cc) (c_ID c) = Some j \<and> ci_Meta j = c"
  proof
    fix c assume "c \<in> set (cc_tree (addOrUpdate i cc))"
    then consider "c = ci_Meta i" | "c \<in> set (cc_tree cc0)" by (auto simp: tree CellTree_Update_set [OF wf v])
    then show "\<exists>j. cc_cells (addOrUpdate i cc) (c_ID c) = Some j \<and> ci_Meta j = c"
      by cases (use cache_okD(2) [OF ok0, of c] none in \<open>auto simp: cells'\<close>)
  qed
  moreover have "cells_wf (cc_tree (addOrUpdate i cc))" by (simp add: tree CellTree_Update_wf wf v)
  ultimately show "cache_ok (addOrUpdate i cc)"
    unfolding cache_ok_def using cache_okD(3,4) [OF ok0] v by (simp add: cells')
qed

lemma newCellCache_ok [simp]: "cache_ok newCellCache"
  by (simp add: cache_ok_def newCellCache_def NewCellTree_def indexed_def fun_eq_iff)

lemma searchCell_owner:
  assumes ok: "cache_ok cc"
  shows "searchCell cc k = Some i \<longleftrightarrow>
    ci_ID i \<noteq> 0 \<and> cc_cells cc (ci_ID i) = Some i \<and> owner (cc_tree cc) k = Some (ci_Meta i)"
proof -
  note wf = cache_okD(1) [OF ok]
  have search: "searchCell cc k = (case owner (cc_tree cc) k of None \<Rightarrow> None
      | Some c \<Rightarrow> if c_ID c = 0 then None else cc_cells cc (c_ID c))"
    using CellTree_find_owner [OF wf] by (simp add: searchCell_def CellTree_Search_def emptyCell_def split: option.split)
  show ?thesis
  proof (cases "owner (cc_tree cc) k")
    case (Some c)
    then have "c \<in> set (cc_tree cc)" using owner_Some [OF wf] by blast
    then obtain j where j: "cc_cells cc (c_ID c) = Some j" "ci_Meta j = c" using cache_okD(2) [OF ok] by blast
    then have "searchCell cc k = (if c_ID c = 0 then None else Some j)" using search Some by simp
    with j Some show ?thesis by (metis option.inject option.distinct(1))
  qed (simp add: search)
qed

end
