(* ===== verification/Pd_Schedule.thy ===== *)
theory Pd_Schedule
  imports Pd_Cache Raft_Msgs
begin

text \<open>
  The scheduling half of \<^verbatim>\<open>pkg/pdserver\<close>: operators (\<^verbatim>\<open>operator*.go\<close>), store filters
  (\<^verbatim>\<open>filter.go\<close>), the replica checker (\<^verbatim>\<open>replication.go\<close>, \<^verbatim>\<open>cfg_replication.go\<close>), the selector and the two
  balancers (\<^verbatim>\<open>selector.go\<close>, \<^verbatim>\<open>balancer*.go\<close>), the limiter and the scheduler loop (\<^verbatim>\<open>scheduler.go\<close>) and
  the coordinator that hands operators to heartbeats (\<^verbatim>\<open>coordinator.go\<close>).  Floating point arithmetic
  is a parameter: the model only relies on the order of the numbers, which is total since no
  division here has a zero divisor.
\<close>

record 'f floatOps =
  fo_of :: "u64 \<Rightarrow> 'f"
  fo_add :: "'f \<Rightarrow> 'f \<Rightarrow> 'f"
  fo_sub :: "'f \<Rightarrow> 'f \<Rightarrow> 'f"
  fo_mul :: "'f \<Rightarrow> 'f \<Rightarrow> 'f"
  fo_div :: "'f \<Rightarrow> 'f \<Rightarrow> 'f"
  fo_abs :: "'f \<Rightarrow> 'f"
  fo_sqrt :: "'f \<Rightarrow> 'f"
  fo_pow :: "'f \<Rightarrow> 'f \<Rightarrow> 'f"
  fo_int :: "'f \<Rightarrow> int"
  fo_uint :: "'f \<Rightarrow> u64"
  fo_stddev :: "'f list \<Rightarrow> 'f"

record pdCfg =
  cf_LabelsLocation :: "string list"
  cf_LimitReplicas :: "32 word"
  cf_LimitSnapshots :: u64
  cf_LimitStoreDownDuration :: int
  cf_LimitScheduleLeader :: u64
  cf_LimitScheduleCell :: u64
  cf_LimitScheduleReplica :: u64
  cf_ThresholdStorageRate :: int

record 'f schedEnv =
  sc_cfg :: pdCfg
  sc_now :: int
  sc_fl :: "'f floatOps"

subsection \<open>Operators\<close>

text \<open>The names of operators and the end time of an aggregation only appear in logs and JSON.\<close>

datatype ResourceKind = adminKind | leaderKind | cellKind

datatype basicOp =
    changePeerOperator u64 ConfChangeType Peer
  | transferLeaderOperator u64 "Peer option" Peer

datatype Operator =
    Basic basicOp
  | aggregationOperator u64 int nat "basicOp list"

record CellHeartbeatRsp =
  hr_ChangePeer :: "(ConfChangeType \<times> Peer) option"
  hr_TransferLeader :: "Peer option"

definition emptyRsp :: CellHeartbeatRsp where
  "emptyRsp = \<lparr>hr_ChangePeer = None, hr_TransferLeader = None\<rparr>"

definition newAddPeerOp :: "u64 \<Rightarrow> Peer \<Rightarrow> basicOp" where
  "newAddPeerOp cellID peer = changePeerOperator cellID AddNode peer"

definition newRemovePeerOp :: "u64 \<Rightarrow> Peer \<Rightarrow> basicOp" where
  "newRemovePeerOp cellID peer = changePeerOperator cellID RemoveNode peer"

definition newAggregationOp :: "int \<Rightarrow> CellInfo \<Rightarrow> basicOp list \<Rightarrow> fault + Operator" where
  "newAggregationOp now cell ops =
     (if length ops = 0 then Inl Fatalf else Inr (aggregationOperator (ci_ID cell) now 0 ops))"

definition newAddPeerAggregationOp :: "int \<Rightarrow> CellInfo \<Rightarrow> Peer \<Rightarrow> fault + Operator" where
  "newAddPeerAggregationOp now cell peer = newAggregationOp now cell [newAddPeerOp (ci_ID cell) peer]"

definition newTransferLeaderAggregationOp :: "int \<Rightarrow> CellInfo \<Rightarrow> Peer \<Rightarrow> fault + Operator" where
  "newTransferLeaderAggregationOp now cell newLeader =
     newAggregationOp now cell [transferLeaderOperator (ci_ID cell) (ci_LeaderPeer cell) newLeader]"

definition newTransferPeerAggregationOp :: "int \<Rightarrow> CellInfo \<Rightarrow> Peer \<Rightarrow> Peer \<Rightarrow> fault + Operator" where
  "newTransferPeerAggregationOp now cell oldPeer newPeer =
     newAggregationOp now cell [newAddPeerOp (ci_ID cell) newPeer, newRemovePeerOp (ci_ID cell) oldPeer]"

definition maxOperatorWaitTime :: int where
  "maxOperatorWaitTime = 5 * 60 * 10 ^ 9"

fun basic_Do :: "basicOp \<Rightarrow> CellInfo \<Rightarrow> fault + CellHeartbeatRsp option \<times> bool" where
  "basic_Do (changePeerOperator _ t peer) cell =
     (if t = AddNode \<and> getPendingPeer cell (p_ID peer) \<noteq> None then Inr (None, False)
      else if t = AddNode \<and> ci_getPeer cell (p_ID peer) \<noteq> None then Inr (None, True)
      else if t = RemoveNode \<and> ci_getPeer cell (p_ID peer) = None then Inr (None, True)
      else Inr (Some (emptyRsp\<lparr>hr_ChangePeer := Some (t, peer)\<rparr>), False))"
| "basic_Do (transferLeaderOperator _ _ newLeader) cell =
     (case ci_LeaderPeer cell of
        None \<Rightarrow> Inl Panic
      | Some l \<Rightarrow>
          if p_ID l = p_ID newLeader then Inr (None, True)
          else Inr (Some (emptyRsp\<lparr>hr_TransferLeader := Some newLeader\<rparr>), False))"

fun agg_loop :: "basicOp list \<Rightarrow> nat \<Rightarrow> CellInfo \<Rightarrow> fault + CellHeartbeatRsp option \<times> bool \<times> nat" where
  "agg_loop [] i target = Inr (None, True, i)"
| "agg_loop (op # ops) i target =
     sbind (basic_Do op target) (\<lambda>(res, finished).
       if \<not> finished then Inr (res, False, i) else agg_loop ops (i + 1) target)"

fun operator_Do :: "int \<Rightarrow> Operator \<Rightarrow> CellInfo \<Rightarrow> fault + CellHeartbeatRsp option \<times> bool \<times> Operator" where
  "operator_Do now (Basic op) target = sbind (basic_Do op target) (\<lambda>(res, finished). Inr (res, finished, Basic op))"
| "operator_Do now (aggregationOperator cellID startAt lastIndex ops) target =
     (if now - startAt > maxOperatorWaitTime then Inr (None, True, aggregationOperator cellID startAt lastIndex ops)
      else sbind (agg_loop (drop lastIndex ops) lastIndex target) (\<lambda>(res, finished, i).
             Inr (res, finished, aggregationOperator cellID startAt i ops)))"

fun GetCellID :: "Operator \<Rightarrow> u64" where
  "GetCellID (Basic (changePeerOperator cellID _ _)) = cellID"
| "GetCellID (Basic (transferLeaderOperator cellID _ _)) = cellID"
| "GetCellID (aggregationOperator cellID _ _ _) = cellID"

fun basic_kind :: "basicOp \<Rightarrow> ResourceKind" where
  "basic_kind (changePeerOperator _ _ _) = cellKind"
| "basic_kind (transferLeaderOperator _ _ _) = leaderKind"

fun GetResourceKind :: "Operator \<Rightarrow> fault + ResourceKind" where
  "GetResourceKind (Basic op) = Inr (basic_kind op)"
| "GetResourceKind (aggregationOperator _ _ _ ops) = (case ops of [] \<Rightarrow> Inl Panic | op # _ \<Rightarrow> Inr (basic_kind op))"

subsection \<open>Scores\<close>

definition leaderCount :: "StoreInfo \<Rightarrow> u64" where
  "leaderCount s = ucast (ss_LeaderCount (si_Status s))"

definition cellCount :: "StoreInfo \<Rightarrow> u64" where
  "cellCount s = ucast (tt_CellCount (ss_Stats (si_Status s)))"

definition leaderScore :: "'f floatOps \<Rightarrow> StoreInfo \<Rightarrow> 'f" where
  "leaderScore fl s = fo_of fl (leaderCount s)"

definition cellScore :: "'f floatOps \<Rightarrow> StoreInfo \<Rightarrow> 'f" where
  "cellScore fl s =
     (if tt_Capacity (ss_Stats (si_Status s)) = 0 then fo_of fl 0
      else fo_div fl (fo_of fl (cellCount s)) (fo_of fl (tt_Capacity (ss_Stats (si_Status s)))))"

definition storageSize :: "StoreInfo \<Rightarrow> u64" where
  "storageSize s = tt_Capacity (ss_Stats (si_Status s)) - tt_Available (ss_Stats (si_Status s))"

definition storageRatio :: "'f floatOps \<Rightarrow> StoreInfo \<Rightarrow> int" where
  "storageRatio fl s =
     (let cap = tt_Capacity (ss_Stats (si_Status s))
      in if cap = 0 then 0
         else fo_int fl (fo_div fl (fo_mul fl (fo_of fl (storageSize s)) (fo_of fl 100)) (fo_of fl cap)))"

definition resourceCount :: "StoreInfo \<Rightarrow> ResourceKind \<Rightarrow> u64" where
  "resourceCount s kind = (case kind of leaderKind \<Rightarrow> leaderCount s | cellKind \<Rightarrow> cellCount s | adminKind \<Rightarrow> 0)"

definition resourceScore :: "'f floatOps \<Rightarrow> StoreInfo \<Rightarrow> ResourceKind \<Rightarrow> 'f" where
  "resourceScore fl s kind =
     (case kind of leaderKind \<Rightarrow> leaderScore fl s | cellKind \<Rightarrow> cellScore fl s | adminKind \<Rightarrow> fo_of fl 0)"

fun score_stores :: "'f floatOps \<Rightarrow> string list \<Rightarrow> 'f \<Rightarrow> StoreInfo \<Rightarrow> StoreInfo list \<Rightarrow> 'f \<Rightarrow> 'f option" where
  "score_stores fl keys levelScore other [] score = Some score"
| "score_stores fl keys levelScore other (s # ss) score =
     (if s_ID (si_Meta s) = s_ID (si_Meta other) then score_stores fl keys levelScore other ss score
      else
        (let id1 = getLocationID s keys []; id2 = getLocationID other keys []
         in if length id1 = 0 then None
            else if length id2 = 0 then None
            else score_stores fl keys levelScore other ss (if id1 \<noteq> id2 then fo_add fl score levelScore else score)))"

fun score_levels :: "'f floatOps \<Rightarrow> string list \<Rightarrow> nat list \<Rightarrow> StoreInfo list \<Rightarrow> StoreInfo \<Rightarrow> 'f \<Rightarrow> 'f option" where
  "score_levels fl labels [] stores other score = Some score"
| "score_levels fl labels (i # is) stores other score =
     (let keys = take (i + 1) labels;
          level = length labels - i - 1;
          levelScore = fo_pow fl (fo_of fl 100) (fo_of fl (of_nat level))
      in Option.bind (score_stores fl keys levelScore other stores score)
           (\<lambda>score. score_levels fl labels is stores other score))"

definition getDistinctScore :: "'f schedEnv \<Rightarrow> StoreInfo list \<Rightarrow> StoreInfo \<Rightarrow> 'f" where
  "getDistinctScore env stores other =
     (let labels = cf_LabelsLocation (sc_cfg env); zero = fo_of (sc_fl env) 0
      in case score_levels (sc_fl env) labels [0..<length labels] stores other zero of None \<Rightarrow> zero | Some score \<Rightarrow> score)"

definition compareStoreScore :: "'f::linorder schedEnv \<Rightarrow> StoreInfo \<Rightarrow> 'f \<Rightarrow> StoreInfo \<Rightarrow> 'f \<Rightarrow> int" where
  "compareStoreScore env storeA scoreA storeB scoreB =
     (if scoreA > scoreB then 1
      else if scoreA < scoreB then - 1
      else if cellScore (sc_fl env) storeA < cellScore (sc_fl env) storeB then 1
      else if cellScore (sc_fl env) storeA > cellScore (sc_fl env) storeB then - 1
      else 0)"

subsection \<open>Filters\<close>

datatype 'f Filter =
    stateFilter
  | storageThresholdFilter
  | excludedFilter "u64 list" "u64 list"
  | blockFilter
  | healthFilter
  | cacheFilter idCache
  | snapshotCountFilter
  | distinctScoreFilter "StoreInfo list" 'f

definition state_filter :: "'f schedEnv \<Rightarrow> StoreInfo \<Rightarrow> bool" where
  "state_filter env store =
     (\<not> (isUp store \<and> downTime (sc_now env) store < cf_LimitStoreDownDuration (sc_cfg env)))"

definition health_filter :: "'f schedEnv \<Rightarrow> StoreInfo \<Rightarrow> bool" where
  "health_filter env store =
     (if tt_IsBusy (ss_Stats (si_Status store)) then True
      else downTime (sc_now env) store > cf_LimitStoreDownDuration (sc_cfg env))"

definition snapshotCount_filter :: "'f schedEnv \<Rightarrow> StoreInfo \<Rightarrow> bool" where
  "snapshotCount_filter env store =
     (let st = ss_Stats (si_Status store); limit = cf_LimitSnapshots (sc_cfg env)
      in ucast (tt_SendingSnapCount st) > limit \<or> ucast (tt_ReceivingSnapCount st) > limit \<or>
         ucast (tt_ApplyingSnapCount st) > limit)"

fun FilterSource :: "'f schedEnv \<Rightarrow> 'f Filter \<Rightarrow> StoreInfo \<Rightarrow> bool" where
  "FilterSource env stateFilter store = state_filter env store"
| "FilterSource env storageThresholdFilter store = False"
| "FilterSource env (excludedFilter sources targets) store = (s_ID (si_Meta store) \<in> set sources)"
| "FilterSource env blockFilter store = ss_blocked (si_Status store)"
| "FilterSource env healthFilter store = health_filter env store"
| "FilterSource env (cacheFilter cache) store = idCache_get (sc_now env) (s_ID (si_Meta store)) cache"
| "FilterSource env snapshotCountFilter store = snapshotCount_filter env store"
| "FilterSource env (distinctScoreFilter _ _) store = False"

fun FilterTarget :: "'f::linorder schedEnv \<Rightarrow> 'f Filter \<Rightarrow> StoreInfo \<Rightarrow> bool" where
  "FilterTarget env stateFilter store = state_filter env store"
| "FilterTarget env storageThresholdFilter store =
     (storageRatio (sc_fl env) store > cf_ThresholdStorageRate (sc_cfg env))"
| "FilterTarget env (excludedFilter sources targets) store = (s_ID (si_Meta store) \<in> set targets)"
| "FilterTarget env blockFilter store = ss_blocked (si_Status store)"
| "FilterTarget env healthFilter store = health_filter env store"
| "FilterTarget env (cacheFilter cache) store = False"
| "FilterTarget env snapshotCountFilter store = snapshotCount_filter env store"
| "FilterTarget env (distinctScoreFilter stores safeScore) store = (getDistinctScore env stores store < safeScore)"

definition filterSource :: "'f schedEnv \<Rightarrow> StoreInfo \<Rightarrow> 'f Filter list \<Rightarrow> bool" where
  "filterSource env store filters = list_ex (\<lambda>f. FilterSource env f store) filters"

definition filterTarget :: "'f::linorder schedEnv \<Rightarrow> StoreInfo \<Rightarrow> 'f Filter list \<Rightarrow> bool" where
  "filterTarget env store filters = list_ex (\<lambda>f. FilterTarget env f store) filters"

definition newDistinctScoreFilter :: "'f schedEnv \<Rightarrow> StoreInfo list \<Rightarrow> StoreInfo \<Rightarrow> fault + 'f Filter" where
  "newDistinctScoreFilter env stores source =
     (if length stores = 0 then Inl Panic
      else
        (let newStores = filter (\<lambda>s. s_ID (si_Meta s) \<noteq> s_ID (si_Meta source)) stores
         in Inr (distinctScoreFilter newStores (getDistinctScore env newStores source))))"

subsection \<open>The replica checker\<close>

text \<open>The checker is created without filters of its own.  The two selection loops keep the best
  (or worst) store seen so far.\<close>

fun best_store :: "'f::linorder schedEnv \<Rightarrow> 'f Filter list \<Rightarrow> StoreInfo list \<Rightarrow> StoreInfo list \<Rightarrow> (StoreInfo \<times> 'f) option \<Rightarrow> (StoreInfo \<times> 'f) option" where
  "best_store env filters cellStores [] best = best"
| "best_store env filters cellStores (store # ss) best =
     (if filterTarget env store filters then best_store env filters cellStores ss best
      else
        (let score = getDistinctScore env cellStores store
         in best_store env filters cellStores ss
              (case best of
                 None \<Rightarrow> Some (store, score)
               | Some (bestStore, bestScore) \<Rightarrow>
                   if compareStoreScore env store score bestStore bestScore > 0 then Some (store, score) else best)))"

fun worst_store :: "'f::linorder schedEnv \<Rightarrow> 'f Filter list \<Rightarrow> StoreInfo list \<Rightarrow> StoreInfo list \<Rightarrow> (StoreInfo \<times> 'f) option \<Rightarrow> (StoreInfo \<times> 'f) option" where
  "worst_store env filters cellStores [] worst = worst"
| "worst_store env filters cellStores (store # ss) worst =
     (if filterSource env store filters then worst_store env filters cellStores ss worst
      else
        (let score = getDistinctScore env cellStores store
         in worst_store env filters cellStores ss
              (case worst of
                 None \<Rightarrow> Some (store, score)
               | Some (worstStore, worstScore) \<Rightarrow>
                   if compareStoreScore env store score worstStore worstScore < 0 then Some (store, score) else worst)))"

definition selectWorstPeer :: "'f::linorder schedEnv \<Rightarrow> storeCache \<Rightarrow> CellInfo \<Rightarrow> 'f Filter list \<Rightarrow> Peer option \<times> 'f" where
  "selectWorstPeer env sc cell filters =
     (let stores = getCellStores sc cell
      in case worst_store env filters stores stores None of
           None \<Rightarrow> (None, fo_of (sc_fl env) 0)
         | Some (worstStore, worstScore) \<Rightarrow> (getStorePeer cell (s_ID (si_Meta worstStore)), worstScore))"

definition target_filters :: "'f Filter list \<Rightarrow> CellInfo \<Rightarrow> 'f Filter list" where
  "target_filters filters target = filters @ [stateFilter, storageThresholdFilter, excludedFilter [] (getStoreIDs target)]"

definition selectBestPeer ::
  "'s pdEnv \<Rightarrow> 'f::linorder schedEnv \<Rightarrow> CellInfo \<Rightarrow> bool \<Rightarrow> 'f Filter list \<Rightarrow> 's pdCache \<Rightarrow> (Peer option \<times> 'f) \<times> 's pdCache" where
  "selectBestPeer pe env target allocPeerID filters c =
     (let stores = getCellStores (ch_sc c) target
      in case best_store env (target_filters filters target) stores (getStores (ch_sc c)) None of
           None \<Rightarrow> ((None, fo_of (sc_fl env) 0), c)
         | Some (bestStore, bestScore) \<Rightarrow>
             (case allocPeer pe (s_ID (si_Meta bestStore)) allocPeerID c of
                (Inl err, c) \<Rightarrow> ((None, fo_of (sc_fl env) 0), c)
              | (Inr newPeer, c) \<Rightarrow> ((Some newPeer, bestScore), c)))"

fun checkDownPeer :: "'f schedEnv \<Rightarrow> storeCache \<Rightarrow> u64 \<Rightarrow> PeerStats list \<Rightarrow> Operator option" where
  "checkDownPeer env sc cellID [] = None"
| "checkDownPeer env sc cellID (stats # rest) =
     (let limit = cf_LimitStoreDownDuration (sc_cfg env)
      in case getStore sc (p_StoreID (pt_Peer stats)) of
           Some store \<Rightarrow>
             if downTime (sc_now env) store < limit then checkDownPeer env sc cellID rest
             else if pt_DownSeconds stats < of_int (limit div 10 ^ 9) then checkDownPeer env sc cellID rest
             else Some (Basic (newRemovePeerOp cellID (pt_Peer stats)))
         | None \<Rightarrow> Some (Basic (newRemovePeerOp cellID (pt_Peer stats))))"

definition transfer_to_best ::
  "'s pdEnv \<Rightarrow> 'f::linorder schedEnv \<Rightarrow> CellInfo \<Rightarrow> Peer \<Rightarrow> 's pdCache \<Rightarrow> fault + Operator option \<times> 's pdCache" where
  "transfer_to_best pe env cell peer c =
     (case selectBestPeer pe env cell True [] c of
        ((None, _), c) \<Rightarrow> Inr (None, c)
      | ((Some newPeer, _), c) \<Rightarrow>
          sbind (newTransferPeerAggregationOp (sc_now env) cell peer newPeer) (\<lambda>op. Inr (Some op, c)))"

fun checkOfflinePeer ::
  "'s pdEnv \<Rightarrow> 'f::linorder schedEnv \<Rightarrow> CellInfo \<Rightarrow> Peer list \<Rightarrow> 's pdCache \<Rightarrow> fault + Operator option \<times> 's pdCache" where
  "checkOfflinePeer pe env cell [] c = Inr (None, c)"
| "checkOfflinePeer pe env cell (peer # peers) c =
     (case getStore (ch_sc c) (p_StoreID peer) of
        Some store \<Rightarrow> if isUp store then checkOfflinePeer pe env cell peers c else transfer_to_best pe env cell peer c
      | None \<Rightarrow> transfer_to_best pe env cell peer c)"

definition selectBestReplacement ::
  "'s pdEnv \<Rightarrow> 'f::linorder schedEnv \<Rightarrow> CellInfo \<Rightarrow> Peer \<Rightarrow> 's pdCache \<Rightarrow> (Peer option \<times> 'f) \<times> 's pdCache" where
  "selectBestReplacement pe env cell peer c =
     selectBestPeer pe env (removeStorePeer cell (p_StoreID peer)) False [excludedFilter [] (getStoreIDs cell)] c"

definition checkBestReplacement ::
  "'s pdEnv \<Rightarrow> 'f::linorder schedEnv \<Rightarrow> CellInfo \<Rightarrow> 's pdCache \<Rightarrow> fault + Operator option \<times> 's pdCache" where
  "checkBestReplacement pe env cell c =
     (case selectWorstPeer env (ch_sc c) cell [] of
        (None, _) \<Rightarrow> Inr (None, c)
      | (Some oldPeer, oldScore) \<Rightarrow>
          (case selectBestReplacement pe env cell oldPeer c of
             ((None, _), c) \<Rightarrow> Inr (None, c)
           | ((Some newPeer, newScore), c) \<Rightarrow>
               if newScore \<le> oldScore then Inr (None, c)
               else
                 (case cache_newID pe c of
                    (Inl err, c) \<Rightarrow> Inr (None, c)
                  | (Inr i, c) \<Rightarrow>
                      sbind (newTransferPeerAggregationOp (sc_now env) cell oldPeer (newPeer\<lparr>p_ID := i\<rparr>))
                        (\<lambda>op. Inr (Some op, c)))))"

definition check_count ::
  "'s pdEnv \<Rightarrow> 'f::linorder schedEnv \<Rightarrow> CellInfo \<Rightarrow> 's pdCache \<Rightarrow> fault + Operator option \<times> 's pdCache" where
  "check_count pe env target c =
     (let currReplicasCount = of_nat (length (ci_Peers target)) :: 32 word
      in if currReplicasCount < cf_LimitReplicas (sc_cfg env) then
           (case selectBestPeer pe env target True [] c of
              ((None, _), c) \<Rightarrow> Inr (None, c)
            | ((Some newPeer, _), c) \<Rightarrow>
                sbind (newAddPeerAggregationOp (sc_now env) target newPeer) (\<lambda>op. Inr (Some op, c)))
         else if currReplicasCount > cf_LimitReplicas (sc_cfg env) then
           (case selectWorstPeer env (ch_sc c) target [] of
              (None, _) \<Rightarrow> Inr (None, c)
            | (Some oldPeer, _) \<Rightarrow> Inr (Some (Basic (newRemovePeerOp (ci_ID target) oldPeer)), c))
         else checkBestReplacement pe env target c)"

definition Check ::
  "'s pdEnv \<Rightarrow> 'f::linorder schedEnv \<Rightarrow> CellInfo \<Rightarrow> 's pdCache \<Rightarrow> fault + Operator option \<times> 's pdCache" where
  "Check pe env target c =
     (case checkDownPeer env (ch_sc c) (ci_ID target) (ci_DownPeers target) of
        Some op \<Rightarrow> Inr (Some op, c)
      | None \<Rightarrow>
          sbind (checkOfflinePeer pe env target (ci_Peers target) c) (\<lambda>(op, c).
            if op \<noteq> None then Inr (op, c) else check_count pe env target c))"

subsection \<open>Limiter and coordinator\<close>

text \<open>The store operators are requests to set a log level.\<close>

record coordinator =
  co_counts :: "ResourceKind \<Rightarrow> u64"
  co_opts :: "u64 \<rightharpoonup> Operator"
  co_storeOpts :: "u64 \<rightharpoonup> int"

definition newCoordinator :: coordinator where
  "newCoordinator = \<lparr>co_counts = (\<lambda>_. 0), co_opts = (\<lambda>_. None), co_storeOpts = (\<lambda>_. None)\<rparr>"

definition operatorCount :: "coordinator \<Rightarrow> ResourceKind \<Rightarrow> u64" where
  "operatorCount co kind = co_counts co kind"

definition limiter_addOperator :: "Operator \<Rightarrow> coordinator \<Rightarrow> fault + coordinator" where
  "limiter_addOperator op co =
     sbind (GetResourceKind op) (\<lambda>k. Inr (co\<lparr>co_counts := (co_counts co)(k := co_counts co k + 1)\<rparr>))"

definition limiter_removeOperator :: "Operator \<Rightarrow> coordinator \<Rightarrow> fault + coordinator" where
  "limiter_removeOperator op co =
     sbind (GetResourceKind op) (\<lambda>k. Inr (co\<lparr>co_counts := (co_counts co)(k := co_counts co k - 1)\<rparr>))"

definition addOperator :: "Operator \<Rightarrow> coordinator \<Rightarrow> fault + bool \<times> coordinator" where
  "addOperator op co =
     (if co_opts co (GetCellID op) \<noteq> None then Inr (False, co)
      else sbind (limiter_addOperator op co) (\<lambda>co. Inr (True, co\<lparr>co_opts := (co_opts co)(GetCellID op \<mapsto> op)\<rparr>)))"

definition removeOperator :: "Operator \<Rightarrow> coordinator \<Rightarrow> fault + coordinator" where
  "removeOperator op co =
     sbind (limiter_removeOperator op co) (\<lambda>co. Inr (co\<lparr>co_opts := (co_opts co)(GetCellID op := None)\<rparr>))"

definition addStoreOperator :: "u64 \<Rightarrow> int \<Rightarrow> coordinator \<Rightarrow> bool \<times> coordinator" where
  "addStoreOperator storeID newLevel co =
     (if co_storeOpts co storeID \<noteq> None then (False, co)
      else (True, co\<lparr>co_storeOpts := (co_storeOpts co)(storeID \<mapsto> newLevel)\<rparr>))"

definition dispatchStore :: "StoreInfo \<Rightarrow> coordinator \<Rightarrow> int option \<times> coordinator" where
  "dispatchStore target co =
     (let sid = s_ID (si_Meta target)
      in case co_storeOpts co sid of
           None \<Rightarrow> (None, co)
         | Some newLevel \<Rightarrow>
             if tt_LogLevel (ss_Stats (si_Status target)) = newLevel
             then (None, co\<lparr>co_storeOpts := (co_storeOpts co)(sid := None)\<rparr>)
             else (Some newLevel, co))"

text \<open>Operators are objects: running one updates the one that is registered.\<close>

definition dispatch_check ::
  "'s pdEnv \<Rightarrow> 'f::linorder schedEnv \<Rightarrow> CellInfo \<Rightarrow> coordinator \<Rightarrow> 's pdCache \<Rightarrow>
   fault + CellHeartbeatRsp option \<times> coordinator \<times> 's pdCache" where
  "dispatch_check pe env target co c =
     (if operatorCount co cellKind \<ge> cf_LimitScheduleReplica (sc_cfg env) then Inr (None, co, c)
      else
        sbind (Check pe env target c) (\<lambda>(op, c).
          case op of
            None \<Rightarrow> Inr (None, co, c)
          | Some op \<Rightarrow>
              sbind (addOperator op co) (\<lambda>(added, co).
                if added then
                  sbind (operator_Do (sc_now env) op target) (\<lambda>(res, _, op').
                    Inr (res, co\<lparr>co_opts := (co_opts co)(GetCellID op \<mapsto> op')\<rparr>, c))
                else Inr (None, co, c))))"

definition coordinator_dispatch ::
  "'s pdEnv \<Rightarrow> 'f::linorder schedEnv \<Rightarrow> CellInfo \<Rightarrow> coordinator \<Rightarrow> 's pdCache \<Rightarrow>
   fault + CellHeartbeatRsp option \<times> coordinator \<times> 's pdCache" where
  "coordinator_dispatch pe env target co c =
     (case co_opts co (ci_ID target) of
        None \<Rightarrow> dispatch_check pe env target co c
      | Some op \<Rightarrow>
          sbind (operator_Do (sc_now env) op target) (\<lambda>(res, finished, op').
            if \<not> finished then Inr (res, co\<lparr>co_opts := (co_opts co)(ci_ID target \<mapsto> op')\<rparr>, c)
            else sbind (removeOperator op' co) (\<lambda>co. dispatch_check pe env target co c)))"

subsection \<open>Selectors and balancers\<close>

fun select_source :: "'f::linorder schedEnv \<Rightarrow> ResourceKind \<Rightarrow> 'f Filter list \<Rightarrow> StoreInfo list \<Rightarrow> StoreInfo option \<Rightarrow> StoreInfo option" where
  "select_source env kind filters [] result = result"
| "select_source env kind filters (store # ss) result =
     (if filterSource env store filters then select_source env kind filters ss result
      else
        select_source env kind filters ss
          (case result of
             None \<Rightarrow> Some store
           | Some r \<Rightarrow> if resourceScore (sc_fl env) r kind < resourceScore (sc_fl env) store kind then Some store else result))"

fun select_target :: "'f::linorder schedEnv \<Rightarrow> ResourceKind \<Rightarrow> 'f Filter list \<Rightarrow> StoreInfo list \<Rightarrow> StoreInfo option \<Rightarrow> StoreInfo option" where
  "select_target env kind filters [] result = result"
| "select_target env kind filters (store # ss) result =
     (if filterTarget env store filters then select_target env kind filters ss result
      else
        select_target env kind filters ss
          (case result of
             None \<Rightarrow> Some store
           | Some r \<Rightarrow> if resourceScore (sc_fl env) r kind > resourceScore (sc_fl env) store kind then Some store else result))"

definition minBalanceDiff :: "'f floatOps \<Rightarrow> u64 \<Rightarrow> 'f" where
  "minBalanceDiff fl count = (if count < 10 then fo_of fl 2 else fo_sqrt fl (fo_of fl count))"

definition shouldBalance :: "'f::linorder floatOps \<Rightarrow> StoreInfo \<Rightarrow> StoreInfo \<Rightarrow> ResourceKind \<Rightarrow> bool" where
  "shouldBalance fl source target kind =
     (let sourceCount = resourceCount source kind;
          sourceScore = resourceScore fl source kind;
          targetScore = resourceScore fl target kind
      in if targetScore \<ge> sourceScore then False
         else
           (let diffRatio = fo_sub fl (fo_of fl 1) (fo_div fl targetScore sourceScore);
                diffCount = fo_mul fl diffRatio (fo_of fl sourceCount)
            in diffCount \<ge> minBalanceDiff fl sourceCount))"

definition adjustBalanceLimit :: "'f floatOps \<Rightarrow> storeCache \<Rightarrow> ResourceKind \<Rightarrow> u64" where
  "adjustBalanceLimit fl sc kind =
     max 1 (fo_uint fl (fo_stddev fl (map (\<lambda>s. fo_of fl (resourceCount s kind)) (getStores sc))))"

record balanceCellScheduler =
  bc_limit :: u64
  bc_cache :: idCache

definition newBalanceCellScheduler :: balanceCellScheduler where
  "newBalanceCellScheduler = \<lparr>bc_limit = 1, bc_cache = \<lparr>ic_items = (\<lambda>_. None), ic_ttl = 4 * 30 * 10 ^ 9\<rparr>\<rparr>"

definition cell_filters :: "balanceCellScheduler \<Rightarrow> 'f Filter list" where
  "cell_filters s = [cacheFilter (bc_cache s), stateFilter, healthFilter, snapshotCountFilter, storageThresholdFilter]"

definition cell_GetResourceLimit :: "pdCfg \<Rightarrow> balanceCellScheduler \<Rightarrow> u64" where
  "cell_GetResourceLimit cfg s = min (bc_limit s) (cf_LimitScheduleCell cfg)"

definition scheduleRemovePeer ::
  "'f::linorder schedEnv \<Rightarrow> cellOrder \<Rightarrow> 'f Filter list \<Rightarrow> 's pdCache \<Rightarrow> fault + (CellInfo \<times> Peer option) option" where
  "scheduleRemovePeer env ord filters c =
     (case select_source env cellKind filters (getStores (ch_sc c)) None of
        None \<Rightarrow> Inr None
      | Some source \<Rightarrow>
          (let sid = s_ID (si_Meta source)
           in sbind (randFollowerCell ord (ch_cc c) sid) (\<lambda>cell.
                sbind (if cell = None then randLeaderCell ord (ch_cc c) sid else Inr cell) (\<lambda>cell.
                  case cell of None \<Rightarrow> Inr None | Some cell \<Rightarrow> Inr (Some (cell, getStorePeer cell sid))))))"

definition cell_transferPeer ::
  "'s pdEnv \<Rightarrow> 'f::linorder schedEnv \<Rightarrow> CellInfo \<Rightarrow> Peer \<Rightarrow> balanceCellScheduler \<Rightarrow> 's pdCache \<Rightarrow>
   fault + Operator option \<times> balanceCellScheduler \<times> 's pdCache" where
  "cell_transferPeer pe env cell oldPeer s c =
     (case getStore (ch_sc c) (p_StoreID oldPeer) of
        None \<Rightarrow> Inl Panic
      | Some source \<Rightarrow>
          sbind (newDistinctScoreFilter env (getCellStores (ch_sc c) cell) source) (\<lambda>scoreGuard.
            case selectBestPeer pe env cell True [scoreGuard] c of
              ((None, _), c) \<Rightarrow> Inr (None, s, c)
            | ((Some newPeer, _), c) \<Rightarrow>
                (case getStore (ch_sc c) (p_StoreID newPeer) of
                   None \<Rightarrow> Inl Panic
                 | Some target \<Rightarrow>
                     if \<not> shouldBalance (sc_fl env) source target cellKind then Inr (None, s, c)
                     else
                       sbind (newTransferPeerAggregationOp (sc_now env) cell oldPeer newPeer) (\<lambda>op.
                         Inr (Some op, s\<lparr>bc_limit := adjustBalanceLimit (sc_fl env) (ch_sc c) cellKind\<rparr>, c)))))"

definition cell_Schedule ::
  "'s pdEnv \<Rightarrow> 'f::linorder schedEnv \<Rightarrow> cellOrder \<Rightarrow> balanceCellScheduler \<Rightarrow> 's pdCache \<Rightarrow>
   fault + Operator option \<times> balanceCellScheduler \<times> 's pdCache" where
  "cell_Schedule pe env ord s c =
     sbind (scheduleRemovePeer env ord (cell_filters s) c) (\<lambda>r.
       case r of
         None \<Rightarrow> Inr (None, s, c)
       | Some (cell, oldPeer) \<Rightarrow>
           if int (length (ci_Peers cell)) \<noteq> uint (cf_LimitReplicas (sc_cfg env)) then Inr (None, s, c)
           else
             (case oldPeer of
                None \<Rightarrow> Inl Panic
              | Some oldPeer \<Rightarrow>
                  sbind (cell_transferPeer pe env cell oldPeer s c) (\<lambda>(op, s, c).
                    Inr (op, if op = None then s\<lparr>bc_cache := idCache_set (sc_now env) (p_StoreID oldPeer) (bc_cache s)\<rparr> else s, c))))"

record balanceLeaderScheduler =
  bl_limit :: u64

definition leader_filters :: "'f Filter list" where
  "leader_filters = [blockFilter, stateFilter, healthFilter]"

definition leader_GetResourceLimit :: "pdCfg \<Rightarrow> balanceLeaderScheduler \<Rightarrow> u64" where
  "leader_GetResourceLimit cfg l = min (bl_limit l) (cf_LimitScheduleLeader cfg)"

definition averageLeader :: "'f floatOps \<Rightarrow> StoreInfo list \<Rightarrow> 'f" where
  "averageLeader fl stores =
     fold (\<lambda>s a. fo_add fl a (fo_div fl (leaderScore fl s) (fo_of fl (of_nat (length stores))))) stores (fo_of fl 0)"

definition leaderDistance :: "'f floatOps \<Rightarrow> StoreInfo list \<Rightarrow> StoreInfo option \<Rightarrow> 'f" where
  "leaderDistance fl stores st =
     (case st of None \<Rightarrow> fo_of fl 0 | Some st \<Rightarrow> fo_abs fl (fo_sub fl (leaderScore fl st) (averageLeader fl stores)))"

definition scheduleTransferLeader ::
  "'f::linorder schedEnv \<Rightarrow> cellOrder \<Rightarrow> 's pdCache \<Rightarrow> fault + (CellInfo \<times> Peer option) option" where
  "scheduleTransferLeader env ord c =
     (let stores = getStores (ch_sc c); fl = sc_fl env
      in if length stores = 0 then Inr None
         else
           (let most = select_source env leaderKind leader_filters stores None;
                least = select_target env leaderKind leader_filters stores None;
                mostDistance = leaderDistance fl stores most;
                leastDistance = leaderDistance fl stores least
            in if mostDistance = fo_of fl 0 \<and> leastDistance = fo_of fl 0 then Inr None
               else if mostDistance > leastDistance then
                 (case most of
                    None \<Rightarrow> Inl Panic
                  | Some most \<Rightarrow>
                      sbind (randLeaderCell ord (ch_cc c) (s_ID (si_Meta most))) (\<lambda>cell.
                        case cell of
                          None \<Rightarrow> Inr None
                        | Some cell \<Rightarrow>
                            (case select_target env leaderKind leader_filters (getFollowerStores (ch_sc c) cell) None of
                               None \<Rightarrow> Inr None
                             | Some target \<Rightarrow> Inr (Some (cell, getStorePeer cell (s_ID (si_Meta target)))))))
               else
                 (case least of
                    None \<Rightarrow> Inl Panic
                  | Some least \<Rightarrow>
                      sbind (randFollowerCell ord (ch_cc c) (s_ID (si_Meta least))) (\<lambda>cell.
                        case cell of
                          None \<Rightarrow> Inr None
                        | Some cell \<Rightarrow> Inr (Some (cell, getStorePeer cell (s_ID (si_Meta least))))))))"

definition leader_Schedule ::
  "'f::linorder schedEnv \<Rightarrow> cellOrder \<Rightarrow> balanceLeaderScheduler \<Rightarrow> 's pdCache \<Rightarrow>
   fault + Operator option \<times> balanceLeaderScheduler" where
  "leader_Schedule env ord l c =
     sbind (scheduleTransferLeader env ord c) (\<lambda>r.
       case r of
         None \<Rightarrow> Inr (None, l)
       | Some (cell, newLeader) \<Rightarrow>
           (case (ci_LeaderPeer cell, newLeader) of
              (Some leader, Some newLeader) \<Rightarrow>
                (case (getStore (ch_sc c) (p_StoreID leader), getStore (ch_sc c) (p_StoreID newLeader)) of
                   (Some source, Some target) \<Rightarrow>
                     if \<not> shouldBalance (sc_fl env) source target leaderKind then Inr (None, l)
                     else
                       sbind (newTransferLeaderAggregationOp (sc_now env) cell newLeader) (\<lambda>op.
                         Inr (Some op, l\<lparr>bl_limit := adjustBalanceLimit (sc_fl env) (ch_sc c) leaderKind\<rparr>))
                 | _ \<Rightarrow> Inl Panic)
            | _ \<Rightarrow> Inl Panic))"

subsection \<open>The scheduler loop\<close>

text \<open>A scheduler is its \<^verbatim>\<open>Schedule\<close> on a state of its own (its fields and the cache it reads and
  allocates from); the controller adds the interval.\<close>

definition minScheduleInterval :: int where "minScheduleInterval = 10 * 10 ^ 6"
definition maxScheduleInterval :: int where "maxScheduleInterval = 60 * 10 ^ 9"
definition maxScheduleRetries :: nat where "maxScheduleRetries = 10"

type_synonym 'x scheduleFn = "'x \<Rightarrow> fault + Operator option \<times> 'x"

definition controller_Schedule :: "'x scheduleFn \<Rightarrow> int \<times> 'x \<Rightarrow> fault + Operator option \<times> int \<times> 'x" where
  "controller_Schedule schedule s =
     sbind (schedule (snd s)) (\<lambda>(op, x).
       Inr (op, if op \<noteq> None then minScheduleInterval else min (fst s * 2) maxScheduleInterval, x))"

definition AllowSchedule :: "ResourceKind \<Rightarrow> u64 \<Rightarrow> coordinator \<Rightarrow> bool" where
  "AllowSchedule kind limit co = (operatorCount co kind < limit)"

fun schedule_retries :: "nat \<Rightarrow> 'x scheduleFn \<Rightarrow> int \<times> 'x \<Rightarrow> coordinator \<Rightarrow> fault + (int \<times> 'x) \<times> coordinator" where
  "schedule_retries 0 schedule s co = Inr (s, co)"
| "schedule_retries (Suc n) schedule s co =
     sbind (controller_Schedule schedule s) (\<lambda>(op, s).
       case op of
         None \<Rightarrow> schedule_retries n schedule s co
       | Some op \<Rightarrow> sbind (addOperator op co) (\<lambda>(added, co).
           if added then Inr (s, co) else schedule_retries n schedule s co))"

definition runScheduler_tick ::
  "ResourceKind \<Rightarrow> u64 \<Rightarrow> 'x scheduleFn \<Rightarrow> int \<times> 'x \<Rightarrow> coordinator \<Rightarrow> fault + (int \<times> 'x) \<times> coordinator" where
  "runScheduler_tick kind limit schedule s co =
     (if \<not> AllowSchedule kind limit co then Inr (s, co)
      else schedule_retries maxScheduleRetries schedule s co)"

end
