(* ===== verification/Pd_Schedule_Props.thy ===== *)
theory Pd_Schedule_Props
  imports Pd_Schedule
begin

text \<open>
  What the scheduling side promises: a replica is only placed on a healthy store that holds no
  peer of the cell, a transfer removes the old peer only once the new one has caught up and does
  finish when the cell carries out its orders, and the limiter counts exactly the registered
  operators.
\<close>

subsection \<open>Operators\<close>

lemma operator_Do_same:
  assumes "operator_Do now op cell = Inr (res, fin, op')"
  shows "GetCellID op' = GetCellID op" and "GetResourceKind op' = GetResourceKind op"
  using assms by (cases op; auto simp: sbind_Inr_iff split: if_splits)+

lemma newTransferPeer_eq:
  "newTransferPeerAggregationOp now cell old new =
     Inr (aggregationOperator (ci_ID cell) now 0 [newAddPeerOp (ci_ID cell) new, newRemovePeerOp (ci_ID cell) old])"
  by (simp add: newTransferPeerAggregationOp_def newAggregationOp_def)

text \<open>The heartbeats of a cell, numbered from the one at which the operator is first run.\<close>

primrec op_run ::
  "Operator \<Rightarrow> (nat \<Rightarrow> int) \<Rightarrow> (nat \<Rightarrow> CellInfo) \<Rightarrow> nat \<Rightarrow> fault + CellHeartbeatRsp option \<times> bool \<times> Operator" where
  "op_run op now hb 0 = operator_Do (now 0) op (hb 0)"
| "op_run op now hb (Suc n) =
     sbind (op_run op now hb n) (\<lambda>(res, finished, op').
       if finished then Inr (res, finished, op') else operator_Do (now (Suc n)) op' (hb (Suc n)))"

definition caught_up :: "Peer \<Rightarrow> CellInfo \<Rightarrow> bool" where
  "caught_up p cell \<longleftrightarrow> ci_getPeer cell (p_ID p) \<noteq> None \<and> getPendingPeer cell (p_ID p) = None"

definition left_cell :: "Peer \<Rightarrow> CellInfo \<Rightarrow> bool" where
  "left_cell p cell \<longleftrightarrow> ci_getPeer cell (p_ID p) = None"

definition orders :: "(fault + CellHeartbeatRsp option \<times> bool \<times> Operator) \<Rightarrow> ConfChangeType \<Rightarrow> Peer \<Rightarrow> bool" where
  "orders r t p \<longleftrightarrow> (\<exists>rsp fin op. r = Inr (Some rsp, fin, op) \<and> hr_ChangePeer rsp = Some (t, p))"

text \<open>One heartbeat of a transfer, by the step it has reached.\<close>

definition transfer_op :: "u64 \<Rightarrow> int \<Rightarrow> Peer \<Rightarrow> Peer \<Rightarrow> nat \<Rightarrow> Operator" where
  "transfer_op cid start old new i = aggregationOperator cid start i [newAddPeerOp cid new, newRemovePeerOp cid old]"

definition transfer_outcome ::
  "CellInfo \<Rightarrow> Peer \<Rightarrow> Peer \<Rightarrow> CellHeartbeatRsp option \<Rightarrow> bool \<Rightarrow> nat \<Rightarrow> bool" where
  "transfer_outcome cell old new res fin i \<longleftrightarrow>
     (fin \<longrightarrow> res = None) \<and>
     (\<not> fin \<longrightarrow>
        i = 0 \<and> \<not> caught_up new cell \<and>
          res = (if getPendingPeer cell (p_ID new) \<noteq> None then None else Some (emptyRsp\<lparr>hr_ChangePeer := Some (AddNode, new)\<rparr>)) \<or>
        i = 1 \<and> \<not> left_cell old cell \<and> res = Some (emptyRsp\<lparr>hr_ChangePeer := Some (RemoveNode, old)\<rparr>))"

lemma transfer_Do:
  assumes "i = 0 \<or> i = 1"
  obtains res fin i' where "operator_Do now (transfer_op cid start old new i) cell = Inr (res, fin, transfer_op cid start old new i')"
    "transfer_outcome cell old new res fin i'" "i \<le> i'" "i = 0 \<and> i' > 0 \<longrightarrow> caught_up new cell"
    "fin \<and> now - start \<le> maxOperatorWaitTime \<longrightarrow> i' > 0 \<and> left_cell old cell"
proof -
  have "\<exists>res fin i'. operator_Do now (transfer_op cid start old new i) cell = Inr (res, fin, transfer_op cid start old new i') \<and>
    transfer_outcome cell old new res fin i' \<and> i \<le> i' \<and> (i = 0 \<and> i' > 0 \<longrightarrow> caught_up new cell) \<and>
    (fin \<and> now - start \<le> maxOperatorWaitTime \<longrightarrow> i' > 0 \<and> left_cell old cell)"
    using assms by (auto simp: transfer_op_def transfer_outcome_def newAddPeerOp_def newRemovePeerOp_def caught_up_def left_cell_def)
  then show thesis using that by blast
qed

lemma transfer_run:
  obtains res fin i where "op_run (transfer_op cid start old new 0) now hb n = Inr (res, fin, transfer_op cid start old new i)"
    "fin \<or> transfer_outcome (hb n) old new res fin i" "fin \<longrightarrow> res = None" "i > 0 \<longrightarrow> (\<exists>j \<le> n. caught_up new (hb j))"
    "fin \<longrightarrow> (\<exists>j \<le> n. now j - start > maxOperatorWaitTime) \<or> i > 0 \<and> (\<exists>j \<le> n. left_cell old (hb j))"
proof -
  have "\<exists>res fin i. op_run (transfer_op cid start old new 0) now hb n = Inr (res, fin, transfer_op cid start old new i) \<and>
    (fin \<or> transfer_outcome (hb n) old new res fin i) \<and> (fin \<longrightarrow> res = None) \<and> (i > 0 \<longrightarrow> (\<exists>j \<le> n. caught_up new (hb j))) \<and>
    (fin \<longrightarrow> (\<exists>j \<le> n. now j - start > maxOperatorWaitTime) \<or> i > 0 \<and> (\<exists>j \<le> n. left_cell old (hb j)))"
  proof (induction n)
    case 0
    obtain res fin i where "operator_Do (now 0) (transfer_op cid start old new 0) (hb 0) = Inr (res, fin, transfer_op cid start old new i)"
      "transfer_outcome (hb 0) old new res fin i" "i > 0 \<longrightarrow> caught_up new (hb 0)"
      "fin \<and> now 0 - start \<le> maxOperatorWaitTime \<longrightarrow> i > 0 \<and> left_cell old (hb 0)"
      using transfer_Do [of 0 "now 0" cid start old new "hb 0"] by metis
    then show ?case by (auto simp: transfer_outcome_def not_le)
  next
    case (Suc n)
    then obtain res fin i where IH: "op_run (transfer_op cid start old new 0) now hb n = Inr (res, fin, transfer_op cid start old new i)"
      "fin \<or> transfer_outcome (hb n) old new res fin i" "fin \<longrightarrow> res = None" "i > 0 \<longrightarrow> (\<exists>j \<le> n. caught_up new (hb j))"
    "fin \<longrightarrow> (\<exists>j \<le> n. now j - start > maxOperatorWaitTime) \<or> i > 0 \<and> (\<exists>j \<le> n. left_cell old (hb j))" by blast
    show ?case
    proof (cases fin)
      case True
      then have "op_run (transfer_op cid start old new 0) now hb (Suc n) = Inr (None, True, transfer_op cid start old new i)"
        using IH by simp
      moreover have "i > 0 \<longrightarrow> (\<exists>j \<le> Suc n. caught_up new (hb j))" using IH(4) le_SucI by blast
      moreover have "(\<exists>j \<le> Suc n. now j - start > maxOperatorWaitTime) \<or> i > 0 \<and> (\<exists>j \<le> Suc n. left_cell old (hb j))"
        using IH(5) True le_SucI by blast
      ultimately show ?thesis by (intro exI [of _ None] exI [of _ True] exI [of _ i]) simp
    next
      case False
      then have "i = 0 \<or> i = 1" using IH(2) by (auto simp: transfer_outcome_def)
      then obtain res' fin' i' where step:
        "operator_Do (now (Suc n)) (transfer_op cid start old new i) (hb (Suc n)) = Inr (res', fin', transfer_op cid start old new i')"
        "transfer_outcome (hb (Suc n)) old new res' fin' i'" "i \<le> i'" "i = 0 \<and> i' > 0 \<longrightarrow> caught_up new (hb (Suc n))"
        "fin' \<and> now (Suc n) - start \<le> maxOperatorWaitTime \<longrightarrow> i' > 0 \<and> left_cell old (hb (Suc n))"
        by (rule transfer_Do)
      moreover have "\<exists>j \<le> Suc n. caught_up new (hb j)" if "i' > 0"
        using that step(4) IH(4) by (cases "i = 0") (auto intro: le_SucI)
      moreover have "fin' \<longrightarrow> (\<exists>j \<le> Suc n. now j - start > maxOperatorWaitTime) \<or> i' > 0 \<and> (\<exists>j \<le> Suc n. left_cell old (hb j))"
        using step(5) by (meson le_refl not_le)
      ultimately show ?thesis using IH(1) False by (auto simp: transfer_outcome_def)
    qed
  qed
  then show thesis using that by blast
qed

text \<open>C15: when the placement driver moves a replica, it orders the old peer out of the cell only after
  some heartbeat of the cell has shown the new peer as a member that is not pending any more, and
  the only peer it ever orders out is the old one.\<close>

theorem transfer_removes_after_catch_up:
  assumes "newTransferPeerAggregationOp start cell old new = Inr op" and "orders (op_run op now hb n) RemoveNode p"
  shows "p = old \<and> (\<exists>j \<le> n. caught_up new (hb j))"
proof -
  have "op = transfer_op (ci_ID cell) start old new 0" using assms(1) by (simp add: newTransferPeer_eq transfer_op_def)
  moreover obtain res fin i where "op_run (transfer_op (ci_ID cell) start old new 0) now hb n = Inr (res, fin, transfer_op (ci_ID cell) start old new i)"
    "fin \<or> transfer_outcome (hb n) old new res fin i" "fin \<longrightarrow> res = None" "i > 0 \<longrightarrow> (\<exists>j \<le> n. caught_up new (hb j))"
    "fin \<longrightarrow> (\<exists>j \<le> n. now j - start > maxOperatorWaitTime) \<or> i > 0 \<and> (\<exists>j \<le> n. left_cell old (hb j))"
    by (rule transfer_run)
  ultimately show ?thesis using assms(2)
    by (auto simp: orders_def transfer_outcome_def emptyRsp_def split: if_splits)
qed

definition demo_peer :: "u64 \<Rightarrow> Peer" where
  "demo_peer i = \<lparr>p_ID = i, p_StoreID = i\<rparr>"

definition demo_info :: "u64 list \<Rightarrow> CellInfo" where
  "demo_info is = newCellInfo (emptyCell\<lparr>c_ID := 7, c_Peers := map demo_peer is\<rparr>) (Some (demo_peer 1))"

definition demo_heartbeats :: "nat \<Rightarrow> CellInfo" where
  "demo_heartbeats n = demo_info (if n = 0 then [1, 2] else if n = 1 then [1, 2, 3] else [1, 3])"

lemmas demo_run_defs = demo_heartbeats_def demo_info_def demo_peer_def newCellInfo_def emptyCell_def
  caught_up_def left_cell_def ci_getPeer_def getPendingPeer_def

theorem transfer_removes_after_catch_up_witness:
  "\<exists>j \<le> 1. caught_up (demo_peer 3) (demo_heartbeats j)"
proof -
  obtain op where op: "newTransferPeerAggregationOp 0 (demo_info [1, 2]) (demo_peer 2) (demo_peer 3) = Inr op"
    by (simp add: newTransferPeer_eq)
  then have "orders (op_run op (\<lambda>_. 0) demo_heartbeats 1) RemoveNode (demo_peer 2)"
    by (auto simp: newTransferPeer_eq orders_def newAddPeerOp_def newRemovePeerOp_def maxOperatorWaitTime_def
        emptyRsp_def demo_run_defs)
  with transfer_removes_after_catch_up [OF op] show ?thesis by blast
qed

text \<open>The run comes to an end when its orders are carried out.\<close>

lemma transfer_ends:
  assumes op: "newTransferPeerAggregationOp start cell old new = Inr op"
    and add: "\<forall>i. orders (op_run op now hb i) AddNode new \<or> getPendingPeer (hb i) (p_ID new) \<noteq> None \<longrightarrow> (\<exists>j > i. caught_up new (hb j))"
    and remove: "\<forall>i. orders (op_run op now hb i) RemoveNode old \<longrightarrow> (\<exists>j > i. left_cell old (hb j))"
  shows "\<exists>n op'. op_run op now hb n = Inr (None, True, op')"
proof (rule ccontr)
  assume never: "\<not> ?thesis"
  have run: "op_run op now hb = op_run (transfer_op (ci_ID cell) start old new 0) now hb"
    using op by (simp add: newTransferPeer_eq transfer_op_def)
  have at: "\<exists>res i. op_run op now hb n = Inr (res, False, transfer_op (ci_ID cell) start old new i) \<and>
      transfer_outcome (hb n) old new res False i" for n
  proof -
    obtain res fin i where n: "op_run (transfer_op (ci_ID cell) start old new 0) now hb n = Inr (res, fin, transfer_op (ci_ID cell) start old new i)"
      "fin \<or> transfer_outcome (hb n) old new res fin i" "fin \<longrightarrow> res = None"
      by (rule transfer_run)
    then have "\<not> fin" using never unfolding run by auto
    with n show ?thesis unfolding run by auto
  qed
  obtain n1 where n1: "caught_up new (hb n1)"
  proof (cases "caught_up new (hb 0)")
    case False
    obtain res i where "op_run op now hb 0 = Inr (res, False, transfer_op (ci_ID cell) start old new i)" "transfer_outcome (hb 0) old new res False i"
      using at by blast
    moreover have "i = 0"
      using calculation False transfer_Do [of 0 "now 0" "ci_ID cell" start old new "hb 0"] unfolding run
      by (metis Inr_inject Pair_inject Operator.inject(2) op_run.simps(1) transfer_op_def gr0I)
    ultimately have "orders (op_run op now hb 0) AddNode new \<or> getPendingPeer (hb 0) (p_ID new) \<noteq> None"
      by (auto simp: orders_def transfer_outcome_def emptyRsp_def)
    then show thesis using add that by blast
  qed (use that in blast)
  obtain res i where r1: "op_run op now hb n1 = Inr (res, False, transfer_op (ci_ID cell) start old new i)" "transfer_outcome (hb n1) old new res False i"
    using at by blast
  then have "orders (op_run op now hb n1) RemoveNode old" using n1 by (auto simp: orders_def transfer_outcome_def emptyRsp_def)
  then obtain n2 where n2: "n2 > n1" "left_cell old (hb n2)" using remove by blast
  have stay: "\<exists>res. op_run op now hb (n1 + k) = Inr (res, False, transfer_op (ci_ID cell) start old new 1)" for k
  proof (induction k)
    case 0
    then show ?case using r1 n1 by (auto simp: transfer_outcome_def)
  next
    case (Suc k)
    then obtain res where IH: "op_run op now hb (n1 + k) = Inr (res, False, transfer_op (ci_ID cell) start old new 1)" by blast
    obtain res' i' where "op_run op now hb (n1 + Suc k) = Inr (res', False, transfer_op (ci_ID cell) start old new i')" "transfer_outcome (hb (n1 + Suc k)) old new res' False i'"
      using at by blast
    moreover have "i' \<ge> 1"
      using calculation IH transfer_Do [of 1 "now (n1 + Suc k)" "ci_ID cell" start old new "hb (n1 + Suc k)"]
      by (auto simp: transfer_op_def)
    ultimately show ?case by (auto simp: transfer_outcome_def)
  qed
  obtain k where "n2 = n1 + k" using n2(1) less_imp_add_positive by blast
  with stay [of k] at [of n2] n2(2) show False by (auto simp: transfer_outcome_def transfer_op_def)
qed

text \<open>C16: a transfer of a replica finishes: if every order is carried out sooner or later (an added or
  pending peer catches up, a removed peer leaves) and the operator is not timed out, then at some
  heartbeat the operator reports that it is done, and by then the new peer has been seen caught up
  and the old one gone.\<close>

theorem transfer_finishes:
  assumes op: "newTransferPeerAggregationOp start cell old new = Inr op"
    and add: "\<forall>i. orders (op_run op now hb i) AddNode new \<or> getPendingPeer (hb i) (p_ID new) \<noteq> None \<longrightarrow> (\<exists>j > i. caught_up new (hb j))"
    and remove: "\<forall>i. orders (op_run op now hb i) RemoveNode old \<longrightarrow> (\<exists>j > i. left_cell old (hb j))"
    and time: "\<forall>i. now i - start \<le> maxOperatorWaitTime"
  shows "\<exists>n op'. op_run op now hb n = Inr (None, True, op') \<and> (\<exists>j \<le> n. caught_up new (hb j)) \<and> (\<exists>j \<le> n. left_cell old (hb j))"
proof -
  obtain n op' where n: "op_run op now hb n = Inr (None, True, op')" using transfer_ends [OF op add remove] by blast
  have "op = transfer_op (ci_ID cell) start old new 0" using op by (simp add: newTransferPeer_eq transfer_op_def)
  moreover obtain res fin i where "op_run (transfer_op (ci_ID cell) start old new 0) now hb n = Inr (res, fin, transfer_op (ci_ID cell) start old new i)"
    "i > 0 \<longrightarrow> (\<exists>j \<le> n. caught_up new (hb j))"
    "fin \<longrightarrow> (\<exists>j \<le> n. now j - start > maxOperatorWaitTime) \<or> i > 0 \<and> (\<exists>j \<le> n. left_cell old (hb j))"
    by (rule transfer_run)
  ultimately have "(\<exists>j \<le> n. caught_up new (hb j)) \<and> (\<exists>j \<le> n. left_cell old (hb j))" using n time by (auto simp: not_less [symmetric])
  with n show ?thesis by blast
qed

theorem transfer_finishes_witness:
  "\<exists>op. newTransferPeerAggregationOp 0 (demo_info [1, 2]) (demo_peer 2) (demo_peer 3) = Inr op \<and>
     (\<exists>n op'. op_run op (\<lambda>_. 0) demo_heartbeats n = Inr (None, True, op'))"
proof -
  obtain op where op: "newTransferPeerAggregationOp 0 (demo_info [1, 2]) (demo_peer 2) (demo_peer 3) = Inr op"
    by (simp add: newTransferPeer_eq)
  have "caught_up (demo_peer 3) (demo_heartbeats (Suc i))" for i by (simp add: demo_run_defs)
  then have "\<exists>j > i. caught_up (demo_peer 3) (demo_heartbeats j)" for i by blast
  moreover have "left_cell (demo_peer 2) (demo_heartbeats (Suc (Suc i)))" for i by (simp add: demo_run_defs)
  then have "\<exists>j > i. left_cell (demo_peer 2) (demo_heartbeats j)" for i by (meson lessI less_SucI)
  ultimately have "\<exists>n op'. op_run op (\<lambda>_. 0) demo_heartbeats n = Inr (None, True, op') \<and>
      (\<exists>j \<le> n. caught_up (demo_peer 3) (demo_heartbeats j)) \<and> (\<exists>j \<le> n. left_cell (demo_peer 2) (demo_heartbeats j))"
    by (intro transfer_finishes [OF op]) (auto simp: maxOperatorWaitTime_def)
  then show ?thesis using op by blast
qed

subsection \<open>The replica checker\<close>

definition stores_ok :: "storeCache \<Rightarrow> bool" where
  "stores_ok sc \<longleftrightarrow> distinct (map fst sc) \<and> (\<forall>(i, s) \<in> set sc. s_ID (si_Meta s) = i)"

lemma stores_ok_Nil [simp]: "stores_ok []"
  by (simp add: stores_ok_def)

lemma AList_update_subset: "set (AList.update k v al) \<subseteq> insert (k, v) (set al)"
  by (induction al) auto

lemma updateStoreInfo_ok [simp]: "stores_ok sc \<Longrightarrow> stores_ok (updateStoreInfo st sc)"
  using AList_update_subset [of "s_ID (si_Meta st)" st sc]
  by (auto simp: stores_ok_def updateStoreInfo_def distinct_update)

lemma createStoreInfo_ok [simp]: "stores_ok sc \<Longrightarrow> stores_ok (createStoreInfo st sc)"
  using updateStoreInfo_ok [of sc "newStoreInfo st"] by (simp add: createStoreInfo_def updateStoreInfo_def newStoreInfo_def)

lemma stores_okD: "stores_ok sc \<Longrightarrow> s \<in> set (getStores sc) \<Longrightarrow> getStore sc (s_ID (si_Meta s)) = Some s"
  by (auto simp: stores_ok_def getStores_def getStore_def)

text \<open>A store beats another by its distinct score, then by holding fewer cells.\<close>

definition beats :: "'f::linorder schedEnv \<Rightarrow> StoreInfo list \<Rightarrow> StoreInfo \<Rightarrow> StoreInfo \<Rightarrow> bool" where
  "beats env cs a b \<longleftrightarrow> getDistinctScore env cs a > getDistinctScore env cs b \<or>
     getDistinctScore env cs a = getDistinctScore env cs b \<and> cellScore (sc_fl env) a < cellScore (sc_fl env) b"

lemma compare_beats:
  "compareStoreScore env a (getDistinctScore env cs a) b (getDistinctScore env cs b) > 0 \<longleftrightarrow> beats env cs a b"
  "compareStoreScore env a (getDistinctScore env cs a) b (getDistinctScore env cs b) < 0 \<longleftrightarrow> beats env cs b a"
  by (auto simp: compareStoreScore_def beats_def)

lemma beats_trans: "beats env cs a b \<Longrightarrow> beats env cs b c \<Longrightarrow> beats env cs a c"
  unfolding beats_def by (metis less_trans)

lemma beats_neg_trans: "\<not> beats env cs a b \<Longrightarrow> \<not> beats env cs b c \<Longrightarrow> \<not> beats env cs a c"
  unfolding beats_def
  by (cases "getDistinctScore env cs a" "getDistinctScore env cs b" rule: linorder_cases;
      cases "getDistinctScore env cs b" "getDistinctScore env cs c" rule: linorder_cases) auto

lemma best_store_best:
  assumes "best_store env fs cs ss acc = Some (b, sc)"
    and "\<forall>a sa. acc = Some (a, sa) \<longrightarrow> sa = getDistinctScore env cs a"
  shows "sc = getDistinctScore env cs b \<and> (b \<in> set ss \<and> \<not> filterTarget env b fs \<or> acc = Some (b, sc)) \<and>
    (\<forall>s \<in> set ss. \<not> filterTarget env s fs \<longrightarrow> \<not> beats env cs s b) \<and>
    (\<forall>a sa. acc = Some (a, sa) \<longrightarrow> \<not> beats env cs a b)"
  using assms
proof (induction ss arbitrary: acc)
  case Nil
  then show ?case by (auto simp: beats_def)
next
  case (Cons s ss)
  show ?case
  proof (cases "filterTarget env s fs")
    case True
    then show ?thesis using Cons by (auto simp: Let_def)
  next
    case False
    define acc' where "acc' = (case acc of None \<Rightarrow> Some (s, getDistinctScore env cs s)
      | Some (a, sa) \<Rightarrow> if beats env cs s a then Some (s, getDistinctScore env cs s) else acc)"
    have step: "best_store env fs cs (s # ss) acc = best_store env fs cs ss acc'"
      using False Cons.prems(2) by (auto simp: acc'_def compare_beats Let_def split: option.split)
    have acc': "\<forall>a sa. acc' = Some (a, sa) \<longrightarrow> sa = getDistinctScore env cs a"
      using Cons.prems(2) by (auto simp: acc'_def split: option.splits if_splits)
    have IH: "sc = getDistinctScore env cs b \<and> (b \<in> set ss \<and> \<not> filterTarget env b fs \<or> acc' = Some (b, sc)) \<and>
      (\<forall>s \<in> set ss. \<not> filterTarget env s fs \<longrightarrow> \<not> beats env cs s b) \<and> (\<forall>a sa. acc' = Some (a, sa) \<longrightarrow> \<not> beats env cs a b)"
      using Cons.IH [of acc'] Cons.prems(1) acc' unfolding step by blast
    moreover have "\<not> beats env cs s b \<and> (\<forall>a sa. acc = Some (a, sa) \<longrightarrow> \<not> beats env cs a b)"
    proof (cases acc)
      case (Some x)
      obtain a sa where "x = (a, sa)" by fastforce
      with Some IH show ?thesis
        using beats_trans [of env cs s a b] beats_neg_trans [of env cs s a b]
        by (cases "beats env cs s a") (auto simp: acc'_def)
    qed (use IH in \<open>simp add: acc'_def\<close>)
    moreover have "acc' = Some (b, sc) \<Longrightarrow> b = s \<or> acc = Some (b, sc)"
      by (auto simp: acc'_def split: option.splits if_splits)
    ultimately show ?thesis using False by auto
  qed
qed

lemma worst_store_in:
  assumes "worst_store env fs cs ss acc = Some (w, sc)" "\<forall>a sa. acc = Some (a, sa) \<longrightarrow> sa = getDistinctScore env cs a"
  shows "sc = getDistinctScore env cs w \<and> (w \<in> set ss \<or> acc = Some (w, sc))"
  using assms
proof (induction ss arbitrary: acc)
  case (Cons s ss)
  define acc' where "acc' = (if filterSource env s fs then acc
    else case acc of None \<Rightarrow> Some (s, getDistinctScore env cs s)
      | Some (a, sa) \<Rightarrow> if beats env cs a s then Some (s, getDistinctScore env cs s) else acc)"
  have step: "worst_store env fs cs (s # ss) acc = worst_store env fs cs ss acc'"
    using Cons.prems(2) by (auto simp: acc'_def compare_beats Let_def split: option.split)
  have acc': "acc' = acc \<or> acc' = Some (s, getDistinctScore env cs s)"
    by (auto simp: acc'_def split: option.splits if_splits)
  then have "sc = getDistinctScore env cs w \<and> (w \<in> set ss \<or> acc' = Some (w, sc))"
    using Cons.IH [of acc'] Cons.prems unfolding step by auto
  then show ?case using acc' by auto
qed simp

text \<open>A store that may receive a peer of the cell.\<close>

definition good_target :: "'f::linorder schedEnv \<Rightarrow> storeCache \<Rightarrow> CellInfo \<Rightarrow> u64 \<Rightarrow> bool" where
  "good_target env sc cell storeID \<longleftrightarrow> (\<exists>store. getStore sc storeID = Some store \<and> isUp store \<and>
     downTime (sc_now env) store < cf_LimitStoreDownDuration (sc_cfg env) \<and>
     storageRatio (sc_fl env) store \<le> cf_ThresholdStorageRate (sc_cfg env)) \<and>
     storeID \<notin> p_StoreID ` set (ci_Peers cell)"

lemma not_filterTarget_append [simp]:
  "filterTarget env s (fs @ gs) \<longleftrightarrow> filterTarget env s fs \<or> filterTarget env s gs"
  "filterTarget env s (f # gs) \<longleftrightarrow> FilterTarget env f s \<or> filterTarget env s gs" "\<not> filterTarget env s []"
  by (simp_all add: filterTarget_def)

lemma best_store_good:
  assumes ok: "stores_ok sc" and best: "best_store env (target_filters fs cell) cs (getStores sc) None = Some (b, score)"
  shows "good_target env sc cell (s_ID (si_Meta b))" and "\<not> filterTarget env b fs" and "score = getDistinctScore env cs b"
proof -
  have b: "b \<in> set (getStores sc)" "\<not> filterTarget env b (target_filters fs cell)" "score = getDistinctScore env cs b"
    using best_store_best [OF best] by auto
  then show "good_target env sc cell (s_ID (si_Meta b))" "\<not> filterTarget env b fs"
    using stores_okD [OF ok b(1)] by (auto simp: target_filters_def good_target_def state_filter_def getStoreIDs_def not_less)
  show "score = getDistinctScore env cs b" by (rule b(3))
qed

lemma cache_newID_frame [simp]:
  "cache_newID pe c = (r, c') \<Longrightarrow> ch_sc c' = ch_sc c" "cache_newID pe c = (r, c') \<Longrightarrow> ch_cc c' = ch_cc c"
  by (auto simp: cache_newID_def Let_def split: prod.splits)

text \<open>The identifier of the new peer is the next of the allocator; a peer for comparison only has none.\<close>

lemma selectBestPeer_E:
  assumes "selectBestPeer pe env cell alloc fs c = ((Some p, score), c')" "stores_ok (ch_sc c)"
  shows "good_target env (ch_sc c) cell (p_StoreID p)"
    and "if alloc then cache_newID pe c = (Inr (p_ID p), c') else c' = c"
    and "\<exists>b. getStore (ch_sc c) (p_StoreID p) = Some b \<and> score = getDistinctScore env (getCellStores (ch_sc c) cell) b \<and> \<not> filterTarget env b fs"
proof -
  obtain b sc where best: "best_store env (target_filters fs cell) (getCellStores (ch_sc c) cell) (getStores (ch_sc c)) None = Some (b, sc)"
    using assms(1) by (auto simp: selectBestPeer_def Let_def split: option.splits)
  then have p: "allocPeer pe (s_ID (si_Meta b)) alloc c = (Inr p, c')" "score = sc"
    using assms(1) by (auto simp: selectBestPeer_def Let_def split: prod.splits sum.splits)
  then have sid: "p_StoreID p = s_ID (si_Meta b)" and id: "if alloc then cache_newID pe c = (Inr (p_ID p), c') else c' = c"
    by (auto simp: allocPeer_def split: if_splits prod.splits sum.splits)
  show "if alloc then cache_newID pe c = (Inr (p_ID p), c') else c' = c" by (rule id)
  note g = best_store_good [OF assms(2) best]
  show "good_target env (ch_sc c) cell (p_StoreID p)" using g(1) sid by simp
  have "b \<in> set (getStores (ch_sc c))" using best_store_best [OF best] by auto
  then have "getStore (ch_sc c) (p_StoreID p) = Some b" using stores_okD [OF assms(2)] sid by simp
  then show "\<exists>b. getStore (ch_sc c) (p_StoreID p) = Some b \<and> score = getDistinctScore env (getCellStores (ch_sc c) cell) b \<and> \<not> filterTarget env b fs"
    using g(2,3) p(2) by blast
qed

lemma selectWorstPeer_E:
  assumes "selectWorstPeer env sc cell fs = (Some q, score)" "stores_ok sc"
  shows "q \<in> set (ci_Peers cell)"
    and "\<exists>w. getStore sc (p_StoreID q) = Some w \<and> score = getDistinctScore env (getCellStores sc cell) w"
proof -
  let ?cs = "getCellStores sc cell"
  obtain w where "worst_store env fs ?cs ?cs None = Some (w, score)" and q: "getStorePeer cell (s_ID (si_Meta w)) = Some q"
    using assms(1) by (auto simp: selectWorstPeer_def Let_def split: option.splits)
  then have w: "score = getDistinctScore env ?cs w" "w \<in> set ?cs" using worst_store_in by fastforce+
  then obtain i where "getStore sc i = Some w" by (auto simp: getCellStores_def map_filter_def)
  then have "getStore sc (s_ID (si_Meta w)) = Some w"
    using assms(2) by (auto simp: stores_ok_def getStore_def dest: map_of_SomeD)
  moreover have "p_StoreID q = s_ID (si_Meta w)" "q \<in> set (ci_Peers cell)"
    using q by (auto simp: getStorePeer_def find_Some_iff)
  ultimately show "q \<in> set (ci_Peers cell)"
    "\<exists>w. getStore sc (p_StoreID q) = Some w \<and> score = getDistinctScore env (getCellStores sc cell) w"
    using w by auto
qed

text \<open>Why an operator of the checker is in order.\<close>

definition peer_is_down :: "'f schedEnv \<Rightarrow> storeCache \<Rightarrow> PeerStats \<Rightarrow> bool" where
  "peer_is_down env sc st \<longleftrightarrow> (\<forall>store. getStore sc (p_StoreID (pt_Peer st)) = Some store \<longrightarrow>
     downTime (sc_now env) store \<ge> cf_LimitStoreDownDuration (sc_cfg env) \<and>
     pt_DownSeconds st \<ge> of_int (cf_LimitStoreDownDuration (sc_cfg env) div 10 ^ 9))"

definition store_not_up :: "storeCache \<Rightarrow> u64 \<Rightarrow> bool" where
  "store_not_up sc storeID \<longleftrightarrow> (\<forall>store. getStore sc storeID = Some store \<longrightarrow> \<not> isUp store)"

definition better_placed :: "'f::linorder schedEnv \<Rightarrow> storeCache \<Rightarrow> CellInfo \<Rightarrow> Peer \<Rightarrow> Peer \<Rightarrow> bool" where
  "better_placed env sc cell old new \<longleftrightarrow> (\<exists>w b. getStore sc (p_StoreID old) = Some w \<and> getStore sc (p_StoreID new) = Some b \<and>
     getDistinctScore env (getCellStores sc (removeStorePeer cell (p_StoreID old))) b > getDistinctScore env (getCellStores sc cell) w)"

definition justified_op :: "'f::linorder schedEnv \<Rightarrow> storeCache \<Rightarrow> CellInfo \<Rightarrow> Operator \<Rightarrow> bool" where
  "justified_op env sc cell op \<longleftrightarrow>
     (let n = of_nat (length (ci_Peers cell)) :: 32 word; limit = cf_LimitReplicas (sc_cfg env); cid = ci_ID cell
      in (\<exists>st \<in> set (ci_DownPeers cell). peer_is_down env sc st \<and> op = Basic (newRemovePeerOp cid (pt_Peer st))) \<or>
         (\<exists>q \<in> set (ci_Peers cell). n > limit \<and> op = Basic (newRemovePeerOp cid q)) \<or>
         (\<exists>p. n < limit \<and> good_target env sc cell (p_StoreID p) \<and> newAddPeerAggregationOp (sc_now env) cell p = Inr op) \<or>
         (\<exists>p. \<exists>q \<in> set (ci_Peers cell). good_target env sc cell (p_StoreID p) \<and>
            (store_not_up sc (p_StoreID q) \<or> n = limit \<and> better_placed env sc cell q p) \<and>
            newTransferPeerAggregationOp (sc_now env) cell q p = Inr op))"

lemma checkDownPeer_E:
  "checkDownPeer env sc cid sts = Some op \<Longrightarrow> \<exists>st \<in> set sts. peer_is_down env sc st \<and> op = Basic (newRemovePeerOp cid (pt_Peer st))"
  by (induction sts) (auto simp: Let_def peer_is_down_def not_less split: option.splits if_splits)

lemma transfer_to_best_E:
  assumes "transfer_to_best pe env cell q c = Inr (Some op, c')" "stores_ok (ch_sc c)"
  shows "\<exists>p. good_target env (ch_sc c) cell (p_StoreID p) \<and> newTransferPeerAggregationOp (sc_now env) cell q p = Inr op"
  using assms selectBestPeer_E(1) [of pe env cell True "[]" c]
  by (auto simp: transfer_to_best_def sbind_Inr_iff split: prod.splits option.splits)

lemma checkOfflinePeer_E:
  "checkOfflinePeer pe env cell ps c = Inr (Some op, c') \<Longrightarrow> stores_ok (ch_sc c) \<Longrightarrow>
     \<exists>p. \<exists>q \<in> set ps. good_target env (ch_sc c) cell (p_StoreID p) \<and> store_not_up (ch_sc c) (p_StoreID q) \<and>
       newTransferPeerAggregationOp (sc_now env) cell q p = Inr op"
  by (induction ps) (auto simp: store_not_up_def dest: transfer_to_best_E split: option.splits if_splits)

lemma allocPeer_frame: "allocPeer pe i b c = (r, c') \<Longrightarrow> ch_sc c' = ch_sc c \<and> ch_cc c' = ch_cc c"
  by (auto simp: allocPeer_def split: if_splits prod.splits sum.splits)

lemma selectBestPeer_frame:
  "selectBestPeer pe env cell b fs c = (r, c') \<Longrightarrow> ch_sc c' = ch_sc c \<and> ch_cc c' = ch_cc c"
  by (auto simp: selectBestPeer_def Let_def dest: allocPeer_frame split: option.splits prod.splits sum.splits)

lemma checkOfflinePeer_frame:
  "checkOfflinePeer pe env cell ps c = Inr (op, c') \<Longrightarrow> ch_sc c' = ch_sc c \<and> ch_cc c' = ch_cc c"
  by (induction ps) (auto simp: transfer_to_best_def sbind_Inr_iff dest: selectBestPeer_frame split: option.splits if_splits prod.splits)

lemma checkBestReplacement_E:
  assumes "checkBestReplacement pe env cell c = Inr (Some op, c')" "stores_ok (ch_sc c)"
  shows "\<exists>p. \<exists>q \<in> set (ci_Peers cell). good_target env (ch_sc c) cell (p_StoreID p) \<and> better_placed env (ch_sc c) cell q p \<and>
    newTransferPeerAggregationOp (sc_now env) cell q p = Inr op"
proof -
  obtain q oldScore where worst: "selectWorstPeer env (ch_sc c) cell [] = (Some q, oldScore)"
    using assms(1) by (auto simp: checkBestReplacement_def split: prod.splits option.splits)
  obtain p newScore c1 where best: "selectBestReplacement pe env cell q c = ((Some p, newScore), c1)"
    using assms(1) worst by (auto simp: checkBestReplacement_def split: prod.splits option.splits)
  have "newScore > oldScore" and op: "\<exists>i. newTransferPeerAggregationOp (sc_now env) cell q (p\<lparr>p_ID := i\<rparr>) = Inr op"
    using assms(1) worst best by (auto simp: checkBestReplacement_def sbind_Inr_iff split: prod.splits sum.splits if_splits)
  let ?rest = "removeStorePeer cell (p_StoreID q)"
  note b = selectBestPeer_E [OF best [unfolded selectBestReplacement_def] assms(2)]
  from b(3) have "p_StoreID p \<notin> p_StoreID ` set (ci_Peers cell)" using assms(2)
    by (auto simp: getStoreIDs_def getStore_def stores_ok_def dest: map_of_SomeD)
  then have "good_target env (ch_sc c) cell (p_StoreID p)" using b(1) by (auto simp: good_target_def)
  moreover have "better_placed env (ch_sc c) cell q p"
    using selectWorstPeer_E(2) [OF worst assms(2)] b(3) \<open>newScore > oldScore\<close> by (auto simp: better_placed_def)
  moreover obtain i where "newTransferPeerAggregationOp (sc_now env) cell q (p\<lparr>p_ID := i\<rparr>) = Inr op" using op by blast
  ultimately show ?thesis using selectWorstPeer_E(1) [OF worst assms(2)]
    by (intro exI [of _ "p\<lparr>p_ID := i\<rparr>"] bexI [of _ q]) (auto simp: better_placed_def)
qed

lemma check_count_justified:
  assumes count: "check_count pe env cell c = Inr (Some op, c')" and ok: "stores_ok (ch_sc c)"
  shows "justified_op env (ch_sc c) cell op"
proof -
  let ?n = "of_nat (length (ci_Peers cell)) :: 32 word"
  consider "?n < cf_LimitReplicas (sc_cfg env)" | "?n > cf_LimitReplicas (sc_cfg env)" | "?n = cf_LimitReplicas (sc_cfg env)" by fastforce
  then show ?thesis
  proof cases
    case 1
    then obtain p score where p: "selectBestPeer pe env cell True [] c = ((Some p, score), c')"
      and op: "newAddPeerAggregationOp (sc_now env) cell p = Inr op"
      using count by (auto simp: check_count_def sbind_Inr_iff split: prod.splits option.splits)
    show ?thesis
      using selectBestPeer_E(1) [OF p ok] op 1 unfolding justified_op_def Let_def by blast
  next
    case 2
    moreover have "\<not> ?n < cf_LimitReplicas (sc_cfg env)" using 2 by (rule less_not_sym)
    ultimately obtain q score where q: "selectWorstPeer env (ch_sc c) cell [] = (Some q, score)"
      and op: "op = Basic (newRemovePeerOp (ci_ID cell) q)"
      using count by (auto simp: check_count_def Let_def split: prod.splits option.splits)
    show ?thesis
      using selectWorstPeer_E(1) [OF q ok] op 2 unfolding justified_op_def Let_def by blast
  next
    case 3
    then have "checkBestReplacement pe env cell c = Inr (Some op, c')" using count by (simp add: check_count_def Let_def)
    then obtain p q where "q \<in> set (ci_Peers cell)" "good_target env (ch_sc c) cell (p_StoreID p)" "better_placed env (ch_sc c) cell q p"
      "newTransferPeerAggregationOp (sc_now env) cell q p = Inr op"
      using checkBestReplacement_E [OF _ ok] by blast
    with 3 show ?thesis unfolding justified_op_def Let_def by blast
  qed
qed

text \<open>C19: every operator of the replica checker is justified: a peer is only ordered out when it has
  been down past the limit or there are more replicas than configured, a peer is only added when there are
  too few, and a peer is only moved away from a store that is not up or to a strictly better location;
  the store that receives a peer is known, up, has sent a heartbeat within the limit, is below the storage
  threshold and holds no peer of the cell.\<close>

theorem replica_check_justified:
  assumes check: "Check pe env cell c = Inr (Some op, c')" and ok: "stores_ok (ch_sc c)"
  shows "justified_op env (ch_sc c) cell op"
proof (cases "checkDownPeer env (ch_sc c) (ci_ID cell) (ci_DownPeers cell)")
  case (Some o')
  then show ?thesis using check checkDownPeer_E [OF Some] by (auto simp: Check_def justified_op_def Let_def)
next
  case None
  then obtain o1 c1 where off: "checkOfflinePeer pe env cell (ci_Peers cell) c = Inr (o1, c1)"
    and rest: "if o1 \<noteq> None then o1 = Some op else check_count pe env cell c1 = Inr (Some op, c')"
    using check by (auto simp: Check_def sbind_Inr_iff split: if_splits)
  have c1: "ch_sc c1 = ch_sc c" using checkOfflinePeer_frame [OF off] by simp
  show ?thesis
  proof (cases "o1 = None")
    case False
    then obtain p q where "q \<in> set (ci_Peers cell)" "good_target env (ch_sc c) cell (p_StoreID p)" "store_not_up (ch_sc c) (p_StoreID q)"
      "newTransferPeerAggregationOp (sc_now env) cell q p = Inr op"
      using rest off checkOfflinePeer_E [of pe env cell "ci_Peers cell" c op c1] ok by auto
    then show ?thesis unfolding justified_op_def Let_def by blast
  next
    case True
    then show ?thesis using rest check_count_justified [of pe env cell c1 op c'] ok c1 by simp
  qed
qed

definition int_floats :: "int floatOps" where
  "int_floats = \<lparr>fo_of = uint, fo_add = (+), fo_sub = (-), fo_mul = (*), fo_div = (div), fo_abs = abs, fo_sqrt = id,
     fo_pow = (\<lambda>a b. a ^ nat b), fo_int = id, fo_uint = of_int, fo_stddev = (\<lambda>_. 0)\<rparr>"

definition demo_cfg :: pdCfg where
  "demo_cfg = \<lparr>cf_LabelsLocation = [''zone''], cf_LimitReplicas = 2, cf_LimitSnapshots = 3, cf_LimitStoreDownDuration = 100,
     cf_LimitScheduleLeader = 4, cf_LimitScheduleCell = 4, cf_LimitScheduleReplica = 4, cf_ThresholdStorageRate = 80\<rparr>"

definition demo_schedEnv :: "int schedEnv" where
  "demo_schedEnv = \<lparr>sc_cfg = demo_cfg, sc_now = 50, sc_fl = int_floats\<rparr>"

definition demo_storeInfo :: "u64 \<Rightarrow> string \<Rightarrow> StoreInfo" where
  "demo_storeInfo i zone = newStoreInfo \<lparr>s_ID = i, s_Address = [], s_State = UP, s_ClientAddress = [], s_Lables = [(''zone'', zone)]\<rparr>"

definition point_etcd :: "(string \<rightharpoonup> bytes) etcd" where
  "point_etcd = \<lparr>ec_Get = (\<lambda>k s. Inr (s k)), ec_Range = (\<lambda>a b n s. Inl ''unavailable''),
     ec_Commit = (\<lambda>cs ops s. if list_all (cmp_holds s) cs then (Inr True, fold op_apply ops s) else (Inr False, s))\<rparr>"

lemma point_etcd_laws: "etcd_laws point_etcd (\<lambda>s. s)"
  by (auto simp: etcd_laws_def point_etcd_def list_all_iff split: if_splits)

definition demo_pdEnv :: "(string \<rightharpoonup> bytes) pdEnv" where
  "demo_pdEnv = \<lparr>pv_etcd = point_etcd, pv_codec = demo_codec, pv_clusterID = 1, pv_leaderSignature = [1]\<rparr>"

definition demo_pdCache :: "(string \<rightharpoonup> bytes) pdCache" where
  "demo_pdCache = (newCache [pdLeaderPath \<mapsto> [1]])\<lparr>ch_sc := [(1, demo_storeInfo 1 ''a''), (2, demo_storeInfo 2 ''a''), (3, demo_storeInfo 3 ''b'')]\<rparr>"

theorem replica_check_justified_witness:
  "\<exists>op c'. Check demo_pdEnv demo_schedEnv (demo_info [1]) demo_pdCache = Inr (Some op, c') \<and>
     justified_op demo_schedEnv (ch_sc demo_pdCache) (demo_info [1]) op"
proof -
  have "case Check demo_pdEnv demo_schedEnv (demo_info [1]) demo_pdCache of Inr (Some op, c') \<Rightarrow> True | _ \<Rightarrow> False"
    by code_simp
  then obtain op c' where "Check demo_pdEnv demo_schedEnv (demo_info [1]) demo_pdCache = Inr (Some op, c')"
    by (auto split: sum.splits prod.splits option.splits)
  moreover have "stores_ok (ch_sc demo_pdCache)"
    by (simp add: stores_ok_def demo_pdCache_def demo_storeInfo_def newStoreInfo_def)
  ultimately show ?thesis using replica_check_justified by blast
qed

subsection \<open>The limiter\<close>

definition cells_of_kind :: "coordinator \<Rightarrow> ResourceKind \<Rightarrow> u64 set" where
  "cells_of_kind co kind = {cid. \<exists>op. co_opts co cid = Some op \<and> GetResourceKind op = Inr kind}"

definition coordinator_ok :: "coordinator \<Rightarrow> bool" where
  "coordinator_ok co \<longleftrightarrow> (\<forall>cid op. co_opts co cid = Some op \<longrightarrow> GetCellID op = cid) \<and>
     (\<forall>kind. operatorCount co kind = of_nat (card (cells_of_kind co kind)))"

lemma finite_cells_of_kind [simp]: "finite (cells_of_kind co kind)"
  by (rule finite_subset [of _ UNIV]) auto

lemma newCoordinator_ok [simp]: "coordinator_ok newCoordinator"
  by (simp add: coordinator_ok_def newCoordinator_def operatorCount_def cells_of_kind_def)

lemma addOperator_ok:
  assumes "coordinator_ok co" "addOperator op co = Inr (added, co')"
  shows "coordinator_ok co'" and "added \<longrightarrow> co_opts co' (GetCellID op) = Some op"
proof -
  have "coordinator_ok co' \<and> (added \<longrightarrow> co_opts co' (GetCellID op) = Some op)"
  proof (cases "co_opts co (GetCellID op)")
    case None
    then obtain k where k: "GetResourceKind op = Inr k"
      and co': "co' = co\<lparr>co_counts := (co_counts co)(k := co_counts co k + 1), co_opts := (co_opts co)(GetCellID op \<mapsto> op)\<rparr>"
      using assms(2) by (auto simp: addOperator_def limiter_addOperator_def sbind_Inr_iff)
    have opts: "co_opts co' = (co_opts co)(GetCellID op \<mapsto> op)"
      and counts: "operatorCount co' = (operatorCount co)(k := operatorCount co k + 1)"
      by (simp_all add: co' operatorCount_def fun_eq_iff)
    have kinds: "cells_of_kind co' k' = (if k' = k then insert (GetCellID op) (cells_of_kind co k') else cells_of_kind co k')" for k'
      using None k by (auto simp: cells_of_kind_def opts)
    have "GetCellID op \<notin> cells_of_kind co k" using None by (simp add: cells_of_kind_def)
    then have "operatorCount co' k' = of_nat (card (cells_of_kind co' k'))" for k'
      using assms(1) by (simp add: kinds coordinator_ok_def counts)
    then show ?thesis using assms(1) by (simp add: coordinator_ok_def opts)
  qed (use assms in \<open>simp add: addOperator_def\<close>)
  then show "coordinator_ok co'" "added \<longrightarrow> co_opts co' (GetCellID op) = Some op" by simp_all
qed

lemma updateOperator_ok:
  assumes "coordinator_ok co" "co_opts co cid = Some op" "GetCellID op' = GetCellID op" "GetResourceKind op' = GetResourceKind op"
  shows "coordinator_ok (co\<lparr>co_opts := (co_opts co)(cid \<mapsto> op')\<rparr>)"
proof -
  have "cells_of_kind (co\<lparr>co_opts := (co_opts co)(cid \<mapsto> op')\<rparr>) k = cells_of_kind co k" for k
    using assms(2,4) by (auto simp: cells_of_kind_def)
  then show ?thesis using assms by (auto simp: coordinator_ok_def operatorCount_def)
qed

lemma removeOperator_ok:
  assumes ok: "coordinator_ok co" and op: "co_opts co (GetCellID op') = Some op" "GetResourceKind op' = GetResourceKind op"
    and rem: "removeOperator op' co = Inr co'"
  shows "coordinator_ok co'"
proof -
  obtain k where k: "GetResourceKind op' = Inr k"
    and co': "co' = co\<lparr>co_counts := (co_counts co)(k := co_counts co k - 1), co_opts := (co_opts co)(GetCellID op' := None)\<rparr>"
    using rem by (auto simp: removeOperator_def limiter_removeOperator_def sbind_Inr_iff)
  have opts: "co_opts co' = (co_opts co)(GetCellID op' := None)"
    and counts: "operatorCount co' = (operatorCount co)(k := operatorCount co k - 1)"
    by (simp_all add: co' operatorCount_def fun_eq_iff)
  have kinds: "cells_of_kind co' k' = (if k' = k then cells_of_kind co k' - {GetCellID op'} else cells_of_kind co k')" for k'
    using op k by (auto simp: cells_of_kind_def opts)
  have "GetCellID op' \<in> cells_of_kind co k" using op k by (simp add: cells_of_kind_def)
  then have "(of_nat (card (cells_of_kind co k)) :: u64) - 1 = of_nat (card (cells_of_kind co k - {GetCellID op'}))"
    by (metis card_Suc_Diff1 finite_cells_of_kind of_nat_Suc add_diff_cancel_left')
  then show ?thesis using ok by (simp add: coordinator_ok_def kinds counts opts)
qed

lemma dispatch_check_ok:
  assumes "coordinator_ok co" "dispatch_check pe env target co c = Inr (r, co', c')"
  shows "coordinator_ok co'"
proof (cases "operatorCount co cellKind \<ge> cf_LimitScheduleReplica (sc_cfg env)")
  case False
  then obtain o1 c1 where "Check pe env target c = Inr (o1, c1)"
    and rest: "(case o1 of None \<Rightarrow> Inr (None, co, c1)
      | Some op \<Rightarrow> sbind (addOperator op co) (\<lambda>(added, co).
          if added then sbind (operator_Do (sc_now env) op target) (\<lambda>(res, _, op').
            Inr (res, co\<lparr>co_opts := (co_opts co)(GetCellID op \<mapsto> op')\<rparr>, c1)) else Inr (None, co, c1))) = Inr (r, co', c')"
    using assms(2) by (auto simp: dispatch_check_def sbind_Inr_iff)
  show ?thesis
  proof (cases o1)
    case (Some op)
    then obtain added co1 where add: "addOperator op co = Inr (added, co1)"
      and step: "if added then \<exists>res fin op'. operator_Do (sc_now env) op target = Inr (res, fin, op') \<and> co' = co1\<lparr>co_opts := (co_opts co1)(GetCellID op \<mapsto> op')\<rparr>
        else co' = co1"
      using rest by (fastforce simp: sbind_Inr_iff split: if_splits)
    show ?thesis
      using step addOperator_ok [OF assms(1) add] operator_Do_same updateOperator_ok by (metis (full_types))
  qed (use rest assms(1) in simp)
qed (use assms in \<open>simp add: dispatch_check_def\<close>)

lemma coordinator_dispatch_ok:
  assumes ok: "coordinator_ok co" and run: "coordinator_dispatch pe env target co c = Inr (r, co', c')"
  shows "coordinator_ok co'"
proof (cases "co_opts co (ci_ID target)")
  case None
  then show ?thesis using dispatch_check_ok [OF ok] run by (simp add: coordinator_dispatch_def)
next
  case (Some op)
  then obtain res fin op' where D: "operator_Do (sc_now env) op target = Inr (res, fin, op')"
    and rest: "(if \<not> fin then Inr (res, co\<lparr>co_opts := (co_opts co)(ci_ID target \<mapsto> op')\<rparr>, c)
      else sbind (removeOperator op' co) (\<lambda>co. dispatch_check pe env target co c)) = Inr (r, co', c')"
    using run by (auto simp: coordinator_dispatch_def sbind_Inr_iff)
  note same = operator_Do_same [OF D]
  show ?thesis
  proof (cases fin)
    case False
    then show ?thesis using rest updateOperator_ok [OF ok Some same] by simp
  next
    case True
    then obtain co1 where co1: "removeOperator op' co = Inr co1" "dispatch_check pe env target co1 c = Inr (r, co', c')"
      using rest by (auto simp: sbind_Inr_iff)
    have "co_opts co (GetCellID op') = Some op" using Some same ok by (auto simp: coordinator_ok_def)
    then show ?thesis using dispatch_check_ok [OF removeOperator_ok [OF ok _ same(2) co1(1)] co1(2)] by simp
  qed
qed

lemma schedule_retries_add:
  "schedule_retries n schedule s co = Inr (s', co') \<Longrightarrow> co' = co \<or> (\<exists>op. addOperator op co = Inr (True, co'))"
proof (induction n arbitrary: s)
  case (Suc n)
  obtain op s1 where "controller_Schedule schedule s = Inr (op, s1)"
    and rest: "(case op of None \<Rightarrow> schedule_retries n schedule s1 co
       | Some op \<Rightarrow> sbind (addOperator op co) (\<lambda>(added, co). if added then Inr (s1, co) else schedule_retries n schedule s1 co)) = Inr (s', co')"
    using Suc.prems by (auto simp: sbind_Inr_iff)
  show ?case
  proof (cases op)
    case None
    then show ?thesis using rest Suc.IH by simp
  next
    case (Some o')
    then obtain added co1 where add: "addOperator o' co = Inr (added, co1)"
      and r: "(if added then Inr (s1, co1) else schedule_retries n schedule s1 co1) = Inr (s', co')"
      using rest by (auto simp: sbind_Inr_iff)
    show ?thesis
    proof (cases added)
      case True
      then show ?thesis using add r by auto
    next
      case False
      then have "co1 = co" using add by (auto simp: addOperator_def sbind_Inr_iff split: if_splits)
      then show ?thesis using False r Suc.IH by simp
    qed
  qed
qed simp

text \<open>A tick of a scheduler adds at most one operator, and none once its kind has reached the limit.\<close>

lemma runScheduler_tick_add:
  "runScheduler_tick kind limit schedule s co = Inr (s', co') \<Longrightarrow>
     co' = co \<or> operatorCount co kind < limit \<and> (\<exists>op. addOperator op co = Inr (True, co'))"
  by (auto simp: runScheduler_tick_def AllowSchedule_def dest: schedule_retries_add split: if_splits)

inductive coordinator_run :: "'s pdEnv \<Rightarrow> 'f::linorder floatOps \<Rightarrow> 'x scheduleFn \<Rightarrow> coordinator \<Rightarrow> bool" for pe fl schedule where
  Co_new: "coordinator_run pe fl schedule newCoordinator"
| Co_add: "coordinator_run pe fl schedule co \<Longrightarrow> addOperator op co = Inr (added, co') \<Longrightarrow> coordinator_run pe fl schedule co'"
| Co_tick: "coordinator_run pe fl schedule co \<Longrightarrow> runScheduler_tick kind limit schedule s co = Inr (s', co') \<Longrightarrow>
    coordinator_run pe fl schedule co'"
| Co_dispatch: "coordinator_run pe fl schedule co \<Longrightarrow> sc_fl env = fl \<Longrightarrow>
    coordinator_dispatch pe env target co c = Inr (r, co', c') \<Longrightarrow> coordinator_run pe fl schedule co'"

text \<open>C21: whatever order heartbeats, scheduler ticks and administrative requests come in, the limiter's
  counter of a resource kind is the number of cells that have a registered operator of that kind, and
  every operator is registered under its own cell.\<close>

theorem limiter_counts_operators:
  assumes "coordinator_run pe fl schedule co"
  shows "operatorCount co kind = of_nat (card (cells_of_kind co kind)) \<and>
    (co_opts co cid = Some op \<longrightarrow> GetCellID op = cid)"
proof -
  have "coordinator_ok co" using assms
    by induction (auto dest: addOperator_ok coordinator_dispatch_ok runScheduler_tick_add)
  then show ?thesis by (simp add: coordinator_ok_def)
qed

theorem limiter_counts_operators_witness:
  "\<exists>co. coordinator_run demo_pdEnv int_floats (\<lambda>x :: unit. Inr (None, x)) co \<and> operatorCount co cellKind = 1 \<and>
     of_nat (card (cells_of_kind co cellKind)) = (1 :: u64)"
proof -
  let ?run = "coordinator_dispatch demo_pdEnv demo_schedEnv (demo_info [1]) newCoordinator demo_pdCache"
  have "case ?run of Inr (r, co, c) \<Rightarrow> operatorCount co cellKind = 1 | _ \<Rightarrow> False" by code_simp
  then obtain r co c where d: "?run = Inr (r, co, c)" and count: "operatorCount co cellKind = 1"
    by (auto split: sum.splits prod.splits)
  have run: "coordinator_run demo_pdEnv int_floats (\<lambda>x :: unit. Inr (None, x)) co"
    by (rule Co_dispatch [OF Co_new _ d]) (simp add: demo_schedEnv_def)
  then show ?thesis using limiter_counts_operators [OF run, of cellKind] count by auto
qed

end
