(* ===== verification/Pd_Cluster.thy ===== *)
theory Pd_Cluster
  imports Pd_Schedule_Props
begin

text \<open>
  \<^verbatim>\<open>pkg/pdserver/cluster.go\<close> and the administrative requests of \<^verbatim>\<open>api_handler.go\<close>: the handlers of
  the placement driver, over the cache, the coordinator and the metadata store.  Each handler runs
  under the cluster's lock.  A handler returns its answer or error; error texts are those of the
  code up to their first format directive.  The closed flag of the server is not part of the model.
\<close>

record 's CellCluster =
  cl_cache :: "'s pdCache"
  cl_coordinator :: coordinator
  cl_running :: bool

definition newCellCluster :: "'s \<Rightarrow> 's CellCluster" where
  "newCellCluster s = \<lparr>cl_cache = newCache s, cl_coordinator = newCoordinator, cl_running = False\<rparr>"

definition errNotBootstrapped :: string where "errNotBootstrapped = ''cluster not bootstrapped''"
definition errRPCReq :: string where "errRPCReq = ''invalid rpc req''"
definition errTombstoneStore :: string where "errTombstoneStore = ''store is tombstone''"
definition errStoreNotFound :: string where "errStoreNotFound = ''store is not found''"

subsection \<open>Start and bootstrap\<close>

definition batchLimit :: nat where "batchLimit = 10000"

definition start :: "nat \<Rightarrow> 's pdEnv \<Rightarrow> 's CellCluster \<Rightarrow> (string option \<times> 's CellCluster) option" where
  "start fuel env c =
     (if cl_running c then Some (None, c)
      else
        (let E = pv_etcd env; s = ch_etcd (cl_cache c); codec = pv_codec env; clusterID = pv_clusterID env
         in case LoadClusterMeta E codec clusterID s of
              Inl err \<Rightarrow> Some (Some err, c)
            | Inr None \<Rightarrow> Some (None, c)
            | Inr (Some cluster) \<Rightarrow>
                Option.bind (LoadStoreMeta fuel E codec clusterID batchLimit s) (\<lambda>(err, stores).
                  let c = c\<lparr>cl_cache := (cl_cache c)\<lparr>ch_sc := fold createStoreInfo stores (ch_sc (cl_cache c))\<rparr>\<rparr>
                  in if err \<noteq> None then Some (err, c)
                     else
                       Option.bind (LoadCellMeta fuel E codec clusterID batchLimit s) (\<lambda>(err, cells).
                         let c = c\<lparr>cl_cache := (cl_cache c)\<lparr>ch_cc := fold createAndAdd cells (ch_cc (cl_cache c))\<rparr>\<rparr>
                         in if err \<noteq> None then Some (err, c) else Some (None, c\<lparr>cl_running := True\<rparr>)))))"

fun check_cells :: "u64 \<Rightarrow> Cell list \<Rightarrow> string option" where
  "check_cells storeID [] = None"
| "check_cells storeID (cell # cells) =
     (if c_ID cell = 0 then Some ''invalid zero cell id for bootstrap cluster''
      else
        (case c_Peers cell of
           [p] \<Rightarrow>
             if p_ID p = 0 then Some ''invalid zero peer id for bootstrap cluster''
             else if p_StoreID p \<noteq> storeID then Some ''invalid cell store id for bootstrap cluster, cell=<''
             else check_cells storeID cells
         | _ \<Rightarrow> Some ''invalid first cell peer count must be 1, count=<''))"

definition checkForBootstrap :: "Store \<Rightarrow> Cell list \<Rightarrow> string option" where
  "checkForBootstrap st cells =
     (if s_ID st = 0 then Some ''invalid zero store id for bootstrap cluster'' else check_cells (s_ID st) cells)"

definition doBootstrap ::
  "'s pdEnv \<Rightarrow> 32 word \<Rightarrow> Store \<Rightarrow> Cell list \<Rightarrow> 's CellCluster \<Rightarrow> (string + bool) \<times> 's CellCluster" where
  "doBootstrap env limitReplicas st cells c =
     (let cluster = \<lparr>cr_ID = pv_clusterID env, cr_MaxReplicas = limitReplicas\<rparr>;
          (r, s) = SetClusterBootstrapped (pv_etcd env) (pv_codec env) (pv_clusterID env) cluster st cells (ch_etcd (cl_cache c));
          c = c\<lparr>cl_cache := (cl_cache c)\<lparr>ch_etcd := s\<rparr>\<rparr>
      in case r of Inl err \<Rightarrow> (Inl err, c) | Inr ok \<Rightarrow> (Inr (\<not> ok), c))"

text \<open>The answer is the flag \<^verbatim>\<open>AlreadyBootstrapped\<close>.\<close>

definition bootstrapCluster ::
  "nat \<Rightarrow> 's pdEnv \<Rightarrow> 32 word \<Rightarrow> Store \<Rightarrow> Cell list \<Rightarrow> 's CellCluster \<Rightarrow> ((string + bool) \<times> 's CellCluster) option" where
  "bootstrapCluster fuel env limitReplicas st cells c =
     (if cl_running c then Some (Inr True, c)
      else
        (case checkForBootstrap st cells of
           Some err \<Rightarrow> Some (Inl err, c)
         | None \<Rightarrow>
             (case doBootstrap env limitReplicas st cells c of
                (Inl err, c) \<Rightarrow> Some (Inl err, c)
              | (Inr already, c) \<Rightarrow>
                  map_option (\<lambda>(err, c). (case err of Some err \<Rightarrow> Inl err | None \<Rightarrow> Inr already, c)) (start fuel env c))))"

subsection \<open>Stores\<close>

definition checkStore :: "storeCache \<Rightarrow> u64 \<Rightarrow> string option" where
  "checkStore sc storeID =
     (case getStore sc storeID of
        None \<Rightarrow> None
      | Some store \<Rightarrow> if s_State (si_Meta store) = Tombstone then Some errTombstoneStore else None)"

definition duplicated_address :: "Store \<Rightarrow> storeCache \<Rightarrow> bool" where
  "duplicated_address st sc =
     list_ex (\<lambda>s. \<not> isTombstone s \<and> s_ID (si_Meta s) \<noteq> s_ID st \<and> s_Address (si_Meta s) = s_Address st) (getStores sc)"

definition doPutStore :: "'s pdEnv \<Rightarrow> string list \<Rightarrow> Store \<Rightarrow> 's CellCluster \<Rightarrow> string option \<times> 's CellCluster" where
  "doPutStore env labelsLocation st c =
     (let ch = cl_cache c
      in if s_ID st = 0 then (Some ''invalid for put store: <'', c)
         else if duplicated_address st (ch_sc ch) then (Some ''duplicated store address: '', c)
         else
           (let old = (case getStore (ch_sc ch) (s_ID st) of
                         None \<Rightarrow> newStoreInfo st
                       | Some old \<Rightarrow> old\<lparr>si_Meta := (si_Meta old)\<lparr>s_Address := s_Address st, s_Lables := s_Lables st\<rparr>\<rparr>)
            in if list_ex (\<lambda>k. length (getLabelValue old k) = 0) labelsLocation then (Some ''missing location label '', c)
               else
                 (case SetStoreMeta (pv_etcd env) (pv_codec env) (pv_clusterID env) (si_Meta old) (ch_etcd ch) of
                    (Some err, s) \<Rightarrow> (Some err, c\<lparr>cl_cache := ch\<lparr>ch_etcd := s\<rparr>\<rparr>)
                  | (None, s) \<Rightarrow>
                      (None, c\<lparr>cl_cache := notifyStoreRange (s_ID (si_Meta old))
                         (ch\<lparr>ch_etcd := s, ch_sc := updateStoreInfo old (ch_sc ch)\<rparr>)\<rparr>))))"

definition putStore :: "'s pdEnv \<Rightarrow> string list \<Rightarrow> Store \<Rightarrow> 's CellCluster \<Rightarrow> string option \<times> 's CellCluster" where
  "putStore env labelsLocation st c =
     (if \<not> cl_running c then (Some errNotBootstrapped, c)
      else
        (case checkStore (ch_sc (cl_cache c)) (s_ID st) of
           Some err \<Rightarrow> (Some err, c)
         | None \<Rightarrow> doPutStore env labelsLocation st c))"

definition pd_getStore :: "u64 \<Rightarrow> 's CellCluster \<Rightarrow> string + Store" where
  "pd_getStore storeID c =
     (if \<not> cl_running c then Inl errNotBootstrapped
      else (case getStore (ch_sc (cl_cache c)) storeID of None \<Rightarrow> Inl errStoreNotFound | Some store \<Rightarrow> Inr (si_Meta store)))"

definition listStore :: "'s CellCluster \<Rightarrow> string + Store list" where
  "listStore c =
     (if \<not> cl_running c then Inl errNotBootstrapped else Inr (map si_Meta (getStores (ch_sc (cl_cache c)))))"

definition doStoreHeartbeat :: "int \<Rightarrow> StoreStats \<Rightarrow> 's CellCluster \<Rightarrow> (string + int option) \<times> 's CellCluster" where
  "doStoreHeartbeat now stats c =
     (let ch = cl_cache c; storeID = tt_StoreID stats
      in case getStore (ch_sc ch) storeID of
           None \<Rightarrow> (Inl ''store<'', c)
         | Some store \<Rightarrow>
             (let store = store\<lparr>si_Status := (si_Status store)\<lparr>ss_Stats := stats,
                    ss_LeaderCount := of_nat (getStoreLeaderCount (ch_cc ch) storeID), ss_LastHeartbeatTS := now\<rparr>\<rparr>;
                  (level, co) = dispatchStore store (cl_coordinator c)
              in (Inr level, c\<lparr>cl_cache := ch\<lparr>ch_sc := updateStoreInfo store (ch_sc ch)\<rparr>, cl_coordinator := co\<rparr>)))"

text \<open>The list of indices the code adds to the answer is not part of the model.\<close>

definition storeHeartbeat :: "int \<Rightarrow> StoreStats option \<Rightarrow> 's CellCluster \<Rightarrow> (string + int option) \<times> 's CellCluster" where
  "storeHeartbeat now req c =
     (case req of
        None \<Rightarrow> (Inl ''invalid store heartbeat command, but '', c)
      | Some stats \<Rightarrow>
          if \<not> cl_running c then (Inl errNotBootstrapped, c)
          else
            (case checkStore (ch_sc (cl_cache c)) (tt_StoreID stats) of
               Some err \<Rightarrow> (Inl err, c)
             | None \<Rightarrow> doStoreHeartbeat now stats c))"

definition DeleteStore :: "'s pdEnv \<Rightarrow> u64 \<Rightarrow> bool \<Rightarrow> 's CellCluster \<Rightarrow> string option \<times> 's CellCluster" where
  "DeleteStore env i force c =
     (if \<not> cl_running c then (Some errNotBootstrapped, c)
      else
        (let ch = cl_cache c
         in case (if force then setStoreTombstone (ch_sc ch) i force else setStoreOffline (ch_sc ch) i) of
              Inl err \<Rightarrow> (Some err, c)
            | Inr None \<Rightarrow> (None, c)
            | Inr (Some store) \<Rightarrow>
                (case SetStoreMeta (pv_etcd env) (pv_codec env) (pv_clusterID env) (si_Meta store) (ch_etcd ch) of
                   (Some err, s) \<Rightarrow> (Some err, c\<lparr>cl_cache := ch\<lparr>ch_etcd := s\<rparr>\<rparr>)
                 | (None, s) \<Rightarrow>
                     (None, c\<lparr>cl_cache := notifyStoreRange i (ch\<lparr>ch_etcd := s, ch_sc := updateStoreInfo store (ch_sc ch)\<rparr>)\<rparr>))))"

definition SetStoreLogLevel :: "u64 list \<Rightarrow> int \<Rightarrow> 's CellCluster \<Rightarrow> string option \<times> 's CellCluster" where
  "SetStoreLogLevel targets level c =
     (if \<not> cl_running c then (Some errNotBootstrapped, c)
      else (None, c\<lparr>cl_coordinator := fold (\<lambda>i co. snd (addStoreOperator i level co)) targets (cl_coordinator c)\<rparr>))"

subsection \<open>Cells\<close>

definition doCellHeartbeat ::
  "'s pdEnv \<Rightarrow> 'f::linorder schedEnv \<Rightarrow> CellInfo \<Rightarrow> 's CellCluster \<Rightarrow> fault + (string + CellHeartbeatRsp) \<times> 's CellCluster" where
  "doCellHeartbeat env senv cr c =
     sbind (handleCellHeartbeat env cr (cl_cache c)) (\<lambda>(err, ch).
       let c = c\<lparr>cl_cache := ch\<rparr>
       in case err of
            Some err \<Rightarrow> Inr (Inl err, c)
          | None \<Rightarrow>
              if length (ci_Peers cr) = 0 then Inr (Inl errRPCReq, c)
              else
                (case cc_cells (ch_cc ch) (ci_ID cr) of
                   None \<Rightarrow> Inl Panic
                 | Some target \<Rightarrow>
                     sbind (coordinator_dispatch env senv target (cl_coordinator c) ch) (\<lambda>(rsp, co, ch).
                       Inr (Inr (case rsp of None \<Rightarrow> emptyRsp | Some r \<Rightarrow> r), c\<lparr>cl_cache := ch, cl_coordinator := co\<rparr>))))"

definition cellHeartbeat ::
  "'s pdEnv \<Rightarrow> 'f::linorder schedEnv \<Rightarrow> CellInfo \<Rightarrow> 's CellCluster \<Rightarrow> fault + (string + CellHeartbeatRsp) \<times> 's CellCluster" where
  "cellHeartbeat env senv req c =
     (if \<not> cl_running c then Inr (Inl errNotBootstrapped, c)
      else if ci_LeaderPeer req = None \<and> length (ci_Peers req) \<noteq> 1 then Inr (Inl errRPCReq, c)
      else if ci_ID req = 0 then Inr (Inl errRPCReq, c)
      else doCellHeartbeat env senv req c)"

fun alloc_ids :: "'s pdEnv \<Rightarrow> nat \<Rightarrow> 's pdCache \<Rightarrow> (string + u64 list) \<times> 's pdCache" where
  "alloc_ids env 0 c = (Inr [], c)"
| "alloc_ids env (Suc n) c =
     (case cache_newID env c of
        (Inl err, c) \<Rightarrow> (Inl err, c)
      | (Inr i, c) \<Rightarrow> (let (r, c) = alloc_ids env n c in (case r of Inl err \<Rightarrow> Inl err | Inr is \<Rightarrow> Inr (i # is), c)))"

definition doAskSplit :: "'s pdEnv \<Rightarrow> Cell \<Rightarrow> 's CellCluster \<Rightarrow> (string + u64 \<times> u64 list) \<times> 's CellCluster" where
  "doAskSplit env cell c =
     (case searchCell (ch_cc (cl_cache c)) (c_Start cell) of
        None \<Rightarrow> (Inl ''cell not found'', c)
      | Some cr \<Rightarrow>
          if e_CellVer (c_Epoch cell) < e_CellVer (c_Epoch (ci_Meta cr)) \<or> e_ConfVer (c_Epoch cell) < e_ConfVer (c_Epoch (ci_Meta cr))
          then (Inl ''invalid cell epoch, request: '', c)
          else
            (case cache_newID env (cl_cache c) of
               (Inl err, ch) \<Rightarrow> (Inl err, c\<lparr>cl_cache := ch\<rparr>)
             | (Inr newCellID, ch) \<Rightarrow>
                 (let (r, ch) = alloc_ids env (length (c_Peers cell)) ch
                  in (case r of Inl err \<Rightarrow> Inl err | Inr peerIDs \<Rightarrow> Inr (newCellID, peerIDs), c\<lparr>cl_cache := ch\<rparr>))))"

definition askSplit :: "'s pdEnv \<Rightarrow> Cell \<Rightarrow> 's CellCluster \<Rightarrow> (string + u64 \<times> u64 list) \<times> 's CellCluster" where
  "askSplit env cell c = (if \<not> cl_running c then (Inl errNotBootstrapped, c) else doAskSplit env cell c)"

definition checkSplitCell :: "Cell \<Rightarrow> Cell \<Rightarrow> string option" where
  "checkSplitCell left right =
     (if c_End left \<noteq> c_Start right then Some ''invalid split cell''
      else if length (c_End right) = 0 \<or> bytesCompare (c_Start left) (c_End right) < 0 then None
      else Some ''invalid split cell'')"

definition reportSplit :: "Cell \<Rightarrow> Cell \<Rightarrow> 's CellCluster \<Rightarrow> string option" where
  "reportSplit left right c = (if \<not> cl_running c then Some errNotBootstrapped else checkSplitCell left right)"

fun last_ranges :: "storeCache \<Rightarrow> CellInfo list \<Rightarrow> fault + (Cell \<times> Store) list" where
  "last_ranges sc [] = Inr []"
| "last_ranges sc (cr # crs) =
     (case ci_LeaderPeer cr of
        None \<Rightarrow> last_ranges sc crs
      | Some leader \<Rightarrow>
          (case getStore sc (p_StoreID leader) of
             None \<Rightarrow> Inl Panic
           | Some store \<Rightarrow> sbind (last_ranges sc crs) (\<lambda>rs. Inr ((ci_Meta cr, si_Meta store) # rs))))"

definition doGetLastRanges :: "cellOrder \<Rightarrow> 's CellCluster \<Rightarrow> fault + (Cell \<times> Store) list" where
  "doGetLastRanges ord c = last_ranges (ch_sc (cl_cache c)) (ord (cc_cells (ch_cc (cl_cache c))))"

text \<open>\<open>limit\<close> is the resource limit of the leader scheduler.\<close>

definition api_TransferLeader :: "int \<Rightarrow> u64 \<Rightarrow> u64 \<Rightarrow> u64 \<Rightarrow> 's CellCluster \<Rightarrow> fault + string option \<times> 's CellCluster" where
  "api_TransferLeader now limit cellID toPeerID c =
     (if \<not> cl_running c then Inr (Some errNotBootstrapped, c)
      else
        (case cc_cells (ch_cc (cl_cache c)) cellID of
           None \<Rightarrow> Inr (Some ''Cell '', c)
         | Some cellInfo \<Rightarrow>
             (case ci_getPeer cellInfo toPeerID of
                None \<Rightarrow> Inr (Some ''Peer '', c)
              | Some peer \<Rightarrow>
                  if \<not> AllowSchedule leaderKind limit (cl_coordinator c) then Inr (Some ''Scheduler not performed by limit'', c)
                  else
                    sbind (newTransferLeaderAggregationOp now cellInfo peer) (\<lambda>op.
                      sbind (addOperator op (cl_coordinator c)) (\<lambda>(_, co). Inr (None, c\<lparr>cl_coordinator := co\<rparr>))))))"

end
