(* ===== verification/Pd_Cluster_Frame.thy ===== *)
theory Pd_Cluster_Frame
  imports Pd_Cluster
begin

text \<open>
  What the requests of the placement driver leave alone: the records of cells in etcd are written
  by heartbeats and the bootstrap only, and scheduling changes neither stores nor cells.
\<close>

subsection \<open>Cell records in etcd\<close>

definition epoch_le :: "Cell \<Rightarrow> Cell \<Rightarrow> bool" where
  "epoch_le c d \<longleftrightarrow> e_CellVer (c_Epoch c) \<le> e_CellVer (c_Epoch d) \<and> e_ConfVer (c_Epoch c) \<le> e_ConfVer (c_Epoch d)"

lemma epoch_le_refl [simp]: "epoch_le c c"
  by (simp add: epoch_le_def)

lemma epoch_le_trans: "epoch_le a b \<Longrightarrow> epoch_le b c \<Longrightarrow> epoch_le a c"
  by (auto simp: epoch_le_def)

text \<open>Every record in the range of the cell keys is a marshalled cell under its own identifier.\<close>

definition cell_records :: "pdCodec \<Rightarrow> u64 \<Rightarrow> (string \<rightharpoonup> bytes) \<Rightarrow> bool" where
  "cell_records codec cid kvs \<longleftrightarrow>
     (\<forall>k b. kvs k = Some b \<longrightarrow> pd_getCellMetaKey cid 0 \<le> k \<longrightarrow> k < pd_getCellMetaKey cid endID \<longrightarrow>
        (\<exists>m. k = pd_getCellMetaKey cid (c_ID m) \<and> b = pc_cell codec m \<and> valid_range m)) \<and>
     (\<forall>b. kvs (pd_getCellMetaKey cid endID) = Some b \<longrightarrow> (\<exists>m. c_ID m = endID \<and> b = pc_cell codec m \<and> valid_range m))"

definition codec_ok :: "pdCodec \<Rightarrow> bool" where
  "codec_ok codec \<longleftrightarrow> (\<forall>m. pc_uncell codec (pc_cell codec m) = Some m)"

lemma cell_recordsD:
  assumes "cell_records codec cid kvs" "kvs (pd_getCellMetaKey cid i) = Some b"
  shows "\<exists>m. c_ID m = i \<and> b = pc_cell codec m \<and> valid_range m"
proof (cases "i = endID")
  case False
  then show ?thesis using assms inj_eq [OF cell_keys.key_inj, of cid] by (fastforce simp: cell_records_def)
qed (use assms in \<open>auto simp: cell_records_def\<close>)

text \<open>The other keys the server writes lie outside of that range.\<close>

definition outside :: "u64 \<Rightarrow> string \<Rightarrow> bool" where
  "outside cid k \<longleftrightarrow> k < pd_getCellMetaKey cid 0 \<or> pd_getCellMetaKey cid endID < k"

lemma outside_id [simp]: "outside cid pdIDPath"
  by (simp add: outside_def pdIDPath_def pd_getCellMetaKey_def getClusterMetaKey_def pdClusterRootPath_def less_char_def)

lemma outside_store [simp]: "outside cid (getStoreMetaKey cid i)"
  by (simp add: outside_def getStoreMetaKey_def pd_getCellMetaKey_def less_char_def)

lemma outside_cluster [simp]: "outside cid (getClusterMetaKey cid)"
  using append_less_same [of "getClusterMetaKey cid" "[]"] by (simp add: outside_def pd_getCellMetaKey_def)

lemma cell_key_mono: "pd_getCellMetaKey cid 0 \<le> pd_getCellMetaKey cid i" "pd_getCellMetaKey cid i \<le> pd_getCellMetaKey cid endID"
  by (simp_all add: endID_def)

lemma outside_neq: "outside cid k \<Longrightarrow> pd_getCellMetaKey cid i \<noteq> k"
  using cell_key_mono [of cid i] by (auto simp: outside_def)

lemma cell_records_outside: "cell_records codec cid kvs \<Longrightarrow> outside cid k \<Longrightarrow> cell_records codec cid (kvs(k \<mapsto> b))"
  using outside_neq [of cid k] by (auto simp: cell_records_def outside_def)

lemma cell_records_put:
  "cell_records codec cid kvs \<Longrightarrow> valid_range m \<Longrightarrow> cell_records codec cid (kvs(pd_getCellMetaKey cid (c_ID m) \<mapsto> pc_cell codec m))"
  unfolding cell_records_def inj_eq [OF cell_keys.key_inj] fun_upd_apply
  by (auto simp: inj_eq [OF cell_keys.key_inj] intro: exI [of _ m])

subsection \<open>Commits\<close>

lemma committed_snd: "snd (committed f p) = snd p"
  by (auto simp: committed_def split: prod.split sum.split)

lemma pd_save_kvs:
  assumes "etcd_laws E kvs" "pd_save E k v s = (r, s')"
  shows "kvs s' = (kvs s)(k \<mapsto> v) \<or> r \<noteq> None \<and> kvs s' = kvs s"
proof -
  obtain x where c: "ec_Commit E [] [OpPut k v] s = (x, s')" "r = fst (committed errTxnFailed (x, s'))"
    using assms(2) by (cases "ec_Commit E [] [OpPut k v] s") (auto simp: pd_save_def committed_def split: sum.splits if_splits)
  then show ?thesis using etcd_commit [OF assms(1) c(1)] by (auto simp: committed_def split: sum.splits if_splits)
qed

text \<open>What a server may do to etcd without touching cells: put records outside of the range.\<close>

definition other_puts :: "u64 \<Rightarrow> (string \<rightharpoonup> bytes) \<Rightarrow> (string \<rightharpoonup> bytes) \<Rightarrow> bool" where
  "other_puts cid kvs kvs' \<longleftrightarrow> (\<forall>k. \<not> outside cid k \<longrightarrow> kvs' k = kvs k) \<and> dom kvs \<subseteq> dom kvs'"

lemma other_puts_refl [simp]: "other_puts cid kvs kvs"
  by (simp add: other_puts_def)

lemma other_puts_trans: "other_puts cid a b \<Longrightarrow> other_puts cid b c \<Longrightarrow> other_puts cid a c"
  unfolding other_puts_def by (metis order_trans)

lemma other_puts_put: "outside cid k \<Longrightarrow> other_puts cid kvs (kvs(k \<mapsto> b))"
  by (auto simp: other_puts_def)

lemma not_outside [simp]: "\<not> outside cid (pd_getCellMetaKey cid i)"
  using cell_key_mono [of cid i] by (auto simp: outside_def)

lemma cell_records_frame:
  assumes "cell_records codec cid kvs" "other_puts cid kvs kvs'"
  shows "cell_records codec cid kvs'"
proof -
  have "kvs' k = kvs k" if "pd_getCellMetaKey cid 0 \<le> k" "k \<le> pd_getCellMetaKey cid endID" for k
    using assms(2) that unfolding other_puts_def outside_def not_less [symmetric] by blast
  moreover have "pd_getCellMetaKey cid 0 \<le> pd_getCellMetaKey cid endID" by (rule cell_key_mono)
  ultimately show ?thesis using assms(1) unfolding cell_records_def by (metis less_imp_le order_refl)
qed

lemma commit_id_kvs:
  assumes "etcd_laws E kvs" "committed f (leaderTxn E sig cs [OpPut pdIDPath v] s) = (x, s')"
  shows "other_puts cid (kvs s) (kvs s')"
proof -
  obtain y where y: "ec_Commit E (cs @ [leaderCmp sig]) [OpPut pdIDPath v] s = (y, s')"
    using assms(2) committed_snd [of f "leaderTxn E sig cs [OpPut pdIDPath v] s"]
    by (cases "leaderTxn E sig cs [OpPut pdIDPath v] s") (auto simp: leaderTxn_def)
  then have "kvs s' = (kvs s)(pdIDPath \<mapsto> v) \<or> kvs s' = kvs s"
    using etcd_commit [OF assms(1) y] by auto
  then show ?thesis using other_puts_put [of cid pdIDPath "kvs s" v] by auto
qed

lemma newID_kvs:
  assumes "etcd_laws E kvs" "newID E sig alloc s = (r, alloc', s')"
  shows "other_puts cid (kvs s) (kvs s')"
proof (cases "al_base alloc = al_end alloc")
  case True
  then obtain g where g: "generate E sig s = (g, s')"
    using assms(2) by (cases "generate E sig s") (auto simp: newID_def Let_def split: sum.splits prod.splits)
  show ?thesis
  proof (cases "GetID E s")
    case (Inr v)
    then have "reserve E sig v s = (g, s')" using g by (simp add: generate_def)
    then obtain x where "(if v = 0 then CreateID E sig (v + batch) s else UpdateID E sig v (v + batch) s) = (x, s')"
      by (auto simp: reserve_def Let_def split: prod.splits option.splits)
    then show ?thesis using commit_id_kvs [OF assms(1)] by (auto simp: CreateID_def UpdateID_def split: if_splits)
  qed (use g in \<open>simp add: generate_def\<close>)
qed (use assms(2) in \<open>auto simp: newID_def Let_def split: prod.splits\<close>)

subsection \<open>Scheduling leaves stores and cells alone\<close>

definition cache_frame :: "'s pdEnv \<Rightarrow> ('s \<Rightarrow> string \<rightharpoonup> bytes) \<Rightarrow> 's pdCache \<Rightarrow> 's pdCache \<Rightarrow> bool" where
  "cache_frame env kvs c c' \<longleftrightarrow> ch_sc c' = ch_sc c \<and> ch_cc c' = ch_cc c \<and>
     other_puts (pv_clusterID env) (kvs (ch_etcd c)) (kvs (ch_etcd c'))"

lemma cache_frame_refl [simp]: "cache_frame env kvs c c"
  by (simp add: cache_frame_def)

lemma cache_frame_trans: "cache_frame env kvs a b \<Longrightarrow> cache_frame env kvs b c \<Longrightarrow> cache_frame env kvs a c"
  by (auto simp: cache_frame_def intro: other_puts_trans)

lemma cache_newID_cf:
  assumes laws: "etcd_laws (pv_etcd env) kvs" and run: "cache_newID env c = (r, c')"
  shows "cache_frame env kvs c c'"
proof -
  obtain r' alloc s where n: "newID (pv_etcd env) (pv_leaderSignature env) (ch_alloc c) (ch_etcd c) = (r', alloc, s)"
    by (metis prod.collapse)
  then have "c' = c\<lparr>ch_alloc := alloc, ch_etcd := s\<rparr>" using run by (simp add: cache_newID_def)
  then show ?thesis using newID_kvs [OF laws n] by (simp add: cache_frame_def)
qed

lemma allocPeer_cf: "etcd_laws (pv_etcd env) kvs \<Longrightarrow> allocPeer env i b c = (r, c') \<Longrightarrow> cache_frame env kvs c c'"
  by (auto simp: allocPeer_def dest: cache_newID_cf split: if_splits prod.splits sum.splits)

lemma selectBestPeer_cf:
  "etcd_laws (pv_etcd env) kvs \<Longrightarrow> selectBestPeer env senv cell b fs c = (r, c') \<Longrightarrow> cache_frame env kvs c c'"
  by (auto simp: selectBestPeer_def Let_def dest: allocPeer_cf split: option.splits prod.splits sum.splits)

lemma checkOfflinePeer_cf:
  "etcd_laws (pv_etcd env) kvs \<Longrightarrow> checkOfflinePeer env senv cell ps c = Inr (op, c') \<Longrightarrow> cache_frame env kvs c c'"
  by (induction ps) (auto simp: transfer_to_best_def sbind_Inr_iff dest: selectBestPeer_cf split: option.splits if_splits prod.splits)

lemma checkBestReplacement_cf:
  assumes laws: "etcd_laws (pv_etcd env) kvs" and run: "checkBestReplacement env senv cell c = Inr (op, c')"
  shows "cache_frame env kvs c c'"
proof (cases "fst (selectWorstPeer senv (ch_sc c) cell [])")
  case (Some q)
  then obtain oldScore where w: "selectWorstPeer senv (ch_sc c) cell [] = (Some q, oldScore)" by (metis prod.collapse)
  obtain r newScore c1 where b: "selectBestReplacement env senv cell q c = ((r, newScore), c1)" by (metis prod.collapse)
  then have f: "cache_frame env kvs c c1" using selectBestPeer_cf [OF laws] by (simp add: selectBestReplacement_def)
  have "c' = c1 \<or> (\<exists>x. cache_newID env c1 = (x, c'))"
    using run w b by (auto simp: checkBestReplacement_def sbind_Inr_iff split: option.splits if_splits prod.splits sum.splits)
  then show ?thesis using f cache_newID_cf [OF laws] cache_frame_trans by metis
qed (use run in \<open>auto simp: checkBestReplacement_def split: prod.splits\<close>)

lemma check_count_cf:
  assumes laws: "etcd_laws (pv_etcd env) kvs" and run: "check_count env senv cell c = Inr (op, c')"
  shows "cache_frame env kvs c c'"
proof -
  have "c' = c \<or> (\<exists>r. selectBestPeer env senv cell True [] c = (r, c')) \<or> checkBestReplacement env senv cell c = Inr (op, c')"
    using run unfolding check_count_def Let_def by (auto simp: sbind_Inr_iff split: if_splits option.splits prod.splits)
  then show ?thesis using selectBestPeer_cf [OF laws] checkBestReplacement_cf [OF laws] by auto
qed

lemma Check_cf:
  assumes laws: "etcd_laws (pv_etcd env) kvs" and run: "Check env senv cell c = Inr (op, c')"
  shows "cache_frame env kvs c c'"
proof (cases "checkDownPeer senv (ch_sc c) (ci_ID cell) (ci_DownPeers cell)")
  case None
  then obtain o1 c1 where off: "checkOfflinePeer env senv cell (ci_Peers cell) c = Inr (o1, c1)"
    and rest: "if o1 \<noteq> None then c' = c1 else check_count env senv cell c1 = Inr (op, c')"
    using run by (auto simp: Check_def sbind_Inr_iff split: if_splits)
  note f = checkOfflinePeer_cf [OF laws off]
  show ?thesis
    using rest f cache_frame_trans [OF f check_count_cf [OF laws]] by (cases "o1 = None") auto
qed (use run in \<open>simp add: Check_def\<close>)

lemma dispatch_check_cf:
  assumes laws: "etcd_laws (pv_etcd env) kvs" and run: "dispatch_check env senv cell co c = Inr (r, co', c')"
  shows "cache_frame env kvs c c'"
proof -
  have "c' = c \<or> (\<exists>op. Check env senv cell c = Inr (op, c'))"
    using run by (auto simp: dispatch_check_def sbind_Inr_iff split: if_splits option.splits)
  then show ?thesis using Check_cf [OF laws] by auto
qed

lemma coordinator_dispatch_cf:
  assumes laws: "etcd_laws (pv_etcd env) kvs" and run: "coordinator_dispatch env senv cell co c = Inr (r, co', c')"
  shows "cache_frame env kvs c c'"
proof -
  have "c' = c \<or> (\<exists>co1. dispatch_check env senv cell co1 c = Inr (r, co', c'))"
    using run by (auto simp: coordinator_dispatch_def sbind_Inr_iff split: if_splits option.splits)
  then show ?thesis using dispatch_check_cf [OF laws] by auto
qed

lemma alloc_ids_cf: "etcd_laws (pv_etcd env) kvs \<Longrightarrow> alloc_ids env n c = (r, c') \<Longrightarrow> cache_frame env kvs c c'"
proof (induction n arbitrary: c r)
  case (Suc n)
  obtain x c1 where x: "cache_newID env c = (x, c1)" by fastforce
  then have "c' = c1 \<or> (\<exists>r. alloc_ids env n c1 = (r, c'))"
    using Suc.prems(2) by (auto split: sum.splits prod.splits)
  then show ?case using cache_newID_cf [OF Suc.prems(1) x] Suc.IH [OF Suc.prems(1)] cache_frame_trans by metis
qed simp

lemma cell_Schedule_cf:
  assumes laws: "etcd_laws (pv_etcd env) kvs" and run: "cell_Schedule env senv ord b c = Inr (op, b', c')"
  shows "cache_frame env kvs c c'"
proof -
  have tr: "cache_frame env kvs c c1" if run: "cell_transferPeer env senv cell q b c = Inr (x, y, c1)" for cell q x y c1
  proof -
    obtain source g where src: "getStore (ch_sc c) (p_StoreID q) = Some source"
      "newDistinctScoreFilter senv (getCellStores (ch_sc c) cell) source = Inr g"
      using run by (auto simp: cell_transferPeer_def sbind_Inr_iff split: option.splits)
    obtain r score c2 where sel: "selectBestPeer env senv cell True [g] c = ((r, score), c2)" by (metis prod.collapse)
    have "c1 = c2"
      using run by (auto simp: cell_transferPeer_def src sel sbind_Inr_iff split: option.splits if_splits)
    then show ?thesis using selectBestPeer_cf [OF laws sel] by simp
  qed
  obtain r where r: "scheduleRemovePeer senv ord (cell_filters b) c = Inr r"
    using run by (auto simp: cell_Schedule_def sbind_Inr_iff)
  show ?thesis
  proof (cases "\<exists>cell q. r = Some (cell, Some q)")
    case True
    then obtain cell q where "r = Some (cell, Some q)" by blast
    then have "c' = c \<or> (\<exists>x y. cell_transferPeer env senv cell q b c = Inr (x, y, c'))"
      using run by (auto simp: cell_Schedule_def r sbind_Inr_iff split: if_splits)
    then show ?thesis using tr by auto
  next
    case False
    then show ?thesis using run by (cases r) (auto simp: cell_Schedule_def r split: if_splits option.splits)
  qed
qed

end
