(* ===== verification/Pd_Sample.thy ===== *)
theory Pd_Sample
  imports Pd_Store "HOL-Library.AList"
begin

text \<open>
  An etcd over an association list and a codec for cells, both executable and shown to obey what the
  placement driver relies on: the runs that witness its properties use them.
\<close>

definition alist_etcd :: "(string \<times> bytes) list etcd" where
  "alist_etcd = \<lparr>ec_Get = (\<lambda>k s. Inr (map_of s k)),
     ec_Range = (\<lambda>a b n s. Inr (take n (map (\<lambda>k. (k, the (map_of s k))) (sort (remdups (filter (\<lambda>k. a \<le> k \<and> k < b) (map fst s))))))),
     ec_Commit = (\<lambda>cs ops s. if list_all (cmp_holds (map_of s)) cs
        then (Inr True, fold (\<lambda>op s. case op of OpPut k v \<Rightarrow> AList.update k v s | OpDelete k \<Rightarrow> AList.delete k s) ops s)
        else (Inr False, s))\<rparr>"

lemma alist_ops: "map_of (fold (\<lambda>op s. case op of OpPut k v \<Rightarrow> AList.update k v s | OpDelete k \<Rightarrow> AList.delete k s) ops s) =
    fold op_apply ops (map_of s)"
  by (induction ops arbitrary: s) (auto simp: update_conv' delete_conv' split: Op.split)

lemma alist_etcd_laws: "etcd_laws alist_etcd map_of"
proof -
  have "entries (map_of s) a b = map (\<lambda>k. (k, the (map_of s k))) (sort (remdups (filter (\<lambda>k. a \<le> k \<and> k < b) (map fst s))))" for s a b
  proof -
    have "{k \<in> dom (map_of s). a \<le> k \<and> k < b} = set (filter (\<lambda>k. a \<le> k \<and> k < b) (map fst s))"
      by (auto simp: dom_map_of_conv_image_fst)
    then show ?thesis by (simp only: entries_def sorted_list_of_set_sort_remdups)
  qed
  then show ?thesis by (auto simp: etcd_laws_def alist_etcd_def alist_ops list_all_iff split: if_splits)
qed

definition put_bytes :: "bytes \<Rightarrow> bytes" where
  "put_bytes bs = concat (map (\<lambda>b. [1, b]) bs) @ [0]"

fun get_bytes :: "bytes \<Rightarrow> (bytes \<times> bytes) option" where
  "get_bytes [] = None"
| "get_bytes [t] = (if t = 0 then Some ([], []) else None)"
| "get_bytes (t # b # r) =
     (if t = 0 then Some ([], b # r) else map_option (\<lambda>(bs, r). (b # bs, r)) (get_bytes r))"

definition get_u64 :: "bytes \<Rightarrow> (u64 \<times> bytes) option" where
  "get_u64 r = map_option (\<lambda>v. (v, drop 8 r)) (BytesToUint64 (take 8 r))"

definition put_peers :: "Peer list \<Rightarrow> bytes" where
  "put_peers ps = concat (map (\<lambda>p. 1 # Uint64ToBytes (p_ID p) @ Uint64ToBytes (p_StoreID p)) ps) @ [0]"

fun get_peers :: "nat \<Rightarrow> bytes \<Rightarrow> Peer list" where
  "get_peers 0 r = []"
| "get_peers (Suc n) r =
     (case r of [] \<Rightarrow> [] | t # r \<Rightarrow> if t = 0 then []
      else (case get_u64 r of None \<Rightarrow> [] | Some (i, r) \<Rightarrow>
        (case get_u64 r of None \<Rightarrow> [] | Some (st, r) \<Rightarrow> \<lparr>p_ID = i, p_StoreID = st\<rparr> # get_peers n r)))"

definition put_cell :: "Cell \<Rightarrow> bytes" where
  "put_cell c = put_bytes (c_Start c) @ put_bytes (c_End c) @ Uint64ToBytes (c_ID c) @
     Uint64ToBytes (e_ConfVer (c_Epoch c)) @ Uint64ToBytes (e_CellVer (c_Epoch c)) @ put_peers (c_Peers c)"

definition get_cell :: "bytes \<Rightarrow> Cell option" where
  "get_cell r =
     Option.bind (get_bytes r) (\<lambda>(a, r). Option.bind (get_bytes r) (\<lambda>(b, r).
     Option.bind (get_u64 r) (\<lambda>(i, r). Option.bind (get_u64 r) (\<lambda>(cv, r). Option.bind (get_u64 r) (\<lambda>(ce, r).
       Some \<lparr>c_ID = i, c_Start = a, c_End = b, c_Epoch = \<lparr>e_ConfVer = cv, e_CellVer = ce\<rparr>, c_Peers = get_peers (length r) r\<rparr>)))))"

lemma get_put_bytes: "get_bytes (put_bytes bs @ r) = Some (bs, r)"
proof (induction bs)
  case Nil
  then show ?case by (cases r) (simp_all add: put_bytes_def)
qed (simp add: put_bytes_def)

lemma get_put_u64: "get_u64 (Uint64ToBytes v @ r) = Some (v, r)"
  by (simp add: get_u64_def BytesToUint64_def)

lemma get_put_peers: "length ps < n \<Longrightarrow> get_peers n (put_peers ps) = ps"
proof (induction ps arbitrary: n)
  case (Cons p ps)
  then obtain m where "n = Suc m" by (cases n) auto
  then show ?case using Cons by (simp add: put_peers_def get_put_u64)
next
  case Nil
  then show ?case by (cases n) (simp_all add: put_peers_def)
qed

lemma length_put_peers: "length ps < length (put_peers ps)"
  by (induction ps) (simp_all add: put_peers_def)

lemma get_put_cell: "get_cell (put_cell c) = Some c"
  by (simp add: get_cell_def put_cell_def get_put_bytes get_put_u64 get_put_peers length_put_peers)

definition sample_codec :: pdCodec where
  "sample_codec = \<lparr>pc_cluster = (\<lambda>_. []), pc_store = (\<lambda>st. Uint64ToBytes (s_ID st)), pc_cell = put_cell, pc_uncell = get_cell,
     pc_unstore = map_option (\<lambda>i. \<lparr>s_ID = i, s_Address = [], s_State = UP, s_ClientAddress = [], s_Lables = []\<rparr>) \<circ> BytesToUint64,
     pc_uncluster = (\<lambda>_. Some \<lparr>cr_ID = 1, cr_MaxReplicas = 3\<rparr>)\<rparr>"

end
