(* ===== verification/Pd_Cluster_Props.thy ===== *)
theory Pd_Cluster_Props
  imports Pd_Cluster_Frame Pd_Sample
begin

text \<open>
  The placement driver over any sequence of requests: its indexes of cells stay exact, what it
  knows of a cell is recorded in etcd before it is used, the epoch it holds for a cell never goes
  back, and the state of a store only moves forward.
\<close>

subsection \<open>Cached cells are recorded\<close>

definition recorded :: "'s pdEnv \<Rightarrow> (string \<rightharpoonup> bytes) \<Rightarrow> cellCache \<Rightarrow> bool" where
  "recorded env kvs cc \<longleftrightarrow> cell_records (pv_codec env) (pv_clusterID env) kvs \<and>
     (\<forall>cid i. cc_cells cc cid = Some i \<longrightarrow>
        (\<exists>m. kvs (pd_getCellMetaKey (pv_clusterID env) cid) = Some (pc_cell (pv_codec env) m) \<and> epoch_le (ci_Meta i) m)) \<and>
     (cc_cells cc \<noteq> (\<lambda>_. None) \<longrightarrow> kvs (getClusterMetaKey (pv_clusterID env)) \<noteq> None)"

definition grows :: "cellCache \<Rightarrow> cellCache \<Rightarrow> bool" where
  "grows cc cc' \<longleftrightarrow> (\<forall>cid i. cc_cells cc cid = Some i \<longrightarrow>
     (\<exists>i'. cc_cells cc' cid = Some i' \<and> epoch_le (ci_Meta i) (ci_Meta i')))"

lemma grows_refl [simp]: "grows cc cc"
  by (simp add: grows_def)

lemma grows_trans: "grows a b \<Longrightarrow> grows b c \<Longrightarrow> grows a c"
  unfolding grows_def by (meson epoch_le_trans)

lemma recorded_frame:
  assumes "recorded env kvs cc" "other_puts (pv_clusterID env) kvs kvs'"
  shows "recorded env kvs' cc"
proof -
  have "kvs' (pd_getCellMetaKey (pv_clusterID env) i) = kvs (pd_getCellMetaKey (pv_clusterID env) i)" for i
    using assms(2) by (simp add: other_puts_def)
  moreover have "kvs k \<noteq> None \<Longrightarrow> kvs' k \<noteq> None" for k using assms(2) by (auto simp: other_puts_def)
  ultimately show ?thesis
    using assms cell_records_frame unfolding recorded_def by metis
qed

lemma recorded_put:
  assumes rec: "recorded env kvs cc" and v: "valid_range m"
    and newer: "\<forall>cur. cc_cells cc (c_ID m) = Some cur \<longrightarrow> epoch_le (ci_Meta cur) m"
  shows "recorded env (kvs(pd_getCellMetaKey (pv_clusterID env) (c_ID m) \<mapsto> pc_cell (pv_codec env) m)) cc"
proof -
  let ?key = "pd_getCellMetaKey (pv_clusterID env)"
  have inj: "?key a = ?key b \<longleftrightarrow> a = b" for a b by (rule inj_eq [OF cell_keys.key_inj])
  have "getClusterMetaKey (pv_clusterID env) \<noteq> ?key (c_ID m)" using outside_neq [OF outside_cluster] by metis
  then show ?thesis
    using rec newer cell_records_put [OF _ v] unfolding recorded_def by (auto simp: inj)
qed

lemma recorded_addOrUpdate:
  assumes ok: "cache_ok cc" and rec: "recorded env kvs cc" and v: "valid_range (ci_Meta i)"
    and stored: "kvs (pd_getCellMetaKey (pv_clusterID env) (ci_ID i)) = Some (pc_cell (pv_codec env) m)" "epoch_le (ci_Meta i) m"
    and cluster: "kvs (getClusterMetaKey (pv_clusterID env)) \<noteq> None"
  shows "recorded env kvs (addOrUpdate i cc)"
  using rec stored cluster unfolding recorded_def addOrUpdate_fields(2) [OF ok v] by auto

lemma grows_addOrUpdate:
  assumes "cache_ok cc" "valid_range (ci_Meta i)"
    and "\<forall>cur. cc_cells cc (ci_ID i) = Some cur \<longrightarrow> epoch_le (ci_Meta cur) (ci_Meta i)"
  shows "grows cc (addOrUpdate i cc)"
  using assms(3) unfolding grows_def addOrUpdate_fields(2) [OF assms(1,2)] by auto

text \<open>The state of the cache a request may rely on, and what it keeps.\<close>

definition pdcache_ok :: "'s pdEnv \<Rightarrow> ('s \<Rightarrow> string \<rightharpoonup> bytes) \<Rightarrow> 's pdCache \<Rightarrow> bool" where
  "pdcache_ok env kvs c \<longleftrightarrow> cache_ok (ch_cc c) \<and> stores_ok (ch_sc c) \<and> recorded env (kvs (ch_etcd c)) (ch_cc c)"

lemma pdcache_ok_frame: "pdcache_ok env kvs c \<Longrightarrow> cache_frame env kvs c c' \<Longrightarrow> pdcache_ok env kvs c'"
  by (auto simp: pdcache_ok_def cache_frame_def intro: recorded_frame)

lemma SetCellMeta_kvs:
  assumes "etcd_laws (pv_etcd env) kvs" "SetCellMeta (pv_etcd env) (pv_codec env) (pv_clusterID env) m s = (r, s')"
  shows "kvs s' = (kvs s)(pd_getCellMetaKey (pv_clusterID env) (c_ID m) \<mapsto> pc_cell (pv_codec env) m) \<or> r \<noteq> None \<and> kvs s' = kvs s"
  using pd_save_kvs [OF assms(1) assms(2) [unfolded SetCellMeta_def]] .

lemma doSaveCellInfo_ok:
  assumes laws: "etcd_laws (pv_etcd env) kvs" and ok: "pdcache_ok env kvs c" and v: "valid_range (ci_Meta i)"
    and newer: "\<forall>cur. cc_cells (ch_cc c) (ci_ID i) = Some cur \<longrightarrow> epoch_le (ci_Meta cur) (ci_Meta i)"
    and cluster: "kvs (ch_etcd c) (getClusterMetaKey (pv_clusterID env)) \<noteq> None"
    and run: "doSaveCellInfo env i c = (err, c')"
  shows "pdcache_ok env kvs c' \<and> grows (ch_cc c) (ch_cc c') \<and> ch_sc c' = ch_sc c \<and>
    kvs (ch_etcd c') (getClusterMetaKey (pv_clusterID env)) \<noteq> None"
proof -
  let ?key = "pd_getCellMetaKey (pv_clusterID env)" and ?enc = "pc_cell (pv_codec env)"
  obtain r s where set: "SetCellMeta (pv_etcd env) (pv_codec env) (pv_clusterID env) (ci_Meta i) (ch_etcd c) = (r, s)" by fastforce
  note kvs = SetCellMeta_kvs [OF laws set]
  have parts: "cache_ok (ch_cc c)" "stores_ok (ch_sc c)" "recorded env (kvs (ch_etcd c)) (ch_cc c)"
    using ok by (auto simp: pdcache_ok_def)
  have cluster': "kvs s (getClusterMetaKey (pv_clusterID env)) \<noteq> None" using kvs cluster by auto
  have rec: "recorded env (kvs s) (ch_cc c)"
    using kvs recorded_put [OF parts(3) v newer] parts(3) by auto
  show ?thesis
  proof (cases r)
    case None
    then have "kvs s (?key (ci_ID i)) = Some (?enc (ci_Meta i))" using kvs by simp
    then have "recorded env (kvs s) (addOrUpdate i (ch_cc c))"
      using recorded_addOrUpdate [OF parts(1) rec v _ epoch_le_refl cluster'] by simp
    then show ?thesis
      using run None parts cluster' addOrUpdate_fields(1) [OF parts(1) v] grows_addOrUpdate [OF parts(1) v newer]
      by (auto simp: doSaveCellInfo_def set pdcache_ok_def)
  next
    case (Some e)
    then show ?thesis using run rec parts cluster' by (auto simp: doSaveCellInfo_def set pdcache_ok_def)
  qed
qed

lemma notifyChangedRange_frame:
  "notifyChangedRange i et c = Inr c' \<Longrightarrow> ch_sc c' = ch_sc c \<and> ch_cc c' = ch_cc c \<and> ch_etcd c' = ch_etcd c"
  by (auto simp: notifyChangedRange_def sbind_Inr_iff split: option.splits)

lemma notifyStoreRange_frame [simp]:
  "ch_sc (notifyStoreRange i c) = ch_sc c" "ch_cc (notifyStoreRange i c) = ch_cc c" "ch_etcd (notifyStoreRange i c) = ch_etcd c"
  by (auto simp: notifyStoreRange_def Let_def split: option.split)

lemma handleCellHeartbeat_ok:
  assumes laws: "etcd_laws (pv_etcd env) kvs" and ok: "pdcache_ok env kvs c" and v: "valid_range (ci_Meta i)"
    and cluster: "kvs (ch_etcd c) (getClusterMetaKey (pv_clusterID env)) \<noteq> None"
    and run: "handleCellHeartbeat env i c = Inr (err, c')"
  shows "pdcache_ok env kvs c' \<and> grows (ch_cc c) (ch_cc c') \<and> ch_sc c' = ch_sc c \<and>
    kvs (ch_etcd c') (getClusterMetaKey (pv_clusterID env)) \<noteq> None"
proof -
  have save: ?thesis if "doSaveCellInfo env i c = (e, c1)" "e \<noteq> None \<longrightarrow> c' = c1" "e = None \<longrightarrow> notifyChangedRange (ci_ID i) et c1 = Inr c'"
    "\<forall>cur. cc_cells (ch_cc c) (ci_ID i) = Some cur \<longrightarrow> epoch_le (ci_Meta cur) (ci_Meta i)" for e c1 et
    using doSaveCellInfo_ok [OF laws ok v that(4) cluster that(1)] that(2,3) notifyChangedRange_frame [of "ci_ID i" et c1 c']
    by (cases e) (auto simp: pdcache_ok_def)
  obtain e c1 where sv: "doSaveCellInfo env i c = (e, c1)" by fastforce
  show ?thesis
  proof (cases "cc_cells (ch_cc c) (ci_ID i)")
    case None
    show ?thesis
      by (rule save [OF sv, of CellCreated]) (use run None sv in \<open>auto simp: handleCellHeartbeat_def sbind_Inr_iff split: option.splits\<close>)
  next
    case (Some cur)
    let ?ce = "c_Epoch (ci_Meta cur)" and ?se = "c_Epoch (ci_Meta i)"
    let ?stale = "e_CellVer ?se < e_CellVer ?ce \<or> e_ConfVer ?se < e_ConfVer ?ce"
    let ?range = "e_CellVer ?se > e_CellVer ?ce" and ?peers = "e_ConfVer ?se > e_ConfVer ?ce"
    show ?thesis
    proof (cases ?stale)
      case True
      then show ?thesis using run Some ok cluster by (auto simp: handleCellHeartbeat_def Let_def)
    next
      case False
      then have le: "epoch_le (ci_Meta cur) (ci_Meta i)" by (simp add: epoch_le_def not_less)
      show ?thesis
      proof (cases "?range \<or> ?peers")
        case True
        define et where "et = (if ?range then CellRangeChaned else CellPeersChaned)"
        have "handleCellHeartbeat env i c = (case doSaveCellInfo env i c of (Some err, c) \<Rightarrow> Inr (Some err, c)
            | (None, c) \<Rightarrow> sbind (notifyChangedRange (ci_ID i) et c) (\<lambda>c. Inr (None, c)))"
          unfolding handleCellHeartbeat_def Some Let_def option.case et_def using False True by (simp only: if_True if_False)
        note step = this [unfolded run sv]
        have "e \<noteq> None \<longrightarrow> c' = c1" using step by (cases e) simp_all
        moreover have "e = None \<longrightarrow> notifyChangedRange (ci_ID i) et c1 = Inr c'"
          using step by (cases "notifyChangedRange (ci_ID i) et c1"; cases e) auto
        moreover have "\<forall>cur. cc_cells (ch_cc c) (ci_ID i) = Some cur \<longrightarrow> epoch_le (ci_Meta cur) (ci_Meta i)" using le Some by simp
        ultimately show ?thesis by (rule save [OF sv])
      next
        case same: False
        let ?c1 = "c\<lparr>ch_cc := addOrUpdate i (ch_cc c)\<rparr>"
        have c': "ch_sc c' = ch_sc c \<and> ch_cc c' = addOrUpdate i (ch_cc c) \<and> ch_etcd c' = ch_etcd c"
          using run Some False same notifyChangedRange_frame [of "ci_ID i" CellLeaderChanged ?c1 c']
          by (auto simp: handleCellHeartbeat_def Let_def sbind_Inr_iff split: if_splits)
        have eq: "e_CellVer ?se = e_CellVer ?ce" "e_ConfVer ?se = e_ConfVer ?ce" using False same by (auto simp: not_less)
        obtain m where m: "kvs (ch_etcd c) (pd_getCellMetaKey (pv_clusterID env) (ci_ID i)) = Some (pc_cell (pv_codec env) m)" "epoch_le (ci_Meta cur) m"
          using ok Some by (auto simp: pdcache_ok_def recorded_def)
        have "epoch_le (ci_Meta i) m" using m(2) eq by (simp add: epoch_le_def)
        moreover have "cache_ok (ch_cc c)" "recorded env (kvs (ch_etcd c)) (ch_cc c)" "stores_ok (ch_sc c)"
          using ok by (auto simp: pdcache_ok_def)
        ultimately show ?thesis
          using c' recorded_addOrUpdate [OF _ _ v m(1) _ cluster] addOrUpdate_fields(1) [OF _ v] grows_addOrUpdate [OF _ v] le Some cluster
          by (auto simp: pdcache_ok_def)
      qed
    qed
  qed
qed

subsection \<open>Start\<close>

lemma entries_in: "(k, b) \<in> set (entries kvs a e) \<Longrightarrow> kvs k = Some b \<and> a \<le> k \<and> k < e"
proof -
  assume "(k, b) \<in> set (entries kvs a e)"
  then have "k \<in> set (sorted_list_of_set {k \<in> dom kvs. a \<le> k \<and> k < e})" "b = the (kvs k)" by (auto simp: entries_def)
  then have "k \<in> dom kvs \<and> a \<le> k \<and> k < e"
    by (cases "finite {k \<in> dom kvs. a \<le> k \<and> k < e}") simp_all
  then show ?thesis using \<open>b = the (kvs k)\<close> by auto
qed

lemma load_page_in: "load_page un getID es a = (r, vs) \<Longrightarrow> v \<in> set vs \<Longrightarrow> \<exists>k b. (k, b) \<in> set es \<and> un b = Some v"
proof (induction es arbitrary: a r vs)
  case (Cons e es)
  obtain k b where e: "e = (k, b)" by fastforce
  show ?case
  proof (cases "un b")
    case (Some w)
    obtain r' ws where ws: "load_page un getID es (getID w + 1) = (r', ws)" by fastforce
    then have "v = w \<or> v \<in> set ws" using Cons.prems e Some by auto
    then show ?thesis using Cons.IH [OF ws] e Some by (metis list.set_intros)
  qed (use Cons.prems e in simp)
qed simp

lemma load_pages_in:
  assumes laws: "etcd_laws E kvs"
  shows "load_pages fuel E (pd_getCellMetaKey cid) un getID limit a s = Some (err, vs) \<Longrightarrow> v \<in> set vs \<Longrightarrow>
    \<exists>k b. kvs s k = Some b \<and> pd_getCellMetaKey cid 0 \<le> k \<and> k < pd_getCellMetaKey cid endID \<and> un b = Some v"
proof (induction fuel arbitrary: a err vs)
  case (Suc fuel)
  show ?case
  proof (cases "ec_Range E (pd_getCellMetaKey cid a) (pd_getCellMetaKey cid endID) limit s")
    case (Inr es)
    obtain r ws where page: "load_page un getID es a = (r, ws)" by fastforce
    have "v \<in> set ws \<or> (\<exists>a' err' vs'. load_pages fuel E (pd_getCellMetaKey cid) un getID limit a' s = Some (err', vs') \<and> v \<in> set vs')"
      using Suc.prems by (auto simp: Inr page split: sum.splits if_splits)
    then show ?thesis
    proof
      assume "v \<in> set ws"
      then obtain k b where kb: "(k, b) \<in> set es" "un b = Some v" using load_page_in [OF page] by blast
      then have "(k, b) \<in> set (entries (kvs s) (pd_getCellMetaKey cid a) (pd_getCellMetaKey cid endID))"
        using etcd_range [OF laws Inr] by (auto dest: in_set_takeD)
      then have "kvs s k = Some b" "pd_getCellMetaKey cid a \<le> k" "k < pd_getCellMetaKey cid endID" using entries_in by blast+
      then show ?thesis using kb(2) order_trans [OF cell_key_mono(1)] by blast
    qed (use Suc.IH in blast)
  qed (use Suc.prems in simp)
qed simp

lemma fold_createAndAdd_ok:
  assumes "codec_ok (pv_codec env)"
    and "\<forall>v \<in> set vs. valid_range v \<and> kvs (pd_getCellMetaKey (pv_clusterID env) (c_ID v)) = Some (pc_cell (pv_codec env) v)"
    and "kvs (getClusterMetaKey (pv_clusterID env)) \<noteq> None" "cache_ok cc" "recorded env kvs cc"
  shows "cache_ok (fold createAndAdd vs cc) \<and> recorded env kvs (fold createAndAdd vs cc) \<and> grows cc (fold createAndAdd vs cc)"
  using assms(2-)
proof (induction vs arbitrary: cc)
  case (Cons v vs)
  let ?i = "newCellInfo v None"
  have meta: "ci_Meta ?i = v" by (simp add: newCellInfo_def)
  have v: "valid_range (ci_Meta ?i)" and st: "kvs (pd_getCellMetaKey (pv_clusterID env) (ci_ID ?i)) = Some (pc_cell (pv_codec env) v)"
    using Cons.prems(1) by (simp_all add: meta)
  have "epoch_le (ci_Meta cur) v" if cur: "cc_cells cc (ci_ID ?i) = Some cur" for cur
  proof -
    obtain m where "Some (pc_cell (pv_codec env) v) = Some (pc_cell (pv_codec env) m)" "epoch_le (ci_Meta cur) m"
      using Cons.prems(4) cur st unfolding recorded_def by metis
    then show ?thesis using assms(1) by (metis codec_ok_def option.inject)
  qed
  then have g: "grows cc (addOrUpdate ?i cc)" using grows_addOrUpdate [OF Cons.prems(3) v] by (simp add: meta)
  have "cache_ok (addOrUpdate ?i cc)" "recorded env kvs (addOrUpdate ?i cc)"
    using addOrUpdate_fields(1) [OF Cons.prems(3) v] recorded_addOrUpdate [OF Cons.prems(3,4) v st _ Cons.prems(2)]
    by (simp_all add: meta)
  then show ?case using Cons.IH [of "addOrUpdate ?i cc"] Cons.prems(1,2) g grows_trans by (simp add: createAndAdd_def)
qed simp

text \<open>How far a store has come: up, down, tombstone.\<close>

fun state_rank :: "StoreState \<Rightarrow> nat" where
  "state_rank UP = 0" | "state_rank Down = 1" | "state_rank Tombstone = 2"

definition stores_forward :: "storeCache \<Rightarrow> storeCache \<Rightarrow> bool" where
  "stores_forward sc sc' \<longleftrightarrow> (\<forall>i s. getStore sc i = Some s \<longrightarrow>
     (\<exists>s'. getStore sc' i = Some s' \<and> state_rank (s_State (si_Meta s)) \<le> state_rank (s_State (si_Meta s'))))"

lemma stores_forward_refl [simp]: "stores_forward sc sc"
  by (simp add: stores_forward_def)

lemma stores_forward_trans: "stores_forward a b \<Longrightarrow> stores_forward b c \<Longrightarrow> stores_forward a c"
  unfolding stores_forward_def by (meson order_trans)

lemma getStore_update: "getStore (updateStoreInfo st sc) i = (if i = s_ID (si_Meta st) then Some st else getStore sc i)"
  by (simp add: getStore_def updateStoreInfo_def update_conv')

lemma updateStoreInfo_forward:
  "(\<And>s. getStore sc (s_ID (si_Meta st)) = Some s \<Longrightarrow> state_rank (s_State (si_Meta s)) \<le> state_rank (s_State (si_Meta st))) \<Longrightarrow>
     stores_forward sc (updateStoreInfo st sc)"
  by (auto simp: stores_forward_def getStore_update)

lemma createStoreInfo_forward: "stores_forward sc (createStoreInfo st sc)"
  by (auto simp: stores_forward_def createStoreInfo_def getStore_def update_conv')

lemma fold_createStoreInfo_ok:
  "stores_ok sc \<Longrightarrow> stores_ok (fold createStoreInfo ss sc) \<and> stores_forward sc (fold createStoreInfo ss sc)"
proof (induction ss arbitrary: sc)
  case (Cons st ss)
  then show ?case
    using Cons.IH [OF createStoreInfo_ok [OF Cons.prems], of st] stores_forward_trans [OF createStoreInfo_forward [of sc st]] by simp
qed simp

subsection \<open>Requests\<close>

definition cluster_ok :: "'s pdEnv \<Rightarrow> ('s \<Rightarrow> string \<rightharpoonup> bytes) \<Rightarrow> 's CellCluster \<Rightarrow> bool" where
  "cluster_ok env kvs c \<longleftrightarrow> pdcache_ok env kvs (cl_cache c) \<and> coordinator_ok (cl_coordinator c) \<and>
     (cl_running c \<longrightarrow> kvs (ch_etcd (cl_cache c)) (getClusterMetaKey (pv_clusterID env)) \<noteq> None)"

text \<open>What every request guarantees.\<close>

definition request_ok :: "'s pdEnv \<Rightarrow> ('s \<Rightarrow> string \<rightharpoonup> bytes) \<Rightarrow> 's CellCluster \<Rightarrow> 's CellCluster \<Rightarrow> bool" where
  "request_ok env kvs c c' \<longleftrightarrow> cluster_ok env kvs c' \<and> grows (ch_cc (cl_cache c)) (ch_cc (cl_cache c')) \<and>
     stores_forward (ch_sc (cl_cache c)) (ch_sc (cl_cache c'))"

lemma request_ok_same [simp]: "cluster_ok env kvs c \<Longrightarrow> request_ok env kvs c c"
  by (simp add: request_ok_def)

lemma request_ok_frame:
  assumes "cluster_ok env kvs c" "cache_frame env kvs (cl_cache c) (cl_cache c')"
    and "coordinator_ok (cl_coordinator c')" "cl_running c' = cl_running c"
  shows "request_ok env kvs c c'"
  using assms pdcache_ok_frame [of env kvs "cl_cache c" "cl_cache c'"]
  by (auto simp: request_ok_def cluster_ok_def cache_frame_def other_puts_def)

lemma start_ok:
  assumes laws: "etcd_laws (pv_etcd env) kvs" and codec: "codec_ok (pv_codec env)" and ok: "cluster_ok env kvs c"
    and run: "start fuel env c = Some (err, c')"
  shows "request_ok env kvs c c'"
proof (cases "cl_running c")
  case False
  let ?s = "ch_etcd (cl_cache c)" and ?ck = "getClusterMetaKey (pv_clusterID env)"
  have parts: "cache_ok (ch_cc (cl_cache c))" "stores_ok (ch_sc (cl_cache c))" "recorded env (kvs ?s) (ch_cc (cl_cache c))"
    "coordinator_ok (cl_coordinator c)" using ok by (auto simp: cluster_ok_def pdcache_ok_def)
  show ?thesis
  proof (cases "LoadClusterMeta (pv_etcd env) (pv_codec env) (pv_clusterID env) ?s")
    case (Inr r)
    show ?thesis
    proof (cases r)
      case (Some cluster)
      then have ck: "kvs ?s ?ck \<noteq> None"
        using Inr etcd_get [OF laws, of ?ck ?s] by (auto simp: LoadClusterMeta_def getValue_def split: sum.splits option.splits)
      obtain e1 ss where st: "LoadStoreMeta fuel (pv_etcd env) (pv_codec env) (pv_clusterID env) batchLimit ?s = Some (e1, ss)"
        using run False Inr Some by (auto simp: start_def Let_def bind_eq_Some_conv)
      define c1 where "c1 = c\<lparr>cl_cache := (cl_cache c)\<lparr>ch_sc := fold createStoreInfo ss (ch_sc (cl_cache c))\<rparr>\<rparr>"
      have c1: "request_ok env kvs c c1"
        using ok fold_createStoreInfo_ok [OF parts(2), of ss] by (simp add: c1_def request_ok_def cluster_ok_def pdcache_ok_def)
      show ?thesis
      proof (cases e1)
        case None
        obtain e2 cs where ce: "LoadCellMeta fuel (pv_etcd env) (pv_codec env) (pv_clusterID env) batchLimit ?s = Some (e2, cs)"
          and c': "c' = c1\<lparr>cl_cache := (cl_cache c1)\<lparr>ch_cc := fold createAndAdd cs (ch_cc (cl_cache c1))\<rparr>, cl_running := (e2 = None)\<rparr>"
          using run False Inr Some st None by (auto simp: start_def Let_def bind_eq_Some_conv c1_def split: if_splits)
        have "valid_range v \<and> kvs ?s (pd_getCellMetaKey (pv_clusterID env) (c_ID v)) = Some (pc_cell (pv_codec env) v)" if v: "v \<in> set cs" for v
        proof -
          obtain k b where kb: "kvs ?s k = Some b" "pd_getCellMetaKey (pv_clusterID env) 0 \<le> k" "k < pd_getCellMetaKey (pv_clusterID env) endID"
            "pc_uncell (pv_codec env) b = Some v"
            using load_pages_in [OF laws ce [unfolded LoadCellMeta_def] v] by blast
          then obtain m where "k = pd_getCellMetaKey (pv_clusterID env) (c_ID m)" "b = pc_cell (pv_codec env) m" "valid_range m"
            using parts(3) unfolding recorded_def cell_records_def by blast
          then show ?thesis using kb codec by (simp add: codec_ok_def)
        qed
        then show ?thesis
          using fold_createAndAdd_ok [OF codec, of cs "kvs ?s" "ch_cc (cl_cache c)"] ck parts c1
          by (simp add: c' request_ok_def cluster_ok_def pdcache_ok_def c1_def)
      qed (use run False Inr Some st c1 in \<open>simp add: start_def Let_def c1_def\<close>)
    qed (use run False Inr ok in \<open>simp add: start_def Let_def\<close>)
  qed (use run False ok in \<open>simp add: start_def Let_def\<close>)
qed (use run ok in \<open>simp add: start_def\<close>)

lemma puts_cells_records:
  "cell_records codec cid kvs \<Longrightarrow> \<forall>c \<in> set cells. valid_range c \<Longrightarrow>
     cell_records codec cid (fold op_apply (map (\<lambda>c. OpPut (pd_getCellMetaKey cid (c_ID c)) (pc_cell codec c)) cells) kvs)"
  by (induction cells arbitrary: kvs) (auto intro: cell_records_put)

lemma puts_cells_dom: "k \<in> dom kvs \<Longrightarrow> k \<in> dom (fold op_apply (map (\<lambda>c. OpPut (f c) (g c)) cells) kvs)"
  by (induction cells arbitrary: kvs) (auto simp: domIff)

text \<open>The bootstrap transaction only applies while the cluster has no record, when nothing is cached yet.\<close>

lemma doBootstrap_ok:
  assumes laws: "etcd_laws (pv_etcd env) kvs" and ok: "cluster_ok env kvs c" and off: "\<not> cl_running c"
    and v: "\<forall>cell \<in> set cells. valid_range cell" and run: "doBootstrap env n st cells c = (r, c')"
  shows "request_ok env kvs c c'" and "cl_running c' = cl_running c"
proof -
  let ?cid = "pv_clusterID env" and ?s = "ch_etcd (cl_cache c)"
  let ?ops = "[OpPut (getClusterMetaKey ?cid) (pc_cluster (pv_codec env) \<lparr>cr_ID = ?cid, cr_MaxReplicas = n\<rparr>),
         OpPut (getStoreMetaKey ?cid (s_ID st)) (pc_store (pv_codec env) st)] @
        map (\<lambda>c. OpPut (pd_getCellMetaKey ?cid (c_ID c)) (pc_cell (pv_codec env) c)) cells"
  obtain x s where com: "ec_Commit (pv_etcd env) [CmpCreateRevision0 (getClusterMetaKey ?cid)] ?ops ?s = (x, s)" by fastforce
  then have c': "c' = c\<lparr>cl_cache := (cl_cache c)\<lparr>ch_etcd := s\<rparr>\<rparr>"
    using run by (auto simp: doBootstrap_def SetClusterBootstrapped_def Let_def split: sum.splits)
  then show "cl_running c' = cl_running c" by simp
  have rec: "recorded env (kvs ?s) (ch_cc (cl_cache c))" using ok by (simp add: cluster_ok_def pdcache_ok_def)
  have "kvs s = kvs ?s \<or> kvs ?s (getClusterMetaKey ?cid) = None \<and> kvs s = fold op_apply ?ops (kvs ?s)"
    using etcd_commit [OF laws com] by (cases "x = Inr True") auto
  then have "recorded env (kvs s) (ch_cc (cl_cache c))"
  proof
    assume a: "kvs ?s (getClusterMetaKey ?cid) = None \<and> kvs s = fold op_apply ?ops (kvs ?s)"
    have "cell_records (pv_codec env) ?cid (kvs s)"
      using a rec v by (auto simp: recorded_def intro!: puts_cells_records cell_records_outside)
    moreover have "cc_cells (ch_cc (cl_cache c)) = (\<lambda>_. None)" using a rec by (auto simp: recorded_def)
    ultimately show ?thesis by (simp add: recorded_def)
  qed (use rec in simp)
  then show "request_ok env kvs c c'" using ok off by (simp add: c' request_ok_def cluster_ok_def pdcache_ok_def)
qed

lemma request_ok_trans: "request_ok env kvs a b \<Longrightarrow> request_ok env kvs b c \<Longrightarrow> request_ok env kvs a c"
  by (auto simp: request_ok_def intro: grows_trans stores_forward_trans)

lemma request_okD: "request_ok env kvs a b \<Longrightarrow> cluster_ok env kvs b"
  by (simp add: request_ok_def)

lemma bootstrapCluster_ok:
  assumes laws: "etcd_laws (pv_etcd env) kvs" and codec: "codec_ok (pv_codec env)" and ok: "cluster_ok env kvs c"
    and v: "\<forall>cell \<in> set cells. valid_range cell" and run: "bootstrapCluster fuel env n st cells c = Some (r, c')"
  shows "request_ok env kvs c c'"
proof (cases "cl_running c \<or> checkForBootstrap st cells \<noteq> None")
  case False
  obtain b c1 where b: "doBootstrap env n st cells c = (b, c1)" by fastforce
  have c1: "request_ok env kvs c c1" using doBootstrap_ok(1) [OF laws ok _ v b] False by simp
  have "c' = c1 \<or> (\<exists>err. start fuel env c1 = Some (err, c'))"
    using run False b by (auto simp: bootstrapCluster_def split: sum.splits)
  then show ?thesis using c1 start_ok [OF laws codec request_okD [OF c1]] request_ok_trans [OF c1] by auto
qed (use run ok in \<open>auto simp: bootstrapCluster_def split: if_splits\<close>)

text \<open>A store record is written: the cache follows once etcd has accepted it.\<close>

lemma SetStoreMeta_kvs:
  assumes "etcd_laws (pv_etcd env) kvs" "SetStoreMeta (pv_etcd env) (pv_codec env) (pv_clusterID env) st s = (r, s')"
  shows "other_puts (pv_clusterID env) (kvs s) (kvs s')"
  using pd_save_kvs [OF assms(1) assms(2) [unfolded SetStoreMeta_def]] other_puts_put [OF outside_store] by auto

lemma store_write_ok:
  assumes ok: "cluster_ok env kvs c" and o: "other_puts (pv_clusterID env) (kvs (ch_etcd (cl_cache c))) (kvs s)"
    and fwd: "stores_forward (ch_sc (cl_cache c)) sc" "stores_ok sc"
    and c': "ch_cc (cl_cache c') = ch_cc (cl_cache c)" "ch_etcd (cl_cache c') = s" "ch_sc (cl_cache c') = sc"
      "cl_coordinator c' = cl_coordinator c" "cl_running c' = cl_running c"
  shows "request_ok env kvs c c'"
proof -
  have "recorded env (kvs s) (ch_cc (cl_cache c))"
    using ok recorded_frame [OF _ o] by (simp add: cluster_ok_def pdcache_ok_def)
  moreover have "k \<in> dom (kvs (ch_etcd (cl_cache c))) \<Longrightarrow> k \<in> dom (kvs s)" for k using o by (auto simp: other_puts_def)
  ultimately show ?thesis using ok fwd c' by (auto simp: request_ok_def cluster_ok_def pdcache_ok_def domIff)
qed

lemma putStore_ok:
  assumes laws: "etcd_laws (pv_etcd env) kvs" and ok: "cluster_ok env kvs c" and run: "putStore env labels st c = (r, c')"
  shows "request_ok env kvs c c'"
proof -
  let ?ch = "cl_cache c"
  define old where "old = (case getStore (ch_sc ?ch) (s_ID st) of None \<Rightarrow> newStoreInfo st
    | Some old \<Rightarrow> old\<lparr>si_Meta := (si_Meta old)\<lparr>s_Address := s_Address st, s_Lables := s_Lables st\<rparr>\<rparr>)"
  obtain x s where set: "SetStoreMeta (pv_etcd env) (pv_codec env) (pv_clusterID env) (si_Meta old) (ch_etcd ?ch) = (x, s)" by fastforce
  have sok: "stores_ok (ch_sc ?ch)" using ok by (simp add: cluster_ok_def pdcache_ok_def)
  have sid: "s_ID (si_Meta old) = s_ID st"
    using sok by (auto simp: old_def newStoreInfo_def getStore_def stores_ok_def dest: map_of_SomeD split: option.split)
  have "c' = c \<or> x \<noteq> None \<and> c' = c\<lparr>cl_cache := ?ch\<lparr>ch_etcd := s\<rparr>\<rparr> \<or>
      c' = c\<lparr>cl_cache := notifyStoreRange (s_ID (si_Meta old)) (?ch\<lparr>ch_etcd := s, ch_sc := updateStoreInfo old (ch_sc ?ch)\<rparr>)\<rparr>"
    using run unfolding putStore_def doPutStore_def Let_def old_def [symmetric] set
    by (cases x) (auto split: if_splits option.splits)
  moreover have "stores_forward (ch_sc ?ch) (updateStoreInfo old (ch_sc ?ch))"
    by (rule updateStoreInfo_forward) (simp add: sid, simp add: old_def)
  ultimately show ?thesis
    using ok sok store_write_ok [OF ok SetStoreMeta_kvs [OF laws set], of _ c'] by auto
qed

lemma DeleteStore_ok:
  assumes laws: "etcd_laws (pv_etcd env) kvs" and ok: "cluster_ok env kvs c" and run: "DeleteStore env i force c = (r, c')"
  shows "request_ok env kvs c c'"
proof -
  let ?ch = "cl_cache c"
  have sok: "stores_ok (ch_sc ?ch)" using ok by (simp add: cluster_ok_def pdcache_ok_def)
  define target where "target = (if force then setStoreTombstone (ch_sc ?ch) i force else setStoreOffline (ch_sc ?ch) i)"
  show ?thesis
  proof (cases "cl_running c \<and> (\<exists>store. target = Inr (Some store))")
    case True
    then obtain store where store: "target = Inr (Some store)" by blast
    obtain x s where set: "SetStoreMeta (pv_etcd env) (pv_codec env) (pv_clusterID env) (si_Meta store) (ch_etcd ?ch) = (x, s)" by fastforce
    obtain cur where cur: "getStore (ch_sc ?ch) i = Some cur" "s_ID (si_Meta store) = s_ID (si_Meta cur)"
      "state_rank (s_State (si_Meta cur)) \<le> state_rank (s_State (si_Meta store))"
    proof -
      have "\<exists>cur. getStore (ch_sc ?ch) i = Some cur \<and> s_ID (si_Meta store) = s_ID (si_Meta cur) \<and>
          (s_State (si_Meta store) = Tombstone \<or> s_State (si_Meta cur) = UP)"
        using store by (cases "getStore (ch_sc ?ch) i")
          (auto simp: target_def setStoreTombstone_def setStoreOffline_def isOffline_def isTombstone_def split: if_splits intro: StoreState.exhaust)
      then obtain cur where "getStore (ch_sc ?ch) i = Some cur" "s_ID (si_Meta store) = s_ID (si_Meta cur)"
        "s_State (si_Meta store) = Tombstone \<or> s_State (si_Meta cur) = UP" by blast
      then show thesis using that by (cases "s_State (si_Meta cur)") auto
    qed
    have "c' = c\<lparr>cl_cache := ?ch\<lparr>ch_etcd := s\<rparr>\<rparr> \<or>
        c' = c\<lparr>cl_cache := notifyStoreRange i (?ch\<lparr>ch_etcd := s, ch_sc := updateStoreInfo store (ch_sc ?ch)\<rparr>)\<rparr>"
      using run True unfolding DeleteStore_def Let_def target_def [symmetric] store by (cases x) (auto simp: set)
    moreover have "s_ID (si_Meta cur) = i" using cur(1) sok by (auto simp: getStore_def stores_ok_def dest: map_of_SomeD)
    then have "stores_forward (ch_sc ?ch) (updateStoreInfo store (ch_sc ?ch))"
      using cur by (intro updateStoreInfo_forward) auto
    ultimately show ?thesis using ok sok store_write_ok [OF ok SetStoreMeta_kvs [OF laws set], of _ c'] by auto
  next
    case False
    then have "c' = c" using run unfolding DeleteStore_def Let_def target_def [symmetric]
      by (auto split: sum.splits option.splits if_splits)
    then show ?thesis using ok by simp
  qed
qed

lemma storeHeartbeat_ok:
  assumes ok: "cluster_ok env kvs c" and run: "storeHeartbeat now req c = (r, c')"
  shows "request_ok env kvs c c'"
proof (cases "\<exists>stats r'. storeHeartbeat now req c = doStoreHeartbeat now stats c \<and> getStore (ch_sc (cl_cache c)) (tt_StoreID stats) \<noteq> None")
  case True
  then obtain stats store where r: "storeHeartbeat now req c = doStoreHeartbeat now stats c"
    and store: "getStore (ch_sc (cl_cache c)) (tt_StoreID stats) = Some store" by blast
  define store' where "store' = store\<lparr>si_Status := (si_Status store)\<lparr>ss_Stats := stats,
    ss_LeaderCount := of_nat (getStoreLeaderCount (ch_cc (cl_cache c)) (tt_StoreID stats)), ss_LastHeartbeatTS := now\<rparr>\<rparr>"
  obtain level co where d: "dispatchStore store' (cl_coordinator c) = (level, co)" by fastforce
  have c': "c' = c\<lparr>cl_cache := (cl_cache c)\<lparr>ch_sc := updateStoreInfo store' (ch_sc (cl_cache c))\<rparr>, cl_coordinator := co\<rparr>"
    using run r d by (simp add: doStoreHeartbeat_def Let_def store store'_def)
  have "co_opts co = co_opts (cl_coordinator c)" "co_counts co = co_counts (cl_coordinator c)"
    using d by (auto simp: dispatchStore_def Let_def split: option.splits if_splits)
  then have "coordinator_ok co" using ok by (simp add: cluster_ok_def coordinator_ok_def operatorCount_def cells_of_kind_def)
  moreover have "stores_ok (ch_sc (cl_cache c))" using ok by (simp add: cluster_ok_def pdcache_ok_def)
  moreover have "stores_forward (ch_sc (cl_cache c)) (updateStoreInfo store' (ch_sc (cl_cache c)))"
  proof -
    have "s_ID (si_Meta store) = tt_StoreID stats"
      using store calculation(2) by (auto simp: getStore_def stores_ok_def dest: map_of_SomeD)
    then show ?thesis using store by (intro updateStoreInfo_forward) (auto simp: store'_def)
  qed
  ultimately show ?thesis using ok by (simp add: c' request_ok_def cluster_ok_def pdcache_ok_def)
next
  case False
  then have "c' = c"
    using run by (auto simp: storeHeartbeat_def doStoreHeartbeat_def Let_def split: option.splits if_splits)
  then show ?thesis using ok by simp
qed

lemma cellHeartbeat_ok:
  assumes laws: "etcd_laws (pv_etcd env) kvs" and ok: "cluster_ok env kvs c" and v: "valid_range (ci_Meta req)"
    and run: "cellHeartbeat env senv req c = Inr (r, c')"
  shows "request_ok env kvs c c'"
proof (cases "cl_running c \<and> doCellHeartbeat env senv req c = Inr (r, c')")
  case True
  then obtain err ch where h: "handleCellHeartbeat env req (cl_cache c) = Inr (err, ch)"
    by (auto simp: doCellHeartbeat_def sbind_Inr_iff)
  have rest: "c' = c\<lparr>cl_cache := ch\<rparr> \<or>
      (\<exists>target rsp co ch'. coordinator_dispatch env senv target (cl_coordinator c) ch = Inr (rsp, co, ch') \<and> c' = c\<lparr>cl_cache := ch', cl_coordinator := co\<rparr>)"
  proof (cases "err = None \<and> ci_Peers req \<noteq> []")
    case err: True
    then obtain target where "cc_cells (ch_cc ch) (ci_ID req) = Some target"
      using True h by (cases "cc_cells (ch_cc ch) (ci_ID req)") (auto simp: doCellHeartbeat_def)
    then show ?thesis using True err h by (auto simp: doCellHeartbeat_def sbind_Inr_iff)
  qed (use True h in \<open>cases err; auto simp: doCellHeartbeat_def\<close>)
  have "kvs (ch_etcd (cl_cache c)) (getClusterMetaKey (pv_clusterID env)) \<noteq> None" "pdcache_ok env kvs (cl_cache c)" "coordinator_ok (cl_coordinator c)"
    using ok True by (auto simp: cluster_ok_def)
  note H = handleCellHeartbeat_ok [OF laws this(2) v this(1) h]
  then have c1: "request_ok env kvs c (c\<lparr>cl_cache := ch\<rparr>)"
    using ok by (auto simp: request_ok_def cluster_ok_def)
  from rest show ?thesis
  proof
    assume "\<exists>target rsp co ch'. coordinator_dispatch env senv target (cl_coordinator c) ch = Inr (rsp, co, ch') \<and> c' = c\<lparr>cl_cache := ch', cl_coordinator := co\<rparr>"
    then obtain target rsp co ch' where d: "coordinator_dispatch env senv target (cl_coordinator c) ch = Inr (rsp, co, ch')"
      and c': "c' = c\<lparr>cl_cache := ch', cl_coordinator := co\<rparr>" by blast
    have "request_ok env kvs (c\<lparr>cl_cache := ch\<rparr>) c'"
      using request_ok_frame [OF request_okD [OF c1], of c'] coordinator_dispatch_cf [OF laws d]
        coordinator_dispatch_ok [OF _ d] ok by (simp add: c' cluster_ok_def)
    then show ?thesis by (rule request_ok_trans [OF c1])
  qed (use c1 in simp)
next
  case False
  then have "c' = c" using run by (auto simp: cellHeartbeat_def split: if_splits)
  then show ?thesis using ok by simp
qed

lemma askSplit_ok:
  assumes laws: "etcd_laws (pv_etcd env) kvs" and ok: "cluster_ok env kvs c" and run: "askSplit env cell c = (r, c')"
  shows "request_ok env kvs c c'"
proof -
  obtain x ch1 where n: "cache_newID env (cl_cache c) = (x, ch1)" by fastforce
  obtain y ch2 where a: "alloc_ids env (length (c_Peers cell)) ch1 = (y, ch2)" by fastforce
  have "c' = c \<or> c' = c\<lparr>cl_cache := ch1\<rparr> \<or> c' = c\<lparr>cl_cache := ch2\<rparr>"
    using run by (auto simp: askSplit_def doAskSplit_def n a split: if_splits option.splits sum.splits)
  then show ?thesis
    using ok cache_newID_cf [OF laws n] cache_frame_trans [OF cache_newID_cf [OF laws n] alloc_ids_cf [OF laws a]]
      request_ok_frame [OF ok, of c'] by (auto simp: cluster_ok_def)
qed

lemma coordinator_only_ok:
  "cluster_ok env kvs c \<Longrightarrow> coordinator_ok co \<Longrightarrow> request_ok env kvs c (c\<lparr>cl_coordinator := co\<rparr>)"
  by (rule request_ok_frame) simp_all

lemma addStoreOperator_ok: "coordinator_ok co \<Longrightarrow> coordinator_ok (snd (addStoreOperator i level co))"
  by (simp add: addStoreOperator_def coordinator_ok_def operatorCount_def cells_of_kind_def)

lemma addStoreOperators_ok: "coordinator_ok co \<Longrightarrow> coordinator_ok (fold (\<lambda>i co. snd (addStoreOperator i level co)) is co)"
  by (induction "is" arbitrary: co) (simp_all add: addStoreOperator_ok)

lemma api_TransferLeader_ok:
  assumes ok: "cluster_ok env kvs c" and run: "api_TransferLeader now limit cid pid c = Inr (r, c')"
  shows "request_ok env kvs c c'"
proof -
  have "c' = c \<or> (\<exists>op b co. addOperator op (cl_coordinator c) = Inr (b, co) \<and> c' = c\<lparr>cl_coordinator := co\<rparr>)"
    using run by (auto simp: api_TransferLeader_def sbind_Inr_iff split: if_splits option.splits)
  then show ?thesis using ok coordinator_only_ok [OF ok] addOperator_ok(1) [of "cl_coordinator c"] by (auto simp: cluster_ok_def)
qed

text \<open>The requests and ticks of a placement driver.  A balancer's choice is added to the coordinator by
  the scheduler loop.\<close>

inductive pd_step :: "'s pdEnv \<Rightarrow> 'f::linorder floatOps \<Rightarrow> 's CellCluster \<Rightarrow> 's CellCluster \<Rightarrow> bool" for env fl where
  Pd_start: "start fuel env c = Some (err, c') \<Longrightarrow> pd_step env fl c c'"
| Pd_bootstrap: "bootstrapCluster fuel env n st cells c = Some (r, c') \<Longrightarrow> \<forall>cell \<in> set cells. valid_range cell \<Longrightarrow> pd_step env fl c c'"
| Pd_putStore: "putStore env labels st c = (r, c') \<Longrightarrow> pd_step env fl c c'"
| Pd_deleteStore: "DeleteStore env i force c = (r, c') \<Longrightarrow> pd_step env fl c c'"
| Pd_storeHeartbeat: "storeHeartbeat now req c = (r, c') \<Longrightarrow> pd_step env fl c c'"
| Pd_cellHeartbeat: "cellHeartbeat env senv req c = Inr (r, c') \<Longrightarrow> sc_fl senv = fl \<Longrightarrow> valid_range (ci_Meta req) \<Longrightarrow> pd_step env fl c c'"
| Pd_askSplit: "askSplit env cell c = (r, c') \<Longrightarrow> pd_step env fl c c'"
| Pd_logLevel: "SetStoreLogLevel targets level c = (r, c') \<Longrightarrow> pd_step env fl c c'"
| Pd_transferLeader: "api_TransferLeader now limit cid pid c = Inr (r, c') \<Longrightarrow> pd_step env fl c c'"
| Pd_balanceCell: "cell_Schedule env senv ord b (cl_cache c) = Inr (op, b', ch) \<Longrightarrow> sc_fl senv = fl \<Longrightarrow> pd_step env fl c (c\<lparr>cl_cache := ch\<rparr>)"
| Pd_addOperator: "addOperator op (cl_coordinator c) = Inr (b, co) \<Longrightarrow> pd_step env fl c (c\<lparr>cl_coordinator := co\<rparr>)"

lemma pd_step_ok:
  assumes "pd_step env fl c c'" "etcd_laws (pv_etcd env) kvs" "codec_ok (pv_codec env)" "cluster_ok env kvs c"
  shows "request_ok env kvs c c'"
  using assms
proof cases
  case (Pd_balanceCell senv ord b op b' ch)
  then have "cache_frame env kvs (cl_cache c) (cl_cache c')" using cell_Schedule_cf [OF assms(2) Pd_balanceCell(2)] by simp
  then show ?thesis using Pd_balanceCell(1) request_ok_frame [OF assms(4), of c'] assms(4) by (simp add: cluster_ok_def)
next
  case (Pd_addOperator op b co)
  then show ?thesis using addOperator_ok(1) coordinator_only_ok [OF assms(4)] assms(4) by (auto simp: cluster_ok_def)
next
  case (Pd_logLevel targets level r)
  then show ?thesis using addStoreOperators_ok coordinator_only_ok [OF assms(4)] assms(4)
    by (auto simp: SetStoreLogLevel_def cluster_ok_def split: if_splits)
next
  case (Pd_start fuel err)
  then show ?thesis by (intro start_ok assms)
next
  case (Pd_bootstrap fuel n st cells r)
  then show ?thesis by (intro bootstrapCluster_ok [of env kvs c cells fuel n st r] assms)
next
  case (Pd_cellHeartbeat senv req r)
  then show ?thesis by (intro cellHeartbeat_ok [of env kvs c req senv r] assms)
next
  case (Pd_putStore labels st r)
  then show ?thesis by (intro putStore_ok [of env kvs c labels st r] assms)
next
  case (Pd_deleteStore i force r)
  then show ?thesis by (intro DeleteStore_ok [of env kvs c i force r] assms)
next
  case (Pd_storeHeartbeat now req r)
  then show ?thesis by (intro storeHeartbeat_ok [of env kvs c now req r] assms)
next
  case (Pd_askSplit cell r)
  then show ?thesis by (intro askSplit_ok [of env kvs c cell r] assms)
next
  case (Pd_transferLeader now limit cid pid r)
  then show ?thesis by (intro api_TransferLeader_ok [of env kvs c now limit cid pid r] assms)
qed

lemma pd_steps_ok:
  assumes "(pd_step env fl)\<^sup>*\<^sup>* c c'" "etcd_laws (pv_etcd env) kvs" "codec_ok (pv_codec env)" "cluster_ok env kvs c"
  shows "request_ok env kvs c c'"
  using assms
proof (induction rule: rtranclp_induct)
  case (step a b)
  then have "request_ok env kvs c a" by blast
  then show ?case using pd_step_ok [OF step(2) assms(2,3) request_okD] request_ok_trans by blast
qed simp

lemma newCellCluster_ok:
  "cell_records (pv_codec env) (pv_clusterID env) (kvs s) \<Longrightarrow> cluster_ok env kvs (newCellCluster s)"
  by (auto simp: cluster_ok_def pdcache_ok_def newCellCluster_def newCache_def recorded_def newCellCache_def [of]
      intro: newCellCache_ok [unfolded newCellCache_def])

subsection \<open>Properties\<close>

text \<open>C13: what a placement driver knows of a cell is recorded: after any sequence of requests, for every
  cell in its cache etcd holds a record of that cell, which can be read back and whose epoch is at least the
  cached one, so a server that loads the records never falls behind what was answered before.\<close>

theorem cached_cells_recorded:
  assumes laws: "etcd_laws (pv_etcd env) kvs" and codec: "codec_ok (pv_codec env)"
    and init: "cell_records (pv_codec env) (pv_clusterID env) (kvs s)"
    and run: "(pd_step env fl)\<^sup>*\<^sup>* (newCellCluster s) c" and cell: "cc_cells (ch_cc (cl_cache c)) cid = Some i"
  shows "\<exists>b m. kvs (ch_etcd (cl_cache c)) (pd_getCellMetaKey (pv_clusterID env) cid) = Some b \<and>
    pc_uncell (pv_codec env) b = Some m \<and> c_ID m = cid \<and> epoch_le (ci_Meta i) m"
proof -
  have "request_ok env kvs (newCellCluster s) c" using pd_steps_ok [OF run laws codec newCellCluster_ok [of env kvs, OF init]] .
  then have rec: "recorded env (kvs (ch_etcd (cl_cache c))) (ch_cc (cl_cache c))"
    by (simp add: request_ok_def cluster_ok_def pdcache_ok_def)
  then obtain m where m: "kvs (ch_etcd (cl_cache c)) (pd_getCellMetaKey (pv_clusterID env) cid) = Some (pc_cell (pv_codec env) m)" "epoch_le (ci_Meta i) m"
    using cell unfolding recorded_def by blast
  have "\<exists>m'. c_ID m' = cid \<and> pc_cell (pv_codec env) m = pc_cell (pv_codec env) m'"
    using cell_recordsD [of "pv_codec env" "pv_clusterID env" "kvs (ch_etcd (cl_cache c))" cid "pc_cell (pv_codec env) m"] m(1) rec
    by (auto simp: recorded_def)
  then have "c_ID m = cid" using codec by (metis codec_ok_def option.inject)
  with m codec show ?thesis by (auto simp: codec_ok_def)
qed

text \<open>A run to witness the properties: a server starts on a cluster record without cells and receives
  heartbeats of one cell.\<close>

definition sample_env :: "(string \<times> bytes) list pdEnv" where
  "sample_env = \<lparr>pv_etcd = alist_etcd, pv_codec = sample_codec, pv_clusterID = 1, pv_leaderSignature = [1]\<rparr>"

definition sample_records :: "(string \<times> bytes) list" where
  "sample_records = [(getClusterMetaKey 1, [])]"

definition sample_info :: "u64 \<Rightarrow> CellInfo" where
  "sample_info ver = newCellInfo \<lparr>c_ID = 7, c_Start = [], c_End = [], c_Epoch = \<lparr>e_ConfVer = 1, e_CellVer = ver\<rparr>,
     c_Peers = [\<lparr>p_ID = 2, p_StoreID = 1\<rparr>]\<rparr> None"

definition sample_started :: "(string \<times> bytes) list CellCluster" where
  "sample_started = (newCellCluster sample_records)\<lparr>cl_running := True\<rparr>"

lemma sample_env_ok: "etcd_laws (pv_etcd sample_env) map_of" "codec_ok (pv_codec sample_env)"
  "cell_records (pv_codec sample_env) (pv_clusterID sample_env) (map_of sample_records)"
proof -
  show "etcd_laws (pv_etcd sample_env) map_of" by (simp add: sample_env_def alist_etcd_laws)
  show "codec_ok (pv_codec sample_env)" by (simp add: sample_env_def sample_codec_def codec_ok_def get_put_cell)
  have "cell_records sample_codec 1 (Map.empty(getClusterMetaKey 1 \<mapsto> []))"
    by (rule cell_records_outside) (simp_all add: cell_records_def)
  then show "cell_records (pv_codec sample_env) (pv_clusterID sample_env) (map_of sample_records)"
    by (simp add: sample_records_def sample_env_def)
qed

lemma sample_start: "start 1 sample_env (newCellCluster sample_records) = Some (None, sample_started)"
proof -
  have "getClusterMetaKey 1 < getStoreMetaKey 1 0" "getClusterMetaKey 1 < pd_getCellMetaKey 1 0"
    using append_less_same [of "getClusterMetaKey 1" "[]"] by (simp_all add: getStoreMetaKey_def pd_getCellMetaKey_def)
  then have "\<not> getStoreMetaKey 1 0 \<le> getClusterMetaKey 1" "\<not> pd_getCellMetaKey 1 0 \<le> getClusterMetaKey 1" by (simp_all only: not_le)
  then have "ec_Range alist_etcd (getStoreMetaKey 1 0) e n sample_records = Inr []"
    "ec_Range alist_etcd (pd_getCellMetaKey 1 0) e n sample_records = Inr []" for e n
    by (simp_all add: alist_etcd_def sample_records_def)
  then have "LoadStoreMeta 1 alist_etcd sample_codec 1 batchLimit sample_records = Some (None, [])"
    "LoadCellMeta 1 alist_etcd sample_codec 1 batchLimit sample_records = Some (None, [])"
    by (simp_all add: LoadStoreMeta_def LoadCellMeta_def batchLimit_def)
  moreover have "LoadClusterMeta alist_etcd sample_codec 1 sample_records = Inr (Some \<lparr>cr_ID = 1, cr_MaxReplicas = 3\<rparr>)"
    by (simp add: LoadClusterMeta_def getValue_def alist_etcd_def sample_records_def sample_codec_def)
  ultimately show ?thesis
    by (simp add: start_def sample_started_def newCellCluster_def newCache_def sample_env_def Let_def)
qed

definition sample_heartbeats :: "u64 list \<Rightarrow> (string \<times> bytes) list CellCluster option" where
  "sample_heartbeats vers = fold (\<lambda>ver c. Option.bind c (\<lambda>c.
     case cellHeartbeat sample_env demo_schedEnv (sample_info ver) c of Inl _ \<Rightarrow> None | Inr (_, c) \<Rightarrow> Some c)) vers (Some sample_started)"

lemma sample_reached: "sample_heartbeats vers = Some c \<Longrightarrow> (pd_step sample_env int_floats)\<^sup>*\<^sup>* (newCellCluster sample_records) c"
proof (induction vers arbitrary: c rule: rev_induct)
  case Nil
  then have "c = sample_started" by (simp add: sample_heartbeats_def)
  then show ?case using Pd_start [OF sample_start] by auto
next
  case (snoc ver vers)
  then obtain c1 where c1: "sample_heartbeats vers = Some c1"
    by (cases "sample_heartbeats vers") (auto simp: sample_heartbeats_def)
  with snoc.prems obtain r where hb: "cellHeartbeat sample_env demo_schedEnv (sample_info ver) c1 = Inr (r, c)"
    by (cases "cellHeartbeat sample_env demo_schedEnv (sample_info ver) c1") (auto simp: sample_heartbeats_def)
  have "pd_step sample_env int_floats c1 c"
    by (rule Pd_cellHeartbeat [OF hb]) (simp_all add: demo_schedEnv_def sample_info_def newCellInfo_def valid_range_def)
  then show ?case using snoc.IH [OF c1] by (rule rtranclp.rtrancl_into_rtrancl [rotated])
qed

theorem cached_cells_recorded_witness:
  "\<exists>c i b m. (pd_step sample_env int_floats)\<^sup>*\<^sup>* (newCellCluster sample_records) c \<and> cc_cells (ch_cc (cl_cache c)) 7 = Some i \<and>
     map_of (ch_etcd (cl_cache c)) (pd_getCellMetaKey 1 7) = Some b \<and> get_cell b = Some m \<and> epoch_le (ci_Meta i) m"
proof -
  have "case sample_heartbeats [1, 2] of None \<Rightarrow> False | Some c \<Rightarrow> cc_cells (ch_cc (cl_cache c)) 7 \<noteq> None" by code_simp
  then obtain c i where c: "sample_heartbeats [1, 2] = Some c" "cc_cells (ch_cc (cl_cache c)) 7 = Some i"
    by (auto split: option.splits)
  note run = sample_reached [OF c(1)]
  show ?thesis
    using cached_cells_recorded [OF sample_env_ok run c(2)] run c(2) by (auto simp: sample_env_def sample_codec_def)
qed

text \<open>C14: the epoch a placement driver holds for a cell never goes back: from any state it can reach, after
  any further sequence of requests every cached cell is still cached, with both versions of its epoch
  at least as large.\<close>

theorem cached_epochs_never_go_back:
  assumes laws: "etcd_laws (pv_etcd env) kvs" and codec: "codec_ok (pv_codec env)"
    and init: "cell_records (pv_codec env) (pv_clusterID env) (kvs s)"
    and run: "(pd_step env fl)\<^sup>*\<^sup>* (newCellCluster s) c" and more: "(pd_step env fl)\<^sup>*\<^sup>* c c'"
    and cell: "cc_cells (ch_cc (cl_cache c)) cid = Some i"
  shows "\<exists>i'. cc_cells (ch_cc (cl_cache c')) cid = Some i' \<and> epoch_le (ci_Meta i) (ci_Meta i')"
proof -
  have "cluster_ok env kvs c" using pd_steps_ok [OF run laws codec newCellCluster_ok [of env kvs, OF init]] by (rule request_okD)
  then have "grows (ch_cc (cl_cache c)) (ch_cc (cl_cache c'))"
    using pd_steps_ok [OF more laws codec] by (simp add: request_ok_def)
  then show ?thesis using cell by (simp add: grows_def)
qed

lemma sample_runs:
  obtains c c' i i' where "(pd_step sample_env int_floats)\<^sup>*\<^sup>* (newCellCluster sample_records) c" "(pd_step sample_env int_floats)\<^sup>*\<^sup>* c c'"
    "cc_cells (ch_cc (cl_cache c)) 7 = Some i" "cc_cells (ch_cc (cl_cache c')) 7 = Some i'"
    "e_CellVer (c_Epoch (ci_Meta i)) = 1" "e_CellVer (c_Epoch (ci_Meta i')) = 2"
proof -
  let ?ver = "\<lambda>c v. (case cc_cells (ch_cc (cl_cache c)) 7 of None \<Rightarrow> False | Some i \<Rightarrow> e_CellVer (c_Epoch (ci_Meta i)) = v)"
  have "case sample_heartbeats [1] of None \<Rightarrow> False | Some c \<Rightarrow> ?ver c 1 \<and>
      (case cellHeartbeat sample_env demo_schedEnv (sample_info 2) c of Inl _ \<Rightarrow> False | Inr (_, c') \<Rightarrow> ?ver c' 2)"
    by code_simp
  then obtain c r c' i i' where c: "sample_heartbeats [1] = Some c" and hb: "cellHeartbeat sample_env demo_schedEnv (sample_info 2) c = Inr (r, c')"
    and i: "cc_cells (ch_cc (cl_cache c)) 7 = Some i" "cc_cells (ch_cc (cl_cache c')) 7 = Some i'"
      "e_CellVer (c_Epoch (ci_Meta i)) = 1" "e_CellVer (c_Epoch (ci_Meta i')) = 2"
    by (auto split: option.splits sum.splits)
  have "pd_step sample_env int_floats c c'"
    by (rule Pd_cellHeartbeat [OF hb]) (simp_all add: demo_schedEnv_def sample_info_def newCellInfo_def valid_range_def)
  then show thesis using that [OF sample_reached [OF c] _ i] by blast
qed

theorem cached_epochs_never_go_back_witness:
  "\<exists>c c' i i'. cc_cells (ch_cc (cl_cache c)) 7 = Some i \<and> cc_cells (ch_cc (cl_cache c')) 7 = Some i' \<and>
     (pd_step sample_env int_floats)\<^sup>*\<^sup>* c c' \<and> e_CellVer (c_Epoch (ci_Meta i)) = 1 \<and> epoch_le (ci_Meta i) (ci_Meta i')"
proof -
  obtain c c' i where run: "(pd_step sample_env int_floats)\<^sup>*\<^sup>* (newCellCluster sample_records) c" "(pd_step sample_env int_floats)\<^sup>*\<^sup>* c c'"
    and i: "cc_cells (ch_cc (cl_cache c)) 7 = Some i" "e_CellVer (c_Epoch (ci_Meta i)) = 1"
    by (rule sample_runs)
  then show ?thesis using cached_epochs_never_go_back [OF sample_env_ok run i(1)] by blast
qed

text \<open>The state of a store only moves forward, from up to down to tombstone: no request revives a store.\<close>

theorem store_state_only_forward:
  assumes laws: "etcd_laws (pv_etcd env) kvs" and codec: "codec_ok (pv_codec env)"
    and init: "cell_records (pv_codec env) (pv_clusterID env) (kvs s)"
    and run: "(pd_step env fl)\<^sup>*\<^sup>* (newCellCluster s) c" and more: "(pd_step env fl)\<^sup>*\<^sup>* c c'"
    and store: "getStore (ch_sc (cl_cache c)) i = Some st"
  shows "\<exists>st'. getStore (ch_sc (cl_cache c')) i = Some st' \<and> state_rank (s_State (si_Meta st)) \<le> state_rank (s_State (si_Meta st'))"
proof -
  have "cluster_ok env kvs c" using pd_steps_ok [OF run laws codec newCellCluster_ok [of env kvs, OF init]] by (rule request_okD)
  then have "stores_forward (ch_sc (cl_cache c)) (ch_sc (cl_cache c'))"
    using pd_steps_ok [OF more laws codec] by (simp add: request_ok_def)
  then show ?thesis using store by (simp add: stores_forward_def)
qed

theorem store_state_only_forward_witness:
  "\<exists>c c' st st'. (pd_step sample_env int_floats)\<^sup>*\<^sup>* c c' \<and> getStore (ch_sc (cl_cache c)) 1 = Some st \<and> s_State (si_Meta st) = Down \<and>
     getStore (ch_sc (cl_cache c')) 1 = Some st' \<and> s_State (si_Meta st') \<noteq> UP"
proof -
  let ?st = "\<lparr>s_ID = 1, s_Address = [5], s_State = UP, s_ClientAddress = [], s_Lables = []\<rparr>"
  let ?c1 = "snd (putStore sample_env [] ?st sample_started)"
  let ?c2 = "snd (DeleteStore sample_env 1 False ?c1)"
  let ?c3 = "snd (putStore sample_env [] (?st\<lparr>s_Address := [6]\<rparr>) ?c2)"
  have 0: "(pd_step sample_env int_floats)\<^sup>*\<^sup>* (newCellCluster sample_records) sample_started"
    using Pd_start [OF sample_start] by auto
  have 1: "pd_step sample_env int_floats sample_started ?c1" by (rule Pd_putStore [OF prod.collapse [symmetric]])
  have 2: "pd_step sample_env int_floats ?c1 ?c2" by (rule Pd_deleteStore [OF prod.collapse [symmetric]])
  have 3: "pd_step sample_env int_floats ?c2 ?c3" by (rule Pd_putStore [OF prod.collapse [symmetric]])
  have run: "(pd_step sample_env int_floats)\<^sup>*\<^sup>* (newCellCluster sample_records) ?c2" using 0 1 2 by (meson rtranclp.rtrancl_into_rtrancl)
  have more: "(pd_step sample_env int_floats)\<^sup>*\<^sup>* ?c2 ?c3" using 3 by (rule r_into_rtranclp)
  have "case getStore (ch_sc (cl_cache ?c2)) 1 of None \<Rightarrow> False | Some st \<Rightarrow> s_State (si_Meta st) = Down" by code_simp
  then obtain st where st: "getStore (ch_sc (cl_cache ?c2)) 1 = Some st" "s_State (si_Meta st) = Down"
    by (auto split: option.splits)
  obtain st' where "getStore (ch_sc (cl_cache ?c3)) 1 = Some st'" "state_rank (s_State (si_Meta st)) \<le> state_rank (s_State (si_Meta st'))"
    using store_state_only_forward [OF sample_env_ok run more st(1)] by blast
  then show ?thesis using st more by (metis state_rank.simps(1,2) not_one_le_zero)
qed

text \<open>C20: the indexes of a placement driver agree: the cell it finds for a key is the cached cell of that
  identifier and covers the key, two cells it finds never overlap, and the number of leaders it
  reports for a store is the number of cached cells whose leader is a peer on that store.\<close>

theorem pd_indexes_agree:
  assumes laws: "etcd_laws (pv_etcd env) kvs" and codec: "codec_ok (pv_codec env)"
    and init: "cell_records (pv_codec env) (pv_clusterID env) (kvs s)" and run: "(pd_step env fl)\<^sup>*\<^sup>* (newCellCluster s) c"
  shows "(searchCell (ch_cc (cl_cache c)) k = Some i \<longrightarrow> cc_cells (ch_cc (cl_cache c)) (ci_ID i) = Some i \<and> covers (ci_Meta i) k) \<and>
    (searchCell (ch_cc (cl_cache c)) k = Some i \<longrightarrow> searchCell (ch_cc (cl_cache c)) k' = Some j \<longrightarrow> i = j \<or> \<not> overlap (ci_Meta i) (ci_Meta j)) \<and>
    getStoreLeaderCount (ch_cc (cl_cache c)) sid = card {cid. \<exists>i. cc_cells (ch_cc (cl_cache c)) cid = Some i \<and> leads i sid}"
proof -
  let ?cc = "ch_cc (cl_cache c)"
  have "cluster_ok env kvs c" using pd_steps_ok [OF run laws codec newCellCluster_ok [of env kvs, OF init]] by (rule request_okD)
  then have ok: "cache_ok ?cc" by (simp add: cluster_ok_def pdcache_ok_def)
  note wf = cache_okD(1) [OF ok]
  have found: "cc_cells ?cc (ci_ID i) = Some i \<and> ci_Meta i \<in> set (cc_tree ?cc) \<and> covers (ci_Meta i) k" if "searchCell ?cc k = Some i" for i k
    using that searchCell_owner [OF ok] owner_Some [OF wf] by blast
  have "i = j \<or> \<not> overlap (ci_Meta i) (ci_Meta j)" if "searchCell ?cc k = Some i" "searchCell ?cc k' = Some j"
    using found [OF that(1)] found [OF that(2)] cells_wf_same_owner [OF wf] by (metis option.inject)
  moreover have "dom (cc_leaders ?cc sid) = {cid. \<exists>i. cc_cells ?cc cid = Some i \<and> leads i sid}"
    unfolding cache_okD(5) [OF ok] by (auto simp: indexed_def split: option.splits if_splits)
  ultimately show ?thesis using found by (simp add: getStoreLeaderCount_def)
qed

theorem pd_indexes_agree_witness:
  "\<exists>c i. (pd_step sample_env int_floats)\<^sup>*\<^sup>* (newCellCluster sample_records) c \<and> searchCell (ch_cc (cl_cache c)) [9] = Some i \<and>
     covers (ci_Meta i) [9]"
proof -
  have "case sample_heartbeats [1] of None \<Rightarrow> False | Some c \<Rightarrow> searchCell (ch_cc (cl_cache c)) [9] \<noteq> None" by code_simp
  then obtain c i where c: "sample_heartbeats [1] = Some c" "searchCell (ch_cc (cl_cache c)) [9] = Some i"
    by (auto split: option.splits)
  note run = sample_reached [OF c(1)]
  show ?thesis using pd_indexes_agree [OF sample_env_ok run, of "[9]" i] run c(2) by blast
qed

text \<open>An answered heartbeat that is newer than the cached cell writes the record of its cell.\<close>

lemma handleCellHeartbeat_writes:
  assumes laws: "etcd_laws (pv_etcd env) kvs" and cur: "cc_cells (ch_cc ch) (ci_ID src) = Some cur"
    and newer: "epoch_le (ci_Meta cur) (ci_Meta src)" "\<not> epoch_le (ci_Meta src) (ci_Meta cur)"
    and run: "handleCellHeartbeat env src ch = Inr (None, ch')"
  shows "kvs (ch_etcd ch') = (kvs (ch_etcd ch))(pd_getCellMetaKey (pv_clusterID env) (ci_ID src) \<mapsto> pc_cell (pv_codec env) (ci_Meta src))"
proof -
  let ?ce = "c_Epoch (ci_Meta cur)" and ?se = "c_Epoch (ci_Meta src)"
  define et where "et = (if e_CellVer ?se > e_CellVer ?ce then CellRangeChaned else CellPeersChaned)"
  obtain r s where set: "SetCellMeta (pv_etcd env) (pv_codec env) (pv_clusterID env) (ci_Meta src) (ch_etcd ch) = (r, s)" by fastforce
  have c: "\<not> (e_CellVer ?se < e_CellVer ?ce \<or> e_ConfVer ?se < e_ConfVer ?ce)" "e_CellVer ?se > e_CellVer ?ce \<or> e_ConfVer ?se > e_ConfVer ?ce"
    using newer by (auto simp: epoch_le_def)
  have "handleCellHeartbeat env src ch = (case doSaveCellInfo env src ch of (Some err, c) \<Rightarrow> Inr (Some err, c)
      | (None, c) \<Rightarrow> sbind (notifyChangedRange (ci_ID src) et c) (\<lambda>c. Inr (None, c)))"
    unfolding handleCellHeartbeat_def cur Let_def option.case et_def using c by (simp only: if_True if_False)
  with run have r: "r = None" and n: "notifyChangedRange (ci_ID src) et (ch\<lparr>ch_etcd := s, ch_cc := addOrUpdate src (ch_cc ch)\<rparr>) = Inr ch'"
    by (cases r; auto simp: doSaveCellInfo_def set sbind_Inr_iff)+
  have "ch_etcd ch' = s" using notifyChangedRange_frame [OF n] by simp
  then show ?thesis using SetCellMeta_kvs [OF laws set] r by simp
qed

lemma cellHeartbeat_answered:
  assumes "cellHeartbeat env senv src c = Inr (Inr rsp, c')"
  obtains ch ch' target co r where "handleCellHeartbeat env src (cl_cache c) = Inr (None, ch)"
    "coordinator_dispatch env senv target (cl_coordinator c) ch = Inr (r, co, ch')" "cl_cache c' = ch'"
proof -
  have d: "doCellHeartbeat env senv src c = Inr (Inr rsp, c')" using assms by (auto simp: cellHeartbeat_def split: if_splits)
  then obtain err ch where h: "handleCellHeartbeat env src (cl_cache c) = Inr (err, ch)"
    by (auto simp: doCellHeartbeat_def sbind_Inr_iff)
  with d have e: "err = None" "ci_Peers src \<noteq> []" by (cases err; auto simp: doCellHeartbeat_def)+
  with d h obtain target where "cc_cells (ch_cc ch) (ci_ID src) = Some target"
    by (cases "cc_cells (ch_cc ch) (ci_ID src)") (auto simp: doCellHeartbeat_def)
  with d h e show thesis using that by (auto simp: doCellHeartbeat_def sbind_Inr_iff)
qed

definition record_version :: "(string \<times> bytes) list CellCluster \<Rightarrow> u64 option" where
  "record_version c =
     Option.bind (map_of (ch_etcd (cl_cache c)) (pd_getCellMetaKey 1 7))
       (\<lambda>b. map_option (\<lambda>m. e_CellVer (c_Epoch m)) (get_cell b))"

definition other_term :: "'s \<Rightarrow> 's CellCluster \<Rightarrow> 's CellCluster" where
  "other_term s c = c\<lparr>cl_cache := (cl_cache c)\<lparr>ch_etcd := s\<rparr>\<rparr>"

text \<open>C40: a server that becomes leader again works from the cache of its first term, whatever the records
  have become in between.  \<^verbatim>\<open>start\<close> returns at once because the running flag of the first term is still set, with
  the cache as it was; and a heartbeat whose epoch is newer than that of the cached cell, once answered, has
  replaced the record of the cell by its own, without a look at the record.  So a record with a newer epoch
  than the heartbeat, written by another leader, is lost; the run of the witness has version 3 replaced by 2.\<close>

theorem reelected_server_overwrites_newer_record:
  assumes laws: "etcd_laws (pv_etcd env) kvs" and running: "cl_running c"
    and cur: "cc_cells (ch_cc (cl_cache c)) (ci_ID src) = Some cur"
    and newer: "epoch_le (ci_Meta cur) (ci_Meta src)" "\<not> epoch_le (ci_Meta src) (ci_Meta cur)"
    and hb: "cellHeartbeat env senv src (other_term s c) = Inr (Inr rsp, c2)"
  shows "start fuel env (other_term s c) = Some (None, other_term s c) \<and>
    kvs (ch_etcd (cl_cache c2)) (pd_getCellMetaKey (pv_clusterID env) (ci_ID src)) = Some (pc_cell (pv_codec env) (ci_Meta src)) \<and>
    (\<forall>cid. cid \<noteq> ci_ID src \<longrightarrow> kvs (ch_etcd (cl_cache c2)) (pd_getCellMetaKey (pv_clusterID env) cid) =
       kvs s (pd_getCellMetaKey (pv_clusterID env) cid))"
proof -
  let ?key = "pd_getCellMetaKey (pv_clusterID env)"
  obtain ch ch' target co r where h: "handleCellHeartbeat env src (cl_cache (other_term s c)) = Inr (None, ch)"
    and d: "coordinator_dispatch env senv target (cl_coordinator (other_term s c)) ch = Inr (r, co, ch')" and c2: "cl_cache c2 = ch'"
    by (rule cellHeartbeat_answered [OF hb])
  have "kvs (ch_etcd ch) = (kvs s)(?key (ci_ID src) \<mapsto> pc_cell (pv_codec env) (ci_Meta src))"
    using handleCellHeartbeat_writes [OF laws _ newer h] cur by (simp add: other_term_def)
  moreover have "kvs (ch_etcd ch') (?key cid) = kvs (ch_etcd ch) (?key cid)" for cid
    using coordinator_dispatch_cf [OF laws d] by (simp add: cache_frame_def other_puts_def)
  moreover have "?key a = ?key b \<longleftrightarrow> a = b" for a b by (rule inj_eq [OF cell_keys.key_inj])
  moreover have "start fuel env (other_term s c) = Some (None, other_term s c)"
    using running by (simp add: start_def other_term_def)
  ultimately show ?thesis by (simp add: c2)
qed

theorem reelected_server_overwrites_newer_record_witness:
  "\<exists>c s r c2. sample_heartbeats [1] = Some c \<and> start 1 sample_env (other_term s c) = Some (None, other_term s c) \<and>
     record_version (other_term s c) = Some 3 \<and>
     cellHeartbeat sample_env demo_schedEnv (sample_info 2) (other_term s c) = Inr (Inr r, c2) \<and> record_version c2 = Some 2"
proof -
  let ?rec = "\<lambda>c. AList.update (pd_getCellMetaKey 1 7) (put_cell (ci_Meta (sample_info 3))) (ch_etcd (cl_cache c))"
  let ?old = "\<lambda>i. e_CellVer (c_Epoch (ci_Meta i)) = 1 \<and> e_ConfVer (c_Epoch (ci_Meta i)) = e_ConfVer (c_Epoch (ci_Meta (sample_info 2)))"
  have "case sample_heartbeats [1] of None \<Rightarrow> False | Some c \<Rightarrow> cl_running c \<and> record_version (other_term (?rec c) c) = Some 3 \<and>
      (case cc_cells (ch_cc (cl_cache c)) 7 of None \<Rightarrow> False | Some i \<Rightarrow> ?old i) \<and>
      (case cellHeartbeat sample_env demo_schedEnv (sample_info 2) (other_term (?rec c) c) of Inl _ \<Rightarrow> False | Inr (x, c2) \<Rightarrow> \<not> isl x)"
    by code_simp
  then obtain c i x c2 where c: "sample_heartbeats [1] = Some c" "cl_running c" "record_version (other_term (?rec c) c) = Some 3"
    and i: "cc_cells (ch_cc (cl_cache c)) 7 = Some i" "?old i"
    and hb: "cellHeartbeat sample_env demo_schedEnv (sample_info 2) (other_term (?rec c) c) = Inr (x, c2)" "\<not> isl x"
    by (auto split: option.splits sum.splits)
  have x: "cellHeartbeat sample_env demo_schedEnv (sample_info 2) (other_term (?rec c) c) = Inr (Inr (projr x), c2)" using hb by simp
  have e: "epoch_le (ci_Meta i) (ci_Meta (sample_info 2))" "\<not> epoch_le (ci_Meta (sample_info 2)) (ci_Meta i)" "ci_ID (sample_info 2) = 7"
    using i(2) by (simp_all add: epoch_le_def sample_info_def newCellInfo_def word_le_nat_alt)
  note R = reelected_server_overwrites_newer_record [OF sample_env_ok(1) c(2) _ e(1,2) x, of 1]
  have "map_of (ch_etcd (cl_cache c2)) (pd_getCellMetaKey 1 7) = Some (put_cell (ci_Meta (sample_info 2)))"
    "start 1 sample_env (other_term (?rec c) c) = Some (None, other_term (?rec c) c)"
    using R i(1) e(3) by (simp_all add: sample_env_def sample_codec_def)
  moreover have "map_option (\<lambda>m. e_CellVer (c_Epoch m)) (get_cell (put_cell (ci_Meta (sample_info 2)))) = Some 2" by code_simp
  ultimately have "record_version c2 = Some 2" "start 1 sample_env (other_term (?rec c) c) = Some (None, other_term (?rec c) c)"
    by (simp_all add: record_version_def)
  then show ?thesis using c(1,3) x by blast
qed

end
