(* ===== verification/Strconv.thy ===== *)
theory Strconv
  imports Raft_Msgs
begin

text \<open>
  The number conversions of \<^verbatim>\<open>pkg/util/bytes.go\<close>: \<^verbatim>\<open>StrInt64\<close> and \<^verbatim>\<open>FormatInt64ToBytes\<close>, with the
  parts of \<^verbatim>\<open>strconv.ParseInt\<close> and \<^verbatim>\<open>strconv.AppendInt\<close> they use (base 10, 64 bits).  An
  \<^verbatim>\<open>int64\<close> is an \<open>int\<close> between \<open>- 2 ^ 63\<close> and \<open>2 ^ 63 - 1\<close>, and \<open>wrap64\<close> writes out the
  wrap-around of its arithmetic.
\<close>

definition lit :: "string \<Rightarrow> bytes" where
  "lit s = map of_char s"

definition wrap64 :: "int \<Rightarrow> int" where
  "wrap64 v = (v + 2 ^ 63) mod 2 ^ 64 - 2 ^ 63"

definition is_int64 :: "int \<Rightarrow> bool" where
  "is_int64 v \<longleftrightarrow> - (2 ^ 63) \<le> v \<and> v < 2 ^ 63"

datatype numError = ErrSyntax | ErrRange

subsection \<open>Parsing\<close>

text \<open>The loop of \<^verbatim>\<open>ParseUint\<close>: a byte that is no digit is a syntax error, and the first digit that
  takes the value over 64 bits ends the loop with a range error.\<close>

fun parse_digits :: "nat \<Rightarrow> bytes \<Rightarrow> numError + nat" where
  "parse_digits n [] = Inr n"
| "parse_digits n (c # cs) =
     (if unat c < 48 \<or> 57 < unat c then Inl ErrSyntax
      else if 2 ^ 64 \<le> n * 10 + (unat c - 48) then Inl ErrRange
      else parse_digits (n * 10 + (unat c - 48)) cs)"

definition ParseUint :: "bytes \<Rightarrow> nat \<times> numError option" where
  "ParseUint s =
     (if s = [] then (0, Some ErrSyntax)
      else case parse_digits 0 s of
             Inl ErrSyntax \<Rightarrow> (0, Some ErrSyntax)
           | Inl ErrRange \<Rightarrow> (2 ^ 64 - 1, Some ErrRange)
           | Inr n \<Rightarrow> (n, None))"

definition ParseInt :: "bytes \<Rightarrow> int \<times> numError option" where
  "ParseInt s =
     (if s = [] then (0, Some ErrSyntax)
      else
        (let neg = (hd s = 45); s = (if hd s = 43 \<or> hd s = 45 then tl s else s)
         in case ParseUint s of
              (_, Some ErrSyntax) \<Rightarrow> (0, Some ErrSyntax)
            | (un, _) \<Rightarrow>
                if \<not> neg \<and> 2 ^ 63 \<le> un then (2 ^ 63 - 1, Some ErrRange)
                else if neg \<and> 2 ^ 63 < un then (- (2 ^ 63), Some ErrRange)
                else (if neg then - int un else int un, None)))"

text \<open>\<^verbatim>\<open>StrInt64\<close>: the caller that ignores the error gets the value all the same.\<close>

definition StrInt64 :: "bytes \<Rightarrow> int \<times> numError option" where
  "StrInt64 v = ParseInt v"

subsection \<open>Printing\<close>

fun format_nat :: "nat \<Rightarrow> bytes" where
  "format_nat n = (if n < 10 then [of_nat (48 + n)] else format_nat (n div 10) @ [of_nat (48 + n mod 10)])"

declare format_nat.simps [simp del]

definition FormatInt64ToBytes :: "int \<Rightarrow> bytes" where
  "FormatInt64ToBytes v = (if v < 0 then 45 # format_nat (nat (- v)) else format_nat (nat v))"

subsection \<open>Lemmas\<close>

lemma wrap64_int64 [simp]: "is_int64 (wrap64 v)"
proof -
  have "0 \<le> (v + 2 ^ 63) mod 2 ^ 64" "(v + 2 ^ 63) mod 2 ^ 64 < 2 ^ 64"
    by (rule pos_mod_sign, simp) (rule pos_mod_bound, simp)
  then show ?thesis
    by (simp add: wrap64_def is_int64_def)
qed

lemma wrap64_id: "is_int64 v \<Longrightarrow> wrap64 v = v"
  by (simp add: wrap64_def is_int64_def mod_pos_pos_trivial)

lemma parse_digits_snoc:
  "parse_digits n (cs @ [c]) =
     (case parse_digits n cs of Inl e \<Rightarrow> Inl e | Inr m \<Rightarrow> parse_digits m [c])"
  by (induction n cs rule: parse_digits.induct) auto

lemma digit_unat: "d < 10 \<Longrightarrow> unat (of_nat (48 + d) :: 8 word) = 48 + d"
  by (simp only: unat_of_nat) simp

lemma parse_format_nat: "n < 2 ^ 64 \<Longrightarrow> parse_digits 0 (format_nat n) = Inr n"
proof (induction n rule: format_nat.induct)
  case (1 n)
  have top: "format_nat n = (if n < 10 then [of_nat (48 + n)] else format_nat (n div 10) @ [of_nat (48 + n mod 10)])"
    by (subst format_nat.simps) (rule refl)
  show ?case
  proof (cases "n < 10")
    case True
    then show ?thesis
      using digit_unat [OF True] by (simp add: top)
  next
    case False
    have "parse_digits 0 (format_nat (n div 10)) = Inr (n div 10)"
      using 1 False by simp
    moreover have "unat (of_nat (48 + n mod 10) :: 8 word) = 48 + n mod 10"
      by (rule digit_unat) simp
    moreover have "n div 10 * 10 + n mod 10 = n"
      by simp
    ultimately show ?thesis
      using False 1(2) by (simp only: top if_False parse_digits_snoc sum.case parse_digits.simps) simp
  qed
qed

lemma format_nat_nonempty [simp]: "format_nat n \<noteq> []"
  by (subst format_nat.simps) simp

lemma format_nat_hd: "48 \<le> unat (hd (format_nat n)) \<and> unat (hd (format_nat n)) \<le> 57"
proof (induction n rule: format_nat.induct)
  case (1 n)
  show ?case
  proof (cases "n < 10")
    case True
    then show ?thesis
      using digit_unat [OF True] by (subst (1 2) format_nat.simps) simp
  next
    case False
    then show ?thesis
      using 1 by (subst (1 2) format_nat.simps) simp
  qed
qed

lemma ParseUint_format: "n < 2 ^ 64 \<Longrightarrow> ParseUint (format_nat n) = (n, None)"
  by (simp add: ParseUint_def parse_format_nat)

lemma ParseInt_Format:
  assumes "is_int64 v"
  shows "ParseInt (FormatInt64ToBytes v) = (v, None)"
proof (cases "v < 0")
  case True
  have "nat (- v) < 2 ^ 64" "nat (- v) \<le> 2 ^ 63"
    using assms by (auto simp: is_int64_def)
  then show ?thesis
    using True ParseUint_format [of "nat (- v)"]
    by (simp add: ParseInt_def FormatInt64ToBytes_def Let_def)
next
  case False
  have "nat v < 2 ^ 64" "\<not> 2 ^ 63 \<le> nat v"
    using assms False by (auto simp: is_int64_def nat_le_iff)
  moreover have "hd (format_nat (nat v)) \<noteq> 43" "hd (format_nat (nat v)) \<noteq> 45"
    using format_nat_hd [of "nat v"] by auto
  ultimately show ?thesis
    using False ParseUint_format [of "nat v"]
    by (simp add: ParseInt_def FormatInt64ToBytes_def Let_def)
qed

lemma ParseInt_int64 [simp]: "is_int64 (fst (ParseInt s))"
proof -
  have "- (2 ^ 63) \<le> (- int n)" if "\<not> 2 ^ 63 < n" for n :: nat
    using that by (simp add: not_less)
  moreover have "int n < 2 ^ 63" if "\<not> 2 ^ 63 \<le> n" for n :: nat
    using that by (simp add: not_le)
  ultimately show ?thesis
    by (auto simp: ParseInt_def Let_def is_int64_def split: prod.splits option.splits numError.splits if_splits)
qed

end
