(* ===== verification/Redis_Exec.thy ===== *)
theory Redis_Exec
  imports Apply_Delegate Propose Strconv
begin

text \<open>
  The redis command handlers of the store: \<^verbatim>\<open>pkg/raftstore/redis.go\<close> and \<^verbatim>\<open>redis_kv.go\<close>,
  \<^verbatim>\<open>redis_hash.go\<close>, \<^verbatim>\<open>redis_list.go\<close>, \<^verbatim>\<open>redis_set.go\<close>, \<^verbatim>\<open>redis_zset.go\<close>, \<^verbatim>\<open>redis_lock.go\<close>.  The
  handlers call the engine interfaces of \<^verbatim>\<open>pkg/storage/driver.go\<close>; the engines are records of
  functions over an open type of data, because the production ones are a C++ library.  A driver
  may have no engine for a data type, a nil interface whose use panics.  The in-memory key-value
  engine of \<^verbatim>\<open>pkg/storage/memory_engine_kv.go\<close> is given as an instance.
\<close>

subsection \<open>Engine interfaces\<close>

text \<open>An error is its text.  A read leaves the data alone.\<close>

type_synonym ('k, 'r) engine_write = "'k \<Rightarrow> (bytes + 'r) \<times> 'k"

record 'k KVEngine =
  ke_Set :: "bytes \<Rightarrow> bytes \<Rightarrow> ('k, unit) engine_write"
  ke_MSet :: "(bytes \<times> bytes) list \<Rightarrow> ('k, unit) engine_write"
  ke_Get :: "bytes \<Rightarrow> 'k \<Rightarrow> bytes + bytes option"
  ke_IncrBy :: "bytes \<Rightarrow> int \<Rightarrow> ('k, int) engine_write"
  ke_DecrBy :: "bytes \<Rightarrow> int \<Rightarrow> ('k, int) engine_write"
  ke_GetSet :: "bytes \<Rightarrow> bytes \<Rightarrow> ('k, bytes option) engine_write"
  ke_Append :: "bytes \<Rightarrow> bytes \<Rightarrow> ('k, int) engine_write"
  ke_SetNX :: "bytes \<Rightarrow> bytes \<Rightarrow> ('k, int) engine_write"
  ke_StrLen :: "bytes \<Rightarrow> 'k \<Rightarrow> bytes + int"
  ke_RangeDelete :: "bytes \<Rightarrow> bytes \<Rightarrow> ('k, unit) engine_write"

record 'k HashEngine =
  he_HSet :: "bytes \<Rightarrow> bytes \<Rightarrow> bytes \<Rightarrow> ('k, int) engine_write"
  he_HGet :: "bytes \<Rightarrow> bytes \<Rightarrow> 'k \<Rightarrow> bytes + bytes option"
  he_HDel :: "bytes \<Rightarrow> bytes list \<Rightarrow> ('k, int) engine_write"
  he_HExists :: "bytes \<Rightarrow> bytes \<Rightarrow> 'k \<Rightarrow> bytes + bool"
  he_HKeys :: "bytes \<Rightarrow> 'k \<Rightarrow> bytes + bytes list"
  he_HVals :: "bytes \<Rightarrow> 'k \<Rightarrow> bytes + bytes list"
  he_HGetAll :: "bytes \<Rightarrow> 'k \<Rightarrow> bytes + (bytes \<times> bytes) list"
  he_HScanGet :: "bytes \<Rightarrow> bytes \<Rightarrow> int \<Rightarrow> 'k \<Rightarrow> bytes + (bytes \<times> bytes) list"
  he_HLen :: "bytes \<Rightarrow> 'k \<Rightarrow> bytes + int"
  he_HMGet :: "bytes \<Rightarrow> bytes list \<Rightarrow> 'k \<Rightarrow> bytes list \<times> bytes list"
  he_HMSet :: "bytes \<Rightarrow> bytes list \<Rightarrow> bytes list \<Rightarrow> ('k, unit) engine_write"
  he_HSetNX :: "bytes \<Rightarrow> bytes \<Rightarrow> bytes \<Rightarrow> ('k, int) engine_write"
  he_HStrLen :: "bytes \<Rightarrow> bytes \<Rightarrow> 'k \<Rightarrow> bytes + int"
  he_HIncrBy :: "bytes \<Rightarrow> bytes \<Rightarrow> int \<Rightarrow> ('k, bytes) engine_write"

record 'k SetEngine =
  se_SAdd :: "bytes \<Rightarrow> bytes list \<Rightarrow> ('k, int) engine_write"
  se_SRem :: "bytes \<Rightarrow> bytes list \<Rightarrow> ('k, int) engine_write"
  se_SCard :: "bytes \<Rightarrow> 'k \<Rightarrow> bytes + int"
  se_SMembers :: "bytes \<Rightarrow> 'k \<Rightarrow> bytes + bytes list"
  se_SIsMember :: "bytes \<Rightarrow> bytes \<Rightarrow> 'k \<Rightarrow> bytes + int"
  se_SPop :: "bytes \<Rightarrow> ('k, bytes option) engine_write"

record 'k ZSetEngine =
  ze_ZAdd :: "bytes \<Rightarrow> u64 \<Rightarrow> bytes \<Rightarrow> ('k, int) engine_write"
  ze_ZCard :: "bytes \<Rightarrow> 'k \<Rightarrow> bytes + int"
  ze_ZCount :: "bytes \<Rightarrow> bytes \<Rightarrow> bytes \<Rightarrow> 'k \<Rightarrow> bytes + int"
  ze_ZIncrBy :: "bytes \<Rightarrow> bytes \<Rightarrow> u64 \<Rightarrow> ('k, bytes option) engine_write"
  ze_ZLexCount :: "bytes \<Rightarrow> bytes \<Rightarrow> bytes \<Rightarrow> 'k \<Rightarrow> bytes + int"
  ze_ZRange :: "bytes \<Rightarrow> int \<Rightarrow> int \<Rightarrow> 'k \<Rightarrow> bytes + (u64 \<times> bytes) list"
  ze_ZRangeByLex :: "bytes \<Rightarrow> bytes \<Rightarrow> bytes \<Rightarrow> 'k \<Rightarrow> bytes + bytes list"
  ze_ZRangeByScore :: "bytes \<Rightarrow> bytes \<Rightarrow> bytes \<Rightarrow> 'k \<Rightarrow> bytes + (u64 \<times> bytes) list"
  ze_ZRank :: "bytes \<Rightarrow> bytes \<Rightarrow> 'k \<Rightarrow> bytes + int"
  ze_ZRem :: "bytes \<Rightarrow> bytes list \<Rightarrow> ('k, int) engine_write"
  ze_ZRemRangeByLex :: "bytes \<Rightarrow> bytes \<Rightarrow> bytes \<Rightarrow> ('k, int) engine_write"
  ze_ZRemRangeByRank :: "bytes \<Rightarrow> int \<Rightarrow> int \<Rightarrow> ('k, int) engine_write"
  ze_ZRemRangeByScore :: "bytes \<Rightarrow> bytes \<Rightarrow> bytes \<Rightarrow> ('k, int) engine_write"
  ze_ZScore :: "bytes \<Rightarrow> bytes \<Rightarrow> 'k \<Rightarrow> bytes + bytes option"

record 'k ListEngine =
  le_LIndex :: "bytes \<Rightarrow> int \<Rightarrow> 'k \<Rightarrow> bytes + bytes option"
  le_LInsert :: "bytes \<Rightarrow> int \<Rightarrow> bytes \<Rightarrow> bytes \<Rightarrow> ('k, int) engine_write"
  le_LLen :: "bytes \<Rightarrow> 'k \<Rightarrow> bytes + int"
  le_LPop :: "bytes \<Rightarrow> ('k, bytes option) engine_write"
  le_LPush :: "bytes \<Rightarrow> bytes list \<Rightarrow> ('k, int) engine_write"
  le_LPushX :: "bytes \<Rightarrow> bytes \<Rightarrow> ('k, int) engine_write"
  le_LRange :: "bytes \<Rightarrow> int \<Rightarrow> int \<Rightarrow> 'k \<Rightarrow> bytes + bytes list"
  le_LRem :: "bytes \<Rightarrow> int \<Rightarrow> bytes \<Rightarrow> ('k, int) engine_write"
  le_LSet :: "bytes \<Rightarrow> int \<Rightarrow> bytes \<Rightarrow> ('k, unit) engine_write"
  le_LTrim :: "bytes \<Rightarrow> int \<Rightarrow> int \<Rightarrow> ('k, unit) engine_write"
  le_RPop :: "bytes \<Rightarrow> ('k, bytes option) engine_write"
  le_RPush :: "bytes \<Rightarrow> bytes list \<Rightarrow> ('k, int) engine_write"
  le_RPushX :: "bytes \<Rightarrow> bytes \<Rightarrow> ('k, int) engine_write"

text \<open>The driver of a cell.  The text of a number error, which quotes the argument, and
  \<^verbatim>\<open>strconv.ParseFloat\<close>, whose value is the bit pattern of the float, are parameters.\<close>

record 'k redisDriver =
  dr_kv :: "'k KVEngine"
  dr_hash :: "'k HashEngine option"
  dr_list :: "'k ListEngine option"
  dr_set :: "'k SetEngine option"
  dr_zset :: "'k ZSetEngine option"
  dr_numError :: "bytes \<Rightarrow> numError \<Rightarrow> bytes"
  dr_ParseFloat :: "bytes \<Rightarrow> bytes + u64"

definition engine :: "'e option \<Rightarrow> fault + 'e" where
  "engine e = (case e of None \<Rightarrow> Inl Panic | Some e \<Rightarrow> Inr e)"

subsection \<open>Commands and answers\<close>

definition ErrInvalidCommandResp :: bytes where
  "ErrInvalidCommandResp = lit ''invalid command''"

definition OKStatusResp :: bytes where
  "OKStatusResp = lit ''OK''"

definition errRsp :: "bytes \<Rightarrow> Response" where
  "errRsp e = AcquireResponse\<lparr>rs_ErrorResult := Some e\<rparr>"

definition invalidRsp :: Response where
  "invalidRsp = errRsp ErrInvalidCommandResp"

definition statusRsp :: "bytes \<Rightarrow> Response" where
  "statusRsp b = AcquireResponse\<lparr>rs_StatusResult := Some b\<rparr>"

definition intRsp :: "int \<Rightarrow> Response" where
  "intRsp n = AcquireResponse\<lparr>rs_IntegerResult := Some n\<rparr>"

definition bulkRsp :: "bytes option \<Rightarrow> Response" where
  "bulkRsp v = AcquireResponse\<lparr>rs_BulkResult := v\<rparr>"

definition emptyBulkRsp :: "bytes option \<Rightarrow> Response" where
  "emptyBulkRsp v = AcquireResponse\<lparr>rs_BulkResult := v, rs_HasEmptyBulkResult := Some True\<rparr>"

definition sliceRsp :: "bytes list \<Rightarrow> Response" where
  "sliceRsp v = AcquireResponse\<lparr>rs_SliceArrayResult := v, rs_HasEmptySliceArrayResult := Some True\<rparr>"

definition pairsRsp :: "(bytes \<times> bytes) list \<Rightarrow> Response" where
  "pairsRsp v = AcquireResponse\<lparr>rs_FvPairArrayResult := v, rs_HasEmptyFVPairArrayResult := Some True\<rparr>"

text \<open>The shape the handlers share: the arguments of the command, refused when their number is
  wrong; a read answers the error or the value; a write also changes the data.\<close>

definition with_args ::
  "(nat \<Rightarrow> bool) \<Rightarrow> Request \<Rightarrow> (Response \<Rightarrow> 'r) \<Rightarrow> (bytes list \<Rightarrow> fault + 'r) \<Rightarrow> fault + 'r" where
  "with_args ok req ret body =
     sbind (cmd_Args (rq_Cmd req)) (\<lambda>args. if ok (length args) then body args else Inr (ret invalidRsp))"

definition with_int :: "'k redisDriver \<Rightarrow> bytes \<Rightarrow> (Response \<Rightarrow> 'r) \<Rightarrow> (int \<Rightarrow> fault + 'r) \<Rightarrow> fault + 'r" where
  "with_int dr v ret body =
     (case StrInt64 v of (_, Some e) \<Rightarrow> Inr (ret (errRsp (dr_numError dr v e))) | (n, None) \<Rightarrow> body n)"

definition with_float :: "'k redisDriver \<Rightarrow> bytes \<Rightarrow> (Response \<Rightarrow> 'r) \<Rightarrow> (u64 \<Rightarrow> fault + 'r) \<Rightarrow> fault + 'r" where
  "with_float dr v ret body =
     (case dr_ParseFloat dr v of Inl e \<Rightarrow> Inr (ret (errRsp e)) | Inr f \<Rightarrow> body f)"

definition reply :: "('r \<Rightarrow> Response) \<Rightarrow> bytes + 'r \<Rightarrow> fault + Response" where
  "reply f r = (case r of Inl e \<Rightarrow> Inr (errRsp e) | Inr v \<Rightarrow> Inr (f v))"

definition on_data ::
  "('k, 'r) engine_write \<Rightarrow> ('r \<Rightarrow> 'k handlerCtx \<Rightarrow> Response \<times> 'k handlerCtx) \<Rightarrow> 'k handlerCtx \<Rightarrow>
   fault + Response \<times> 'k handlerCtx" where
  "on_data op k hx =
     (case op (hx_data hx) of
        (Inl e, s) \<Rightarrow> Inr (errRsp e, hx\<lparr>hx_data := s\<rparr>)
      | (Inr r, s) \<Rightarrow> Inr (k r (hx\<lparr>hx_data := s\<rparr>)))"

subsection \<open>Metrics\<close>

definition add_keys :: "u64 \<Rightarrow> 'k handlerCtx \<Rightarrow> 'k handlerCtx" where
  "add_keys n hx = hx\<lparr>hx_metrics := (hx_metrics hx)\<lparr>am_writtenKeys := am_writtenKeys (hx_metrics hx) + n\<rparr>\<rparr>"

definition add_bytes :: "u64 \<Rightarrow> 'k handlerCtx \<Rightarrow> 'k handlerCtx" where
  "add_bytes n hx = hx\<lparr>hx_metrics := (hx_metrics hx)
     \<lparr>am_writtenBytes := am_writtenBytes (hx_metrics hx) + n, am_sizeDiffHint := am_sizeDiffHint (hx_metrics hx) + n\<rparr>\<rparr>"

definition add_hint :: "u64 \<Rightarrow> 'k handlerCtx \<Rightarrow> 'k handlerCtx" where
  "add_hint n hx = hx\<lparr>hx_metrics := (hx_metrics hx)\<lparr>am_sizeDiffHint := am_sizeDiffHint (hx_metrics hx) + n\<rparr>\<rparr>"

definition sub_hint :: "u64 \<Rightarrow> 'k handlerCtx \<Rightarrow> 'k handlerCtx" where
  "sub_hint n hx = hx\<lparr>hx_metrics := (hx_metrics hx)\<lparr>am_sizeDiffHint := am_sizeDiffHint (hx_metrics hx) - n\<rparr>\<rparr>"

definition blen :: "bytes \<Rightarrow> u64" where
  "blen b = of_nat (length b)"

definition total_len :: "bytes list \<Rightarrow> u64" where
  "total_len bs = foldl (\<lambda>n b. n + blen b) 0 bs"

subsection \<open>Strings\<close>

text \<open>A set is collected in the batch of the raft entry; it reaches the engine when the entry is done.\<close>

definition execKVSet :: "'k redisDriver \<Rightarrow> 'k writeHandle" where
  "execKVSet dr req hx =
     with_args (\<lambda>n. n = 2) req (\<lambda>r. (r, hx)) (\<lambda>args.
       let size = of_nat (length (args ! 0) + length (args ! 1))
       in Inr (statusRsp OKStatusResp,
               add_bytes size (add_keys 1 (hx\<lparr>hx_rb := rb_set (args ! 0) (args ! 1) (hx_rb hx)\<rparr>))))"

definition execKVGet :: "'k redisDriver \<Rightarrow> 'k \<Rightarrow> Request \<Rightarrow> fault + Response" where
  "execKVGet dr k req =
     with_args (\<lambda>n. n = 1) req id (\<lambda>args.
       reply bulkRsp (ke_Get (dr_kv dr) (args ! 0) k))"

definition execKVStrLen :: "'k redisDriver \<Rightarrow> 'k \<Rightarrow> Request \<Rightarrow> fault + Response" where
  "execKVStrLen dr k req =
     with_args (\<lambda>n. n = 1) req id (\<lambda>args.
       reply intRsp (ke_StrLen (dr_kv dr) (args ! 0) k))"

definition execKVIncrBy :: "'k redisDriver \<Rightarrow> 'k writeHandle" where
  "execKVIncrBy dr req hx =
     with_args (\<lambda>n. n = 2) req (\<lambda>r. (r, hx)) (\<lambda>args.
       case StrInt64 (args ! 1) of
         (_, Some _) \<Rightarrow> Inr (invalidRsp, hx)
       | (incrment, None) \<Rightarrow> on_data (ke_IncrBy (dr_kv dr) (args ! 0) incrment) (\<lambda>n hx. (intRsp n, hx)) hx)"

definition execKVIncr :: "'k redisDriver \<Rightarrow> 'k writeHandle" where
  "execKVIncr dr req hx =
     with_args (\<lambda>n. n = 1) req (\<lambda>r. (r, hx)) (\<lambda>args.
       on_data (ke_IncrBy (dr_kv dr) (args ! 0) 1) (\<lambda>n hx. (intRsp n, hx)) hx)"

definition execKVDecrby :: "'k redisDriver \<Rightarrow> 'k writeHandle" where
  "execKVDecrby dr req hx =
     with_args (\<lambda>n. n = 2) req (\<lambda>r. (r, hx)) (\<lambda>args.
       case StrInt64 (args ! 1) of
         (_, Some _) \<Rightarrow> Inr (invalidRsp, hx)
       | (incrment, None) \<Rightarrow> on_data (ke_DecrBy (dr_kv dr) (args ! 0) incrment) (\<lambda>n hx. (intRsp n, hx)) hx)"

definition execKVDecr :: "'k redisDriver \<Rightarrow> 'k writeHandle" where
  "execKVDecr dr req hx =
     with_args (\<lambda>n. n = 1) req (\<lambda>r. (r, hx)) (\<lambda>args.
       on_data (ke_DecrBy (dr_kv dr) (args ! 0) 1) (\<lambda>n hx. (intRsp n, hx)) hx)"

definition execKVGetSet :: "'k redisDriver \<Rightarrow> 'k writeHandle" where
  "execKVGetSet dr req hx =
     with_args (\<lambda>n. n = 2) req (\<lambda>r. (r, hx)) (\<lambda>args.
       on_data (ke_GetSet (dr_kv dr) (args ! 0) (args ! 1)) (\<lambda>v hx. (bulkRsp v, hx)) hx)"

definition execKVAppend :: "'k redisDriver \<Rightarrow> 'k writeHandle" where
  "execKVAppend dr req hx =
     with_args (\<lambda>n. n = 2) req (\<lambda>r. (r, hx)) (\<lambda>args.
       on_data (ke_Append (dr_kv dr) (args ! 0) (args ! 1)) (\<lambda>n hx. (intRsp n, add_bytes (blen (args ! 1)) hx)) hx)"

definition execKVSetNX :: "'k redisDriver \<Rightarrow> 'k writeHandle" where
  "execKVSetNX dr req hx =
     with_args (\<lambda>n. n = 2) req (\<lambda>r. (r, hx)) (\<lambda>args.
       on_data (ke_SetNX (dr_kv dr) (args ! 0) (args ! 1)) (\<lambda>n hx.
         (intRsp n, if n > 0 then add_bytes (of_nat (length (args ! 0) + length (args ! 1))) (add_keys 1 hx) else hx)) hx)"

subsection \<open>Hashes\<close>

definition execHSet :: "'k redisDriver \<Rightarrow> 'k writeHandle" where
  "execHSet dr req hx =
     with_args (\<lambda>n. n = 3) req (\<lambda>r. (r, hx)) (\<lambda>args.
       sbind (engine (dr_hash dr)) (\<lambda>e. on_data (he_HSet e (args ! 0) (args ! 1) (args ! 2)) (\<lambda>n hx.
         (intRsp n, if n > 0 then add_bytes (of_nat (length (args ! 1) + length (args ! 2))) (add_keys 1 hx) else hx)) hx))"

definition execHDel :: "'k redisDriver \<Rightarrow> 'k writeHandle" where
  "execHDel dr req hx =
     with_args (\<lambda>n. 2 \<le> n) req (\<lambda>r. (r, hx)) (\<lambda>args.
       sbind (engine (dr_hash dr)) (\<lambda>e. on_data (he_HDel e (args ! 0) (tl args)) (\<lambda>n hx.
         (intRsp n, if n > 0 then sub_hint (total_len (tl args)) hx else hx)) hx))"

text \<open>The arguments after the key alternate between fields and values.\<close>

fun unzip_pairs :: "bytes list \<Rightarrow> bytes list \<times> bytes list" where
  "unzip_pairs (f # v # kvs) = (let (fs, vs) = unzip_pairs kvs in (f # fs, v # vs))"
| "unzip_pairs _ = ([], [])"

definition execHMSet :: "'k redisDriver \<Rightarrow> 'k writeHandle" where
  "execHMSet dr req hx =
     with_args (\<lambda>n. 3 \<le> n \<and> odd n) req (\<lambda>r. (r, hx)) (\<lambda>args.
       sbind (engine (dr_hash dr)) (\<lambda>e. let (fields, vals) = unzip_pairs (tl args)
       in on_data (he_HMSet e (args ! 0) fields vals) (\<lambda>_ hx.
         (statusRsp OKStatusResp, add_bytes (total_len fields + total_len vals) (add_keys 1 hx))) hx))"

definition execHSetNX :: "'k redisDriver \<Rightarrow> 'k writeHandle" where
  "execHSetNX dr req hx =
     with_args (\<lambda>n. n = 3) req (\<lambda>r. (r, hx)) (\<lambda>args.
       sbind (engine (dr_hash dr)) (\<lambda>e. on_data (he_HSetNX e (args ! 0) (args ! 1) (args ! 2)) (\<lambda>n hx.
         (intRsp n, if n > 0 then add_bytes (of_nat (length (args ! 1) + length (args ! 2))) hx else hx)) hx))"

definition execHIncrBy :: "'k redisDriver \<Rightarrow> 'k writeHandle" where
  "execHIncrBy dr req hx =
     with_args (\<lambda>n. n = 3) req (\<lambda>r. (r, hx)) (\<lambda>args.
       with_int dr (args ! 2) (\<lambda>r. (r, hx)) (\<lambda>incrment.
         sbind (engine (dr_hash dr)) (\<lambda>e. on_data (he_HIncrBy e (args ! 0) (args ! 1) incrment) (\<lambda>value hx.
           (case StrInt64 value of (_, Some err) \<Rightarrow> (errRsp (dr_numError dr value err), hx) | (v, None) \<Rightarrow> (intRsp v, hx))) hx)))"

definition execHGet :: "'k redisDriver \<Rightarrow> 'k \<Rightarrow> Request \<Rightarrow> fault + Response" where
  "execHGet dr k req =
     with_args (\<lambda>n. n = 2) req id (\<lambda>args.
       sbind (engine (dr_hash dr)) (\<lambda>e. reply emptyBulkRsp (he_HGet e (args ! 0) (args ! 1) k)))"

definition execHExists :: "'k redisDriver \<Rightarrow> 'k \<Rightarrow> Request \<Rightarrow> fault + Response" where
  "execHExists dr k req =
     with_args (\<lambda>n. n = 2) req id (\<lambda>args.
       sbind (engine (dr_hash dr)) (\<lambda>e. reply (\<lambda>b. intRsp (if b then 1 else 0)) (he_HExists e (args ! 0) (args ! 1) k)))"

definition execHKeys :: "'k redisDriver \<Rightarrow> 'k \<Rightarrow> Request \<Rightarrow> fault + Response" where
  "execHKeys dr k req =
     with_args (\<lambda>n. n = 1) req id (\<lambda>args.
       sbind (engine (dr_hash dr)) (\<lambda>e. reply sliceRsp (he_HKeys e (args ! 0) k)))"

definition execHVals :: "'k redisDriver \<Rightarrow> 'k \<Rightarrow> Request \<Rightarrow> fault + Response" where
  "execHVals dr k req =
     with_args (\<lambda>n. n = 1) req id (\<lambda>args.
       sbind (engine (dr_hash dr)) (\<lambda>e. reply sliceRsp (he_HVals e (args ! 0) k)))"

definition execHGetAll :: "'k redisDriver \<Rightarrow> 'k \<Rightarrow> Request \<Rightarrow> fault + Response" where
  "execHGetAll dr k req =
     with_args (\<lambda>n. n = 1) req id (\<lambda>args.
       sbind (engine (dr_hash dr)) (\<lambda>e. reply pairsRsp (he_HGetAll e (args ! 0) k)))"

definition execHScanGet :: "'k redisDriver \<Rightarrow> 'k \<Rightarrow> Request \<Rightarrow> fault + Response" where
  "execHScanGet dr k req =
     with_args (\<lambda>n. n = 3) req id (\<lambda>args.
       with_int dr (args ! 2) id (\<lambda>count.
         sbind (engine (dr_hash dr)) (\<lambda>e. reply pairsRsp (he_HScanGet e (args ! 0) (args ! 1) count k))))"

definition execHLen :: "'k redisDriver \<Rightarrow> 'k \<Rightarrow> Request \<Rightarrow> fault + Response" where
  "execHLen dr k req =
     with_args (\<lambda>n. n = 1) req id (\<lambda>args.
       sbind (engine (dr_hash dr)) (\<lambda>e. reply intRsp (he_HLen e (args ! 0) k)))"

definition execHMGet :: "'k redisDriver \<Rightarrow> 'k \<Rightarrow> Request \<Rightarrow> fault + Response" where
  "execHMGet dr k req =
     with_args (\<lambda>n. 2 \<le> n) req id (\<lambda>args.
       sbind (engine (dr_hash dr)) (\<lambda>e. case he_HMGet e (args ! 0) (tl args) k of
         (value, errs) \<Rightarrow> if errs \<noteq> [] then Inr (AcquireResponse\<lparr>rs_ErrorResults := errs\<rparr>) else Inr (sliceRsp value)))"

definition execHStrLen :: "'k redisDriver \<Rightarrow> 'k \<Rightarrow> Request \<Rightarrow> fault + Response" where
  "execHStrLen dr k req =
     with_args (\<lambda>n. n = 2) req id (\<lambda>args.
       sbind (engine (dr_hash dr)) (\<lambda>e. reply intRsp (he_HStrLen e (args ! 0) (args ! 1) k)))"

subsection \<open>Lists\<close>

definition execLIndex :: "'k redisDriver \<Rightarrow> 'k \<Rightarrow> Request \<Rightarrow> fault + Response" where
  "execLIndex dr k req =
     with_args (\<lambda>n. n = 2) req id (\<lambda>args.
       with_int dr (args ! 1) id (\<lambda>index.
         sbind (engine (dr_list dr)) (\<lambda>e. reply emptyBulkRsp (le_LIndex e (args ! 0) index k))))"

definition execLLEN :: "'k redisDriver \<Rightarrow> 'k \<Rightarrow> Request \<Rightarrow> fault + Response" where
  "execLLEN dr k req =
     with_args (\<lambda>n. n = 1) req id (\<lambda>args.
       sbind (engine (dr_list dr)) (\<lambda>e. reply intRsp (le_LLen e (args ! 0) k)))"

definition execLRange :: "'k redisDriver \<Rightarrow> 'k \<Rightarrow> Request \<Rightarrow> fault + Response" where
  "execLRange dr k req =
     with_args (\<lambda>n. n = 3) req id (\<lambda>args.
       with_int dr (args ! 1) id (\<lambda>start.
         with_int dr (args ! 2) id (\<lambda>stop.
         sbind (engine (dr_list dr)) (\<lambda>e. reply sliceRsp (le_LRange e (args ! 0) start stop k)))))"

text \<open>The inner test can never hold: it repeats the source.\<close>

definition execLInsert :: "'k redisDriver \<Rightarrow> 'k writeHandle" where
  "execLInsert dr req hx =
     with_args (\<lambda>n. n = 4) req (\<lambda>r. (r, hx)) (\<lambda>args.
       with_int dr (args ! 1) (\<lambda>r. (r, hx)) (\<lambda>pos.
         sbind (engine (dr_list dr)) (\<lambda>e. on_data (le_LInsert e (args ! 0) pos (args ! 2) (args ! 3)) (\<lambda>value hx.
           (intRsp value,
            if value > 0 then
              (let size = blen (args ! 3)
               in if value = 0 then add_bytes (size + blen (args ! 0)) (add_keys 1 hx) else add_bytes size hx)
            else hx)) hx)))"

text \<open>A push that brings the list, the set or the sorted set to one element has made the key.\<close>

definition pushed :: "bytes \<Rightarrow> int \<Rightarrow> u64 \<Rightarrow> 'k handlerCtx \<Rightarrow> 'k handlerCtx" where
  "pushed key value sz hx =
     (if value > 0 then
        (if value = 1 then add_bytes (sz + blen key) (add_keys 1 hx) else add_bytes sz hx)
      else hx)"

definition execLPop :: "'k redisDriver \<Rightarrow> 'k writeHandle" where
  "execLPop dr req hx =
     with_args (\<lambda>n. n = 1) req (\<lambda>r. (r, hx)) (\<lambda>args.
       sbind (engine (dr_list dr)) (\<lambda>e. on_data (le_LPop e (args ! 0)) (\<lambda>value hx.
         (emptyBulkRsp value, sub_hint (case value of None \<Rightarrow> 0 | Some v \<Rightarrow> blen v) hx)) hx))"

definition execLPush :: "'k redisDriver \<Rightarrow> 'k writeHandle" where
  "execLPush dr req hx =
     with_args (\<lambda>n. 2 \<le> n) req (\<lambda>r. (r, hx)) (\<lambda>args.
       sbind (engine (dr_list dr)) (\<lambda>e. on_data (le_LPush e (args ! 0) (tl args)) (\<lambda>value hx.
         (intRsp value, pushed (args ! 0) value (total_len (tl args)) hx)) hx))"

definition execLPushX :: "'k redisDriver \<Rightarrow> 'k writeHandle" where
  "execLPushX dr req hx =
     with_args (\<lambda>n. n = 2) req (\<lambda>r. (r, hx)) (\<lambda>args.
       sbind (engine (dr_list dr)) (\<lambda>e. on_data (le_LPushX e (args ! 0) (args ! 1)) (\<lambda>value hx.
         (intRsp value, pushed (args ! 0) value (blen (args ! 1)) hx)) hx))"

definition execLRem :: "'k redisDriver \<Rightarrow> 'k writeHandle" where
  "execLRem dr req hx =
     with_args (\<lambda>n. n = 3) req (\<lambda>r. (r, hx)) (\<lambda>args.
       with_int dr (args ! 1) (\<lambda>r. (r, hx)) (\<lambda>count.
         sbind (engine (dr_list dr)) (\<lambda>e. on_data (le_LRem e (args ! 0) count (args ! 2)) (\<lambda>value hx.
           (intRsp value, if value > 0 then add_hint (blen (args ! 2) * of_int value) hx else hx)) hx)))"

definition execLSet :: "'k redisDriver \<Rightarrow> 'k writeHandle" where
  "execLSet dr req hx =
     with_args (\<lambda>n. n = 3) req (\<lambda>r. (r, hx)) (\<lambda>args.
       with_int dr (args ! 1) (\<lambda>r. (r, hx)) (\<lambda>index.
         sbind (engine (dr_list dr)) (\<lambda>e. on_data (le_LSet e (args ! 0) index (args ! 2)) (\<lambda>_ hx. (statusRsp OKStatusResp, hx)) hx)))"

definition execLTrim :: "'k redisDriver \<Rightarrow> 'k writeHandle" where
  "execLTrim dr req hx =
     with_args (\<lambda>n. n = 3) req (\<lambda>r. (r, hx)) (\<lambda>args.
       with_int dr (args ! 1) (\<lambda>r. (r, hx)) (\<lambda>start.
         with_int dr (args ! 2) (\<lambda>r. (r, hx)) (\<lambda>stop.
         sbind (engine (dr_list dr)) (\<lambda>e. on_data (le_LTrim e (args ! 0) start stop) (\<lambda>_ hx. (statusRsp OKStatusResp, hx)) hx))))"

definition execRPop :: "'k redisDriver \<Rightarrow> 'k writeHandle" where
  "execRPop dr req hx =
     with_args (\<lambda>n. n = 1) req (\<lambda>r. (r, hx)) (\<lambda>args.
       sbind (engine (dr_list dr)) (\<lambda>e. on_data (le_RPop e (args ! 0)) (\<lambda>value hx.
         (emptyBulkRsp value, sub_hint (case value of None \<Rightarrow> 0 | Some v \<Rightarrow> blen v) hx)) hx))"

definition execRPush :: "'k redisDriver \<Rightarrow> 'k writeHandle" where
  "execRPush dr req hx =
     with_args (\<lambda>n. 2 \<le> n) req (\<lambda>r. (r, hx)) (\<lambda>args.
       sbind (engine (dr_list dr)) (\<lambda>e. on_data (le_RPush e (args ! 0) (tl args)) (\<lambda>value hx.
         (intRsp value, pushed (args ! 0) value (total_len (tl args)) hx)) hx))"

definition execRPushX :: "'k redisDriver \<Rightarrow> 'k writeHandle" where
  "execRPushX dr req hx =
     with_args (\<lambda>n. n = 2) req (\<lambda>r. (r, hx)) (\<lambda>args.
       sbind (engine (dr_list dr)) (\<lambda>e. on_data (le_RPushX e (args ! 0) (args ! 1)) (\<lambda>value hx.
         (intRsp value, pushed (args ! 0) value (blen (args ! 1)) hx)) hx))"

subsection \<open>Sets\<close>

definition execSAdd :: "'k redisDriver \<Rightarrow> 'k writeHandle" where
  "execSAdd dr req hx =
     with_args (\<lambda>n. 2 \<le> n) req (\<lambda>r. (r, hx)) (\<lambda>args.
       sbind (engine (dr_set dr)) (\<lambda>e. on_data (se_SAdd e (args ! 0) (tl args)) (\<lambda>value hx.
         (intRsp value, pushed (args ! 0) value (total_len (tl args)) hx)) hx))"

definition execSRem :: "'k redisDriver \<Rightarrow> 'k writeHandle" where
  "execSRem dr req hx =
     with_args (\<lambda>n. 2 \<le> n) req (\<lambda>r. (r, hx)) (\<lambda>args.
       sbind (engine (dr_set dr)) (\<lambda>e. on_data (se_SRem e (args ! 0) (tl args)) (\<lambda>value hx.
         (intRsp value,
          sub_hint (total_len (tl args))
            (if value = 0
             then hx\<lparr>hx_metrics := (hx_metrics hx)\<lparr>am_deleteKeysHint := am_deleteKeysHint (hx_metrics hx) + 1\<rparr>\<rparr>
             else hx))) hx))"

definition execSCard :: "'k redisDriver \<Rightarrow> 'k \<Rightarrow> Request \<Rightarrow> fault + Response" where
  "execSCard dr k req =
     with_args (\<lambda>n. n = 1) req id (\<lambda>args.
       sbind (engine (dr_set dr)) (\<lambda>e. reply intRsp (se_SCard e (args ! 0) k)))"

definition execSMembers :: "'k redisDriver \<Rightarrow> 'k \<Rightarrow> Request \<Rightarrow> fault + Response" where
  "execSMembers dr k req =
     with_args (\<lambda>n. n = 1) req id (\<lambda>args.
       sbind (engine (dr_set dr)) (\<lambda>e. reply sliceRsp (se_SMembers e (args ! 0) k)))"

definition execSIsMember :: "'k redisDriver \<Rightarrow> 'k \<Rightarrow> Request \<Rightarrow> fault + Response" where
  "execSIsMember dr k req =
     with_args (\<lambda>n. n = 2) req id (\<lambda>args.
       sbind (engine (dr_set dr)) (\<lambda>e. reply intRsp (se_SIsMember e (args ! 0) (args ! 1) k)))"

text \<open>\<^verbatim>\<open>execSPop\<close> has the type of a read handler although it changes the set; it is in neither table.\<close>

definition execSPop :: "'k redisDriver \<Rightarrow> 'k \<Rightarrow> Request \<Rightarrow> fault + Response \<times> 'k" where
  "execSPop dr k req =
     with_args (\<lambda>n. n = 1) req (\<lambda>r. (r, k)) (\<lambda>args.
       sbind (engine (dr_set dr)) (\<lambda>e. case se_SPop e (args ! 0) k of
         (Inl err, k) \<Rightarrow> Inr (errRsp err, k) | (Inr v, k) \<Rightarrow> Inr (emptyBulkRsp v, k)))"

subsection \<open>Sorted sets\<close>

definition execZAdd :: "'k redisDriver \<Rightarrow> 'k writeHandle" where
  "execZAdd dr req hx =
     with_args (\<lambda>n. n = 3) req (\<lambda>r. (r, hx)) (\<lambda>args.
       with_float dr (args ! 1) (\<lambda>r. (r, hx)) (\<lambda>score.
         sbind (engine (dr_zset dr)) (\<lambda>e. on_data (ze_ZAdd e (args ! 0) score (args ! 2)) (\<lambda>value hx.
           (intRsp value, pushed (args ! 0) value (blen (args ! 2) + blen (args ! 1)) hx)) hx)))"

definition execZCard :: "'k redisDriver \<Rightarrow> 'k \<Rightarrow> Request \<Rightarrow> fault + Response" where
  "execZCard dr k req =
     with_args (\<lambda>n. n = 1) req id (\<lambda>args.
       sbind (engine (dr_zset dr)) (\<lambda>e. reply intRsp (ze_ZCard e (args ! 0) k)))"

definition execZCount :: "'k redisDriver \<Rightarrow> 'k \<Rightarrow> Request \<Rightarrow> fault + Response" where
  "execZCount dr k req =
     with_args (\<lambda>n. n = 3) req id (\<lambda>args.
       sbind (engine (dr_zset dr)) (\<lambda>e. reply intRsp (ze_ZCount e (args ! 0) (args ! 1) (args ! 2) k)))"

definition execZIncrBy :: "'k redisDriver \<Rightarrow> 'k writeHandle" where
  "execZIncrBy dr req hx =
     with_args (\<lambda>n. n = 3) req (\<lambda>r. (r, hx)) (\<lambda>args.
       with_float dr (args ! 2) (\<lambda>r. (r, hx)) (\<lambda>by.
         sbind (engine (dr_zset dr)) (\<lambda>e. on_data (ze_ZIncrBy e (args ! 0) (args ! 1) by) (\<lambda>value hx. (emptyBulkRsp value, hx)) hx)))"

definition execZLexCount :: "'k redisDriver \<Rightarrow> 'k \<Rightarrow> Request \<Rightarrow> fault + Response" where
  "execZLexCount dr k req =
     with_args (\<lambda>n. n = 3) req id (\<lambda>args.
       sbind (engine (dr_zset dr)) (\<lambda>e. reply intRsp (ze_ZLexCount e (args ! 0) (args ! 1) (args ! 2) k)))"

definition execZRange :: "'k redisDriver \<Rightarrow> 'k \<Rightarrow> Request \<Rightarrow> fault + Response" where
  "execZRange dr k req =
     with_args (\<lambda>n. 3 \<le> n) req id (\<lambda>args.
       with_int dr (args ! 1) id (\<lambda>start.
         with_int dr (args ! 2) id (\<lambda>stop.
         sbind (engine (dr_zset dr)) (\<lambda>e. reply (\<lambda>value. let withScores = (length args = 4)
             in AcquireResponse\<lparr>rs_ScorePairArrayResult := value,
                  rs_HasEmptyScorePairArrayResult := Some withScores, rs_Withscores := Some withScores\<rparr>)
           (ze_ZRange e (args ! 0) start stop k)))))"

definition execZRangeByLex :: "'k redisDriver \<Rightarrow> 'k \<Rightarrow> Request \<Rightarrow> fault + Response" where
  "execZRangeByLex dr k req =
     with_args (\<lambda>n. n = 3) req id (\<lambda>args.
       sbind (engine (dr_zset dr)) (\<lambda>e. reply sliceRsp (ze_ZRangeByLex e (args ! 0) (args ! 1) (args ! 2) k)))"

definition execZRangeByScore :: "'k redisDriver \<Rightarrow> 'k \<Rightarrow> Request \<Rightarrow> fault + Response" where
  "execZRangeByScore dr k req =
     with_args (\<lambda>n. 3 \<le> n) req id (\<lambda>args.
       sbind (engine (dr_zset dr)) (\<lambda>e. reply (\<lambda>value. AcquireResponse\<lparr>rs_ScorePairArrayResult := value,
           rs_HasEmptyScorePairArrayResult := Some True\<rparr>) (ze_ZRangeByScore e (args ! 0) (args ! 1) (args ! 2) k)))"

definition execZRank :: "'k redisDriver \<Rightarrow> 'k \<Rightarrow> Request \<Rightarrow> fault + Response" where
  "execZRank dr k req =
     with_args (\<lambda>n. n = 2) req id (\<lambda>args.
       sbind (engine (dr_zset dr)) (\<lambda>e. reply (\<lambda>value. if value < 0 then emptyBulkRsp None else intRsp value) (ze_ZRank e (args ! 0) (args ! 1) k)))"

definition execZRem :: "'k redisDriver \<Rightarrow> 'k writeHandle" where
  "execZRem dr req hx =
     with_args (\<lambda>n. 2 \<le> n) req (\<lambda>r. (r, hx)) (\<lambda>args.
       sbind (engine (dr_zset dr)) (\<lambda>e. on_data (ze_ZRem e (args ! 0) (tl args)) (\<lambda>value hx.
         (intRsp value, if value > 0 then sub_hint (total_len (tl args)) hx else hx)) hx))"

definition execZRemRangeByLex :: "'k redisDriver \<Rightarrow> 'k writeHandle" where
  "execZRemRangeByLex dr req hx =
     with_args (\<lambda>n. n = 3) req (\<lambda>r. (r, hx)) (\<lambda>args.
       sbind (engine (dr_zset dr)) (\<lambda>e. on_data (ze_ZRemRangeByLex e (args ! 0) (args ! 1) (args ! 2)) (\<lambda>value hx. (intRsp value, hx)) hx))"

definition execZRemRangeByRank :: "'k redisDriver \<Rightarrow> 'k writeHandle" where
  "execZRemRangeByRank dr req hx =
     with_args (\<lambda>n. n = 3) req (\<lambda>r. (r, hx)) (\<lambda>args.
       with_int dr (args ! 1) (\<lambda>r. (r, hx)) (\<lambda>start.
         with_int dr (args ! 2) (\<lambda>r. (r, hx)) (\<lambda>stop.
         sbind (engine (dr_zset dr)) (\<lambda>e. on_data (ze_ZRemRangeByRank e (args ! 0) start stop) (\<lambda>value hx. (intRsp value, hx)) hx))))"

definition execZRemRangeByScore :: "'k redisDriver \<Rightarrow> 'k writeHandle" where
  "execZRemRangeByScore dr req hx =
     with_args (\<lambda>n. n = 3) req (\<lambda>r. (r, hx)) (\<lambda>args.
       sbind (engine (dr_zset dr)) (\<lambda>e. on_data (ze_ZRemRangeByScore e (args ! 0) (args ! 1) (args ! 2)) (\<lambda>value hx. (intRsp value, hx)) hx))"

definition execZScore :: "'k redisDriver \<Rightarrow> 'k \<Rightarrow> Request \<Rightarrow> fault + Response" where
  "execZScore dr k req =
     with_args (\<lambda>n. n = 2) req id (\<lambda>args.
       sbind (engine (dr_zset dr)) (\<lambda>e. reply emptyBulkRsp (ze_ZScore e (args ! 0) (args ! 1) k)))"

subsection \<open>Locks\<close>

text \<open>The first field that holds another target, as its position.\<close>

fun locked_by_other :: "nat \<Rightarrow> bytes list \<Rightarrow> bytes \<Rightarrow> (nat \<times> bytes) option" where
  "locked_by_other i [] target = None"
| "locked_by_other i (value # vals) target =
     (if length value > 0 \<and> bytesCompare value target \<noteq> 0 then Some (i, value)
      else locked_by_other (Suc i) vals target)"

definition lockedRsp :: "bytes list \<Rightarrow> nat \<times> bytes \<Rightarrow> fault + Response" where
  "lockedRsp keys iv =
     (case iv of (i, value) \<Rightarrow>
        if i < length keys then Inr (statusRsp (keys ! i @ lit '' already locked by '' @ value)) else Inl Panic)"

definition execLock :: "'k redisDriver \<Rightarrow> 'k writeHandle" where
  "execLock dr req hx =
     with_args (\<lambda>n. 3 \<le> n) req (\<lambda>r. (r, hx)) (\<lambda>args.
       let resource = args ! 0; target = args ! 1; keys = drop 2 args
       in sbind (engine (dr_hash dr)) (\<lambda>e.
         case he_HMGet e resource keys (hx_data hx) of
           (vals, errs) \<Rightarrow>
             if errs \<noteq> [] then Inr (errRsp (hd errs), hx)
             else case locked_by_other 0 vals target of
                    Some iv \<Rightarrow> sbind (lockedRsp keys iv) (\<lambda>r. Inr (r, hx))
                  | None \<Rightarrow>
                      (case he_HMSet e resource keys (replicate (length keys) target) (hx_data hx) of
                         (Inl err, k) \<Rightarrow> Inr (statusRsp err, hx\<lparr>hx_data := k\<rparr>)
                       | (Inr _, k) \<Rightarrow> Inr (statusRsp OKStatusResp, hx\<lparr>hx_data := k\<rparr>))))"

definition execLockable :: "'k redisDriver \<Rightarrow> 'k \<Rightarrow> Request \<Rightarrow> fault + Response" where
  "execLockable dr k req =
     with_args (\<lambda>n. 3 \<le> n) req id (\<lambda>args.
       let resource = args ! 0; target = args ! 1; keys = drop 2 args
       in sbind (engine (dr_hash dr)) (\<lambda>e.
         case he_HMGet e resource keys k of
           (vals, errs) \<Rightarrow>
             if errs \<noteq> [] then Inr (errRsp (hd errs))
             else case locked_by_other 0 vals target of
                    Some iv \<Rightarrow> lockedRsp keys iv
                  | None \<Rightarrow> Inr (statusRsp OKStatusResp)))"

definition execUnlock :: "'k redisDriver \<Rightarrow> 'k writeHandle" where
  "execUnlock dr req hx =
     with_args (\<lambda>n. 2 \<le> n) req (\<lambda>r. (r, hx)) (\<lambda>args.
       sbind (engine (dr_hash dr)) (\<lambda>e.
         on_data (he_HDel e (args ! 0) (tl args)) (\<lambda>_ hx. (statusRsp OKStatusResp, hx)) hx))"

subsection \<open>The tables\<close>

definition redisWriteHandles :: "'k redisDriver \<Rightarrow> CMDType \<rightharpoonup> 'k writeHandle" where
  "redisWriteHandles dr = map_of
     [(CMD_Set, execKVSet dr),
      (CMD_Incrby, execKVIncrBy dr),
      (CMD_Incr, execKVIncr dr),
      (CMD_Decrby, execKVDecrby dr),
      (CMD_Decr, execKVDecr dr),
      (CMD_GetSet, execKVGetSet dr),
      (CMD_Append, execKVAppend dr),
      (CMD_Setnx, execKVSetNX dr),
      (CMD_HSet, execHSet dr),
      (CMD_HDel, execHDel dr),
      (CMD_HMSet, execHMSet dr),
      (CMD_HSetNX, execHSetNX dr),
      (CMD_HIncrBy, execHIncrBy dr),
      (CMD_LInsert, execLInsert dr),
      (CMD_LPop, execLPop dr),
      (CMD_LPush, execLPush dr),
      (CMD_LPushX, execLPushX dr),
      (CMD_LRem, execLRem dr),
      (CMD_LSet, execLSet dr),
      (CMD_LTrim, execLTrim dr),
      (CMD_RPop, execRPop dr),
      (CMD_RPush, execRPush dr),
      (CMD_RPushX, execRPushX dr),
      (CMD_SAdd, execSAdd dr),
      (CMD_SRem, execSRem dr),
      (CMD_ZAdd, execZAdd dr),
      (CMD_ZIncrBy, execZIncrBy dr),
      (CMD_ZRem, execZRem dr),
      (CMD_ZRemRangeByLex, execZRemRangeByLex dr),
      (CMD_ZRemRangeByRank, execZRemRangeByRank dr),
      (CMD_ZRemRangeByScore, execZRemRangeByScore dr),
      (CMD_Lock, execLock dr),
      (CMD_Unlock, execUnlock dr)]"

definition redisReadHandles :: "'k redisDriver \<Rightarrow> CMDType \<rightharpoonup> ('k \<Rightarrow> Request \<Rightarrow> fault + Response)" where
  "redisReadHandles dr = map_of
     [(CMD_Get, execKVGet dr),
      (CMD_StrLen, execKVStrLen dr),
      (CMD_HGet, execHGet dr),
      (CMD_HExists, execHExists dr),
      (CMD_HKeys, execHKeys dr),
      (CMD_HVals, execHVals dr),
      (CMD_HGetAll, execHGetAll dr),
      (CMD_HScanGet, execHScanGet dr),
      (CMD_HLen, execHLen dr),
      (CMD_HMGet, execHMGet dr),
      (CMD_HStrLen, execHStrLen dr),
      (CMD_LIndex, execLIndex dr),
      (CMD_LLEN, execLLEN dr),
      (CMD_LRange, execLRange dr),
      (CMD_SCard, execSCard dr),
      (CMD_SIsMember, execSIsMember dr),
      (CMD_SMembers, execSMembers dr),
      (CMD_ZCard, execZCard dr),
      (CMD_ZCount, execZCount dr),
      (CMD_ZLexCount, execZLexCount dr),
      (CMD_ZRange, execZRange dr),
      (CMD_ZRangeByLex, execZRangeByLex dr),
      (CMD_ZRangeByScore, execZRangeByScore dr),
      (CMD_ZRank, execZRank dr),
      (CMD_ZScore, execZScore dr),
      (CMD_Lockable, execLockable dr)]"

subsection \<open>The in-memory key-value engine\<close>

definition memory_IncrBy :: "bytes \<Rightarrow> int \<Rightarrow> (bytes KVTree, int) engine_write" where
  "memory_IncrBy key incrment kv =
     (let value = (case KV_Get kv key of None \<Rightarrow> 0 | Some v \<Rightarrow> if length v \<noteq> 0 then fst (StrInt64 v) else 0);
          value = wrap64 (value + incrment)
      in (Inr value, KV_Put kv key (FormatInt64ToBytes value)))"

definition memory_MSet :: "(bytes \<times> bytes) list \<Rightarrow> (bytes KVTree, unit) engine_write" where
  "memory_MSet kvs kv = (Inr (), fold (\<lambda>(k, v) kv. KV_Put kv k v) kvs kv)"

text \<open>Several operations are stubs that return zero or nil and change nothing.\<close>

definition memoryKVEngine :: "bytes KVTree KVEngine" where
  "memoryKVEngine =
     \<lparr>ke_Set = (\<lambda>key value kv. (Inr (), KV_Put kv key value)),
      ke_MSet = memory_MSet,
      ke_Get = (\<lambda>key kv. Inr (KV_Get kv key)),
      ke_IncrBy = memory_IncrBy,
      ke_DecrBy = (\<lambda>_ _ kv. (Inr 0, kv)),
      ke_GetSet = (\<lambda>_ _ kv. (Inr None, kv)),
      ke_Append = (\<lambda>_ _ kv. (Inr 0, kv)),
      ke_SetNX = (\<lambda>_ _ kv. (Inr 0, kv)),
      ke_StrLen = (\<lambda>_ _. Inr 0),
      ke_RangeDelete = (\<lambda>start stop kv. (Inr (), KV_RangeDelete kv start stop))\<rparr>"

text \<open>\<^verbatim>\<open>NewMemoryDriver\<close> sets the metadata, data and key-value engines only.\<close>

definition NewMemoryDriver :: "(bytes \<Rightarrow> numError \<Rightarrow> bytes) \<Rightarrow> (bytes \<Rightarrow> bytes + u64) \<Rightarrow> bytes KVTree redisDriver" where
  "NewMemoryDriver numError parseFloat =
     \<lparr>dr_kv = memoryKVEngine, dr_hash = None, dr_list = None, dr_set = None, dr_zset = None,
      dr_numError = numError, dr_ParseFloat = parseFloat\<rparr>"

subsection \<open>The handlers under the apply worker and the readers\<close>

text \<open>\<^verbatim>\<open>doApplyRaftCMD\<close> hands the batch to \<^verbatim>\<open>MSet\<close>.\<close>

definition driver_MSet :: "'k redisDriver \<Rightarrow> redisBatch \<Rightarrow> 'k \<Rightarrow> 'k option" where
  "driver_MSet dr rb k = (case ke_MSet (dr_kv dr) rb k of (Inl _, _) \<Rightarrow> None | (Inr _, k) \<Rightarrow> Some k)"

definition redis_applyEnv :: "'k redisDriver \<Rightarrow> 'k applyEnv \<Rightarrow> 'k applyEnv" where
  "redis_applyEnv dr env = env\<lparr>ev_redisWriteHandles := redisWriteHandles dr, ev_MSet := driver_MSet dr\<rparr>"

text \<open>The readers ask the same tables, on the data of the cell's engine.\<close>

definition redis_proposeEnv :: "'k redisDriver \<Rightarrow> (u64 \<Rightarrow> 'k) \<Rightarrow> 'n proposeEnv \<Rightarrow> 'n proposeEnv" where
  "redis_proposeEnv dr data env =
     env\<lparr>pe_isRead := (\<lambda>t. redisReadHandles dr t \<noteq> None),
         pe_isWrite := (\<lambda>t. redisWriteHandles dr t \<noteq> None),
         pe_readHandle := (\<lambda>cellID req. case redisReadHandles dr (rq_Type req) of
            None \<Rightarrow> Inl Panic | Some h \<Rightarrow> h (data cellID) req)\<rparr>"

end
