(* ===== verification/Redis_Props.thy ===== *)
theory Redis_Props
  imports Redis_Exec
begin

text \<open>
  What the redis handlers promise: the two tables are disjoint and refuse a command without
  arguments; a counter adds up; a lock excludes other targets; and when the commands of one raft
  entry act as if each had been an entry of its own, with the case in which they do not.
\<close>

subsection \<open>One raft entry on the in-memory engine\<close>

definition kv_types :: "CMDType set" where
  "kv_types = {CMD_Set, CMD_Incrby, CMD_Incr, CMD_Decrby, CMD_Decr, CMD_GetSet, CMD_Append, CMD_Setnx}"

text \<open>The effect of a string command on the data and the batch, metrics apart.\<close>

definition kv_step :: "Request \<Rightarrow> bytes KVTree \<Rightarrow> redisBatch \<Rightarrow> Response \<times> bytes KVTree \<times> redisBatch" where
  "kv_step req k rb =
     (let args = tl (rq_Cmd req); t = rq_Type req
      in if t = CMD_Set \<and> length args = 2 then (statusRsp OKStatusResp, k, rb @ [(args ! 0, args ! 1)])
         else if t = CMD_Incr \<and> length args = 1 then
           (intRsp (projr (fst (memory_IncrBy (args ! 0) 1 k))), snd (memory_IncrBy (args ! 0) 1 k), rb)
         else if t = CMD_Incrby \<and> length args = 2 \<and> snd (StrInt64 (args ! 1)) = None then
           (intRsp (projr (fst (memory_IncrBy (args ! 0) (fst (StrInt64 (args ! 1))) k))),
            snd (memory_IncrBy (args ! 0) (fst (StrInt64 (args ! 1))) k), rb)
         else
           (if t = CMD_Decr \<and> length args = 1 \<or>
               t = CMD_Decrby \<and> length args = 2 \<and> snd (StrInt64 (args ! 1)) = None \<or>
               (t = CMD_Append \<or> t = CMD_Setnx) \<and> length args = 2 then intRsp 0
            else if t = CMD_GetSet \<and> length args = 2 then bulkRsp None
            else invalidRsp, k, rb))"

lemma with_args_Cons [simp]:
  "rq_Cmd req = c # args \<Longrightarrow>
   with_args ok req ret body = (if ok (length args) then body args else Inr (ret invalidRsp))"
  by (simp add: with_args_def cmd_Args_def)

lemma kv_table:
  "redisWriteHandles dr CMD_Set = Some (execKVSet dr)"
  "redisWriteHandles dr CMD_Incrby = Some (execKVIncrBy dr)"
  "redisWriteHandles dr CMD_Incr = Some (execKVIncr dr)"
  "redisWriteHandles dr CMD_Decrby = Some (execKVDecrby dr)"
  "redisWriteHandles dr CMD_Decr = Some (execKVDecr dr)"
  "redisWriteHandles dr CMD_GetSet = Some (execKVGetSet dr)"
  "redisWriteHandles dr CMD_Append = Some (execKVAppend dr)"
  "redisWriteHandles dr CMD_Setnx = Some (execKVSetNX dr)"
  by (simp_all add: redisWriteHandles_def)

lemma memory_engine_sel [simp]:
  "ke_IncrBy memoryKVEngine = memory_IncrBy" "ke_DecrBy memoryKVEngine = (\<lambda>_ _ kv. (Inr 0, kv))"
  "ke_GetSet memoryKVEngine = (\<lambda>_ _ kv. (Inr None, kv))" "ke_Append memoryKVEngine = (\<lambda>_ _ kv. (Inr 0, kv))"
  "ke_SetNX memoryKVEngine = (\<lambda>_ _ kv. (Inr 0, kv))" "ke_MSet memoryKVEngine = memory_MSet"
  by (simp_all add: memoryKVEngine_def)

lemma on_memory [simp]:
  "on_data (Pair (Inr r)) g hx = Inr (g r hx)"
  "on_data (memory_IncrBy key n) f hx =
     Inr (f (projr (fst (memory_IncrBy key n (hx_data hx)))) (hx\<lparr>hx_data := snd (memory_IncrBy key n (hx_data hx))\<rparr>))"
  by (simp_all add: on_data_def memory_IncrBy_def Let_def)

lemma same_metrics [simp]: "\<exists>m. hx = hx\<lparr>hx_metrics := m\<rparr>"
  by (rule exI [of _ "hx_metrics hx"]) simp

definition kv_outcome :: "Request \<Rightarrow> bytes KVTree handlerCtx \<Rightarrow> fault + Response \<times> bytes KVTree handlerCtx \<Rightarrow> bool" where
  "kv_outcome req hx out \<longleftrightarrow> (\<exists>m. out = (case kv_step req (hx_data hx) (hx_rb hx) of
     (rsp, k, rb) \<Rightarrow> Inr (rsp, hx\<lparr>hx_data := k, hx_rb := rb, hx_metrics := m\<rparr>)))"

lemma kv_outcomeI: "kv_step req (hx_data hx) (hx_rb hx) = (rsp, hx_data hx', hx_rb hx') \<Longrightarrow> out = Inr (rsp, hx') \<Longrightarrow>
  kv_outcome req hx out"
  unfolding kv_outcome_def by (rule exI [of _ "hx_metrics hx'"]) simp

lemma kv_frames [simp]:
  "hx_data (add_bytes n hx) = hx_data hx" "hx_rb (add_bytes n hx) = hx_rb hx"
  "hx_data (add_keys n hx) = hx_data hx" "hx_rb (add_keys n hx) = hx_rb hx"
  by (simp_all add: add_bytes_def add_keys_def)

lemma kv_handle_Set:
  assumes "rq_Cmd req = c # args" "rq_Type req = CMD_Set"
  shows "kv_outcome req hx (execKVSet dr req hx)"
  by (cases "length args = 2") (auto intro!: kv_outcomeI simp: assms execKVSet_def kv_step_def rb_set_def Let_def)

lemma kv_handle_Incr:
  assumes "rq_Cmd req = c # args" "rq_Type req = CMD_Incr" "dr_kv dr = memoryKVEngine"
  shows "kv_outcome req hx (execKVIncr dr req hx)"
  by (cases "length args = 1")
    (auto intro!: kv_outcomeI simp: assms execKVIncr_def kv_step_def Let_def memory_IncrBy_def)

lemma kv_handle_Incrby:
  assumes "rq_Cmd req = c # args" "rq_Type req = CMD_Incrby" "dr_kv dr = memoryKVEngine"
  shows "kv_outcome req hx (execKVIncrBy dr req hx)"
  by (cases "length args = 2"; cases "StrInt64 (args ! 1)"; cases "snd (StrInt64 (args ! 1))")
    (auto intro!: kv_outcomeI simp: assms execKVIncrBy_def kv_step_def Let_def memory_IncrBy_def)

lemma kv_handle_Decrby:
  assumes "rq_Cmd req = c # args" "rq_Type req = CMD_Decrby" "dr_kv dr = memoryKVEngine"
  shows "kv_outcome req hx (execKVDecrby dr req hx)"
  by (cases "length args = 2"; cases "StrInt64 (args ! 1)"; cases "snd (StrInt64 (args ! 1))")
    (auto intro!: kv_outcomeI simp: assms execKVDecrby_def kv_step_def Let_def)

lemma kv_handle_rest:
  assumes "rq_Cmd req = c # args" "dr_kv dr = memoryKVEngine"
  shows "rq_Type req = CMD_Decr \<Longrightarrow> kv_outcome req hx (execKVDecr dr req hx)"
    "rq_Type req = CMD_GetSet \<Longrightarrow> kv_outcome req hx (execKVGetSet dr req hx)"
    "rq_Type req = CMD_Append \<Longrightarrow> kv_outcome req hx (execKVAppend dr req hx)"
    "rq_Type req = CMD_Setnx \<Longrightarrow> kv_outcome req hx (execKVSetNX dr req hx)"
  by (auto simp: kv_outcome_def assms execKVDecr_def execKVGetSet_def execKVAppend_def execKVSetNX_def
      kv_step_def Let_def add_bytes_def split: if_splits)

lemma kv_handle:
  assumes "rq_Type req \<in> kv_types" "rq_Cmd req \<noteq> []" "dr_kv dr = memoryKVEngine"
  shows "\<exists>h. redisWriteHandles dr (rq_Type req) = Some h \<and> kv_outcome req hx (h req hx)"
proof -
  obtain c args where cmd: "rq_Cmd req = c # args"
    using assms(2) by (cases "rq_Cmd req") auto
  show ?thesis
    using assms(1) kv_handle_Set [OF cmd] kv_handle_Incr [OF cmd _ assms(3)] kv_handle_Incrby [OF cmd _ assms(3)]
      kv_handle_Decrby [OF cmd _ assms(3)] kv_handle_rest [OF cmd assms(3)]
    by (auto simp: kv_types_def kv_table)
qed

text \<open>One raft entry: its commands in order, then the collected sets.\<close>

definition entry_data ::
  "'k applyEnv \<Rightarrow> applyDelegate \<Rightarrow> Request list \<Rightarrow> 'k \<Rightarrow> fault + Response list \<times> 'k" where
  "entry_data env d reqs k =
     sbind (exec_requests env d reqs \<lparr>hx_data = k, hx_rb = [], hx_metrics = emptyApplyMetrics\<rparr>) (\<lambda>(rsps, _, hx).
       if hasSetBatch (hx_rb hx)
       then (case ev_MSet env (hx_rb hx) (hx_data hx) of None \<Rightarrow> Inl Fatalf | Some k \<Rightarrow> Inr (rsps, k))
       else Inr (rsps, hx_data hx))"

text \<open>This is what \<^verbatim>\<open>execWriteRequest\<close> and the flush of its batch do to the data of the cell.\<close>

lemma entry_data_apply:
  assumes "rh_CellId h = c_ID (da_cell d)" "i = driver_index (w_engines w) (c_ID (da_cell d))"
    and "entry_data env d (rc_Requests (ax_req ctx)) (w_data w i) = Inr (rsps, k)"
  shows "\<exists>resp rb m w1 w2. execWriteRequest env h ctx d w = Inr (resp, rb, m, w1) \<and>
    rr_Responses resp = rsps \<and> flush_batch env rb d w1 = Inr w2 \<and> w_data w2 = (w_data w)(i := k)"
proof -
  obtain idxs hx where ex: "exec_requests env d (rc_Requests (ax_req ctx))
      \<lparr>hx_data = w_data w i, hx_rb = [], hx_metrics = emptyApplyMetrics\<rparr> = Inr (rsps, idxs, hx)"
    and k: "k = hx_data hx \<or> hasSetBatch (hx_rb hx) \<and> ev_MSet env (hx_rb hx) (hx_data hx) = Some k"
      "\<not> hasSetBatch (hx_rb hx) \<Longrightarrow> k = hx_data hx"
      "hasSetBatch (hx_rb hx) \<Longrightarrow> ev_MSet env (hx_rb hx) (hx_data hx) = Some k"
    using assms(3) by (auto simp: entry_data_def sbind_Inr_iff split: if_splits option.splits)
  have "execWriteRequest env h ctx d w = Inr (\<lparr>rr_Header = None, rr_Responses = rsps, rr_AdminResponse = None\<rparr>,
      hx_rb hx, hx_metrics hx, w\<lparr>w_data := (w_data w)(i := hx_data hx), w_idx := w_idx w @ idxs\<rparr>)"
    by (simp add: execWriteRequest_def Let_def assms(1) assms(2) [symmetric] ex)
  then show ?thesis
    using k by (cases "hasSetBatch (hx_rb hx)") (auto simp: flush_batch_def assms(2) [symmetric])
qed

text \<open>The reference: every command in an entry of its own.\<close>

fun serial_data :: "'k applyEnv \<Rightarrow> applyDelegate \<Rightarrow> Request list \<Rightarrow> 'k \<Rightarrow> fault + Response list \<times> 'k" where
  "serial_data env d [] k = Inr ([], k)"
| "serial_data env d (req # reqs) k =
     sbind (entry_data env d [req] k) (\<lambda>(r, k).
       sbind (serial_data env d reqs k) (\<lambda>(rs, k). Inr (r @ rs, k)))"

fun kv_steps :: "Request list \<Rightarrow> bytes KVTree \<Rightarrow> redisBatch \<Rightarrow> Response list \<times> bytes KVTree \<times> redisBatch" where
  "kv_steps [] k rb = ([], k, rb)"
| "kv_steps (req # reqs) k rb =
     (case kv_step req k rb of (r, k, rb) \<Rightarrow> case kv_steps reqs k rb of (rs, k, rb) \<Rightarrow> (r # rs, k, rb))"

definition kv_requests :: "Request list \<Rightarrow> bool" where
  "kv_requests reqs \<longleftrightarrow> (\<forall>req \<in> set reqs. rq_Type req \<in> kv_types \<and> rq_Cmd req \<noteq> [])"

lemma kv_types_index: "rq_Type req \<in> kv_types \<Longrightarrow> execWriteRequestIndex env d req rsp = Inr []"
  by (auto simp: kv_types_def execWriteRequestIndex_def)

lemma exec_requests_kv:
  assumes "kv_requests reqs" "dr_kv dr = memoryKVEngine" "kv_steps reqs (hx_data hx) (hx_rb hx) = (rsps, k, rb)"
  shows "\<exists>m. exec_requests (redis_applyEnv dr env) d reqs hx =
    Inr (rsps, [], hx\<lparr>hx_data := k, hx_rb := rb, hx_metrics := m\<rparr>)"
  using assms(1,3)
proof (induction reqs arbitrary: hx rsps)
  case (Cons req reqs)
  obtain r k1 rb1 where s1: "kv_step req (hx_data hx) (hx_rb hx) = (r, k1, rb1)"
    by (cases "kv_step req (hx_data hx) (hx_rb hx)") auto
  obtain rs where s2: "kv_steps reqs k1 rb1 = (rs, k, rb)" "rsps = r # rs"
    using Cons.prems(2) s1 by (auto split: prod.splits)
  have ty: "rq_Type req \<in> kv_types" "rq_Cmd req \<noteq> []" "kv_requests reqs"
    using Cons.prems(1) by (auto simp: kv_requests_def)
  obtain h m where h: "redisWriteHandles dr (rq_Type req) = Some h"
    "h req hx = Inr (r, hx\<lparr>hx_data := k1, hx_rb := rb1, hx_metrics := m\<rparr>)"
    using kv_handle [OF ty(1,2) assms(2), of hx] s1 by (auto simp: kv_outcome_def)
  define hx1 where "hx1 = hx\<lparr>hx_data := k1, hx_rb := rb1, hx_metrics := m\<rparr>"
  obtain m' where "exec_requests (redis_applyEnv dr env) d reqs hx1 =
      Inr (rs, [], hx1\<lparr>hx_data := k, hx_rb := rb, hx_metrics := m'\<rparr>)"
    using Cons.IH [of hx1 rs] ty(3) s2 by (auto simp: hx1_def)
  then show ?case
    using h s2 by (auto simp: redis_applyEnv_def kv_types_index [OF ty(1)] hx1_def)
qed (auto intro: exI [of _ "hx_metrics _"])

definition overlays :: "bytes KVTree \<Rightarrow> redisBatch \<Rightarrow> bytes KVTree \<Rightarrow> bool" where
  "overlays k rb k' \<longleftrightarrow> kv_wf k \<and> kv_wf k' \<and> kv_map k' = kv_map k ++ map_of (rev rb)"

lemma memory_MSet_map:
  "kv_wf k \<Longrightarrow> overlays k rb (snd (memory_MSet rb k))"
  using kvt.get_puts [of k rb] kvt.ok_puts [of k rb]
  by (auto simp: overlays_def memory_MSet_def KV_Get_map fun_eq_iff map_add_def split: option.splits)

lemma entry_data_kv:
  assumes "kv_requests reqs" "dr_kv dr = memoryKVEngine" "kv_steps reqs k [] = (rsps, k', rb)"
  shows "entry_data (redis_applyEnv dr env) d reqs k = Inr (rsps, snd (memory_MSet rb k'))"
proof -
  define hx :: "bytes KVTree handlerCtx" where "hx = \<lparr>hx_data = k, hx_rb = [], hx_metrics = emptyApplyMetrics\<rparr>"
  obtain m where "exec_requests (redis_applyEnv dr env) d reqs hx =
      Inr (rsps, [], hx\<lparr>hx_data := k', hx_rb := rb, hx_metrics := m\<rparr>)"
    using exec_requests_kv [OF assms(1,2), of hx rsps k' rb env d] assms(3) by (auto simp: hx_def)
  then show ?thesis
    using assms(2) unfolding entry_data_def hx_def [symmetric]
    by (auto simp: hasSetBatch_def redis_applyEnv_def driver_MSet_def memory_MSet_def)
qed

text \<open>The keys an entry sets, and those it increments.\<close>

definition set_keys :: "Request list \<Rightarrow> bytes set" where
  "set_keys reqs = {rq_Cmd req ! 1 | req. req \<in> set reqs \<and> rq_Type req = CMD_Set}"

definition incr_keys :: "Request list \<Rightarrow> bytes set" where
  "incr_keys reqs = {rq_Cmd req ! 1 | req. req \<in> set reqs \<and> rq_Type req \<in> {CMD_Incr, CMD_Incrby}}"

lemma memory_IncrBy_overlays:
  assumes "overlays k rb k'" "key \<notin> fst ` set rb"
  shows "fst (memory_IncrBy key n k) = fst (memory_IncrBy key n k') \<and>
    overlays (snd (memory_IncrBy key n k)) rb (snd (memory_IncrBy key n k'))"
proof -
  have none: "map_of (rev rb) key = None"
    using assms(2) by (simp add: map_of_eq_None_iff)
  have get: "KV_Get k' key = KV_Get k key"
    using assms none by (auto simp: overlays_def KV_Get_map map_add_def)
  then show ?thesis
    using assms(1) none
    by (auto simp: memory_IncrBy_def Let_def overlays_def wf_intros KV_Put_map fun_eq_iff map_add_def split: option.splits)
qed

lemma kv_step_overlays:
  assumes "overlays k rb k'" "rq_Cmd req \<noteq> []" "incr_keys [req] \<inter> fst ` set rb = {}"
    and "kv_step req k rb = (r, k1, rb1)" "kv_step req k' [] = (r', k1', rb1')"
  shows "r' = r \<and> overlays k1 rb1 (snd (memory_MSet rb1' k1')) \<and> fst ` set rb1 \<subseteq> fst ` set rb \<union> set_keys [req]"
proof -
  obtain c args where cmd: "rq_Cmd req = c # args"
    using assms(2) by (cases "rq_Cmd req") auto
  show ?thesis
  proof (cases "rq_Type req \<in> {CMD_Incr, CMD_Incrby}")
    case True
    then have "rq_Cmd req ! 1 \<notin> fst ` set rb"
      using assms(3) by (auto simp: incr_keys_def)
    then have key: "args ! 0 \<notin> fst ` set rb"
      by (simp add: cmd)
    show ?thesis
      using True assms(4,5) memory_IncrBy_overlays [OF assms(1) key] assms(1)
      by (auto simp: kv_step_def Let_def cmd memory_MSet_def split: if_splits)
  next
    case False
    have put: "overlays k (rb @ [(x, v)]) (KV_Put k' x v)" for x v
      using assms(1) by (auto simp: overlays_def wf_intros KV_Put_map fun_eq_iff map_add_def)
    show ?thesis
      using False assms(1,4,5) put
      by (auto simp: kv_step_def Let_def cmd memory_MSet_def set_keys_def split: if_splits)
  qed
qed

lemma serial_overlays:
  assumes "dr_kv dr = memoryKVEngine" "kv_requests reqs" "overlays k rb k'"
    and "(fst ` set rb \<union> set_keys reqs) \<inter> incr_keys reqs = {}" "kv_steps reqs k rb = (rsps, k1, rb1)"
  shows "\<exists>k2. serial_data (redis_applyEnv dr env) d reqs k' = Inr (rsps, k2) \<and> overlays k1 rb1 k2"
  using assms(2-5)
proof (induction reqs arbitrary: k rb k' rsps)
  case (Cons req reqs)
  obtain r ka rba where s1: "kv_step req k rb = (r, ka, rba)" by (cases "kv_step req k rb") auto
  obtain r' kb rbb where s2: "kv_step req k' [] = (r', kb, rbb)" by (cases "kv_step req k' []") auto
  obtain rs where s3: "kv_steps reqs ka rba = (rs, k1, rb1)" "rsps = r # rs"
    using Cons.prems(4) s1 by (auto split: prod.splits)
  have cmd: "rq_Cmd req \<noteq> []" "kv_requests [req]" "kv_requests reqs"
    using Cons.prems(1) by (auto simp: kv_requests_def)
  have keys: "incr_keys (req # reqs) = incr_keys [req] \<union> incr_keys reqs"
    "set_keys (req # reqs) = set_keys [req] \<union> set_keys reqs"
    by (auto simp: incr_keys_def set_keys_def)
  have step: "r' = r" "overlays ka rba (snd (memory_MSet rbb kb))" "fst ` set rba \<subseteq> fst ` set rb \<union> set_keys [req]"
    using kv_step_overlays [OF Cons.prems(2) cmd(1) _ s1 s2] Cons.prems(3) by (auto simp: keys)
  have disj: "(fst ` set rba \<union> set_keys reqs) \<inter> incr_keys reqs = {}"
    using Cons.prems(3) step(3) unfolding keys by blast
  have "entry_data (redis_applyEnv dr env) d [req] k' = Inr ([r'], snd (memory_MSet rbb kb))"
    by (rule entry_data_kv [OF cmd(2) assms(1)]) (simp add: s2)
  moreover obtain k2 where "serial_data (redis_applyEnv dr env) d reqs (snd (memory_MSet rbb kb)) = Inr (rs, k2)"
    "overlays k1 rb1 k2"
    using Cons.IH [OF cmd(3) step(2) disj s3(1)] by auto
  ultimately show ?case
    using step(1) s3(2) by simp
qed auto

text \<open>C18: a raft entry whose string commands do not set and increment the same key has, on the
  in-memory engine, the answers and the data of its commands applied one by one, although the
  sets are collected and written after the other commands.\<close>

theorem entry_serial:
  assumes "dr_kv dr = memoryKVEngine" "kv_wf k" "kv_requests reqs" "set_keys reqs \<inter> incr_keys reqs = {}"
  shows "\<exists>rsps k1 k2. entry_data (redis_applyEnv dr env) d reqs k = Inr (rsps, k1) \<and>
    serial_data (redis_applyEnv dr env) d reqs k = Inr (rsps, k2) \<and> kv_map k1 = kv_map k2"
proof -
  obtain rsps k' rb where s: "kv_steps reqs k [] = (rsps, k', rb)" by (cases "kv_steps reqs k []") auto
  have "overlays k [] k" using assms(2) by (simp add: overlays_def)
  then obtain k2 where k2: "serial_data (redis_applyEnv dr env) d reqs k = Inr (rsps, k2)" "overlays k' rb k2"
    using serial_overlays [OF assms(1,3) _ _ s, of k env d] assms(4) by auto
  moreover have "overlays k' rb (snd (memory_MSet rb k'))"
    using k2(2) memory_MSet_map by (simp add: overlays_def)
  ultimately show ?thesis
    using entry_data_kv [OF assms(3,1) s, of env d] by (auto simp: overlays_def)
qed

definition kv_request :: "CMDType \<Rightarrow> bytes list \<Rightarrow> Request" where
  "kv_request t args = \<lparr>rq_UUID = [], rq_Type = t, rq_Cmd = [] # args, rq_Epoch = 0, rq_SessionID = 0\<rparr>"

theorem entry_serial_witness:
  "\<exists>rsps k1 k2.
     entry_data (redis_applyEnv (NewMemoryDriver (\<lambda>_ _. []) Inl) \<lparr>ev_redisWriteHandles = Map.empty, ev_MSet = (\<lambda>_ _. None),
        ev_matchIndex = (\<lambda>_. []), ev_handleIdxKeyReq = (\<lambda>_. True), ev_hasReplicate = (\<lambda>_. True)\<rparr>)
       \<lparr>da_peerID = 1, da_cell = \<lparr>c_ID = 1, c_Start = [], c_End = [], c_Epoch = \<lparr>e_ConfVer = 1, e_CellVer = 1\<rparr>, c_Peers = []\<rparr>,
        da_pendingRemove = False, da_applyState = \<lparr>as_AppliedIndex = 0, as_TruncatedState = \<lparr>tr_Index = 0, tr_Term = 0\<rparr>\<rparr>,
        da_appliedIndexTerm = 0, da_term = 0, da_pendingCMDs = [], da_pendingChangePeerCMD = None\<rparr>
       [kv_request CMD_Set [[1], [53]], kv_request CMD_Incr [[2]]] NewKVTree = Inr (rsps, k1) \<and>
     serial_data (redis_applyEnv (NewMemoryDriver (\<lambda>_ _. []) Inl) \<lparr>ev_redisWriteHandles = Map.empty, ev_MSet = (\<lambda>_ _. None),
        ev_matchIndex = (\<lambda>_. []), ev_handleIdxKeyReq = (\<lambda>_. True), ev_hasReplicate = (\<lambda>_. True)\<rparr>)
       \<lparr>da_peerID = 1, da_cell = \<lparr>c_ID = 1, c_Start = [], c_End = [], c_Epoch = \<lparr>e_ConfVer = 1, e_CellVer = 1\<rparr>, c_Peers = []\<rparr>,
        da_pendingRemove = False, da_applyState = \<lparr>as_AppliedIndex = 0, as_TruncatedState = \<lparr>tr_Index = 0, tr_Term = 0\<rparr>\<rparr>,
        da_appliedIndexTerm = 0, da_term = 0, da_pendingCMDs = [], da_pendingChangePeerCMD = None\<rparr>
       [kv_request CMD_Set [[1], [53]], kv_request CMD_Incr [[2]]] NewKVTree = Inr (rsps, k2) \<and>
     kv_map k1 = kv_map k2"
  by (rule entry_serial)
    (auto simp: NewMemoryDriver_def NewKVTree_def kv_requests_def kv_types_def kv_request_def set_keys_def incr_keys_def)

text \<open>The value a counter command sees.\<close>

definition counter :: "bytes KVTree \<Rightarrow> bytes \<Rightarrow> int" where
  "counter kv key = (case KV_Get kv key of None \<Rightarrow> 0 | Some v \<Rightarrow> if length v \<noteq> 0 then fst (StrInt64 v) else 0)"

lemma counter_int64 [simp]: "is_int64 (counter kv key)"
  by (auto simp: counter_def StrInt64_def split: option.splits) (simp add: is_int64_def)+

lemma memory_IncrBy_counter:
  "memory_IncrBy key n kv =
     (Inr (wrap64 (counter kv key + n)), KV_Put kv key (FormatInt64ToBytes (wrap64 (counter kv key + n))))"
  by (simp add: memory_IncrBy_def counter_def Let_def)

lemma FormatInt_nonempty [simp]: "FormatInt64ToBytes v \<noteq> []"
  by (simp add: FormatInt64ToBytes_def)

lemma counter_Put:
  assumes "kv_wf kv" "is_int64 v"
  shows "counter (KV_Put kv key (FormatInt64ToBytes v)) key' = (if key' = key then v else counter kv key')"
  using assms by (simp add: counter_def kvt.get_put StrInt64_def ParseInt_Format)

text \<open>C36: within one raft entry an increment that follows a set of the same key is lost: it is
  computed from the value before the entry, and the set overwrites it when the batch is written.
  Applied one by one the two commands leave the incremented value.\<close>

theorem set_incr_same_entry:
  assumes "dr_kv dr = memoryKVEngine" "kv_wf k" "is_int64 v"
  shows "\<exists>k1 k2.
    entry_data (redis_applyEnv dr env) d [kv_request CMD_Set [x, FormatInt64ToBytes v], kv_request CMD_Incr [x]] k =
      Inr ([statusRsp OKStatusResp, intRsp (wrap64 (counter k x + 1))], k1) \<and> counter k1 x = v \<and>
    serial_data (redis_applyEnv dr env) d [kv_request CMD_Set [x, FormatInt64ToBytes v], kv_request CMD_Incr [x]] k =
      Inr ([statusRsp OKStatusResp, intRsp (wrap64 (v + 1))], k2) \<and> counter k2 x = wrap64 (v + 1)"
proof -
  let ?s = "kv_request CMD_Set [x, FormatInt64ToBytes v]" and ?i = "kv_request CMD_Incr [x]"
  have ok: "kv_requests [?s, ?i]" "kv_requests [?s]" "kv_requests [?i]"
    by (auto simp: kv_requests_def kv_request_def kv_types_def)
  have set1: "kv_step ?s kv rb = (statusRsp OKStatusResp, kv, rb @ [(x, FormatInt64ToBytes v)])" for kv rb
    by (simp add: kv_step_def kv_request_def)
  have inc: "kv_step ?i kv rb = (intRsp (wrap64 (counter kv x + 1)),
      KV_Put kv x (FormatInt64ToBytes (wrap64 (counter kv x + 1))), rb)" for kv rb
    by (simp add: kv_step_def kv_request_def memory_IncrBy_counter)
  define kw where "kw = KV_Put k x (FormatInt64ToBytes (wrap64 (counter k x + 1)))"
  define ks where "ks = KV_Put k x (FormatInt64ToBytes v)"
  have wf: "kv_wf kw" "kv_wf ks" using assms(2) by (auto simp: kw_def ks_def wf_intros)
  have "entry_data (redis_applyEnv dr env) d [?s, ?i] k =
      Inr ([statusRsp OKStatusResp, intRsp (wrap64 (counter k x + 1))], KV_Put kw x (FormatInt64ToBytes v))"
    using entry_data_kv [OF ok(1) assms(1), of k _ kw "[(x, FormatInt64ToBytes v)]" env d]
    by (simp add: set1 inc kw_def memory_MSet_def)
  moreover have one: "entry_data (redis_applyEnv dr env) d [?s] k = Inr ([statusRsp OKStatusResp], ks)"
    using entry_data_kv [OF ok(2) assms(1), of k _ k "[(x, FormatInt64ToBytes v)]" env d]
    by (simp add: set1 memory_MSet_def ks_def)
  have cs: "counter ks x = v" by (simp add: ks_def counter_Put assms)
  have "entry_data (redis_applyEnv dr env) d [?i] ks =
      Inr ([intRsp (wrap64 (v + 1))], KV_Put ks x (FormatInt64ToBytes (wrap64 (v + 1))))"
    using entry_data_kv [OF ok(3) assms(1), of ks _ _ "[]" env d]
    by (simp add: inc memory_MSet_def cs)
  then have "serial_data (redis_applyEnv dr env) d [?s, ?i] k =
      Inr ([statusRsp OKStatusResp, intRsp (wrap64 (v + 1))], KV_Put ks x (FormatInt64ToBytes (wrap64 (v + 1))))"
    by (simp add: one)
  ultimately show ?thesis
    by (auto simp: counter_Put wf assms)
qed

theorem set_incr_same_entry_witness:
  "\<forall>env d. \<exists>k1 k2.
    entry_data (redis_applyEnv (NewMemoryDriver (\<lambda>_ _. []) Inl) env) d
        [kv_request CMD_Set [[7], FormatInt64ToBytes 5], kv_request CMD_Incr [[7]]] NewKVTree =
      Inr ([statusRsp OKStatusResp, intRsp (wrap64 (counter NewKVTree [7] + 1))], k1) \<and> counter k1 [7] = 5 \<and>
    serial_data (redis_applyEnv (NewMemoryDriver (\<lambda>_ _. []) Inl) env) d
        [kv_request CMD_Set [[7], FormatInt64ToBytes 5], kv_request CMD_Incr [[7]]] NewKVTree =
      Inr ([statusRsp OKStatusResp, intRsp (wrap64 (5 + 1))], k2) \<and> counter k2 [7] = wrap64 (5 + 1)"
  by (intro allI set_incr_same_entry) (auto simp: NewMemoryDriver_def NewKVTree_def is_int64_def)

subsection \<open>Counters\<close>

text \<open>The increment requests of one key, with their amounts.\<close>

definition incr_request :: "bytes \<Rightarrow> int \<Rightarrow> Request" where
  "incr_request x n = kv_request CMD_Incrby [x, FormatInt64ToBytes n]"

lemma wrap64_add: "wrap64 (wrap64 a + b) = wrap64 (a + b)"
  by (simp add: wrap64_def mod_simps algebra_simps)

lemma kv_step_incr:
  "is_int64 n \<Longrightarrow> kv_step (incr_request x n) k rb = (intRsp (wrap64 (counter k x + n)),
     KV_Put k x (FormatInt64ToBytes (wrap64 (counter k x + n))), rb)"
  by (simp add: kv_step_def incr_request_def kv_request_def StrInt64_def ParseInt_Format memory_IncrBy_counter)

lemma kv_steps_incr:
  assumes "kv_wf k" "list_all is_int64 ns"
  shows "\<exists>k'. kv_steps (map (incr_request x) ns) k [] =
      (map (\<lambda>i. intRsp (wrap64 (counter k x + sum_list (take (Suc i) ns)))) [0..<length ns], k', []) \<and>
    kv_wf k' \<and> counter k' x = wrap64 (counter k x + sum_list ns) \<and>
    (\<forall>y. y \<noteq> x \<longrightarrow> KV_Get k' y = KV_Get k y)"
  using assms
proof (induction ns arbitrary: k)
  case Nil
  then show ?case by (simp add: wrap64_id)
next
  case (Cons n ns)
  define c where "c = wrap64 (counter k x + n)"
  define k1 where "k1 = KV_Put k x (FormatInt64ToBytes c)"
  have k1: "kv_wf k1" "counter k1 x = c" "is_int64 c"
    using Cons.prems(1) by (auto simp: k1_def c_def wf_intros counter_Put)
  have other: "KV_Get k1 y = KV_Get k y" if "y \<noteq> x" for y
    using that Cons.prems(1) by (simp add: k1_def kvt.get_put)
  have idx: "[0..<length (n # ns)] = 0 # map Suc [0..<length ns]"
    by (simp add: upt_conv_Cons map_Suc_upt del: upt_Suc)
  have wrap: "wrap64 (c + s) = wrap64 (counter k x + (n + s))" for s
    unfolding c_def by (simp add: wrap64_add add.assoc)
  show ?case
    using Cons.IH [of k1] Cons.prems k1 other
    unfolding idx by (auto simp: kv_step_incr c_def [symmetric] k1_def [symmetric] wrap comp_def)
qed

text \<open>C30: a run of increments of one key, in one raft entry on the in-memory engine, answers the
  running totals in the arithmetic of 64 bits, stores the last of them in a form that parses
  back to it, and touches no other key.\<close>

theorem increments_add_up:
  assumes "dr_kv dr = memoryKVEngine" "kv_wf k" "list_all is_int64 ns"
  shows "\<exists>k'. entry_data (redis_applyEnv dr env) d (map (incr_request x) ns) k =
      Inr (map (\<lambda>i. intRsp (wrap64 (counter k x + sum_list (take (Suc i) ns)))) [0..<length ns], k') \<and>
    counter k' x = wrap64 (counter k x + sum_list ns) \<and> (\<forall>y. y \<noteq> x \<longrightarrow> KV_Get k' y = KV_Get k y)"
proof -
  have "kv_requests (map (incr_request x) ns)"
    by (auto simp: kv_requests_def incr_request_def kv_request_def kv_types_def)
  then show ?thesis
    using kv_steps_incr [OF assms(2,3), of x] entry_data_kv [OF _ assms(1), of "map (incr_request x) ns" k _ _ "[]" env d]
    by (fastforce simp: memory_MSet_def)
qed

theorem increments_add_up_witness:
  "\<forall>env d. \<exists>k'. entry_data (redis_applyEnv (NewMemoryDriver (\<lambda>_ _. []) Inl) env) d (map (incr_request [7]) [40, - 2, 4]) NewKVTree =
      Inr (map (\<lambda>i. intRsp (wrap64 (counter NewKVTree [7] + sum_list (take (Suc i) [40, - 2, 4])))) [0..<length [40, - 2, 4 :: int]], k') \<and>
    counter k' [7] = wrap64 (counter NewKVTree [7] + sum_list [40, - 2, 4]) \<and> KV_Get k' [8] = KV_Get NewKVTree [8]"
proof (intro allI)
  fix env :: "bytes KVTree applyEnv" and d
  have "\<exists>k'. entry_data (redis_applyEnv (NewMemoryDriver (\<lambda>_ _. []) Inl) env) d (map (incr_request [7]) [40, - 2, 4]) NewKVTree =
      Inr (map (\<lambda>i. intRsp (wrap64 (counter NewKVTree [7] + sum_list (take (Suc i) [40, - 2, 4])))) [0..<length [40, - 2, 4 :: int]], k') \<and>
    counter k' [7] = wrap64 (counter NewKVTree [7] + sum_list [40, - 2, 4]) \<and> (\<forall>y. y \<noteq> [7] \<longrightarrow> KV_Get k' y = KV_Get NewKVTree y)"
    by (rule increments_add_up) (auto simp: NewMemoryDriver_def NewKVTree_def is_int64_def)
  then show "\<exists>k'. entry_data (redis_applyEnv (NewMemoryDriver (\<lambda>_ _. []) Inl) env) d (map (incr_request [7]) [40, - 2, 4]) NewKVTree =
      Inr (map (\<lambda>i. intRsp (wrap64 (counter NewKVTree [7] + sum_list (take (Suc i) [40, - 2, 4])))) [0..<length [40, - 2, 4 :: int]], k') \<and>
    counter k' [7] = wrap64 (counter NewKVTree [7] + sum_list [40, - 2, 4]) \<and> KV_Get k' [8] = KV_Get NewKVTree [8]"
    by fastforce
qed

subsection \<open>Locks\<close>

text \<open>What the lock commands rely on of a hash engine, with \<open>\<alpha>\<close> its contents: a read without
  errors returns the fields, an absent field as an empty value; a write or a delete either
  fails, with the data unchanged, or changes exactly the named fields; and no error reads \<^verbatim>\<open>OK\<close>.\<close>

definition hash_laws :: "'k HashEngine \<Rightarrow> ('k \<Rightarrow> bytes \<Rightarrow> bytes \<Rightarrow> bytes) \<Rightarrow> bool" where
  "hash_laws e \<alpha> \<longleftrightarrow>
     (\<forall>r fs k vals. he_HMGet e r fs k = (vals, []) \<longrightarrow> vals = map (\<alpha> k r) fs) \<and>
     (\<forall>r fs vs k err k'. he_HMSet e r fs vs k = (Inl err, k') \<longrightarrow> \<alpha> k' = \<alpha> k \<and> err \<noteq> OKStatusResp) \<and>
     (\<forall>r fs v k k'. he_HMSet e r fs (replicate (length fs) v) k = (Inr (), k') \<longrightarrow>
        \<alpha> k' = (\<lambda>r' f. if r' = r \<and> f \<in> set fs then v else \<alpha> k r' f)) \<and>
     (\<forall>r fs k err k'. he_HDel e r fs k = (Inl err, k') \<longrightarrow> \<alpha> k' = \<alpha> k) \<and>
     (\<forall>r fs k n k'. he_HDel e r fs k = (Inr n, k') \<longrightarrow>
        \<alpha> k' = (\<lambda>r' f. if r' = r \<and> f \<in> set fs then [] else \<alpha> k r' f))"

definition lock_request :: "bytes \<Rightarrow> bytes \<Rightarrow> bytes list \<Rightarrow> Request \<Rightarrow> bool" where
  "lock_request r t fs req \<longleftrightarrow> rq_Type req = CMD_Lock \<and> tl (rq_Cmd req) = r # t # fs \<and> fs \<noteq> []"

definition unlock_request :: "bytes \<Rightarrow> bytes list \<Rightarrow> Request \<Rightarrow> bool" where
  "unlock_request r fs req \<longleftrightarrow> rq_Type req = CMD_Unlock \<and> tl (rq_Cmd req) = r # fs \<and> fs \<noteq> []"

definition lock_ok :: "Response \<Rightarrow> bool" where
  "lock_ok rsp \<longleftrightarrow> rs_StatusResult rsp = Some OKStatusResp"

text \<open>A run of lock and unlock commands through the table of write handlers.\<close>

inductive lock_run :: "'k redisDriver \<Rightarrow> 'k handlerCtx \<Rightarrow> (Request \<times> Response) list \<Rightarrow> 'k handlerCtx \<Rightarrow> bool"
  for dr :: "'k redisDriver" where
  start: "lock_run dr hx [] hx"
| command: "lock_run dr hx (evs @ [(req, rsp)]) hx''"
    if "lock_run dr hx evs hx'" "rq_Type req \<in> {CMD_Lock, CMD_Unlock}"
      "redisWriteHandles dr (rq_Type req) = Some h" "h req hx' = Inr (rsp, hx'')"

lemma locked_by_other_None:
  "locked_by_other i vals t = None \<longleftrightarrow> (\<forall>v \<in> set vals. v = [] \<or> v = t)"
  by (induction i vals t rule: locked_by_other.induct) (auto simp: go_simps)

lemma lock_table:
  "redisWriteHandles dr CMD_Lock = Some (execLock dr)" "redisWriteHandles dr CMD_Unlock = Some (execUnlock dr)"
  by (simp_all add: redisWriteHandles_def)

lemma lockedRsp_not_OK: "lockedRsp keys iv = Inr r \<Longrightarrow> \<not> lock_ok r"
  by (auto simp: lockedRsp_def lock_ok_def statusRsp_def OKStatusResp_def lit_def AcquireResponse_def
      split: prod.splits if_splits dest!: arg_cong [where f = length])

lemma errRsp_not_OK [simp]: "\<not> lock_ok (errRsp err)"
  by (simp add: lock_ok_def errRsp_def AcquireResponse_def)

lemma statusRsp_OK [simp]: "lock_ok (statusRsp b) \<longleftrightarrow> b = OKStatusResp"
  by (simp add: lock_ok_def statusRsp_def)

lemma three_args: "3 \<le> length args \<longleftrightarrow> (\<exists>r t f fs. args = r # t # f # fs)"
  by (cases args; cases "tl args"; cases "tl (tl args)") auto

lemma two_args: "2 \<le> length args \<longleftrightarrow> (\<exists>r f fs. args = r # f # fs)"
  by (cases args; cases "tl args") auto

lemma execLock_effect:
  assumes "dr_hash dr = Some e" "hash_laws e \<alpha>" "execLock dr req hx = Inr (rsp, hx')"
  shows "\<not> lock_ok rsp \<and> \<alpha> (hx_data hx') = \<alpha> (hx_data hx) \<or>
    (\<exists>r t fs. tl (rq_Cmd req) = r # t # fs \<and> fs \<noteq> [] \<and> lock_ok rsp \<and>
      (\<forall>f \<in> set fs. \<alpha> (hx_data hx) r f = [] \<or> \<alpha> (hx_data hx) r f = t) \<and>
      \<alpha> (hx_data hx') = (\<lambda>r' f. if r' = r \<and> f \<in> set fs then t else \<alpha> (hx_data hx) r' f))"
proof -
  obtain c args where cmd: "rq_Cmd req = c # args"
    using assms(3) by (cases "rq_Cmd req") (auto simp: execLock_def with_args_def cmd_Args_def)
  show ?thesis
  proof (cases "3 \<le> length args")
    case False
    then show ?thesis using assms(3) by (auto simp: execLock_def cmd invalidRsp_def)
  next
    case True
    then obtain r t f gs where args: "args = r # t # f # gs" by (auto simp: three_args)
    define fs where "fs = f # gs"
    obtain vals errs where get: "he_HMGet e r fs (hx_data hx) = (vals, errs)"
      by (cases "he_HMGet e r fs (hx_data hx)") auto
    obtain res k where put: "he_HMSet e r fs (replicate (length fs) t) (hx_data hx) = (res, k)"
      by (cases "he_HMSet e r fs (replicate (length fs) t) (hx_data hx)") auto
    have ex: "execLock dr req hx = (if errs \<noteq> [] then Inr (errRsp (hd errs), hx)
        else case locked_by_other 0 vals t of
          Some iv \<Rightarrow> sbind (lockedRsp fs iv) (\<lambda>r. Inr (r, hx))
        | None \<Rightarrow> (case res of Inl err \<Rightarrow> Inr (statusRsp err, hx\<lparr>hx_data := k\<rparr>)
            | Inr _ \<Rightarrow> Inr (statusRsp OKStatusResp, hx\<lparr>hx_data := k\<rparr>)))"
      using get put by (cases "locked_by_other 0 vals t"; cases res)
        (simp_all add: execLock_def cmd args engine_def assms(1) Let_def fs_def)
    have fs: "tl (rq_Cmd req) = r # t # fs" "fs \<noteq> []" by (simp_all add: cmd args fs_def)
    consider "errs \<noteq> []" | iv where "errs = []" "locked_by_other 0 vals t = Some iv"
      | err where "errs = []" "locked_by_other 0 vals t = None" "res = Inl err"
      | "errs = []" "locked_by_other 0 vals t = None" "res = Inr ()"
      by (cases "locked_by_other 0 vals t"; cases res) auto
    then show ?thesis
    proof cases
      case 1
      then show ?thesis using ex assms(3) by auto
    next
      case (2 iv)
      then show ?thesis using ex assms(3) lockedRsp_not_OK [of fs iv] by (cases "lockedRsp fs iv") auto
    next
      case (3 err)
      then show ?thesis using ex assms(2,3) put by (auto simp: hash_laws_def)
    next
      case 4
      have "vals = map (\<alpha> (hx_data hx) r) fs" using assms(2) get 4(1) by (auto simp: hash_laws_def)
      moreover have "\<alpha> k = (\<lambda>r' f. if r' = r \<and> f \<in> set fs then t else \<alpha> (hx_data hx) r' f)"
        using assms(2) put 4(3) unfolding hash_laws_def by blast
      moreover have "rsp = statusRsp OKStatusResp \<and> hx_data hx' = k" using ex assms(3) 4 by simp
      ultimately show ?thesis using 4(2) fs by (auto simp: locked_by_other_None)
    qed
  qed
qed

lemma execUnlock_effect:
  assumes "dr_hash dr = Some e" "hash_laws e \<alpha>" "execUnlock dr req hx = Inr (rsp, hx')"
  shows "\<alpha> (hx_data hx') = \<alpha> (hx_data hx) \<or>
    (\<exists>r fs. tl (rq_Cmd req) = r # fs \<and> fs \<noteq> [] \<and>
      \<alpha> (hx_data hx') = (\<lambda>r' f. if r' = r \<and> f \<in> set fs then [] else \<alpha> (hx_data hx) r' f))"
proof -
  obtain c args where cmd: "rq_Cmd req = c # args"
    using assms(3) by (cases "rq_Cmd req") (auto simp: execUnlock_def with_args_def cmd_Args_def)
  show ?thesis
  proof (cases "2 \<le> length args")
    case False
    then show ?thesis using assms(3) by (auto simp: execUnlock_def cmd)
  next
    case True
    then obtain r f gs where args: "args = r # f # gs" by (auto simp: two_args)
    obtain res k where del: "he_HDel e r (f # gs) (hx_data hx) = (res, k)"
      by (cases "he_HDel e r (f # gs) (hx_data hx)") auto
    have "hx_data hx' = k"
      using assms(3) del by (cases res) (auto simp: execUnlock_def cmd args engine_def assms(1) on_data_def)
    then show ?thesis
      using assms(2) del by (cases res) (auto simp: hash_laws_def cmd args)
  qed
qed

inductive_cases lock_run_snoc: "lock_run dr hx (evs @ [ev]) hx'"

lemma lock_held:
  assumes "dr_hash dr = Some e" "hash_laws e \<alpha>" "t \<noteq> []"
    and "lock_run dr hx (pre @ (req1, rsp1) # mid) hx'" "lock_request r t fs req1" "lock_ok rsp1" "f \<in> set fs"
    and "\<And>req rsp gs. (req, rsp) \<in> set mid \<Longrightarrow> unlock_request r gs req \<Longrightarrow> f \<notin> set gs"
  shows "\<alpha> (hx_data hx') r f = t"
  using assms(4,8)
proof (induction mid arbitrary: hx' rule: rev_induct)
  case Nil
  obtain hx1 where "execLock dr req1 hx1 = Inr (rsp1, hx')"
    using Nil(1) assms(5) by (auto elim!: lock_run_snoc simp: lock_request_def lock_table)
  then show ?case
    using execLock_effect [OF assms(1,2), of req1 hx1 rsp1 hx'] assms(5-7) by (auto simp: lock_request_def)
next
  case (snoc ev mid)
  obtain req rsp where ev: "ev = (req, rsp)" by (cases ev)
  have "lock_run dr hx ((pre @ (req1, rsp1) # mid) @ [(req, rsp)]) hx'" using snoc.prems(1) by (simp add: ev)
  then obtain hx1 h where run: "lock_run dr hx (pre @ (req1, rsp1) # mid) hx1"
    and step: "rq_Type req \<in> {CMD_Lock, CMD_Unlock}" "redisWriteHandles dr (rq_Type req) = Some h" "h req hx1 = Inr (rsp, hx')"
    by (elim lock_run_snoc) auto
  have held: "\<alpha> (hx_data hx1) r f = t" using snoc.IH [OF run] snoc.prems(2) by auto
  show ?case
  proof (cases "rq_Type req = CMD_Lock")
    case True
    then show ?thesis
      using execLock_effect [OF assms(1,2), of req hx1 rsp hx'] step held assms(3) by (auto simp: lock_table)
  next
    case False
    then have "rq_Type req = CMD_Unlock" using step(1) by simp
    moreover have "f \<notin> set gs" if "rq_Type req = CMD_Unlock" "tl (rq_Cmd req) = r # gs" "gs \<noteq> []" for gs
      using snoc.prems(2) [of req rsp gs] that by (auto simp: ev unlock_request_def)
    ultimately show ?thesis
      using execUnlock_effect [OF assms(1,2), of req hx1 rsp hx'] step held by (auto simp: lock_table)
  qed
qed

text \<open>C17: a lock excludes.  Once a lock command for a target has been answered \<^verbatim>\<open>OK\<close>, every later
  lock command on one of its fields that is answered \<^verbatim>\<open>OK\<close> names the same target, as long as no
  unlock of that field comes between, whatever other lock and unlock commands do.\<close>

theorem lock_exclusive:
  assumes "dr_hash dr = Some e" "hash_laws e \<alpha>"
    and "lock_run dr hx (pre @ (req1, rsp1) # mid @ [(req2, rsp2)]) hx'"
    and "lock_request r t fs req1" "lock_ok rsp1" "f \<in> set fs" "t \<noteq> []"
    and "\<And>req rsp gs. (req, rsp) \<in> set mid \<Longrightarrow> unlock_request r gs req \<Longrightarrow> f \<notin> set gs"
    and "lock_request r t' fs' req2" "lock_ok rsp2" "f \<in> set fs'"
  shows "t' = t"
proof -
  have "lock_run dr hx ((pre @ (req1, rsp1) # mid) @ [(req2, rsp2)]) hx'" using assms(3) by simp
  then obtain hx1 h where run: "lock_run dr hx (pre @ (req1, rsp1) # mid) hx1"
    and step: "redisWriteHandles dr (rq_Type req2) = Some h" "h req2 hx1 = Inr (rsp2, hx')"
    by (elim lock_run_snoc) auto
  have "\<alpha> (hx_data hx1) r f = t"
    by (rule lock_held [OF assms(1,2,7) run assms(4-6) assms(8)])
  then show ?thesis
    using execLock_effect [OF assms(1,2), of req2 hx1 rsp2 hx'] step assms(7,9-11)
    by (auto simp: lock_table lock_request_def)
qed

definition sample_hash :: "(bytes \<Rightarrow> bytes \<Rightarrow> bytes) HashEngine" where
  "sample_hash =
     \<lparr>he_HSet = (\<lambda>r f v k. (Inr 1, k(r := (k r)(f := v)))), he_HGet = (\<lambda>r f k. Inr (Some (k r f))),
      he_HDel = (\<lambda>r fs k. (Inr 1, \<lambda>r' f. if r' = r \<and> f \<in> set fs then [] else k r' f)),
      he_HExists = (\<lambda>r f k. Inr (k r f \<noteq> [])), he_HKeys = (\<lambda>_ _. Inr []), he_HVals = (\<lambda>_ _. Inr []),
      he_HGetAll = (\<lambda>_ _. Inr []), he_HScanGet = (\<lambda>_ _ _ _. Inr []), he_HLen = (\<lambda>_ _. Inr 0),
      he_HMGet = (\<lambda>r fs k. (map (k r) fs, [])),
      he_HMSet = (\<lambda>r fs vs k. (Inr (), \<lambda>r' f. if r' = r then (case map_of (rev (zip fs vs)) f of None \<Rightarrow> k r' f | Some v \<Rightarrow> v) else k r' f)),
      he_HSetNX = (\<lambda>_ _ _ k. (Inr 0, k)), he_HStrLen = (\<lambda>_ _ _. Inr 0), he_HIncrBy = (\<lambda>_ _ _ k. (Inr [], k))\<rparr>"

lemma map_of_replicate: "map_of (rev (zip fs (replicate (length fs) v))) f = (if f \<in> set fs then Some v else None)"
proof (induction fs)
  case (Cons g fs)
  then show ?case by (auto simp: map_add_def split: option.splits)
qed simp

lemma sample_HMSet:
  "he_HMSet sample_hash r fs (replicate (length fs) v) k =
     (Inr (), \<lambda>r' f. if r' = r \<and> f \<in> set fs then v else k r' f)"
  by (auto simp: sample_hash_def map_of_replicate fun_eq_iff)

lemma sample_hash_laws: "hash_laws sample_hash (\<lambda>k. k)"
proof -
  have "(\<forall>r fs k vals. he_HMGet sample_hash r fs k = (vals, []) \<longrightarrow> vals = map (k r) fs)"
    "(\<forall>r fs vs k err k'. he_HMSet sample_hash r fs vs k = (Inl err, k') \<longrightarrow> k' = k \<and> err \<noteq> OKStatusResp)"
    "(\<forall>r fs k err k'. he_HDel sample_hash r fs k = (Inl err, k') \<longrightarrow> k' = k)"
    "(\<forall>r fs k n k'. he_HDel sample_hash r fs k = (Inr n, k') \<longrightarrow>
        k' = (\<lambda>r' f. if r' = r \<and> f \<in> set fs then [] else k r' f))"
    by (auto simp: sample_hash_def)
  then show ?thesis
    by (simp add: hash_laws_def sample_HMSet)
qed

definition sample_driver :: "(bytes \<Rightarrow> bytes \<Rightarrow> bytes) redisDriver" where
  "sample_driver =
     \<lparr>dr_kv = \<lparr>ke_Set = (\<lambda>_ _ k. (Inr (), k)), ke_MSet = (\<lambda>_ k. (Inr (), k)), ke_Get = (\<lambda>_ _. Inr None),
        ke_IncrBy = (\<lambda>_ _ k. (Inr 0, k)), ke_DecrBy = (\<lambda>_ _ k. (Inr 0, k)), ke_GetSet = (\<lambda>_ _ k. (Inr None, k)),
        ke_Append = (\<lambda>_ _ k. (Inr 0, k)), ke_SetNX = (\<lambda>_ _ k. (Inr 0, k)), ke_StrLen = (\<lambda>_ _. Inr 0),
        ke_RangeDelete = (\<lambda>_ _ k. (Inr (), k))\<rparr>,
      dr_hash = Some sample_hash, dr_list = None, dr_set = None, dr_zset = None,
      dr_numError = (\<lambda>_ _. []), dr_ParseFloat = Inl\<rparr>"

definition sample_ctx :: "(bytes \<Rightarrow> bytes \<Rightarrow> bytes) \<Rightarrow> (bytes \<Rightarrow> bytes \<Rightarrow> bytes) handlerCtx" where
  "sample_ctx k = \<lparr>hx_data = k, hx_rb = [], hx_metrics = emptyApplyMetrics\<rparr>"

lemma sample_lock:
  assumes "\<And>f. f \<in> set (g # fs) \<Longrightarrow> k r f = [] \<or> k r f = t"
  shows "execLock sample_driver (kv_request CMD_Lock (r # t # g # fs)) (sample_ctx k) =
    Inr (statusRsp OKStatusResp, sample_ctx (\<lambda>r' f. if r' = r \<and> f \<in> set (g # fs) then t else k r' f))"
proof -
  have "locked_by_other 0 (map (k r) (g # fs)) t = None"
    using assms by (subst locked_by_other_None) auto
  moreover have "he_HMGet sample_hash r (g # fs) k = (map (k r) (g # fs), [])"
    by (simp add: sample_hash_def)
  ultimately show ?thesis
    using sample_HMSet [of r "g # fs" t k]
    by (simp add: execLock_def kv_request_def engine_def sample_driver_def sample_ctx_def Let_def)
qed

theorem lock_exclusive_witness:
  "\<exists>hx'. lock_run sample_driver (sample_ctx (\<lambda>_ _. []))
     ([] @ (kv_request CMD_Lock [[1], [9], [2], [3]], statusRsp OKStatusResp) # [] @
      [(kv_request CMD_Lock [[1], [9], [3]], statusRsp OKStatusResp)]) hx' \<and> [9] = ([9] :: bytes)"
proof -
  let ?req1 = "kv_request CMD_Lock [[1], [9], [2], [3]]" and ?req2 = "kv_request CMD_Lock [[1], [9], [3]]"
  define k1 :: "bytes \<Rightarrow> bytes \<Rightarrow> bytes" where "k1 = (\<lambda>r f. if r = [1] \<and> f \<in> set [[2], [3]] then [9] else [])"
  define k2 where "k2 = (\<lambda>r f. if r = [1] \<and> f \<in> set [[3]] then [9] else k1 r f)"
  have lock1: "execLock sample_driver ?req1 (sample_ctx (\<lambda>_ _. [])) = Inr (statusRsp OKStatusResp, sample_ctx k1)"
    using sample_lock [of "[2]" "[[3]]" "\<lambda>_ _. []" "[1]" "[9]"] by (simp add: k1_def)
  have lock2: "execLock sample_driver ?req2 (sample_ctx k1) = Inr (statusRsp OKStatusResp, sample_ctx k2)"
    using sample_lock [of "[3]" "[]" k1 "[1]" "[9]"] by (simp add: k1_def k2_def)
  have "lock_run sample_driver (sample_ctx (\<lambda>_ _. [])) ([] @ [(?req1, statusRsp OKStatusResp)]) (sample_ctx k1)"
    by (rule lock_run.command [where h = "execLock sample_driver" and hx' = "sample_ctx (\<lambda>_ _. [])"])
      (auto intro: lock_run.start simp: lock1, auto simp: kv_request_def lock_table)
  then have "lock_run sample_driver (sample_ctx (\<lambda>_ _. [])) ([(?req1, statusRsp OKStatusResp)] @ [(?req2, statusRsp OKStatusResp)]) (sample_ctx k2)"
    by (intro lock_run.command [where h = "execLock sample_driver" and hx' = "sample_ctx k1"])
      (auto simp: lock2, auto simp: kv_request_def lock_table)
  then have run: "lock_run sample_driver (sample_ctx (\<lambda>_ _. []))
     ([] @ (?req1, statusRsp OKStatusResp) # [] @ [(?req2, statusRsp OKStatusResp)]) (sample_ctx k2)" by simp
  have "[9] = ([9] :: bytes)"
    by (rule lock_exclusive [OF _ sample_hash_laws run, where r = "[1]" and fs = "[[2], [3]]" and f = "[3]" and fs' = "[[3]]"])
      (auto simp: sample_driver_def lock_request_def kv_request_def)
  with run show ?thesis by blast
qed

subsection \<open>The tables\<close>

lemmas write_handlers =
    execKVSet_def execKVIncrBy_def execKVIncr_def execKVDecrby_def execKVDecr_def execKVGetSet_def
    execKVAppend_def execKVSetNX_def execHSet_def execHDel_def execHMSet_def execHSetNX_def
    execHIncrBy_def execLInsert_def execLPop_def execLPush_def execLPushX_def execLRem_def execLSet_def
    execLTrim_def execRPop_def execRPush_def execRPushX_def execSAdd_def execSRem_def execZAdd_def
    execZIncrBy_def execZRem_def execZRemRangeByLex_def execZRemRangeByRank_def execZRemRangeByScore_def
    execLock_def execUnlock_def

lemmas read_handlers =
    execKVGet_def execKVStrLen_def execHGet_def execHExists_def execHKeys_def execHVals_def
    execHGetAll_def execHScanGet_def execHLen_def execHMGet_def execHStrLen_def execLIndex_def
    execLLEN_def execLRange_def execSCard_def execSIsMember_def execSMembers_def execZCard_def
    execZCount_def execZLexCount_def execZRange_def execZRangeByLex_def execZRangeByScore_def
    execZRank_def execZScore_def execLockable_def

text \<open>No command type is both read and written, so a command has one path; and every handler
  of the two tables refuses a command that has no argument, with the data, the batch and the
  metrics as they were, whatever engines the driver has.\<close>

theorem tables_disjoint_and_guarded:
  "dom (redisWriteHandles dr) \<inter> dom (redisReadHandles dr) = {} \<and>
   (\<forall>t h req c hx. redisWriteHandles dr t = Some h \<and> rq_Cmd req = [c] \<longrightarrow> h req hx = Inr (invalidRsp, hx)) \<and>
   (\<forall>t h req c k. redisReadHandles dr t = Some h \<and> rq_Cmd req = [c] \<longrightarrow> h k req = Inr invalidRsp)"
proof (intro conjI allI impI)
  show "dom (redisWriteHandles dr) \<inter> dom (redisReadHandles dr) = {}"
    by (simp add: redisWriteHandles_def redisReadHandles_def dom_map_of_conv_image_fst)
next
  fix t h c and req :: Request and hx
  assume "redisWriteHandles dr t = Some h \<and> rq_Cmd req = [c]"
  then show "h req hx = Inr (invalidRsp, hx)"
    by (auto simp: redisWriteHandles_def write_handlers split: if_splits)
next
  fix t h c and req :: Request and k
  assume "redisReadHandles dr t = Some h \<and> rq_Cmd req = [c]"
  then show "h k req = Inr invalidRsp"
    by (auto simp: redisReadHandles_def read_handlers split: if_splits)
qed

theorem tables_disjoint_and_guarded_witness:
  "execKVIncr (NewMemoryDriver (\<lambda>_ _. []) Inl) (kv_request CMD_Incr [])
     \<lparr>hx_data = NewKVTree, hx_rb = [], hx_metrics = emptyApplyMetrics\<rparr> =
   Inr (invalidRsp, \<lparr>hx_data = NewKVTree, hx_rb = [], hx_metrics = emptyApplyMetrics\<rparr>)"
  by (rule tables_disjoint_and_guarded [THEN conjunct2, THEN conjunct1, rule_format, OF conjI, OF kv_table(3)])
    (simp add: kv_request_def)

end
