(* ===== verification/Util_Heap.thy ===== *)
theory Util_Heap
  imports Prelude "HOL-Library.Multiset"
begin

text \<open>
  \<^verbatim>\<open>pkg/util/priority_queue.go\<close> and \<^verbatim>\<open>ordered_array.go\<close>: a priority queue and an array that keeps the
  smallest items it was given, both on the binary heap of \<^verbatim>\<open>container/heap\<close>, whose loops are written
  out here.  The items' \<^verbatim>\<open>Compare\<close> is a parameter, as is \<^verbatim>\<open>sort.Sort\<close>, which may order equal items
  either way.
\<close>

subsection \<open>The heap of the standard library\<close>

definition swap :: "nat \<Rightarrow> nat \<Rightarrow> 'a list \<Rightarrow> 'a list" where
  "swap i j xs = xs[i := xs ! j, j := xs ! i]"

function heap_up :: "('a \<Rightarrow> 'a \<Rightarrow> bool) \<Rightarrow> nat \<Rightarrow> 'a list \<Rightarrow> 'a list" where
  "heap_up lt j xs =
     (if (j - 1) div 2 = j \<or> \<not> lt (xs ! j) (xs ! ((j - 1) div 2)) then xs
      else heap_up lt ((j - 1) div 2) (swap ((j - 1) div 2) j xs))"
  by pat_completeness auto
termination
  by (relation "measure (\<lambda>(_, j, _). j)") auto

declare heap_up.simps [simp del]

definition min_child :: "('a \<Rightarrow> 'a \<Rightarrow> bool) \<Rightarrow> nat \<Rightarrow> nat \<Rightarrow> 'a list \<Rightarrow> nat" where
  "min_child lt i n xs =
     (let j1 = 2 * i + 1; j2 = j1 + 1 in if j2 < n \<and> lt (xs ! j2) (xs ! j1) then j2 else j1)"

lemma min_child_gt: "i < min_child lt i n xs"
  by (simp add: min_child_def Let_def)

function heap_down :: "('a \<Rightarrow> 'a \<Rightarrow> bool) \<Rightarrow> nat \<Rightarrow> nat \<Rightarrow> 'a list \<Rightarrow> nat \<times> 'a list" where
  "heap_down lt i n xs =
     (if n \<le> 2 * i + 1 then (i, xs)
      else if \<not> lt (xs ! min_child lt i n xs) (xs ! i) then (i, xs)
      else heap_down lt (min_child lt i n xs) n (swap i (min_child lt i n xs) xs))"
  by pat_completeness auto
termination
proof (relation "measure (\<lambda>(_, i, n, _). n - i)", simp_all)
  fix lt :: "'a \<Rightarrow> 'a \<Rightarrow> bool" and i n :: nat and xs :: "'a list"
  assume "\<not> n \<le> Suc (2 * i)"
  then show "n - min_child lt i n xs < n - i"
    using min_child_gt [of i lt n xs] by auto
qed

declare heap_down.simps [simp del]

text \<open>\<^verbatim>\<open>heap.Push\<close> and \<^verbatim>\<open>heap.Pop\<close> with the two slice methods of the source, which append an item and cut
  the last one off.\<close>

definition heap_Push :: "('a \<Rightarrow> 'a \<Rightarrow> bool) \<Rightarrow> 'a \<Rightarrow> 'a list \<Rightarrow> 'a list" where
  "heap_Push lt x xs = heap_up lt (length xs) (xs @ [x])"

definition heap_Pop :: "('a \<Rightarrow> 'a \<Rightarrow> bool) \<Rightarrow> 'a list \<Rightarrow> 'a \<times> 'a list" where
  "heap_Pop lt xs =
     (let n = length xs - 1; xs' = snd (heap_down lt 0 n (swap 0 n xs)) in (xs' ! n, take n xs'))"

definition heap_Fix :: "('a \<Rightarrow> 'a \<Rightarrow> bool) \<Rightarrow> nat \<Rightarrow> 'a list \<Rightarrow> 'a list" where
  "heap_Fix lt i xs =
     (let (i', xs') = heap_down lt i (length xs) xs in if \<not> i < i' then heap_up lt i xs' else xs')"

subsection \<open>The priority queue\<close>

type_synonym 'a compare = "'a \<Rightarrow> 'a \<Rightarrow> int"

definition priority_Less :: "'a compare \<Rightarrow> 'a \<Rightarrow> 'a \<Rightarrow> bool" where
  "priority_Less cmp a b = (cmp a b < 0)"

definition PQ_Put :: "'a compare \<Rightarrow> 'a list \<Rightarrow> 'a list \<Rightarrow> 'a list" where
  "PQ_Put cmp its pq = fold (heap_Push (priority_Less cmp)) its pq"

definition PQ_Get :: "'a compare \<Rightarrow> 'a list \<Rightarrow> 'a option \<times> 'a list" where
  "PQ_Get cmp pq =
     (if length pq = 0 then (None, pq) else let (x, pq') = heap_Pop (priority_Less cmp) pq in (Some x, pq'))"

fun pop_many :: "('a \<Rightarrow> 'a \<Rightarrow> bool) \<Rightarrow> nat \<Rightarrow> 'a list \<Rightarrow> 'a list \<times> 'a list" where
  "pop_many lt 0 xs = ([], xs)"
| "pop_many lt (Suc n) xs = (let (x, xs) = heap_Pop lt xs; (ys, xs) = pop_many lt n xs in (x # ys, xs))"

definition PQ_BulkGet ::
  "(('a \<Rightarrow> 'a \<Rightarrow> bool) \<Rightarrow> 'a list \<Rightarrow> 'a list) \<Rightarrow> 'a compare \<Rightarrow> int \<Rightarrow> 'a list \<Rightarrow> 'a list \<times> 'a list" where
  "PQ_BulkGet srt cmp number pq =
     (if number < 1 then ([], pq)
      else if int (length pq) \<le> number then (srt (priority_Less cmp) pq, [])
      else pop_many (priority_Less cmp) (nat number) pq)"

definition PQ_Peek :: "'a list \<Rightarrow> 'a option" where
  "PQ_Peek pq = (if length pq > 0 then Some (pq ! 0) else None)"

subsection \<open>The ordered array\<close>

definition ordered_Less :: "'a compare \<Rightarrow> 'a \<Rightarrow> 'a \<Rightarrow> bool" where
  "ordered_Less cmp a b = (cmp a b > 0)"

record 'a OrderedArray =
  oa_items :: "'a list"
  oa_capacity :: nat

definition NewOrderedArray :: "int \<Rightarrow> 'a OrderedArray option" where
  "NewOrderedArray capacity = (if capacity \<le> 0 then None else Some \<lparr>oa_items = [], oa_capacity = nat capacity\<rparr>)"

definition OA_put1 :: "'a compare \<Rightarrow> 'a \<Rightarrow> 'a OrderedArray \<Rightarrow> 'a OrderedArray" where
  "OA_put1 cmp item oa =
     (if oa_capacity oa \<le> length (oa_items oa) then
        (if cmp (oa_items oa ! 0) item > 0
         then oa\<lparr>oa_items := heap_Fix (ordered_Less cmp) 0 ((oa_items oa)[0 := item])\<rparr> else oa)
      else oa\<lparr>oa_items := heap_Push (ordered_Less cmp) item (oa_items oa)\<rparr>)"

definition OA_Put :: "'a compare \<Rightarrow> 'a list \<Rightarrow> 'a OrderedArray \<Rightarrow> 'a OrderedArray" where
  "OA_Put cmp its oa = fold (OA_put1 cmp) its oa"

text \<open>\<^verbatim>\<open>sort.Reverse\<close> swaps the arguments of the comparison.\<close>

definition OA_Finalize ::
  "(('a \<Rightarrow> 'a \<Rightarrow> bool) \<Rightarrow> 'a list \<Rightarrow> 'a list) \<Rightarrow> 'a compare \<Rightarrow> 'a OrderedArray \<Rightarrow> 'a list \<times> 'a OrderedArray" where
  "OA_Finalize srt cmp oa = (srt (\<lambda>a b. ordered_Less cmp b a) (oa_items oa), oa\<lparr>oa_items := []\<rparr>)"

subsection \<open>Orders\<close>

text \<open>What the algorithms rely on of the comparison and of the sort.\<close>

definition strict_weak :: "('a \<Rightarrow> 'a \<Rightarrow> bool) \<Rightarrow> bool" where
  "strict_weak lt \<longleftrightarrow> (\<forall>x y. lt x y \<longrightarrow> \<not> lt y x) \<and>
     (\<forall>x y z. \<not> lt y x \<longrightarrow> \<not> lt z y \<longrightarrow> \<not> lt z x)"

definition compare_laws :: "'a compare \<Rightarrow> bool" where
  "compare_laws cmp \<longleftrightarrow> (\<forall>x y. cmp x y > 0 \<longleftrightarrow> cmp y x < 0) \<and>
     (\<forall>x y z. cmp x y \<le> 0 \<longrightarrow> cmp y z \<le> 0 \<longrightarrow> cmp x z \<le> 0)"

definition sort_laws :: "(('a \<Rightarrow> 'a \<Rightarrow> bool) \<Rightarrow> 'a list \<Rightarrow> 'a list) \<Rightarrow> bool" where
  "sort_laws srt \<longleftrightarrow> (\<forall>lt xs. mset (srt lt xs) = mset xs \<and>
     (strict_weak lt \<longrightarrow> sorted_wrt (\<lambda>x y. \<not> lt y x) (srt lt xs)))"

lemma priority_Less_weak: "compare_laws cmp \<Longrightarrow> strict_weak (priority_Less cmp)"
  unfolding compare_laws_def strict_weak_def priority_Less_def by (meson not_less not_less_iff_gr_or_eq)

lemma ordered_Less_weak: "compare_laws cmp \<Longrightarrow> strict_weak (ordered_Less cmp)"
  unfolding compare_laws_def strict_weak_def ordered_Less_def by (meson not_less not_less_iff_gr_or_eq)

lemma weak_trans: "strict_weak lt \<Longrightarrow> \<not> lt y x \<Longrightarrow> \<not> lt z y \<Longrightarrow> \<not> lt z x"
  unfolding strict_weak_def by blast

lemma weak_asym: "strict_weak lt \<Longrightarrow> lt x y \<Longrightarrow> \<not> lt y x"
  unfolding strict_weak_def by blast

lemma weak_refl: "strict_weak lt \<Longrightarrow> \<not> lt x x"
  unfolding strict_weak_def by blast

subsection \<open>Heaps\<close>

definition heap_on :: "('a \<Rightarrow> 'a \<Rightarrow> bool) \<Rightarrow> nat \<Rightarrow> 'a list \<Rightarrow> bool" where
  "heap_on lt n xs \<longleftrightarrow> (\<forall>k. 0 < k \<and> k < n \<longrightarrow> \<not> lt (xs ! k) (xs ! ((k - 1) div 2)))"

text \<open>A heap but for the link above a position, and but for the links below a position.\<close>

definition heap_above :: "('a \<Rightarrow> 'a \<Rightarrow> bool) \<Rightarrow> nat \<Rightarrow> 'a list \<Rightarrow> bool" where
  "heap_above lt j xs \<longleftrightarrow>
     (\<forall>k. 0 < k \<and> k < length xs \<and> k \<noteq> j \<longrightarrow> \<not> lt (xs ! k) (xs ! ((k - 1) div 2))) \<and>
     (\<forall>k. 0 < k \<and> k < length xs \<and> (k - 1) div 2 = j \<and> 0 < j \<longrightarrow> \<not> lt (xs ! k) (xs ! ((j - 1) div 2)))"

definition heap_below :: "('a \<Rightarrow> 'a \<Rightarrow> bool) \<Rightarrow> nat \<Rightarrow> nat \<Rightarrow> 'a list \<Rightarrow> bool" where
  "heap_below lt i n xs \<longleftrightarrow>
     (\<forall>k. 0 < k \<and> k < n \<and> (k - 1) div 2 \<noteq> i \<longrightarrow> \<not> lt (xs ! k) (xs ! ((k - 1) div 2))) \<and>
     (\<forall>k. 0 < k \<and> k < n \<and> (k - 1) div 2 = i \<and> 0 < i \<longrightarrow> \<not> lt (xs ! k) (xs ! ((i - 1) div 2)))"

lemma swap_simps [simp]:
  "length (swap i j xs) = length xs"
  "i < length xs \<Longrightarrow> j < length xs \<Longrightarrow> mset (swap i j xs) = mset xs"
  by (simp_all add: swap_def mset_swap)

lemma swap_nth:
  "i < length xs \<Longrightarrow> j < length xs \<Longrightarrow> k < length xs \<Longrightarrow>
   swap i j xs ! k = (if k = j then xs ! i else if k = i then xs ! j else xs ! k)"
  by (auto simp: swap_def nth_list_update)

lemma parent_less: "0 < k \<Longrightarrow> (k - 1) div 2 < (k :: nat)"
  by auto

lemma heap_above_step:
  assumes lt: "strict_weak lt" and j: "0 < j" "j < length xs" "lt (xs ! j) (xs ! ((j - 1) div 2))"
    and ab: "heap_above lt j xs"
  shows "heap_above lt ((j - 1) div 2) (swap ((j - 1) div 2) j xs)"
proof -
  define i where "i = (j - 1) div 2"
  have ij: "i < j" "i < length xs" using j parent_less [of j] by (auto simp: i_def)
  note nth = swap_nth [OF ij(2) j(2)]
  have up: "\<not> lt (xs ! k) (xs ! ((k - 1) div 2))" if "0 < k" "k < length xs" "k \<noteq> j" for k
    using ab that by (auto simp: heap_above_def)
  have skip: "\<not> lt (xs ! k) (xs ! i)" if "0 < k" "k < length xs" "(k - 1) div 2 = j" for k
    using ab that j(1) by (auto simp: heap_above_def i_def)
  have ji: "\<not> lt (xs ! i) (xs ! j)" using weak_asym [OF lt j(3)] by (simp add: i_def)
  have "\<not> lt (swap i j xs ! k) (swap i j xs ! ((k - 1) div 2))" if k: "0 < k" "k < length xs" "k \<noteq> i" for k
  proof -
    have p: "(k - 1) div 2 < length xs" using k parent_less [of k] by linarith
    consider "k = j" | "k \<noteq> j" "(k - 1) div 2 = i" | "k \<noteq> j" "(k - 1) div 2 = j"
      | "k \<noteq> j" "(k - 1) div 2 \<noteq> i" "(k - 1) div 2 \<noteq> j" by blast
    then show ?thesis
    proof cases
      case 1
      then show ?thesis using nth [OF k(2)] nth [OF p] ij ji by (simp add: i_def)
    next
      case 2
      then have "\<not> lt (xs ! k) (xs ! i)" using up [of k] k by simp
      then show ?thesis using 2 nth [OF k(2)] nth [OF p] k ij weak_trans [OF lt ji] by simp
    next
      case 3
      then show ?thesis using nth [OF k(2)] nth [OF p] k ij skip [of k] by simp
    next
      case 4
      then show ?thesis using nth [OF k(2)] nth [OF p] k up [of k] by simp
    qed
  qed
  moreover have "\<not> lt (swap i j xs ! k) (swap i j xs ! ((i - 1) div 2))"
    if k: "0 < k" "k < length xs" "(k - 1) div 2 = i" "0 < i" for k
  proof -
    have pi: "(i - 1) div 2 < i" by (rule parent_less [OF k(4)])
    then have p: "(i - 1) div 2 < length xs" using ij by linarith
    have ii: "\<not> lt (xs ! i) (xs ! ((i - 1) div 2))" using up [of i] k(4) ij by simp
    show ?thesis
    proof (cases "k = j")
      case True
      then show ?thesis using nth [OF k(2)] nth [OF p] pi ij ii by simp
    next
      case False
      then have "\<not> lt (xs ! k) (xs ! i)" using up [of k] k by simp
      moreover have "k \<noteq> i" using k parent_less [of k] by auto
      ultimately show ?thesis using False nth [OF k(2)] nth [OF p] pi ij weak_trans [OF lt ii] by simp
    qed
  qed
  ultimately show ?thesis unfolding heap_above_def i_def [symmetric] by simp
qed

lemma heap_up_heap:
  assumes "strict_weak lt" "j < length xs" "heap_above lt j xs"
  shows "heap_on lt (length xs) (heap_up lt j xs) \<and> mset (heap_up lt j xs) = mset xs \<and>
    length (heap_up lt j xs) = length xs"
  using assms
proof (induction lt j xs rule: heap_up.induct)
  case (1 lt j xs)
  define i where "i = (j - 1) div 2"
  show ?case
  proof (cases "i = j \<or> \<not> lt (xs ! j) (xs ! i)")
    case True
    then have unf: "heap_up lt j xs = xs" by (subst heap_up.simps) (simp add: i_def)
    have "\<not> lt (xs ! k) (xs ! ((k - 1) div 2))" if "0 < k" "k < length xs" for k
    proof (cases "k = j")
      case j: True
      then have "i \<noteq> j" using that parent_less [of j] by (auto simp: i_def)
      then show ?thesis using True j by (simp add: i_def)
    next
      case False
      then show ?thesis using 1(4) that by (auto simp: heap_above_def)
    qed
    then show ?thesis by (simp add: unf heap_on_def)
  next
    case False
    then have unf: "heap_up lt j xs = heap_up lt i (swap i j xs)" by (subst heap_up.simps) (simp add: i_def Let_def)
    have j: "0 < j" "i < length xs" using False 1(3) by (auto simp: i_def intro: Nat.gr0I)
    have "heap_above lt i (swap i j xs)"
      using heap_above_step [OF 1(2) j(1) 1(3) _ 1(4)] False by (simp add: i_def)
    then have "heap_on lt (length (swap i j xs)) (heap_up lt i (swap i j xs)) \<and>
        mset (heap_up lt i (swap i j xs)) = mset (swap i j xs) \<and> length (heap_up lt i (swap i j xs)) = length (swap i j xs)"
      using 1(1) [OF _ 1(2), folded i_def] False j by simp
    then show ?thesis using unf j 1(3) by simp
  qed
qed

lemma min_child_facts:
  assumes "strict_weak lt" "\<not> n \<le> 2 * i + 1" "j = min_child lt i n xs"
  shows "j < n \<and> (j - 1) div 2 = i \<and> 0 < j \<and> (\<forall>k. 0 < k \<and> k < n \<and> (k - 1) div 2 = i \<longrightarrow> \<not> lt (xs ! k) (xs ! j))"
proof -
  have ch: "k = 2 * i + 1 \<or> k = 2 * i + 2" if "0 < k" "(k - 1) div 2 = i" for k
    using that by auto
  have "\<not> lt (xs ! k) (xs ! j)" if "0 < k" "k < n" "(k - 1) div 2 = i" for k
    using ch [OF that(1,3)] that(2) assms(3) weak_asym [OF assms(1)] weak_refl [OF assms(1)]
    by (auto simp: min_child_def Let_def split: if_splits)
  moreover have "j < n \<and> (j - 1) div 2 = i \<and> 0 < j"
    using assms(2,3) by (auto simp: min_child_def Let_def split: if_splits)
  ultimately show ?thesis by blast
qed

lemma heap_below_step:
  assumes lt: "strict_weak lt" and n: "\<not> n \<le> 2 * i + 1" "n \<le> length xs" and j: "j = min_child lt i n xs" "lt (xs ! j) (xs ! i)"
    and be: "heap_below lt i n xs"
  shows "heap_below lt j n (swap i j xs)"
proof -
  note ch = min_child_facts [OF lt n(1) j(1)]
  have ij: "i < j" "j < n" "i < length xs" "j < length xs" "(j - 1) div 2 = i" "0 < j"
    using ch parent_less [of j] n(2) by auto
  note nth = swap_nth [OF ij(3,4)]
  have up: "\<not> lt (xs ! k) (xs ! ((k - 1) div 2))" if "0 < k" "k < n" "(k - 1) div 2 \<noteq> i" for k
    using be that by (auto simp: heap_below_def)
  have skip: "\<not> lt (xs ! k) (xs ! ((i - 1) div 2))" if "0 < k" "k < n" "(k - 1) div 2 = i" "0 < i" for k
    using be that by (auto simp: heap_below_def)
  have "\<not> lt (swap i j xs ! k) (swap i j xs ! ((k - 1) div 2))" if k: "0 < k" "k < n" "(k - 1) div 2 \<noteq> j" for k
  proof -
    have kl: "k < length xs" "(k - 1) div 2 < length xs" "(k - 1) div 2 < k"
      using k n(2) parent_less [of k] by linarith+
    consider "k = j" | "k \<noteq> j" "(k - 1) div 2 = i" | "k = i" "(k - 1) div 2 \<noteq> i"
      | "k \<noteq> j" "k \<noteq> i" "(k - 1) div 2 \<noteq> i" by blast
    then show ?thesis
    proof cases
      case 1
      then show ?thesis using nth [OF kl(1)] nth [OF kl(2)] ij weak_asym [OF lt j(2)] by simp
    next
      case 2
      then have "\<not> lt (xs ! k) (xs ! j)" using ch k by blast
      moreover have "k \<noteq> i" using 2 kl(3) by auto
      ultimately show ?thesis using 2 nth [OF kl(1)] nth [OF kl(2)] ij by simp
    next
      case 3
      then show ?thesis using nth [OF kl(1)] nth [OF kl(2)] ij skip [of j] k kl by simp
    next
      case 4
      then show ?thesis using nth [OF kl(1)] nth [OF kl(2)] k up [of k] by simp
    qed
  qed
  moreover have "\<not> lt (swap i j xs ! k) (swap i j xs ! ((j - 1) div 2))" if k: "0 < k" "k < n" "(k - 1) div 2 = j" for k
  proof -
    have kl: "k < length xs" "j < k" using k n(2) parent_less [of k] by auto
    show ?thesis using nth [OF kl(1)] nth [OF ij(3)] ij kl up [of k] k by simp
  qed
  ultimately show ?thesis unfolding heap_below_def by blast
qed

lemma heap_down_heap:
  assumes "strict_weak lt" "n \<le> length xs" "i < length xs" "heap_below lt i n xs" "heap_down lt i n xs = (i', xs')"
  shows "heap_on lt n xs' \<and> mset xs' = mset xs \<and> length xs' = length xs \<and> i \<le> i' \<and>
    (\<forall>k. n \<le> k \<and> k < length xs \<and> k \<noteq> i \<longrightarrow> xs' ! k = xs ! k) \<and> (i' = i \<longrightarrow> xs' = xs)"
  using assms
proof (induction lt i n xs arbitrary: i' xs' rule: heap_down.induct)
  case (1 lt i n xs)
  define j where "j = min_child lt i n xs"
  show ?case
  proof (cases "n \<le> 2 * i + 1 \<or> \<not> lt (xs ! j) (xs ! i)")
    case True
    then have unf: "heap_down lt i n xs = (i, xs)" by (subst heap_down.simps) (auto simp: j_def Let_def)
    have "\<not> lt (xs ! k) (xs ! ((k - 1) div 2))" if k: "0 < k" "k < n" for k
    proof (cases "(k - 1) div 2 = i")
      case par: True
      then have "\<not> n \<le> 2 * i + 1" using k by auto
      then have "\<not> lt (xs ! k) (xs ! j)" "\<not> lt (xs ! j) (xs ! i)"
        using True min_child_facts [OF 1(2) _ j_def] k par by auto
      then show ?thesis using weak_trans [OF 1(2), of "xs ! j" "xs ! i" "xs ! k"] par by simp
    next
      case False
      then show ?thesis using 1(5) k by (auto simp: heap_below_def)
    qed
    then show ?thesis using unf 1(6) by (auto simp: heap_on_def)
  next
    case False
    then have unf: "heap_down lt i n xs = heap_down lt j n (swap i j xs)"
      by (subst heap_down.simps) (auto simp: j_def Let_def)
    have lim: "\<not> n \<le> 2 * i + 1" "lt (xs ! j) (xs ! i)" using False by auto
    have ch: "j < n" "(j - 1) div 2 = i" "0 < j" using min_child_facts [OF 1(2) lim(1) j_def] by auto
    have ij: "i < j" "j < length xs" using ch parent_less [of j] 1(3) by auto
    have below: "heap_below lt j n (swap i j xs)"
      by (rule heap_below_step [OF 1(2) lim(1) 1(3) j_def lim(2) 1(5)])
    have IH: "heap_on lt n xs' \<and> mset xs' = mset (swap i j xs) \<and> length xs' = length (swap i j xs) \<and> j \<le> i' \<and>
        (\<forall>k. n \<le> k \<and> k < length (swap i j xs) \<and> k \<noteq> j \<longrightarrow> xs' ! k = swap i j xs ! k) \<and> (i' = j \<longrightarrow> xs' = swap i j xs)"
      using 1(1) [folded j_def, OF lim(1) _ 1(2), of i' xs'] lim(2) below unf 1(3,6) ij by simp
    have "xs' ! k = xs ! k" if "n \<le> k" "k < length xs" "k \<noteq> i" for k
      using IH that swap_nth [OF 1(4) ij(2) that(2)] ch(1) by auto
    then show ?thesis using IH ij 1(4) by auto
  qed
qed

lemma heap_root:
  assumes "strict_weak lt" "heap_on lt n xs" "k < n"
  shows "\<not> lt (xs ! k) (xs ! 0)"
  using assms(3)
proof (induction k rule: less_induct)
  case (less k)
  show ?case
  proof (cases "k = 0")
    case True
    then show ?thesis by (simp add: weak_refl [OF assms(1)])
  next
    case False
    then have "\<not> lt (xs ! ((k - 1) div 2)) (xs ! 0)" "\<not> lt (xs ! k) (xs ! ((k - 1) div 2))"
      using less parent_less [of k] assms(2) by (auto simp: heap_on_def)
    then show ?thesis using weak_trans [OF assms(1)] by blast
  qed
qed

lemma heap_Push_ok:
  assumes "strict_weak lt" "heap_on lt (length xs) xs"
  shows "heap_on lt (Suc (length xs)) (heap_Push lt x xs) \<and> mset (heap_Push lt x xs) = add_mset x (mset xs) \<and>
    length (heap_Push lt x xs) = Suc (length xs)"
proof -
  have "\<not> lt ((xs @ [x]) ! k) ((xs @ [x]) ! ((k - 1) div 2))" if "0 < k" "k < length xs" for k
    using assms(2) that parent_less [of k] by (auto simp: heap_on_def nth_append)
  then have "heap_above lt (length xs) (xs @ [x])"
    using parent_less by (fastforce simp: heap_above_def)
  then show ?thesis
    using heap_up_heap [OF assms(1), of "length xs" "xs @ [x]"] by (simp add: heap_Push_def)
qed

lemma heap_Pop_ok:
  assumes "strict_weak lt" "heap_on lt (length xs) xs" "xs \<noteq> []" "heap_Pop lt xs = (x, ys)"
  shows "heap_on lt (length ys) ys \<and> mset xs = add_mset x (mset ys) \<and> length xs = Suc (length ys) \<and>
    (\<forall>y \<in># mset xs. \<not> lt y x)"
proof -
  define n where "n = length xs - 1"
  have n: "length xs = Suc n" using assms(3) by (cases xs) (auto simp: n_def)
  have l: "0 < length xs" "n < length xs" using n by auto
  obtain i' zs where dn: "heap_down lt 0 n (swap 0 n xs) = (i', zs)" by (cases "heap_down lt 0 n (swap 0 n xs)") auto
  have "\<not> lt (swap 0 n xs ! k) (swap 0 n xs ! ((k - 1) div 2))" if "0 < k" "k < n" "(k - 1) div 2 \<noteq> 0" for k
    using assms(2) that parent_less [of k] swap_nth [OF l, of k] swap_nth [OF l, of "(k - 1) div 2"] n
    by (auto simp: heap_on_def)
  then have below: "heap_below lt 0 n (swap 0 n xs)" by (auto simp: heap_below_def)
  have zs: "heap_on lt n zs" "mset zs = mset xs" "length zs = Suc n"
    "\<And>k. n \<le> k \<Longrightarrow> k < length xs \<Longrightarrow> k \<noteq> 0 \<Longrightarrow> zs ! k = swap 0 n xs ! k" "i' = 0 \<Longrightarrow> zs = swap 0 n xs"
    using heap_down_heap [OF assms(1) _ _ below dn] n l by auto
  have "zs ! n = xs ! 0"
  proof (cases "n = 0")
    case True
    then have "heap_down lt 0 n (swap 0 n xs) = (0, swap 0 n xs)" by (subst heap_down.simps) simp
    then show ?thesis using dn True by (auto simp: swap_def)
  next
    case False
    then show ?thesis using zs(4) [of n] l swap_nth [OF l l(2)] by simp
  qed
  then have x: "x = xs ! 0" and ys: "ys = take n zs"
    using assms(4) dn by (auto simp: heap_Pop_def Let_def n_def)
  have "zs = ys @ [x]"
    using zs(3) \<open>zs ! n = xs ! 0\<close> x ys by (metis lessI take_Suc_conv_app_nth order_refl take_all)
  then have "mset xs = add_mset x (mset ys)" using zs(2) by (metis mset.simps mset_append add_mset_add_single)
  moreover have "heap_on lt (length ys) ys"
    using zs(1) ys zs(3) parent_less by (fastforce simp: heap_on_def)
  moreover have "\<not> lt y x" if "y \<in># mset xs" for y
    using that heap_root [OF assms(1,2)] by (auto simp: x in_set_conv_nth)
  ultimately show ?thesis using ys zs(3) n by simp
qed

lemma heap_Fix_ok:
  assumes "strict_weak lt" "heap_on lt (length xs) xs" "xs \<noteq> []"
  shows "heap_on lt (length xs) (heap_Fix lt 0 (xs[0 := x])) \<and> mset (heap_Fix lt 0 (xs[0 := x])) = mset (xs[0 := x])"
proof -
  obtain i' zs where dn: "heap_down lt 0 (length xs) (xs[0 := x]) = (i', zs)"
    by (cases "heap_down lt 0 (length xs) (xs[0 := x])") auto
  have "heap_below lt 0 (length xs) (xs[0 := x])"
    using assms(2) by (auto simp: heap_below_def heap_on_def nth_list_update)
  then have zs: "heap_on lt (length xs) zs" "mset zs = mset (xs[0 := x])"
    using heap_down_heap [OF assms(1) _ _ _ dn] assms(3) by auto
  have "heap_up lt 0 zs = zs" by (subst heap_up.simps) simp
  then show ?thesis using zs dn by (simp add: heap_Fix_def)
qed

subsection \<open>Properties\<close>

lemma pop_many_ok:
  assumes "strict_weak lt" "heap_on lt (length xs) xs" "n \<le> length xs" "pop_many lt n xs = (ys, zs)"
  shows "length ys = n \<and> mset xs = mset ys + mset zs \<and> sorted_wrt (\<lambda>a b. \<not> lt b a) ys \<and>
    (\<forall>y \<in> set ys. \<forall>z \<in> set zs. \<not> lt z y) \<and> heap_on lt (length zs) zs"
  using assms(2-4)
proof (induction n arbitrary: xs ys)
  case (Suc n)
  obtain x xs1 where p: "heap_Pop lt xs = (x, xs1)" by (cases "heap_Pop lt xs")
  obtain ys1 where r: "pop_many lt n xs1 = (ys1, zs)" "ys = x # ys1"
    using Suc.prems(3) p by (auto split: prod.splits)
  have "xs \<noteq> []" using Suc.prems(2) by auto
  note pop = heap_Pop_ok [OF assms(1) Suc.prems(1) this p]
  have IH: "length ys1 = n \<and> mset xs1 = mset ys1 + mset zs \<and> sorted_wrt (\<lambda>a b. \<not> lt b a) ys1 \<and>
      (\<forall>y \<in> set ys1. \<forall>z \<in> set zs. \<not> lt z y) \<and> heap_on lt (length zs) zs"
    using Suc.IH [OF _ _ r(1)] pop Suc.prems(2) by simp
  have "set xs = insert x (set ys1 \<union> set zs)"
    using IH pop by (metis set_mset_add_mset_insert set_mset_mset set_mset_union)
  then show ?case using IH pop r(2) by auto
qed auto

text \<open>A queue built by any puts gives back, on \<^verbatim>\<open>BulkGet\<close>, the requested number of items or all
  it has; they come in ascending order, none that stays behind precedes one that was returned, and
  together they are the items that were put.\<close>

theorem bulk_get_smallest:
  assumes "compare_laws cmp" "sort_laws srt" "PQ_BulkGet srt cmp number (PQ_Put cmp its []) = (got, left)"
  shows "mset its = mset got + mset left \<and> length got = min (nat number) (length its) \<and>
    sorted_wrt (\<lambda>a b. cmp a b \<le> 0) got \<and> (\<forall>x \<in> set got. \<forall>y \<in> set left. cmp x y \<le> 0)"
proof -
  have lt: "strict_weak (priority_Less cmp)" by (rule priority_Less_weak [OF assms(1)])
  have le: "\<not> priority_Less cmp b a \<longleftrightarrow> cmp a b \<le> 0" for a b
    using assms(1) unfolding compare_laws_def priority_Less_def by (meson not_less)
  have "heap_on (priority_Less cmp) (length (PQ_Put cmp its pq)) (PQ_Put cmp its pq) \<and>
      mset (PQ_Put cmp its pq) = mset its + mset pq"
    if "heap_on (priority_Less cmp) (length pq) pq" for pq
    using that
  proof (induction its arbitrary: pq)
    case (Cons x its)
    show ?case
      using Cons.IH [of "heap_Push (priority_Less cmp) x pq"] heap_Push_ok [OF lt Cons.prems, of x]
      by (simp add: PQ_Put_def)
  qed (simp add: PQ_Put_def)
  from this [of "[]"] have pq: "heap_on (priority_Less cmp) (length (PQ_Put cmp its [])) (PQ_Put cmp its [])"
    "mset (PQ_Put cmp its []) = mset its" by (simp_all add: heap_on_def)
  have len: "length (PQ_Put cmp its []) = length its" using pq(2) by (metis size_mset)
  have srt: "mset (srt (priority_Less cmp) xs) = mset xs"
    "sorted_wrt (\<lambda>a b. \<not> priority_Less cmp b a) (srt (priority_Less cmp) xs)" for xs
    using assms(2) lt by (auto simp: sort_laws_def)
  consider "number < 1" | "\<not> number < 1" "int (length its) \<le> number" | "\<not> number < 1" "\<not> int (length its) \<le> number" by linarith
  then show ?thesis
  proof cases
    case 1
    then show ?thesis using assms(3) pq by (auto simp: PQ_BulkGet_def)
  next
    case 2
    then have g: "got = srt (priority_Less cmp) (PQ_Put cmp its [])" "left = []"
      using assms(3) by (auto simp: PQ_BulkGet_def len)
    then have "mset got = mset its" using srt(1) pq(2) by simp
    then show ?thesis using 2 g srt(2) mset_eq_length [of got its] by (auto simp: le)
  next
    case 3
    then have p: "pop_many (priority_Less cmp) (nat number) (PQ_Put cmp its []) = (got, left)"
      using assms(3) by (auto simp: PQ_BulkGet_def len)
    have "nat number \<le> length (PQ_Put cmp its [])" using 3 len by simp
    from pop_many_ok [OF lt pq(1) this p] show ?thesis using 3 pq(2) by (auto simp: le min_def)
  qed
qed

text \<open>A sort that meets the laws: insertion.\<close>

fun ins_by :: "('a \<Rightarrow> 'a \<Rightarrow> bool) \<Rightarrow> 'a \<Rightarrow> 'a list \<Rightarrow> 'a list" where
  "ins_by lt x [] = [x]"
| "ins_by lt x (y # ys) = (if lt x y then x # y # ys else y # ins_by lt x ys)"

definition insertion_sort :: "('a \<Rightarrow> 'a \<Rightarrow> bool) \<Rightarrow> 'a list \<Rightarrow> 'a list" where
  "insertion_sort lt xs = fold (ins_by lt) xs []"

lemma ins_by_mset [simp]: "mset (ins_by lt x ys) = add_mset x (mset ys)"
  by (induction ys) auto

lemma ins_by_sorted:
  assumes "strict_weak lt"
  shows "sorted_wrt (\<lambda>x y. \<not> lt y x) ys \<Longrightarrow> sorted_wrt (\<lambda>x y. \<not> lt y x) (ins_by lt x ys)"
proof (induction ys)
  case (Cons y ys)
  have "set (ins_by lt x ys) = insert x (set ys)" by (metis ins_by_mset set_mset_add_mset_insert set_mset_mset)
  moreover have "\<not> lt z x" if "lt x y" "z \<in> set (y # ys)" for z
  proof -
    have "\<not> lt y x" by (rule weak_asym [OF assms that(1)])
    moreover have "z = y \<or> \<not> lt z y" using Cons.prems that(2) by auto
    ultimately show ?thesis using weak_trans [OF assms, of y x z] by blast
  qed
  ultimately show ?case using Cons by simp
qed simp

lemma insertion_sort_laws: "sort_laws insertion_sort"
proof -
  have "mset (fold (ins_by lt) xs ys) = mset xs + mset ys" for lt :: "'a \<Rightarrow> 'a \<Rightarrow> bool" and xs ys
    by (induction xs arbitrary: ys) auto
  moreover have "sorted_wrt (\<lambda>x y. \<not> lt y x) (fold (ins_by lt) xs ys)"
    if "strict_weak lt" "sorted_wrt (\<lambda>x y. \<not> lt y x) ys" for lt :: "'a \<Rightarrow> 'a \<Rightarrow> bool" and xs ys
    using that by (induction xs arbitrary: ys) (auto simp: ins_by_sorted)
  ultimately show ?thesis by (auto simp: sort_laws_def insertion_sort_def)
qed

lemma difference_laws: "compare_laws (\<lambda>a b :: int. a - b)"
  by (auto simp: compare_laws_def)

theorem bulk_get_smallest_witness:
  "PQ_BulkGet insertion_sort (\<lambda>a b. a - b) 2 (PQ_Put (\<lambda>a b. a - b) [3, 1, 2, 5] []) = ([1, 2], [3, 5 :: int]) \<and>
   mset [3, 1, 2, 5] = mset [1, 2] + mset [3, 5 :: int]"
proof -
  have run: "PQ_BulkGet insertion_sort (\<lambda>a b. a - b) 2 (PQ_Put (\<lambda>a b. a - b) [3, 1, 2, 5] []) = ([1, 2], [3, 5 :: int])"
    by code_simp
  from bulk_get_smallest [OF difference_laws insertion_sort_laws run] run show ?thesis by blast
qed

text \<open>What the array holds after some items: a heap of the smallest, as many as there is room for.\<close>

definition keeps_smallest :: "'a compare \<Rightarrow> 'a list \<Rightarrow> 'a OrderedArray \<Rightarrow> bool" where
  "keeps_smallest cmp seen oa \<longleftrightarrow> 0 < oa_capacity oa \<and> heap_on (ordered_Less cmp) (length (oa_items oa)) (oa_items oa) \<and>
     length (oa_items oa) = min (oa_capacity oa) (length seen) \<and>
     (\<exists>out. mset seen = mset (oa_items oa) + out \<and> (\<forall>x \<in> set (oa_items oa). \<forall>y \<in># out. cmp x y \<le> 0))"

lemma OA_put1_keeps:
  assumes "compare_laws cmp" "keeps_smallest cmp seen oa"
  shows "keeps_smallest cmp (seen @ [item]) (OA_put1 cmp item oa) \<and> oa_capacity (OA_put1 cmp item oa) = oa_capacity oa"
proof -
  define xs where "xs = oa_items oa"
  have lt: "strict_weak (ordered_Less cmp)" by (rule ordered_Less_weak [OF assms(1)])
  obtain out where o: "0 < oa_capacity oa" "heap_on (ordered_Less cmp) (length xs) xs"
    "length xs = min (oa_capacity oa) (length seen)" "mset seen = mset xs + out" "\<And>x y. x \<in> set xs \<Longrightarrow> y \<in># out \<Longrightarrow> cmp x y \<le> 0"
    using assms(2) by (auto simp: keeps_smallest_def xs_def)
  have tr: "cmp x z \<le> 0" if "cmp x y \<le> 0" "cmp y z \<le> 0" for x y z
    using assms(1) that by (auto simp: compare_laws_def)
  have flip: "cmp y x < 0" if "cmp x y > 0" for x y using assms(1) that by (auto simp: compare_laws_def)
  show ?thesis
  proof (cases "oa_capacity oa \<le> length xs")
    case False
    have "length xs = length seen" using False o(3) by auto
    then have "size (mset seen) = size (mset xs)" by simp
    then have out: "out = {#}" using o(4) by (simp add: size_union)
    show ?thesis
      using False heap_Push_ok [OF lt o(2), of item] o(1,3,4) out
      by (auto simp: OA_put1_def keeps_smallest_def xs_def [symmetric] intro!: exI [of _ "{#}"])
  next
    case True
    then have ne: "xs \<noteq> []" "0 < length xs" using o(1) by auto
    have max: "cmp x (xs ! 0) \<le> 0" if "x \<in> set xs" for x
      using heap_root [OF lt o(2)] that by (auto simp: in_set_conv_nth ordered_Less_def not_less)
    have len: "length xs = min (oa_capacity oa) (Suc (length seen))" "length xs = oa_capacity oa" using True o(3) by auto
    show ?thesis
    proof (cases "cmp (xs ! 0) item > 0")
      case keep: True
      define ys where "ys = heap_Fix (ordered_Less cmp) 0 (xs[0 := item])"
      have ys: "heap_on (ordered_Less cmp) (length xs) ys" "mset ys = mset (xs[0 := item])"
        using heap_Fix_ok [OF lt o(2) ne(1), of item] by (auto simp: ys_def)
      have lys: "length ys = length xs" using ys(2) by (metis length_list_update size_mset)
      have split: "mset xs = add_mset (xs ! 0) (mset (tl xs))" "mset ys = add_mset item (mset (tl xs))"
        using ne ys(2) by (cases xs; auto)+
      have sub: "x = item \<or> x \<in> set xs" if "x \<in> set ys" for x
      proof -
        have "x \<in># mset ys" using that by simp
        then show ?thesis using split ne by (cases xs) auto
      qed
      have "cmp x (xs ! 0) \<le> 0" if "x \<in> set ys" for x
        using sub [OF that] max flip [OF keep] by auto
      then have "cmp x y \<le> 0" if "x \<in> set ys" "y \<in># add_mset (xs ! 0) out" for x y
        using that o(5) [of "xs ! 0" y] tr [of x "xs ! 0" y] ne by auto
      moreover have "mset (seen @ [item]) = mset ys + add_mset (xs ! 0) out" using o(4) split by simp
      ultimately show ?thesis
        using True keep ys(1) lys len o(1)
        by (auto simp: OA_put1_def keeps_smallest_def xs_def [symmetric] ys_def [symmetric] intro!: exI [of _ "add_mset (xs ! 0) out"])
    next
      case False
      then have "cmp x item \<le> 0" if "x \<in> set xs" for x
        using max [OF that] tr [of x "xs ! 0" item] by simp
      then have "\<forall>x \<in> set xs. \<forall>y \<in># add_mset item out. cmp x y \<le> 0" using o(5) by auto
      moreover have "mset (seen @ [item]) = mset xs + add_mset item out" using o(4) by simp
      ultimately show ?thesis
        using True False o(1,2) len
        by (auto simp: OA_put1_def keeps_smallest_def xs_def [symmetric] intro!: exI [of _ "add_mset item out"])
    qed
  qed
qed

lemma OA_Put_keeps:
  assumes "compare_laws cmp"
  shows "keeps_smallest cmp seen oa \<Longrightarrow>
    keeps_smallest cmp (seen @ its) (OA_Put cmp its oa) \<and> oa_capacity (OA_Put cmp its oa) = oa_capacity oa"
proof (induction its arbitrary: seen oa)
  case (Cons x its)
  show ?case
    using Cons.IH [of "seen @ [x]" "OA_put1 cmp x oa"] OA_put1_keeps [OF assms Cons.prems, of x]
    by (simp add: OA_Put_def)
qed (simp add: OA_Put_def)

text \<open>C24: an ordered array of some capacity that is given any items and then finalised returns the
  smallest of them, as many as its capacity allows, in ascending order; every item it dropped is at
  least as great as every item it returned.\<close>

theorem ordered_array_smallest:
  assumes "compare_laws cmp" "sort_laws srt" "NewOrderedArray capacity = Some oa"
    and "OA_Finalize srt cmp (OA_Put cmp its oa) = (got, oa')"
  shows "length got = min (nat capacity) (length its) \<and> sorted_wrt (\<lambda>a b. cmp a b \<le> 0) got \<and> oa_items oa' = [] \<and>
    (\<exists>out. mset its = mset got + out \<and> (\<forall>x \<in> set got. \<forall>y \<in># out. cmp x y \<le> 0))"
proof -
  have oa: "oa = \<lparr>oa_items = [], oa_capacity = nat capacity\<rparr>" "0 < capacity"
    using assms(3) by (auto simp: NewOrderedArray_def split: if_splits)
  then have "keeps_smallest cmp [] oa" by (simp add: keeps_smallest_def heap_on_def)
  note k = OA_Put_keeps [OF assms(1) this, of its]
  define xs where "xs = oa_items (OA_Put cmp its oa)"
  have got: "got = srt (\<lambda>a b. ordered_Less cmp b a) xs" "oa_items oa' = []"
    using assms(4) by (auto simp: OA_Finalize_def xs_def)
  have "strict_weak (\<lambda>a b. ordered_Less cmp b a)"
    using ordered_Less_weak [OF assms(1)] unfolding strict_weak_def by blast
  then have srt: "mset got = mset xs" "sorted_wrt (\<lambda>a b. \<not> ordered_Less cmp a b) got"
    using assms(2) got by (auto simp: sort_laws_def)
  have "set got = set xs" "length got = length xs" using srt(1) by (auto dest: mset_eq_setD mset_eq_length)
  moreover have "sorted_wrt (\<lambda>a b. cmp a b \<le> 0) got"
    using srt(2) by (simp add: ordered_Less_def not_less)
  moreover have "oa_capacity oa = nat capacity" by (simp add: oa)
  ultimately show ?thesis
    using k srt(1) got(2) unfolding keeps_smallest_def xs_def [symmetric] by simp
qed

theorem ordered_array_smallest_witness:
  "NewOrderedArray 2 = Some (\<lparr>oa_items = [], oa_capacity = 2\<rparr> :: int OrderedArray) \<and>
   fst (OA_Finalize insertion_sort (\<lambda>a b. a - b) (OA_Put (\<lambda>a b. a - b) [4, 3, 7, 1] \<lparr>oa_items = [], oa_capacity = 2\<rparr>)) = [1, 3 :: int] \<and>
   length [1, 3 :: int] = min (nat 2) (length [4, 3, 7, 1 :: int])"
proof -
  have new: "NewOrderedArray 2 = Some (\<lparr>oa_items = [], oa_capacity = 2\<rparr> :: int OrderedArray)"
    by (simp add: NewOrderedArray_def)
  have run: "OA_Finalize insertion_sort (\<lambda>a b. a - b) (OA_Put (\<lambda>a b. a - b) [4, 3, 7, 1] \<lparr>oa_items = [], oa_capacity = 2\<rparr>) =
      ([1, 3 :: int], \<lparr>oa_items = [], oa_capacity = 2\<rparr>)"
    by code_simp
  from ordered_array_smallest [OF difference_laws insertion_sort_laws new run] new run show ?thesis by simp
qed

end
