(* ===== verification/Util_Queue.thy ===== *)
theory Util_Queue
  imports Prelude
begin

text \<open>
  \<^verbatim>\<open>pkg/util/queue.go\<close>: the blocking queue.  A consumer that finds it empty waits; \<^verbatim>\<open>Put\<close> hands items
  to the waiting consumers, in the order they came, while it holds the lock.  The hand-over of a
  consumer whose timer wins the race is the parameter \<open>gone\<close>: its semaphore takes no value, or it
  gives up inside the hand-over, and either way it gets nothing.
\<close>

datatype queue_error = ErrDisposed | ErrTimeout | ErrEmptyQueue

record waiter =
  wt_id :: nat
  wt_number :: nat

record 'a Queue =
  qu_items :: "'a list"
  qu_waiters :: "waiter list"
  qu_disposed :: bool

definition Queue_New :: "'a Queue" where
  "Queue_New = \<lparr>qu_items = [], qu_waiters = [], qu_disposed = False\<rparr>"

text \<open>\<^verbatim>\<open>items.get\<close>: up to a number of items from the front, into a buffer of the caller.  A buffer that is
  shorter than the number would panic; every caller in the source makes its buffer of the length it asks
  for, so the buffer is not part of the model.\<close>

definition items_get :: "nat \<Rightarrow> 'a list \<Rightarrow> 'a list \<times> 'a list" where
  "items_get number its = (take number its, drop number its)"

text \<open>The loop that serves the waiters.  It stops when no waiter or no item is left.\<close>

fun serve :: "(nat \<Rightarrow> bool) \<Rightarrow> 'a list \<Rightarrow> waiter list \<Rightarrow> (nat \<times> 'a list) list \<times> 'a list \<times> waiter list" where
  "serve gone its [] = ([], its, [])"
| "serve gone its (w # ws) =
     (let (got, its') = (if gone (wt_id w) then ([], its) else items_get (wt_number w) its);
          grant = (if gone (wt_id w) then [] else [(wt_id w, got)])
      in if length its' = 0 then (grant, its', ws)
         else let (gs, its'', ws') = serve gone its' ws in (grant @ gs, its'', ws'))"

definition Queue_Put ::
  "(nat \<Rightarrow> bool) \<Rightarrow> 'a list \<Rightarrow> 'a Queue \<Rightarrow> queue_error option \<times> (nat \<times> 'a list) list \<times> 'a Queue" where
  "Queue_Put gone its q =
     (if length its = 0 then (None, [], q)
      else if qu_disposed q then (Some ErrDisposed, [], q)
      else let (gs, its', ws) = serve gone (qu_items q @ its) (qu_waiters q)
           in (None, gs, q\<lparr>qu_items := its', qu_waiters := ws\<rparr>))"

text \<open>The first item that compares equal is replaced in place.\<close>

fun put_or_update :: "('a \<Rightarrow> 'a \<Rightarrow> bool) \<Rightarrow> 'a \<Rightarrow> 'a list \<Rightarrow> 'a list" where
  "put_or_update eq item [] = [item]"
| "put_or_update eq item (old # its) = (if eq old item then item # its else old # put_or_update eq item its)"

definition Queue_PutOrUpdate ::
  "(nat \<Rightarrow> bool) \<Rightarrow> ('a \<Rightarrow> 'a \<Rightarrow> bool) \<Rightarrow> 'a \<Rightarrow> 'a Queue \<Rightarrow> queue_error option \<times> (nat \<times> 'a list) list \<times> 'a Queue" where
  "Queue_PutOrUpdate gone eq item q =
     (if qu_disposed q then (Some ErrDisposed, [], q)
      else let (gs, its', ws) = serve gone (put_or_update eq item (qu_items q)) (qu_waiters q)
           in (None, gs, q\<lparr>qu_items := its', qu_waiters := ws\<rparr>))"

text \<open>A poll returns at once or leaves a waiter behind.\<close>

datatype 'a poll_result = Returned "'a list" | Refused queue_error | Waiting

definition Queue_Poll :: "nat \<Rightarrow> int \<Rightarrow> 'a Queue \<Rightarrow> 'a poll_result \<times> 'a Queue" where
  "Queue_Poll me number q =
     (if number < 1 then (Returned [], q)
      else if qu_disposed q then (Refused ErrDisposed, q)
      else if length (qu_items q) = 0
      then (Waiting, q\<lparr>qu_waiters := qu_waiters q @ [\<lparr>wt_id = me, wt_number = nat number\<rparr>]\<rparr>)
      else let (got, its) = items_get (nat number) (qu_items q) in (Returned got, q\<lparr>qu_items := its\<rparr>))"

text \<open>A timer that fires before \<^verbatim>\<open>Put\<close> reaches the waiter takes it off the list.\<close>

definition Poll_timeout :: "nat \<Rightarrow> 'a Queue \<Rightarrow> 'a Queue" where
  "Poll_timeout me q = q\<lparr>qu_waiters := filter (\<lambda>w. wt_id w \<noteq> me) (qu_waiters q)\<rparr>"

definition Queue_Peek :: "'a Queue \<Rightarrow> queue_error + 'a" where
  "Queue_Peek q =
     (if qu_disposed q then Inl ErrDisposed else case qu_items q of [] \<Rightarrow> Inl ErrEmptyQueue | x # _ \<Rightarrow> Inr x)"

definition Queue_Empty :: "'a Queue \<Rightarrow> bool" where
  "Queue_Empty q = (length (qu_items q) = 0)"

definition Queue_Len :: "'a Queue \<Rightarrow> nat" where
  "Queue_Len q = length (qu_items q)"

text \<open>\<^verbatim>\<open>Dispose\<close> releases the waiters, which then return \<^verbatim>\<open>ErrDisposed\<close>.\<close>

definition Queue_Dispose :: "'a Queue \<Rightarrow> 'a list \<times> nat list \<times> 'a Queue" where
  "Queue_Dispose q = (qu_items q, map wt_id (qu_waiters q), \<lparr>qu_items = [], qu_waiters = [], qu_disposed = True\<rparr>)"

subsection \<open>Invariant\<close>

text \<open>Nobody waits while there are items, a waiter asks for at least one, and a disposed queue is
  empty.\<close>

definition queue_ok :: "'a Queue \<Rightarrow> bool" where
  "queue_ok q \<longleftrightarrow> (qu_items q = [] \<or> qu_waiters q = []) \<and> (\<forall>w \<in> set (qu_waiters q). 0 < wt_number w) \<and>
     (qu_disposed q \<longrightarrow> qu_items q = [] \<and> qu_waiters q = [])"

definition granted :: "(nat \<times> 'a list) list \<Rightarrow> 'a list" where
  "granted gs = concat (map snd gs)"

lemma granted_simps [simp]:
  "granted [] = []" "granted (g # gs) = snd g @ granted gs" "granted (gs @ hs) = granted gs @ granted hs"
  by (simp_all add: granted_def)

lemma serve_sound:
  assumes "serve gone its ws = (gs, its', ws')"
  shows "granted gs @ its' = its \<and> (its' = [] \<or> ws' = []) \<and> set ws' \<subseteq> set ws"
  using assms
proof (induction ws arbitrary: its gs its' ws')
  case (Cons w ws)
  define got where "got = (if gone (wt_id w) then [] else take (wt_number w) its)"
  define i1 where "i1 = (if gone (wt_id w) then its else drop (wt_number w) its)"
  define grant where "grant = (if gone (wt_id w) then [] else [(wt_id w, got)])"
  have its: "its = granted grant @ i1"
    by (simp add: got_def i1_def grant_def)
  obtain gs1 a b where r: "serve gone i1 ws = (gs1, a, b)" by (cases "serve gone i1 ws") auto
  have unf: "serve gone its (w # ws) = (if i1 = [] then (grant, i1, ws) else (grant @ gs1, a, b))"
    using r by (cases "gone (wt_id w)") (simp_all add: got_def i1_def grant_def items_get_def)
  show ?case
    using Cons.IH [OF r] Cons.prems its unfolding unf by (auto split: if_splits)
qed simp

lemma Queue_Put_ok:
  assumes "queue_ok q" "Queue_Put gone its q = (None, gs, q')"
  shows "granted gs @ qu_items q' = qu_items q @ its \<and> queue_ok q'"
proof (cases "its = []")
  case False
  obtain gs1 a b where r: "serve gone (qu_items q @ its) (qu_waiters q) = (gs1, a, b)"
    by (cases "serve gone (qu_items q @ its) (qu_waiters q)") auto
  have "\<not> qu_disposed q" "gs = gs1" "q' = q\<lparr>qu_items := a, qu_waiters := b\<rparr>"
    using assms(2) False r by (auto simp: Queue_Put_def split: if_splits)
  then show ?thesis
    using serve_sound [OF r] assms(1) by (auto simp: queue_ok_def)
qed (use assms in \<open>auto simp: Queue_Put_def\<close>)

definition polled :: "'a poll_result \<Rightarrow> 'a list" where
  "polled r = (case r of Returned xs \<Rightarrow> xs | _ \<Rightarrow> [])"

lemma Queue_Poll_ok:
  assumes "queue_ok q" "Queue_Poll me number q = (r, q')"
  shows "polled r @ qu_items q' = qu_items q \<and> queue_ok q'"
  using assms by (auto simp: Queue_Poll_def polled_def items_get_def queue_ok_def split: if_splits)

subsection \<open>Runs\<close>

text \<open>What has been put and what has been handed out, by any interleaving of producers, consumers
  and timers.\<close>

inductive queue_run :: "'a list \<Rightarrow> 'a list \<Rightarrow> 'a Queue \<Rightarrow> bool" where
  new: "queue_run [] [] Queue_New"
| put: "queue_run (P @ its) (T @ granted gs) q'"
    if "queue_run P T q" "Queue_Put gone its q = (None, gs, q')"
| poll: "queue_run P (T @ polled r) q'"
    if "queue_run P T q" "Queue_Poll me number q = (r, q')"
| timeout: "queue_run P T (Poll_timeout me q)"
    if "queue_run P T q"

text \<open>C25: the queue is first in, first out across all its consumers: what was handed out, to
  waiting and to polling consumers, followed by what is still queued, is what was put, so that
  nothing is lost or handed out twice; and no consumer waits while an item is queued.\<close>

theorem queue_fifo:
  assumes "queue_run P T q"
  shows "T @ qu_items q = P \<and> (qu_items q = [] \<or> qu_waiters q = [])"
proof -
  have "T @ qu_items q = P \<and> queue_ok q"
    using assms
  proof induction
    case new
    then show ?case by (simp add: Queue_New_def queue_ok_def)
  next
    case (put P T q gone its gs q')
    then show ?case using Queue_Put_ok [of q gone its gs q'] by (metis append.assoc)
  next
    case (poll P T q me number r q')
    then show ?case using Queue_Poll_ok [of q me number r q'] by (metis append.assoc)
  next
    case (timeout P T q me)
    then show ?case by (auto simp: Poll_timeout_def queue_ok_def)
  qed
  then show ?thesis by (simp add: queue_ok_def)
qed

theorem queue_fifo_witness:
  "queue_run [1, 2, 3 :: nat] [1, 2] \<lparr>qu_items = [3], qu_waiters = [], qu_disposed = False\<rparr> \<and>
   [1, 2] @ qu_items \<lparr>qu_items = [3], qu_waiters = [], qu_disposed = False\<rparr> = [1, 2, 3 :: nat]"
proof -
  let ?w = "\<lparr>qu_items = [] :: nat list, qu_waiters = [\<lparr>wt_id = 7, wt_number = 2\<rparr>], qu_disposed = False\<rparr>"
  let ?q = "\<lparr>qu_items = [3 :: nat], qu_waiters = [], qu_disposed = False\<rparr>"
  have "queue_run [] ([] @ polled (Waiting :: nat poll_result)) ?w"
    by (rule queue_run.poll [OF queue_run.new, of 7 2]) (simp add: Queue_Poll_def Queue_New_def)
  then have "queue_run [] [] ?w" by (simp add: polled_def)
  then have "queue_run ([] @ [1, 2, 3]) ([] @ granted [(7, [1, 2])]) ?q"
    by (rule queue_run.put [where gone = "\<lambda>_. False"]) (simp add: Queue_Put_def items_get_def)
  then have run: "queue_run [1, 2, 3] [1, 2] ?q" by simp
  from queue_fifo [OF run] run show ?thesis by simp
qed

end
