(* ===== verification/Pd_Watch.thy ===== *)
theory Pd_Watch
  imports Pd_Cache Offset_Queue Util_Queue
begin

text \<open>
  The watchers of the placement driver: \<^verbatim>\<open>pkg/pdserver/watcher.go\<close> on the server,
  \<^verbatim>\<open>pkg/pd/watcher.go\<close> in the client and the event numbers of \<^verbatim>\<open>pkg/pd/event.go\<close>.  The server keeps an
  offset queue of events for each watcher and tells it the newest offset; the client asks for
  the events after the offset it has.  The connection is two lists of messages.  The order in
  which \<^verbatim>\<open>notify\<close> walks the map of watchers is a parameter.
\<close>

unbundle bit_operations_syntax

subsection \<open>Events\<close>

type_synonym u32 = "32 word"

abbreviation (input) EventInit :: u32 where "EventInit \<equiv> 2"
abbreviation (input) EventCellCreated :: u32 where "EventCellCreated \<equiv> 4"
abbreviation (input) EventCellLeaderChanged :: u32 where "EventCellLeaderChanged \<equiv> 8"
abbreviation (input) EventCellRangeChaned :: u32 where "EventCellRangeChaned \<equiv> 16"
abbreviation (input) EventCellPeersChaned :: u32 where "EventCellPeersChaned \<equiv> 32"
abbreviation (input) EventStoreUp :: u32 where "EventStoreUp \<equiv> 64"
abbreviation (input) EventStoreDown :: u32 where "EventStoreDown \<equiv> 128"
abbreviation (input) EventStoreTombstone :: u32 where "EventStoreTombstone \<equiv> 256"

definition MatchEvent :: "u32 \<Rightarrow> u32 \<Rightarrow> bool" where
  "MatchEvent event flag = (event = 0 \<or> event AND flag \<noteq> 0)"

record pdEvent =
  pe_Event :: u32
  pe_Body :: "WatchEvent option"

text \<open>The number of an event of the cache.\<close>

definition event_number :: "WatchEvent \<Rightarrow> u32" where
  "event_number e =
     (case e of CellCreated _ _ \<Rightarrow> EventCellCreated | CellLeaderChanged _ _ \<Rightarrow> EventCellLeaderChanged
      | CellRangeChaned _ _ \<Rightarrow> EventCellRangeChaned | CellPeersChaned _ _ \<Rightarrow> EventCellPeersChaned
      | StoreUp _ \<Rightarrow> EventStoreUp | StoreDown _ \<Rightarrow> EventStoreDown | StoreTombstone _ \<Rightarrow> EventStoreTombstone)"

definition cache_event :: "WatchEvent \<Rightarrow> pdEvent" where
  "cache_event e = \<lparr>pe_Event = event_number e, pe_Body = Some e\<rparr>"

definition empty_event :: pdEvent where
  "empty_event = \<lparr>pe_Event = 0, pe_Body = None\<rparr>"

definition init_event :: pdEvent where
  "init_event = \<lparr>pe_Event = EventInit, pe_Body = None\<rparr>"

subsection \<open>The notifier\<close>

datatype watchState = W_ready | W_paused

record watcherState =
  ws_Addr :: string
  ws_EventFlag :: u32
  ws_state :: watchState
  ws_timer :: bool
  ws_q :: "pdEvent OffsetQueue"
  ws_last :: u64

record notify_item =
  nt_watcher :: string
  nt_offset :: u64

text \<open>\<open>wn_hand\<close> are the items the notifier's loop has taken from the queue and not yet handled;
  \<open>wn_dropped\<close> the addresses whose connection was taken out of the pool.\<close>

record watcherNotifier =
  wn_notifies :: "notify_item Queue"
  wn_hand :: "notify_item list"
  wn_watchers :: "string \<rightharpoonup> watcherState"
  wn_dropped :: "string list"

definition newWatcherNotifier :: watcherNotifier where
  "newWatcherNotifier = \<lparr>wn_notifies = Queue_New, wn_hand = [], wn_watchers = Map.empty, wn_dropped = []\<rparr>"

definition newWatcherState :: "string \<Rightarrow> u32 \<Rightarrow> watcherState" where
  "newWatcherState addr flag =
     \<lparr>ws_Addr = addr, ws_EventFlag = flag, ws_state = W_ready, ws_timer = False, ws_q = NewOffsetQueue, ws_last = 0\<rparr>"

definition ws_reset :: "watcherState \<Rightarrow> watcherState" where
  "ws_reset st = st\<lparr>ws_timer := False, ws_state := W_ready, ws_q := NewOffsetQueue, ws_last := 0\<rparr>"

definition ws_pause :: "watcherState \<Rightarrow> watcherState" where
  "ws_pause st = (ws_reset st)\<lparr>ws_state := W_paused\<rparr>"

definition isReady :: "watcherState \<Rightarrow> bool" where
  "isReady st = (ws_state st = W_ready)"

definition isPause :: "watcherState \<Rightarrow> bool" where
  "isPause st = (ws_state st = W_paused)"

definition put_state :: "string \<Rightarrow> watcherState \<Rightarrow> watcherNotifier \<Rightarrow> watcherNotifier" where
  "put_state addr st n = n\<lparr>wn_watchers := (wn_watchers n)(addr \<mapsto> st)\<rparr>"

definition same_watcher :: "notify_item \<Rightarrow> notify_item \<Rightarrow> bool" where
  "same_watcher a b = (nt_watcher a = nt_watcher b)"

text \<open>An item is put for a loop that may be waiting for it.\<close>

definition notifies_PutOrUpdate :: "notify_item \<Rightarrow> watcherNotifier \<Rightarrow> watcherNotifier" where
  "notifies_PutOrUpdate nt n =
     (case Queue_PutOrUpdate (\<lambda>_. False) same_watcher nt (wn_notifies n) of
        (_, gs, q) \<Rightarrow> n\<lparr>wn_notifies := q, wn_hand := wn_hand n @ granted gs\<rparr>)"

definition notifies_Put :: "notify_item \<Rightarrow> watcherNotifier \<Rightarrow> watcherNotifier" where
  "notifies_Put nt n =
     (case Queue_Put (\<lambda>_. False) [nt] (wn_notifies n) of
        (_, gs, q) \<Rightarrow> n\<lparr>wn_notifies := q, wn_hand := wn_hand n @ granted gs\<rparr>)"

definition notifyWithoutLock :: "string \<Rightarrow> pdEvent \<Rightarrow> watcherNotifier \<Rightarrow> watcherNotifier" where
  "notifyWithoutLock addr event n =
     (case wn_watchers n addr of
        None \<Rightarrow> n
      | Some st \<Rightarrow>
          if isReady st \<and> MatchEvent (pe_Event event) (ws_EventFlag st)
          then (let (offset, q) = OQ_Add (ws_q st) event
                in notifies_PutOrUpdate \<lparr>nt_watcher = ws_Addr st, nt_offset = offset\<rparr>
                     (put_state addr (st\<lparr>ws_q := q\<rparr>) n))
          else n)"

definition wn_notify :: "string list \<Rightarrow> pdEvent \<Rightarrow> watcherNotifier \<Rightarrow> watcherNotifier" where
  "wn_notify order event n = fold (\<lambda>addr. notifyWithoutLock addr event) order n"

definition wn_resetTimeout :: "string \<Rightarrow> watcherNotifier \<Rightarrow> watcherNotifier" where
  "wn_resetTimeout addr n =
     (case wn_watchers n addr of None \<Rightarrow> n | Some st \<Rightarrow> put_state addr (st\<lparr>ws_timer := True\<rparr>) n)"

definition addWatcher :: "string \<Rightarrow> u32 \<Rightarrow> watcherNotifier \<Rightarrow> watcherNotifier" where
  "addWatcher addr flag n =
     (let st = (case wn_watchers n addr of Some st \<Rightarrow> ws_reset st | None \<Rightarrow> newWatcherState addr flag);
          n = wn_resetTimeout addr (put_state addr st n)
      in notifyWithoutLock addr init_event (notifyWithoutLock addr empty_event n))"

definition removeWatcher :: "string \<Rightarrow> watcherNotifier \<Rightarrow> watcherNotifier" where
  "removeWatcher addr n = n\<lparr>wn_watchers := (wn_watchers n)(addr := None), wn_dropped := wn_dropped n @ [addr]\<rparr>"

text \<open>\<^verbatim>\<open>removedAllWatcher\<close> holds the lock that \<^verbatim>\<open>removeWatcher\<close> takes again; with a watcher registered it
  never returns, the value \<open>None\<close>.\<close>

definition removedAllWatcher :: "watcherNotifier \<Rightarrow> watcherNotifier option" where
  "removedAllWatcher n = (if wn_watchers n = Map.empty then Some n else None)"

definition wn_pause :: "string \<Rightarrow> bool \<Rightarrow> watcherNotifier \<Rightarrow> watcherNotifier" where
  "wn_pause addr remove n =
     (let n = (if remove then n\<lparr>wn_dropped := wn_dropped n @ [addr]\<rparr> else n)
      in case wn_watchers n addr of None \<Rightarrow> n | Some st \<Rightarrow> put_state addr (ws_pause st) n)"

definition watcherTimeout :: "string \<Rightarrow> watcherNotifier \<Rightarrow> watcherNotifier" where
  "watcherTimeout addr n = wn_pause addr True n"

definition wn_resume :: "string \<Rightarrow> watcherNotifier \<Rightarrow> bool \<times> watcherNotifier" where
  "wn_resume addr n =
     (case wn_watchers n addr of
        None \<Rightarrow> (False, n)
      | Some st \<Rightarrow>
          (let st' = (if isPause st then st\<lparr>ws_state := W_ready\<rparr> else st)
           in (isPause st, wn_resetTimeout addr (put_state addr st' n))))"

definition wn_watcherHeartbeat :: "string \<Rightarrow> u64 \<Rightarrow> watcherNotifier \<Rightarrow> bool \<times> watcherNotifier" where
  "wn_watcherHeartbeat addr offset n =
     (case wn_resume addr n of (value, n) \<Rightarrow>
        (value,
         case wn_watchers n addr of
           Some st \<Rightarrow>
             (if \<not> value \<and> offset < OQ_GetMaxOffset (ws_q st)
              then notifies_Put \<lparr>nt_watcher = addr, nt_offset = OQ_GetMaxOffset (ws_q st)\<rparr> n else n)
         | None \<Rightarrow> n))"

definition allowNotify :: "string \<Rightarrow> watcherNotifier \<Rightarrow> bool" where
  "allowNotify addr n = (case wn_watchers n addr of Some st \<Rightarrow> isReady st | None \<Rightarrow> False)"

text \<open>The condition groups as in the source: \<^verbatim>\<open>&&\<close> binds before \<^verbatim>\<open>||\<close>.\<close>

definition allowSend :: "notify_item \<Rightarrow> watcherNotifier \<Rightarrow> bool \<times> watcherNotifier" where
  "allowSend nt n =
     (case wn_watchers n (nt_watcher nt) of
        Some st \<Rightarrow>
          if (isReady st \<and> ws_last st = 0) \<or> ws_last st < nt_offset nt
          then (True, put_state (nt_watcher nt) (st\<lparr>ws_last := nt_offset nt\<rparr>) n)
          else (False, n)
      | None \<Rightarrow> (False, n))"

text \<open>One round of the loop in \<^verbatim>\<open>start\<close>: take a batch, or handle an item of the batch.  \<open>sent\<close> tells
  whether a connection was found and took the message.\<close>

definition loop_take :: "watcherNotifier \<Rightarrow> watcherNotifier" where
  "loop_take n =
     (case Queue_Poll 0 64 (wn_notifies n) of
        (Returned its, q) \<Rightarrow> n\<lparr>wn_notifies := q, wn_hand := its\<rparr>
      | (_, q) \<Rightarrow> n\<lparr>wn_notifies := q\<rparr>)"

definition loop_item :: "bool \<Rightarrow> notify_item \<Rightarrow> watcherNotifier \<Rightarrow> u64 option \<times> watcherNotifier" where
  "loop_item sent nt n =
     (if \<not> allowNotify (nt_watcher nt) n then (None, n)
      else case allowSend nt n of
             (False, n) \<Rightarrow> (None, n)
           | (True, n) \<Rightarrow> if sent then (Some (nt_offset nt), n) else (None, wn_pause (nt_watcher nt) True n))"

definition wn_sync :: "string \<Rightarrow> u64 \<Rightarrow> watcherNotifier \<Rightarrow> fault + (pdEvent list \<times> u64) option \<times> watcherNotifier" where
  "wn_sync addr offset n =
     (case wn_watchers n addr of
        Some st \<Rightarrow>
          if isReady st
          then sbind (OQ_Get (ws_q st) offset) (\<lambda>((items, mx), q). Inr (Some (items, mx), put_state addr (st\<lparr>ws_q := q\<rparr>) n))
          else Inr (None, n)
      | None \<Rightarrow> Inr (None, n))"

subsection \<open>The client\<close>

text \<open>\<open>cw_delivered\<close> is what went through the channel of \<^verbatim>\<open>Ready\<close>.\<close>

record Watcher =
  cw_localOffset :: u64
  cw_serverOffset :: u64
  cw_syncing :: bool
  cw_delivered :: "pdEvent list"

definition NewWatcher :: Watcher where
  "NewWatcher = \<lparr>cw_localOffset = 0, cw_serverOffset = 0, cw_syncing = False, cw_delivered = []\<rparr>"

definition doNotify :: "pdEvent list \<Rightarrow> Watcher \<Rightarrow> Watcher" where
  "doNotify events w = w\<lparr>cw_delivered := cw_delivered w @ filter (\<lambda>e. pe_Event e > 0) events\<rparr>"

text \<open>\<^verbatim>\<open>sync\<close> returns the requests it sent, for a write that succeeds.  A write that fails leaves the flag as
  it was and ends the connection: no request went out, and \<open>cw_connect\<close> on the same watcher is what follows.\<close>

definition cw_sync :: "Watcher \<Rightarrow> u64 list \<times> Watcher" where
  "cw_sync w = (if \<not> cw_syncing w then ([cw_localOffset w], w\<lparr>cw_syncing := True\<rparr>) else ([], w))"

text \<open>\<^verbatim>\<open>doConnection\<close>: what it does at the start, and its two messages.\<close>

definition cw_connect :: "Watcher \<Rightarrow> Watcher" where
  "cw_connect w = w\<lparr>cw_localOffset := 0\<rparr>"

definition cw_onNotify :: "u64 \<Rightarrow> Watcher \<Rightarrow> u64 list \<times> Watcher" where
  "cw_onNotify offset w =
     (if offset = 0 \<or> offset > cw_localOffset w then cw_sync (w\<lparr>cw_serverOffset := offset\<rparr>) else ([], w))"

definition cw_onRsp :: "pdEvent list \<Rightarrow> u64 \<Rightarrow> Watcher \<Rightarrow> u64 list \<times> Watcher" where
  "cw_onRsp events offset w =
     (let w = doNotify events (w\<lparr>cw_syncing := False, cw_localOffset := offset\<rparr>)
      in if cw_localOffset w < cw_serverOffset w then cw_sync w else ([], w))"

definition cw_doHeartbeat :: "bool \<Rightarrow> Watcher \<Rightarrow> Watcher" where
  "cw_doHeartbeat paused w = (if paused then doNotify [init_event] (w\<lparr>cw_localOffset := 0\<rparr>) else w)"

end
