(* ===== verification/Pd_Watch_Props.thy ===== *)
theory Pd_Watch_Props
  imports Pd_Watch
begin

text \<open>
  What a watcher of the placement driver receives: the events of its subscription, in order and
  without gap or repetition, for as long as the connection lasts; and what becomes of it when
  the connection is lost or the watcher was paused.
\<close>

subsection \<open>The queue of notifications\<close>

definition pending :: "string \<Rightarrow> watcherNotifier \<Rightarrow> notify_item list" where
  "pending addr n = filter (\<lambda>nt. nt_watcher nt = addr) (wn_hand n @ qu_items (wn_notifies n))"

definition open_queue :: "watcherNotifier \<Rightarrow> bool" where
  "open_queue n \<longleftrightarrow> \<not> qu_disposed (wn_notifies n)"

lemma PutOrUpdate_all:
  assumes "open_queue n"
  shows "wn_hand (notifies_PutOrUpdate nt n) @ qu_items (wn_notifies (notifies_PutOrUpdate nt n)) =
      wn_hand n @ put_or_update same_watcher nt (qu_items (wn_notifies n)) \<and>
    open_queue (notifies_PutOrUpdate nt n) \<and> wn_watchers (notifies_PutOrUpdate nt n) = wn_watchers n"
proof -
  obtain gs its ws where r: "serve (\<lambda>_. False) (put_or_update same_watcher nt (qu_items (wn_notifies n)))
      (qu_waiters (wn_notifies n)) = (gs, its, ws)"
    by (cases "serve (\<lambda>_. False) (put_or_update same_watcher nt (qu_items (wn_notifies n))) (qu_waiters (wn_notifies n))") auto
  show ?thesis
    using serve_sound [OF r] assms r by (simp add: notifies_PutOrUpdate_def Queue_PutOrUpdate_def open_queue_def)
qed

lemma Put_all:
  assumes "open_queue n"
  shows "wn_hand (notifies_Put nt n) @ qu_items (wn_notifies (notifies_Put nt n)) =
      wn_hand n @ qu_items (wn_notifies n) @ [nt] \<and>
    open_queue (notifies_Put nt n) \<and> wn_watchers (notifies_Put nt n) = wn_watchers n"
proof -
  obtain gs its ws where r: "serve (\<lambda>_. False) (qu_items (wn_notifies n) @ [nt]) (qu_waiters (wn_notifies n)) = (gs, its, ws)"
    by (cases "serve (\<lambda>_. False) (qu_items (wn_notifies n) @ [nt]) (qu_waiters (wn_notifies n))") auto
  show ?thesis
    using serve_sound [OF r] assms r by (simp add: notifies_Put_def Queue_Put_def open_queue_def)
qed

lemma put_or_update_other:
  "nt_watcher nt \<noteq> addr \<Longrightarrow>
   filter (\<lambda>x. nt_watcher x = addr) (put_or_update same_watcher nt its) = filter (\<lambda>x. nt_watcher x = addr) its"
  by (induction its) (auto simp: same_watcher_def)

lemma put_or_update_set: "nt \<in> set (put_or_update eq nt its) \<and> set (put_or_update eq nt its) \<subseteq> insert nt (set its)"
  by (induction its) auto

lemma pending_PutOrUpdate:
  assumes "open_queue n"
  shows "nt_watcher nt \<noteq> addr \<Longrightarrow> pending addr (notifies_PutOrUpdate nt n) = pending addr n"
    "nt_watcher nt = addr \<Longrightarrow> nt \<in> set (pending addr (notifies_PutOrUpdate nt n)) \<and>
       set (pending addr (notifies_PutOrUpdate nt n)) \<subseteq> insert nt (set (pending addr n))"
proof -
  note all = PutOrUpdate_all [OF assms, of nt]
  have p: "pending addr (notifies_PutOrUpdate nt n) = filter (\<lambda>x. nt_watcher x = addr)
      (wn_hand n @ put_or_update same_watcher nt (qu_items (wn_notifies n)))"
    unfolding pending_def using all by presburger
  show "nt_watcher nt \<noteq> addr \<Longrightarrow> pending addr (notifies_PutOrUpdate nt n) = pending addr n"
    by (subst p) (simp add: pending_def put_or_update_other)
  show "nt_watcher nt = addr \<Longrightarrow> nt \<in> set (pending addr (notifies_PutOrUpdate nt n)) \<and>
       set (pending addr (notifies_PutOrUpdate nt n)) \<subseteq> insert nt (set (pending addr n))"
    using put_or_update_set [of nt same_watcher "qu_items (wn_notifies n)"]
    by (subst (1 2) p) (auto simp: pending_def)
qed

lemma pending_Put:
  assumes "open_queue n"
  shows "pending addr (notifies_Put nt n) = pending addr n @ (if nt_watcher nt = addr then [nt] else [])"
proof -
  have "pending addr (notifies_Put nt n) = filter (\<lambda>x. nt_watcher x = addr) (wn_hand n @ qu_items (wn_notifies n) @ [nt])"
    unfolding pending_def using Put_all [OF assms, of nt] by presburger
  then show ?thesis by (simp add: pending_def)
qed

lemma put_state_simps [simp]:
  "pending addr (put_state b st n) = pending addr n" "open_queue (put_state b st n) = open_queue n"
  "wn_watchers (put_state b st n) = (wn_watchers n)(b \<mapsto> st)"
  by (simp_all add: pending_def open_queue_def put_state_def)

lemma word_plus1_neq0: "Suc (unat x) < 2 ^ 64 \<Longrightarrow> (x :: u64) + 1 \<noteq> 0"
proof
  assume "Suc (unat x) < 2 ^ 64" "x + 1 = 0"
  then have "(of_nat (Suc (unat x)) :: u64) = 0" by (simp add: add.commute)
  then have "unat (of_nat (Suc (unat x)) :: u64) = 0" by (simp only: unat_0)
  moreover have "unat (of_nat (Suc (unat x)) :: u64) = Suc (unat x)"
    using \<open>Suc (unat x) < 2 ^ 64\<close> by (simp only: unat_of_nat_u64)
  ultimately show False by simp
qed

subsection \<open>The server's side of one watcher\<close>

text \<open>Every watcher is registered under its own address.\<close>

definition addr_ok :: "watcherNotifier \<Rightarrow> bool" where
  "addr_ok n \<longleftrightarrow> (\<forall>a st. wn_watchers n a = Some st \<longrightarrow> ws_Addr st = a)"

definition subscription :: "u32 \<Rightarrow> pdEvent list \<Rightarrow> pdEvent list" where
  "subscription flag evs = filter (\<lambda>e. MatchEvent (pe_Event e) flag) evs"

text \<open>The server knows the history of the watcher, and the newest offset is on its way or was sent.\<close>

definition served :: "string \<Rightarrow> u32 \<Rightarrow> pdEvent list \<Rightarrow> watcherNotifier \<Rightarrow> watcherState \<Rightarrow> bool" where
  "served addr flag h n st \<longleftrightarrow> wn_watchers n addr = Some st \<and> isReady st \<and> ws_EventFlag st = flag \<and>
     oq_view h (ws_q st) \<and> open_queue n \<and> addr_ok n \<and> h \<noteq> [] \<and>
     (\<forall>nt \<in> set (pending addr n). unat (nt_offset nt) < length h) \<and> unat (ws_last st) < length h \<and>
     ((\<exists>nt \<in> set (pending addr n). Suc (unat (nt_offset nt)) = length h) \<or> Suc (unat (ws_last st)) = length h)"

lemma notify_other:
  assumes "served addr flag h n st" "b \<noteq> addr"
  shows "served addr flag h (notifyWithoutLock b e n) st"
proof (cases "wn_watchers n b")
  case (Some bt)
  define off where "off = fst (OQ_Add (ws_q bt) e)"
  define m where "m = put_state b (bt\<lparr>ws_q := snd (OQ_Add (ws_q bt) e)\<rparr>) n"
  have bt: "ws_Addr bt = b" using assms(1) Some by (auto simp: served_def addr_ok_def)
  have m: "open_queue m" "pending addr m = pending addr n" "wn_watchers m = (wn_watchers n)(b \<mapsto> bt\<lparr>ws_q := snd (OQ_Add (ws_q bt) e)\<rparr>)"
    using assms(1) by (auto simp: m_def served_def)
  have "notifyWithoutLock b e n = n \<or> notifyWithoutLock b e n = notifies_PutOrUpdate \<lparr>nt_watcher = b, nt_offset = off\<rparr> m"
    using Some bt by (auto simp: notifyWithoutLock_def off_def m_def split: prod.splits)
  moreover have "served addr flag h (notifies_PutOrUpdate \<lparr>nt_watcher = b, nt_offset = off\<rparr> m) st"
    using assms PutOrUpdate_all [OF m(1), of "\<lparr>nt_watcher = b, nt_offset = off\<rparr>"]
      pending_PutOrUpdate(1) [OF m(1), of "\<lparr>nt_watcher = b, nt_offset = off\<rparr>" addr] m bt
    by (auto simp: served_def addr_ok_def)
  ultimately show ?thesis using assms(1) by auto
qed (use assms in \<open>simp add: notifyWithoutLock_def\<close>)

lemma notify_self:
  assumes "served addr flag h n st" "Suc (length h) < 2 ^ 64"
  shows "\<exists>st'. served addr flag (h @ subscription flag [e]) (notifyWithoutLock addr e n) st' \<and>
    ws_last st' = ws_last st \<and> oq_start (ws_q st') = oq_start (ws_q st)"
proof (cases "MatchEvent (pe_Event e) flag")
  case False
  then show ?thesis
    using assms(1) by (auto simp: served_def notifyWithoutLock_def subscription_def)
next
  case True
  define off where "off = fst (OQ_Add (ws_q st) e)"
  define st' where "st' = st\<lparr>ws_q := snd (OQ_Add (ws_q st) e)\<rparr>"
  define m where "m = put_state addr st' n"
  define nt where "nt = \<lparr>nt_watcher = addr, nt_offset = off\<rparr>"
  have s: "wn_watchers n addr = Some st" "isReady st" "ws_EventFlag st = flag" "oq_view h (ws_q st)" "ws_Addr st = addr" "open_queue m"
    "pending addr m = pending addr n" "h \<noteq> []"
    using assms(1) by (auto simp: served_def addr_ok_def m_def)
  have "oq_end (ws_q st) + 1 \<noteq> 0"
    using s(4) assms(2) by (intro word_plus1_neq0) (simp add: oq_view_def)
  from oq_view_add [OF s(4) this, of e] have v: "oq_view (h @ [e]) (ws_q st')" "unat off = length h"
    by (auto simp: st'_def off_def)
  have n': "notifyWithoutLock addr e n = notifies_PutOrUpdate nt m"
    using s True by (auto simp: notifyWithoutLock_def off_def m_def st'_def nt_def split: prod.splits)
  note all = PutOrUpdate_all [OF s(6), of nt]
  have pend: "nt \<in> set (pending addr (notifies_PutOrUpdate nt m))"
    "set (pending addr (notifies_PutOrUpdate nt m)) \<subseteq> insert nt (set (pending addr n))"
    using pending_PutOrUpdate(2) [OF s(6), of nt addr] s(7) by (auto simp: nt_def)
  have "wn_watchers m addr = Some st'" by (simp add: m_def)
  moreover have "addr_ok m" using assms(1) s(5) by (auto simp: served_def addr_ok_def m_def st'_def)
  moreover have "unat (nt_offset x) < length (h @ [e])" if "x \<in> set (pending addr (notifies_PutOrUpdate nt m))" for x
  proof -
    have "x = nt \<or> x \<in> set (pending addr n)" using that pend(2) by blast
    then show ?thesis using v(2) assms(1) by (auto simp: nt_def served_def intro: less_SucI)
  qed
  moreover have "\<exists>x \<in> set (pending addr (notifies_PutOrUpdate nt m)). Suc (unat (nt_offset x)) = length (h @ [e])"
    by (rule bexI [OF _ pend(1)]) (simp add: nt_def v(2))
  moreover have "isReady st'" "ws_EventFlag st' = flag" "unat (ws_last st') < length (h @ [e])"
    using s assms(1) by (auto simp: st'_def isReady_def served_def)
  ultimately have "served addr flag (h @ [e]) (notifies_PutOrUpdate nt m) st'"
    using all v(1) unfolding served_def addr_ok_def by simp
  then show ?thesis
    using True n' by (auto simp: subscription_def st'_def OQ_Add_def Let_def)
qed

lemma wn_notify_served:
  assumes "served addr flag h n st" "Suc (length h) < 2 ^ 64" "distinct order"
  shows "\<exists>st'. served addr flag (h @ (if addr \<in> set order then subscription flag [e] else [])) (wn_notify order e n) st' \<and>
    ws_last st' = ws_last st \<and> oq_start (ws_q st') = oq_start (ws_q st)"
proof -
  have other: "served addr flag g (fold (\<lambda>b. notifyWithoutLock b e) bs m) t" if "addr \<notin> set bs" "served addr flag g m t" for bs g m t
    using that by (induction bs arbitrary: m) (auto simp: notify_other)
  show ?thesis
  proof (cases "addr \<in> set order")
    case False
    then show ?thesis using other [OF False assms(1)] by (auto simp: wn_notify_def)
  next
    case True
    then obtain as bs where o: "order = as @ addr # bs" by (auto dest: split_list)
    have "addr \<notin> set as" "addr \<notin> set bs" using assms(3) o by auto
    moreover define m where "m = fold (\<lambda>b. notifyWithoutLock b e) as n"
    ultimately have m: "served addr flag h m st" using other [OF _ assms(1)] by simp
    obtain st' where st': "served addr flag (h @ subscription flag [e]) (notifyWithoutLock addr e m) st'"
      "ws_last st' = ws_last st" "oq_start (ws_q st') = oq_start (ws_q st)"
      using notify_self [OF m assms(2)] by blast
    then show ?thesis
      using other [OF \<open>addr \<notin> set bs\<close> st'(1)] True by (auto simp: wn_notify_def o m_def)
  qed
qed

subsection \<open>The system\<close>

datatype watch_msg = M_Notify u64 | M_Rsp "pdEvent list" u64

record watch_sys =
  sy_notifier :: watcherNotifier
  sy_client :: Watcher
  sy_down :: "watch_msg list"
  sy_up :: "u64 list"

definition noted :: "watch_msg list \<Rightarrow> u64 list" where
  "noted ms = List.map_filter (\<lambda>m. case m of M_Notify o' \<Rightarrow> Some o' | _ \<Rightarrow> None) ms"

definition rsps :: "watch_msg list \<Rightarrow> (pdEvent list \<times> u64) list" where
  "rsps ms = List.map_filter (\<lambda>m. case m of M_Rsp es o' \<Rightarrow> Some (es, o') | _ \<Rightarrow> None) ms"

lemma noted_simps [simp]:
  "noted [] = []" "noted (M_Notify o' # ms) = o' # noted ms" "noted (M_Rsp es o' # ms) = noted ms"
  "noted (ms @ ms') = noted ms @ noted ms'"
  "rsps [] = []" "rsps (M_Notify o' # ms) = rsps ms" "rsps (M_Rsp es o' # ms) = (es, o') # rsps ms"
  "rsps (ms @ ms') = rsps ms @ rsps ms'"
  by (simp_all add: noted_def rsps_def map_filter_simps map_filter_def)

text \<open>A watcher registers and its connection lasts: events for all watchers, the rounds of the
  notifier's loop, requests and answers, and heartbeats, in any order; other watchers come, go
  and are paused.\<close>

inductive watch_run :: "string \<Rightarrow> u32 \<Rightarrow> watcherNotifier \<Rightarrow> pdEvent list \<Rightarrow> watch_sys \<Rightarrow> bool"
  for addr :: string and flag :: u32 and n0 :: watcherNotifier where
  register: "watch_run addr flag n0 []
    \<lparr>sy_notifier = addWatcher addr flag n0, sy_client = NewWatcher, sy_down = [], sy_up = []\<rparr>"
| event: "watch_run addr flag n0 (evs @ [e]) (s\<lparr>sy_notifier := wn_notify order e (sy_notifier s)\<rparr>)"
    if "watch_run addr flag n0 evs s" "distinct order" "set order = dom (wn_watchers (sy_notifier s))"
| take_batch: "watch_run addr flag n0 evs (s\<lparr>sy_notifier := loop_take (sy_notifier s)\<rparr>)"
    if "watch_run addr flag n0 evs s" "wn_hand (sy_notifier s) = []"
| item: "watch_run addr flag n0 evs (s\<lparr>sy_notifier := n',
      sy_down := sy_down s @ (case out of Some o' \<Rightarrow> if nt_watcher nt = addr then [M_Notify o'] else [] | None \<Rightarrow> [])\<rparr>)"
    if "watch_run addr flag n0 evs s" "wn_hand (sy_notifier s) = nt # rest" "nt_watcher nt = addr \<longrightarrow> sent"
      "loop_item sent nt ((sy_notifier s)\<lparr>wn_hand := rest\<rparr>) = (out, n')"
| answer_sync: "watch_run addr flag n0 evs (s\<lparr>sy_notifier := n', sy_up := up, sy_down := sy_down s @ [M_Rsp es o']\<rparr>)"
    if "watch_run addr flag n0 evs s" "sy_up s = req # up" "wn_sync addr req (sy_notifier s) = Inr (Some (es, o'), n')"
| recv_notify: "watch_run addr flag n0 evs (s\<lparr>sy_down := ms, sy_client := c, sy_up := sy_up s @ reqs\<rparr>)"
    if "watch_run addr flag n0 evs s" "sy_down s = M_Notify o' # ms" "cw_onNotify o' (sy_client s) = (reqs, c)"
| recv_rsp: "watch_run addr flag n0 evs (s\<lparr>sy_down := ms, sy_client := c, sy_up := sy_up s @ reqs\<rparr>)"
    if "watch_run addr flag n0 evs s" "sy_down s = M_Rsp es o' # ms" "cw_onRsp es o' (sy_client s) = (reqs, c)"
| heartbeat: "watch_run addr flag n0 evs (s\<lparr>sy_notifier := n', sy_client := cw_doHeartbeat paused (sy_client s)\<rparr>)"
    if "watch_run addr flag n0 evs s"
      "wn_watcherHeartbeat addr (cw_localOffset (sy_client s)) (sy_notifier s) = (paused, n')"
| other_add: "watch_run addr flag n0 evs (s\<lparr>sy_notifier := addWatcher b flag' (sy_notifier s)\<rparr>)"
    if "watch_run addr flag n0 evs s" "b \<noteq> addr"
| other_remove: "watch_run addr flag n0 evs (s\<lparr>sy_notifier := removeWatcher b (sy_notifier s)\<rparr>)"
    if "watch_run addr flag n0 evs s" "b \<noteq> addr"
| other_timeout: "watch_run addr flag n0 evs (s\<lparr>sy_notifier := watcherTimeout b (sy_notifier s)\<rparr>)"
    if "watch_run addr flag n0 evs s" "b \<noteq> addr"

subsection \<open>The client's side\<close>

abbreviation real_events :: "pdEvent list \<Rightarrow> pdEvent list" where
  "real_events es \<equiv> filter (\<lambda>e. pe_Event e > 0) es"

text \<open>The client has delivered what lies up to its offset; at most one request or answer is under way,
  and the answer is the continuation; and the offsets that were announced only grow.\<close>

definition delivered_upto :: "pdEvent list \<Rightarrow> watcherState \<Rightarrow> Watcher \<Rightarrow> bool" where
  "delivered_upto h st c \<longleftrightarrow> unat (cw_localOffset c) < length h \<and>
     unat (oq_start (ws_q st)) \<le> Suc (unat (cw_localOffset c)) \<and>
     cw_delivered c = real_events (take (Suc (unat (cw_localOffset c))) h)"

definition exchange :: "pdEvent list \<Rightarrow> Watcher \<Rightarrow> watch_msg list \<Rightarrow> u64 list \<Rightarrow> bool" where
  "exchange h c down up \<longleftrightarrow>
     (if cw_syncing c
      then up = [cw_localOffset c] \<and> rsps down = [] \<or>
           up = [] \<and> (\<exists>es o'. rsps down = [(es, o')] \<and> unat o' < length h \<and> unat (cw_localOffset c) \<le> unat o' \<and>
              real_events es = real_events (drop (Suc (unat (cw_localOffset c))) (take (Suc (unat o')) h)))
      else up = [] \<and> rsps down = [] \<and> cw_serverOffset c \<le> cw_localOffset c)"

definition announced :: "watcherState \<Rightarrow> Watcher \<Rightarrow> watch_msg list \<Rightarrow> bool" where
  "announced st c down \<longleftrightarrow> sorted (cw_serverOffset c # noted down) \<and>
     (\<forall>x \<in> set (cw_serverOffset c # noted down). x \<le> ws_last st) \<and>
     (ws_last st \<in> set (noted down) \<or> cw_serverOffset c = ws_last st \<or> ws_last st \<le> cw_localOffset c)"

definition in_step :: "pdEvent list \<Rightarrow> watcherState \<Rightarrow> Watcher \<Rightarrow> watch_msg list \<Rightarrow> u64 list \<Rightarrow> bool" where
  "in_step h st c down up \<longleftrightarrow> delivered_upto h st c \<and> exchange h c down up \<and> announced st c down"

lemmas in_step_defs = in_step_def delivered_upto_def exchange_def announced_def

definition history :: "u32 \<Rightarrow> pdEvent list \<Rightarrow> pdEvent list" where
  "history flag evs = empty_event # subscription flag (init_event # evs)"

definition watch_inv :: "string \<Rightarrow> u32 \<Rightarrow> pdEvent list \<Rightarrow> watch_sys \<Rightarrow> bool" where
  "watch_inv addr flag evs s \<longleftrightarrow> (\<exists>st. served addr flag (history flag evs) (sy_notifier s) st \<and>
     in_step (history flag evs) st (sy_client s) (sy_down s) (sy_up s))"

subsection \<open>The invariant\<close>

lemma history_snoc: "history flag (evs @ [e]) = history flag evs @ subscription flag [e]"
  by (simp add: history_def subscription_def)

lemma history_length: "length (history flag evs) \<le> length evs + 2"
  by (simp add: history_def subscription_def le_SucI length_filter_le)

lemma in_step_extend:
  assumes "in_step h st c down up" "ws_last st' = ws_last st" "oq_start (ws_q st') = oq_start (ws_q st)"
  shows "in_step (h @ xs) st' c down up"
  using assms unfolding in_step_defs by (auto simp: take_append split: if_splits)

lemma in_step_cong:
  "in_step h st c down up \<Longrightarrow> ws_last st' = ws_last st \<Longrightarrow> oq_start (ws_q st') = oq_start (ws_q st) \<Longrightarrow>
   in_step h st' c down up"
  unfolding in_step_def delivered_upto_def announced_def by simp

lemma inv_register:
  assumes "wn_watchers n0 addr = None" "pending addr n0 = []" "open_queue n0" "addr_ok n0"
  shows "watch_inv addr flag [] \<lparr>sy_notifier = addWatcher addr flag n0, sy_client = NewWatcher, sy_down = [], sy_up = []\<rparr>"
proof -
  define st0 where "st0 = (newWatcherState addr flag)\<lparr>ws_timer := True\<rparr>"
  define n1 where "n1 = put_state addr st0 (put_state addr (newWatcherState addr flag) n0)"
  have n1: "wn_watchers n1 = (wn_watchers n0)(addr \<mapsto> st0)" "open_queue n1" "pending addr n1 = []"
    using assms by (auto simp: n1_def)
  define st1 where "st1 = st0\<lparr>ws_q := \<lparr>oq_start = 0, oq_end = 1, oq_items = [empty_event]\<rparr>\<rparr>"
  define m where "m = put_state addr st1 n1"
  define nt where "nt = \<lparr>nt_watcher = addr, nt_offset = 0\<rparr>"
  have "notifyWithoutLock addr empty_event n1 = notifies_PutOrUpdate nt m"
    by (simp add: notifyWithoutLock_def n1 st0_def st1_def m_def nt_def newWatcherState_def isReady_def
        MatchEvent_def empty_event_def OQ_Add_def NewOffsetQueue_def getMaxOffset0_def)
  moreover have m: "open_queue m" "pending addr m = []" "wn_watchers m = (wn_watchers n0)(addr \<mapsto> st1)"
    using n1 by (auto simp: m_def)
  have "served addr flag [empty_event] (notifies_PutOrUpdate nt m) st1"
    using PutOrUpdate_all [OF m(1), of nt] pending_PutOrUpdate(2) [OF m(1), of nt addr] m assms(4)
    by (auto simp: served_def st1_def st0_def newWatcherState_def isReady_def oq_view_def addr_ok_def nt_def)
  ultimately have "served addr flag [empty_event] (notifyWithoutLock addr empty_event n1) st1" by simp
  from notify_self [OF this, of init_event] obtain st' where
    st': "served addr flag ([empty_event] @ subscription flag [init_event]) (notifyWithoutLock addr init_event (notifyWithoutLock addr empty_event n1)) st'"
    "ws_last st' = ws_last st1" "oq_start (ws_q st') = oq_start (ws_q st1)" by auto
  have "addWatcher addr flag n0 = notifyWithoutLock addr init_event (notifyWithoutLock addr empty_event n1)"
    by (simp add: addWatcher_def assms(1) Let_def wn_resetTimeout_def n1_def st0_def)
  moreover have "in_step (history flag []) st' NewWatcher [] []"
    using st'(2,3) by (auto simp: in_step_defs NewWatcher_def st1_def st0_def newWatcherState_def history_def empty_event_def)
  ultimately show ?thesis
    using st'(1) by (auto simp: watch_inv_def history_def)
qed

lemma inv_event:
  assumes "watch_inv addr flag evs s" "distinct order" "set order = dom (wn_watchers (sy_notifier s))" "length evs + 3 < 2 ^ 64"
  shows "watch_inv addr flag (evs @ [e]) (s\<lparr>sy_notifier := wn_notify order e (sy_notifier s)\<rparr>)"
proof -
  obtain st where st: "served addr flag (history flag evs) (sy_notifier s) st"
    "in_step (history flag evs) st (sy_client s) (sy_down s) (sy_up s)"
    using assms(1) by (auto simp: watch_inv_def)
  have "addr \<in> set order" using st(1) assms(3) by (auto simp: served_def)
  moreover have "Suc (length (history flag evs)) < 2 ^ 64" using history_length [of flag evs] assms(4) by linarith
  ultimately obtain st' where "served addr flag (history flag (evs @ [e])) (wn_notify order e (sy_notifier s)) st'"
    "ws_last st' = ws_last st" "oq_start (ws_q st') = oq_start (ws_q st)"
    using wn_notify_served [OF st(1) _ assms(2), of e] by (auto simp: history_snoc)
  then show ?thesis
    using in_step_extend [OF st(2)] by (auto simp: watch_inv_def history_snoc)
qed

lemma served_keep:
  assumes "served addr flag h n st" "wn_watchers n' addr = Some st" "open_queue n'" "addr_ok n'" "pending addr n' = pending addr n"
  shows "served addr flag h n' st"
  using assms by (simp add: served_def)

lemma inv_take:
  assumes "watch_inv addr flag evs s" "wn_hand (sy_notifier s) = []"
  shows "watch_inv addr flag evs (s\<lparr>sy_notifier := loop_take (sy_notifier s)\<rparr>)"
proof -
  define n where "n = sy_notifier s"
  obtain st where st: "served addr flag (history flag evs) n st" "in_step (history flag evs) st (sy_client s) (sy_down s) (sy_up s)"
    using assms(1) by (auto simp: watch_inv_def n_def)
  have op: "\<not> qu_disposed (wn_notifies n)" using st(1) by (simp add: served_def open_queue_def)
  have "wn_watchers (loop_take n) = wn_watchers n \<and> open_queue (loop_take n) \<and> pending addr (loop_take n) = pending addr n"
    using assms(2) op
    by (auto simp: loop_take_def Queue_Poll_def items_get_def open_queue_def pending_def n_def [symmetric] filter_append [symmetric]
        simp del: filter_append)
  then have "served addr flag (history flag evs) (loop_take n) st"
    using st(1) by (auto simp: served_def addr_ok_def)
  then show ?thesis using st(2) by (auto simp: watch_inv_def n_def)
qed

lemma served_put_other:
  assumes "served addr flag h n st" "b \<noteq> addr" "ws_Addr bt = b"
  shows "served addr flag h (put_state b bt n) st"
  by (rule served_keep [OF assms(1)]) (use assms in \<open>auto simp: served_def addr_ok_def\<close>)

lemma served_dropped [simp]: "served addr flag h (n\<lparr>wn_dropped := x\<rparr>) st = served addr flag h n st"
  by (simp add: served_def addr_ok_def pending_def open_queue_def)

lemma served_addr: "served addr flag h n st \<Longrightarrow> wn_watchers n b = Some bt \<Longrightarrow> ws_Addr bt = b"
  by (simp add: served_def addr_ok_def)

lemma served_pause_other:
  assumes "served addr flag h n st" "b \<noteq> addr"
  shows "served addr flag h (wn_pause b remove n) st"
proof -
  define m where "m = (if remove then n\<lparr>wn_dropped := wn_dropped n @ [b]\<rparr> else n)"
  have m: "served addr flag h m st" using assms(1) by (simp add: m_def)
  have "wn_pause b remove n = (case wn_watchers m b of None \<Rightarrow> m | Some bt \<Rightarrow> put_state b (ws_pause bt) m)"
    by (simp only: wn_pause_def m_def Let_def)
  then show ?thesis
    using m served_put_other [OF m assms(2)] served_addr [OF m]
    by (auto simp: ws_pause_def ws_reset_def split: option.splits)
qed

lemma loop_item_other:
  assumes "served addr flag h n st" "nt_watcher nt \<noteq> addr" "loop_item sent nt n = (out, n')"
  shows "served addr flag h n' st"
proof -
  consider "n' = n" | bt where "wn_watchers n (nt_watcher nt) = Some bt"
      "n' = put_state (nt_watcher nt) (bt\<lparr>ws_last := nt_offset nt\<rparr>) n \<or>
       n' = wn_pause (nt_watcher nt) True (put_state (nt_watcher nt) (bt\<lparr>ws_last := nt_offset nt\<rparr>) n)"
    using assms(3) by (auto simp: loop_item_def allowSend_def split: if_splits option.splits)
  then show ?thesis
  proof cases
    case (2 bt)
    have "served addr flag h (put_state (nt_watcher nt) (bt\<lparr>ws_last := nt_offset nt\<rparr>) n) st"
      using served_addr [OF assms(1) 2(1)] by (intro served_put_other [OF assms(1,2)]) simp
    then show ?thesis using 2(2) served_pause_other [OF _ assms(2)] by auto
  qed (use assms in simp)
qed

lemma loop_item_self:
  assumes "served addr flag h n st" "in_step h st c down up" "wn_hand n = nt # rest" "nt_watcher nt = addr"
    and "loop_item True nt (n\<lparr>wn_hand := rest\<rparr>) = (out, n')"
  shows "\<exists>st'. served addr flag h n' st' \<and>
    in_step h st' c (down @ (case out of Some o' \<Rightarrow> [M_Notify o'] | None \<Rightarrow> [])) up"
proof -
  define m where "m = n\<lparr>wn_hand := rest\<rparr>"
  have pend: "pending addr n = nt # pending addr m" using assms(3,4) by (simp add: pending_def m_def)
  have m: "wn_watchers m = wn_watchers n" "open_queue m = open_queue n" "addr_ok m = addr_ok n"
    by (simp_all add: m_def open_queue_def addr_ok_def)
  have st: "wn_watchers n addr = Some st" "isReady st" "unat (nt_offset nt) < length h" "unat (ws_last st) < length h"
    using assms(1) pend by (auto simp: served_def)
  show ?thesis
  proof (cases "ws_last st = 0 \<or> ws_last st < nt_offset nt")
    case True
    define st' where "st' = st\<lparr>ws_last := nt_offset nt\<rparr>"
    have out: "out = Some (nt_offset nt)" "n' = put_state addr st' m"
      using assms(4,5) True st m by (auto simp: loop_item_def allowNotify_def allowSend_def m_def [symmetric] st'_def)
    have le: "ws_last st \<le> nt_offset nt" using True by auto
    have "(\<exists>x \<in> set (pending addr m). Suc (unat (nt_offset x)) = length h) \<or> Suc (unat (nt_offset nt)) = length h"
      using assms(1) pend le st(3) by (auto simp: served_def word_le_nat_alt)
    then have "served addr flag h n' st'"
      using assms(1) st(3) m pend by (auto simp: served_def out st'_def isReady_def addr_ok_def)
    moreover have "in_step h st' c (down @ [M_Notify (nt_offset nt)]) up"
    proof -
      have "\<forall>x \<in> set (cw_serverOffset c # noted down). x \<le> nt_offset nt"
        using assms(2) le order_trans by (fastforce simp: in_step_def announced_def)
      then show ?thesis
        using assms(2) by (auto simp: in_step_def delivered_upto_def exchange_def announced_def st'_def sorted_append)
    qed
    ultimately show ?thesis using out by auto
  next
    case False
    then have out: "out = None" "n' = m"
      using assms(4,5) st m by (auto simp: loop_item_def allowNotify_def allowSend_def m_def [symmetric])
    have "(\<exists>x \<in> set (pending addr m). Suc (unat (nt_offset x)) = length h) \<or> Suc (unat (ws_last st)) = length h"
      using assms(1) pend False st(4) by (auto simp: served_def word_less_nat_alt not_less)
    then have "served addr flag h n' st"
      using assms(1) m pend by (auto simp: served_def out)
    then show ?thesis using assms(2) out by auto
  qed
qed

lemma inv_item:
  assumes "watch_inv addr flag evs s" "wn_hand (sy_notifier s) = nt # rest" "nt_watcher nt = addr \<longrightarrow> sent"
    and "loop_item sent nt ((sy_notifier s)\<lparr>wn_hand := rest\<rparr>) = (out, n')"
  shows "watch_inv addr flag evs (s\<lparr>sy_notifier := n',
      sy_down := sy_down s @ (case out of Some o' \<Rightarrow> if nt_watcher nt = addr then [M_Notify o'] else [] | None \<Rightarrow> [])\<rparr>)"
proof -
  obtain st where st: "served addr flag (history flag evs) (sy_notifier s) st"
    "in_step (history flag evs) st (sy_client s) (sy_down s) (sy_up s)"
    using assms(1) by (auto simp: watch_inv_def)
  show ?thesis
  proof (cases "nt_watcher nt = addr")
    case True
    then show ?thesis
      using loop_item_self [OF st assms(2) True] assms(3,4) by (auto simp: watch_inv_def split: option.splits)
  next
    case False
    have "served addr flag (history flag evs) ((sy_notifier s)\<lparr>wn_hand := rest\<rparr>) st"
      by (rule served_keep [OF st(1)]) (use st(1) assms(2) False in \<open>auto simp: served_def addr_ok_def open_queue_def pending_def\<close>)
    then show ?thesis
      using loop_item_other [OF _ False assms(4)] st(2) False by (auto simp: watch_inv_def split: option.splits)
  qed
qed

lemma real_events_tail: "real_events (history flag evs) = real_events (drop (Suc 0) (history flag evs))"
  by (simp add: history_def empty_event_def)

lemma inv_sync:
  assumes "watch_inv addr flag evs s" "sy_up s = req # up" "wn_sync addr req (sy_notifier s) = Inr (Some (es, o'), n')"
  shows "watch_inv addr flag evs (s\<lparr>sy_notifier := n', sy_up := up, sy_down := sy_down s @ [M_Rsp es o']\<rparr>)"
proof -
  define h where "h = history flag evs"
  define c where "c = sy_client s"
  obtain st where st: "served addr flag h (sy_notifier s) st" "in_step h st c (sy_down s) (sy_up s)"
    using assms(1) by (auto simp: watch_inv_def h_def c_def)
  define l where "l = unat (cw_localOffset c)"
  have c: "req = cw_localOffset c" "up = []" "rsps (sy_down s) = []" "l < length h" "unat (oq_start (ws_q st)) \<le> Suc l" "cw_syncing c"
    using st(2) assms(2) by (auto simp: in_step_def delivered_upto_def exchange_def l_def split: if_splits)
  have view: "oq_view h (ws_q st)" "h \<noteq> []" using st(1) by (auto simp: served_def)
  have mx: "oq_end (ws_q st) \<noteq> 0" "Suc (unat (getMaxOffset0 (ws_q st))) = length h"
    using view by (auto simp: oq_view_def getMaxOffset0_def unat_minus_one)
  have "req \<le> getMaxOffset0 (ws_q st)" using mx c(1,4) by (simp add: word_le_nat_alt l_def)
  then obtain val q' where get: "OQ_Get (ws_q st) req = Inr ((val, getMaxOffset0 (ws_q st)), q')" "oq_view h q'"
    "oq_start q' = oq_start (ws_q st) \<or> oq_start q' = req + 1"
    "val = (if req < oq_start (ws_q st) \<or> req = 0 \<and> oq_start (ws_q st) = 0 then drop (unat (oq_start (ws_q st))) h else drop (Suc (unat req)) h)"
    using OQ_Get_view [OF view(1) mx(1)] by blast
  have out: "es = val" "o' = getMaxOffset0 (ws_q st)" "n' = put_state addr (st\<lparr>ws_q := q'\<rparr>) (sy_notifier s)"
    using assms(3) st(1) get(1) by (auto simp: wn_sync_def served_def)
  have len: "length h < 2 ^ 64" using view(1) unsigned_less [of "oq_end (ws_q st)", where 'a = nat] by (simp add: oq_view_def)
  have start: "unat (oq_start q') \<le> Suc l"
  proof -
    have "req + 1 \<noteq> 0" by (rule word_plus1_neq0) (use c(1,4) len in \<open>simp add: l_def\<close>)
    then have "unat (req + 1) = Suc l" using c(1) by (simp add: unat_plus1 l_def)
    then show ?thesis using get(3) c(5) by auto
  qed
  have ev: "real_events es = real_events (drop (Suc l) (take (Suc (unat o')) h))"
  proof -
    have "take (Suc (unat o')) h = h" using mx(2) out(2) by simp
    moreover have "unat (oq_start (ws_q st)) = Suc l" if "req < oq_start (ws_q st)"
      using that c(1,5) by (simp add: word_less_nat_alt l_def)
    moreover have "l = 0" if "req = 0" using that c(1) by (simp add: l_def)
    ultimately show ?thesis
      using get(4) out(1) c(1) real_events_tail [of flag evs] by (auto simp: h_def l_def)
  qed
  have "served addr flag h n' (st\<lparr>ws_q := q'\<rparr>)"
    using st(1) get(2) by (auto simp: served_def out isReady_def addr_ok_def)
  moreover have "in_step h (st\<lparr>ws_q := q'\<rparr>) c (sy_down s @ [M_Rsp es o']) up"
    using st(2) c start ev mx(2) out(2) by (auto simp: in_step_defs l_def)
  ultimately show ?thesis by (auto simp: watch_inv_def h_def c_def)
qed

lemma in_step_notify:
  assumes "in_step h st c (M_Notify o' # ms) up" "cw_onNotify o' c = (reqs, c')"
  shows "in_step h st c' ms (up @ reqs)"
proof -
  have d: "delivered_upto h st c" and x: "exchange h c (M_Notify o' # ms) up" and a: "announced st c (M_Notify o' # ms)"
    using assms(1) by (auto simp: in_step_def)
  have srt: "sorted (o' # noted ms)" "sorted (cw_serverOffset c # noted ms)" "\<forall>x \<in> set (cw_serverOffset c # o' # noted ms). x \<le> ws_last st"
    "cw_serverOffset c \<le> o'"
    and ann: "ws_last st \<in> set (o' # noted ms) \<or> cw_serverOffset c = ws_last st \<or> ws_last st \<le> cw_localOffset c"
    using a by (auto simp: announced_def)
  show ?thesis
  proof (cases "o' = 0 \<or> o' > cw_localOffset c")
    case False
    then have c': "c' = c" "reqs = []" using assms(2) by (auto simp: cw_onNotify_def)
    have "ws_last st \<in> set (noted ms) \<or> cw_serverOffset c = ws_last st \<or> ws_last st \<le> cw_localOffset c"
      using ann False by auto
    then have "announced st c ms" using srt by (simp add: announced_def)
    moreover have "exchange h c ms up" using x unfolding exchange_def noted_simps .
    ultimately show ?thesis using d c' by (simp add: in_step_def)
  next
    case True
    define c1 where "c1 = c\<lparr>cw_serverOffset := o'\<rparr>"
    have c': "cw_sync c1 = (reqs, c')" using assms(2) True by (auto simp: cw_onNotify_def c1_def)
    then have same: "cw_localOffset c' = cw_localOffset c" "cw_delivered c' = cw_delivered c" "cw_serverOffset c' = o'" "cw_syncing c'"
      "up @ reqs = (if cw_syncing c then up else up @ [cw_localOffset c])"
      by (auto simp: cw_sync_def c1_def split: if_splits)
    have "ws_last st \<in> set (noted ms) \<or> o' = ws_last st \<or> ws_last st \<le> cw_localOffset c"
      using ann srt(3,4) by (auto intro: order_antisym)
    then have "announced st c' ms" using srt same by (simp add: announced_def)
    moreover have "exchange h c' ms (up @ reqs)"
      using x same by (cases "cw_syncing c") (simp_all add: exchange_def)
    moreover have "delivered_upto h st c'" using d same by (simp add: delivered_upto_def)
    ultimately show ?thesis by (simp add: in_step_def)
  qed
qed

lemma take_drop_filter:
  "l \<le> m \<Longrightarrow> filter P (take l xs) @ filter P (drop l (take m xs)) = filter P (take m xs)"
  by (metis append_take_drop_id filter_append min_absorb1 take_take)

lemma in_step_rsp:
  assumes "in_step h st c (M_Rsp es o' # ms) up" "cw_onRsp es o' c = (reqs, c')"
  shows "in_step h st c' ms (up @ reqs)"
proof -
  define l where "l = unat (cw_localOffset c)"
  have d: "delivered_upto h st c" and x: "exchange h c (M_Rsp es o' # ms) up" and a: "announced st c (M_Rsp es o' # ms)"
    using assms(1) by (auto simp: in_step_def)
  have c: "up = []" "rsps ms = []" "unat o' < length h" "l \<le> unat o'" "unat (oq_start (ws_q st)) \<le> Suc l"
    "real_events es = real_events (drop (Suc l) (take (Suc (unat o')) h))" "cw_delivered c = real_events (take (Suc l) h)"
    using x d by (auto simp: exchange_def delivered_upto_def l_def split: if_splits)
  define c1 where "c1 = doNotify es (c\<lparr>cw_syncing := False, cw_localOffset := o'\<rparr>)"
  have c1: "cw_localOffset c1 = o'" "cw_serverOffset c1 = cw_serverOffset c" "\<not> cw_syncing c1"
    "cw_delivered c1 = real_events (take (Suc (unat o')) h)"
    using c take_drop_filter [of "Suc l" "Suc (unat o')"] by (simp_all add: c1_def doNotify_def)
  have run: "(if o' < cw_serverOffset c then cw_sync c1 else ([], c1)) = (reqs, c')"
    using assms(2) c1 by (simp add: cw_onRsp_def c1_def [symmetric])
  have c': "cw_localOffset c' = o'" "cw_serverOffset c' = cw_serverOffset c" "cw_delivered c' = cw_delivered c1"
    "cw_syncing c' = (o' < cw_serverOffset c)" "reqs = (if o' < cw_serverOffset c then [o'] else [])"
    using run c1 by (auto simp: cw_sync_def split: if_splits)
  have "cw_localOffset c \<le> o'" using c(4) by (simp add: l_def word_le_nat_alt)
  then have "announced st c' ms" using a c' by (auto simp: announced_def)
  moreover have "exchange h c' ms (up @ reqs)" using c c' by (cases "o' < cw_serverOffset c") (simp_all add: exchange_def not_less)
  moreover have "delivered_upto h st c'" using c c' c1 by (simp add: delivered_upto_def)
  ultimately show ?thesis by (simp add: in_step_def)
qed

lemma inv_recv:
  assumes "watch_inv addr flag evs s" "sy_down s = m # ms"
    and "(case m of M_Notify o' \<Rightarrow> cw_onNotify o' (sy_client s) | M_Rsp es o' \<Rightarrow> cw_onRsp es o' (sy_client s)) = (reqs, c)"
  shows "watch_inv addr flag evs (s\<lparr>sy_down := ms, sy_client := c, sy_up := sy_up s @ reqs\<rparr>)"
proof -
  obtain st where st: "served addr flag (history flag evs) (sy_notifier s) st"
    "in_step (history flag evs) st (sy_client s) (m # ms) (sy_up s)"
    using assms(1,2) by (auto simp: watch_inv_def)
  have "in_step (history flag evs) st c ms (sy_up s @ reqs)"
    using assms(3) st(2) in_step_notify in_step_rsp by (cases m) auto
  then show ?thesis using st(1) by (auto simp: watch_inv_def)
qed

lemma inv_heartbeat:
  assumes "watch_inv addr flag evs s" "wn_watcherHeartbeat addr (cw_localOffset (sy_client s)) (sy_notifier s) = (paused, n')"
  shows "watch_inv addr flag evs (s\<lparr>sy_notifier := n', sy_client := cw_doHeartbeat paused (sy_client s)\<rparr>)"
proof -
  define h where "h = history flag evs"
  define n where "n = sy_notifier s"
  obtain st where st: "served addr flag h n st" "in_step h st (sy_client s) (sy_down s) (sy_up s)"
    using assms(1) by (auto simp: watch_inv_def h_def n_def)
  define st' where "st' = st\<lparr>ws_timer := True\<rparr>"
  define m where "m = put_state addr st' (put_state addr st n)"
  define nt where "nt = \<lparr>nt_watcher = addr, nt_offset = getMaxOffset0 (ws_q st)\<rparr>"
  have rdy: "wn_watchers n addr = Some st" "ws_state st = W_ready" "ws_Addr st = addr" "open_queue n" "oq_view h (ws_q st)" "h \<noteq> []"
    using st(1) by (auto simp: served_def isReady_def addr_ok_def)
  have n': "\<not> paused" "n' = m \<or> n' = notifies_Put nt m"
    using assms(2) rdy by (auto simp: wn_watcherHeartbeat_def wn_resume_def isPause_def wn_resetTimeout_def
        n_def [symmetric] m_def st'_def nt_def OQ_GetMaxOffset_def split: if_splits)
  have m: "served addr flag h m st'"
    using st(1) by (auto simp: served_def m_def st'_def isReady_def addr_ok_def)
  have "Suc (unat (getMaxOffset0 (ws_q st))) = length h"
    using rdy(5,6) by (auto simp: oq_view_def getMaxOffset0_def unat_minus_one)
  then have "served addr flag h (notifies_Put nt m) st'"
    using m Put_all [of m nt] pending_Put [of m addr nt] by (auto simp: served_def addr_ok_def nt_def)
  then have "served addr flag h n' st'" using n'(2) m by auto
  moreover have "in_step h st' (sy_client s) (sy_down s) (sy_up s)"
    by (rule in_step_cong [OF st(2)]) (simp_all add: st'_def)
  ultimately show ?thesis using n'(1) by (auto simp: watch_inv_def h_def cw_doHeartbeat_def)
qed

lemma inv_others:
  assumes "watch_inv addr flag evs s" "b \<noteq> addr"
  shows "watch_inv addr flag evs (s\<lparr>sy_notifier := addWatcher b flag' (sy_notifier s)\<rparr>)"
    "watch_inv addr flag evs (s\<lparr>sy_notifier := removeWatcher b (sy_notifier s)\<rparr>)"
    "watch_inv addr flag evs (s\<lparr>sy_notifier := watcherTimeout b (sy_notifier s)\<rparr>)"
proof -
  define h where "h = history flag evs"
  define n where "n = sy_notifier s"
  obtain st where st: "served addr flag h n st" "in_step h st (sy_client s) (sy_down s) (sy_up s)"
    using assms(1) by (auto simp: watch_inv_def h_def n_def)
  define bt where "bt = (case wn_watchers n b of Some bt \<Rightarrow> ws_reset bt | None \<Rightarrow> newWatcherState b flag')"
  have bt: "ws_Addr bt = b"
    using served_addr [OF st(1)] by (auto simp: bt_def ws_reset_def newWatcherState_def split: option.splits)
  have "served addr flag h (wn_resetTimeout b (put_state b bt n)) st"
    using served_put_other [OF served_put_other [OF st(1) assms(2) bt] assms(2)] bt by (simp add: wn_resetTimeout_def)
  then have "served addr flag h (addWatcher b flag' n) st"
    by (simp add: addWatcher_def Let_def bt_def [symmetric] notify_other assms(2))
  then show "watch_inv addr flag evs (s\<lparr>sy_notifier := addWatcher b flag' (sy_notifier s)\<rparr>)"
    using st(2) by (auto simp: watch_inv_def h_def n_def)
  have "served addr flag h (removeWatcher b n) st"
    using st(1) assms(2) by (auto simp: removeWatcher_def served_def addr_ok_def pending_def open_queue_def)
  then show "watch_inv addr flag evs (s\<lparr>sy_notifier := removeWatcher b (sy_notifier s)\<rparr>)"
    using st(2) by (auto simp: watch_inv_def h_def n_def)
  show "watch_inv addr flag evs (s\<lparr>sy_notifier := watcherTimeout b (sy_notifier s)\<rparr>)"
    using st(2) served_pause_other [OF st(1) assms(2)] by (auto simp: watch_inv_def h_def n_def watcherTimeout_def)
qed

subsection \<open>Properties\<close>

lemma watch_run_inv:
  assumes "watch_run addr flag n0 evs s" "wn_watchers n0 addr = None" "pending addr n0 = []" "open_queue n0" "addr_ok n0"
    and "length evs + 2 < 2 ^ 64"
  shows "watch_inv addr flag evs s"
  using assms(1,6)
proof induction
  case register
  show ?case by (rule inv_register [OF assms(2-5)])
next
  case (event evs s order e)
  then show ?case by (intro inv_event) auto
next
  case (take_batch evs s)
  then show ?case by (intro inv_take)
next
  case (item evs s nt rest sent out n')
  then show ?case by (intro inv_item)
next
  case (answer_sync evs s req up es o' n')
  then show ?case by (intro inv_sync)
next
  case (recv_notify evs s o' ms reqs c)
  then show ?case by (intro inv_recv [where m = "M_Notify o'"]) auto
next
  case (recv_rsp evs s es o' ms reqs c)
  then show ?case by (intro inv_recv [where m = "M_Rsp es o'"]) auto
next
  case (heartbeat evs s paused n')
  then show ?case by (intro inv_heartbeat)
qed (auto intro: inv_others)

text \<open>C12: a watcher that registers with the placement driver and keeps its connection delivers the
  initial event and then the events of its subscription, each exactly once and in the order they
  happened, whatever the interleaving of events, notifications, requests, answers, heartbeats and
  other watchers; and when no message and no notification for it is left, it has delivered all
  of them.\<close>

theorem watcher_delivers:
  assumes "watch_run addr flag n0 evs s" "wn_watchers n0 addr = None" "pending addr n0 = []" "open_queue n0" "addr_ok n0"
    and "length evs + 2 < 2 ^ 64"
  shows "\<exists>rest. real_events (subscription flag (init_event # evs)) = cw_delivered (sy_client s) @ rest \<and>
    (sy_down s = [] \<and> sy_up s = [] \<and> pending addr (sy_notifier s) = [] \<longrightarrow> rest = [])"
proof -
  define h where "h = history flag evs"
  define c where "c = sy_client s"
  obtain st where st: "served addr flag h (sy_notifier s) st" "in_step h st c (sy_down s) (sy_up s)"
    using watch_run_inv [OF assms] by (auto simp: watch_inv_def h_def c_def)
  define l where "l = unat (cw_localOffset c)"
  have real: "real_events (subscription flag (init_event # evs)) = real_events h"
    by (simp add: h_def history_def empty_event_def)
  have del: "cw_delivered c = real_events (take (Suc l) h)" "l < length h"
    using st(2) by (auto simp: in_step_def delivered_upto_def l_def)
  have "real_events h = cw_delivered c @ real_events (drop (Suc l) h)"
    using del(1) by (metis append_take_drop_id filter_append)
  moreover have "drop (Suc l) h = []" if "sy_down s = []" "sy_up s = []" "pending addr (sy_notifier s) = []"
  proof -
    have "\<not> cw_syncing c" using st(2) that by (auto simp: in_step_def exchange_def split: if_splits)
    then have "cw_serverOffset c \<le> cw_localOffset c" using st(2) by (simp add: in_step_def exchange_def)
    then have "ws_last st \<le> cw_localOffset c" using st(2) that(1) by (auto simp: in_step_def announced_def)
    moreover have "Suc (unat (ws_last st)) = length h" using st(1) that(3) by (simp add: served_def)
    ultimately show ?thesis using del(2) by (simp add: word_le_nat_alt l_def)
  qed
  ultimately show ?thesis unfolding real c_def by auto
qed

text \<open>One step of each kind, where it applies.\<close>

definition do_take :: "watch_sys \<Rightarrow> watch_sys" where
  "do_take s = (if wn_hand (sy_notifier s) = [] then s\<lparr>sy_notifier := loop_take (sy_notifier s)\<rparr> else s)"

definition do_item :: "string \<Rightarrow> watch_sys \<Rightarrow> watch_sys" where
  "do_item addr s =
     (case wn_hand (sy_notifier s) of
        [] \<Rightarrow> s
      | nt # rest \<Rightarrow>
          (case loop_item True nt ((sy_notifier s)\<lparr>wn_hand := rest\<rparr>) of
             (out, n') \<Rightarrow> s\<lparr>sy_notifier := n', sy_down := sy_down s @
               (case out of Some o' \<Rightarrow> if nt_watcher nt = addr then [M_Notify o'] else [] | None \<Rightarrow> [])\<rparr>))"

definition do_sync :: "string \<Rightarrow> watch_sys \<Rightarrow> watch_sys" where
  "do_sync addr s =
     (case sy_up s of
        [] \<Rightarrow> s
      | req # up \<Rightarrow>
          (case wn_sync addr req (sy_notifier s) of
             Inr (Some (es, o'), n') \<Rightarrow> s\<lparr>sy_notifier := n', sy_up := up, sy_down := sy_down s @ [M_Rsp es o']\<rparr>
           | _ \<Rightarrow> s))"

definition do_recv :: "watch_sys \<Rightarrow> watch_sys" where
  "do_recv s =
     (case sy_down s of
        [] \<Rightarrow> s
      | M_Notify o' # ms \<Rightarrow> (case cw_onNotify o' (sy_client s) of (reqs, c) \<Rightarrow>
          s\<lparr>sy_down := ms, sy_client := c, sy_up := sy_up s @ reqs\<rparr>)
      | M_Rsp es o' # ms \<Rightarrow> (case cw_onRsp es o' (sy_client s) of (reqs, c) \<Rightarrow>
          s\<lparr>sy_down := ms, sy_client := c, sy_up := sy_up s @ reqs\<rparr>))"

lemma watch_run_do:
  assumes "watch_run addr flag n0 evs s"
  shows "watch_run addr flag n0 evs (do_take s)" "watch_run addr flag n0 evs (do_item addr s)"
    "watch_run addr flag n0 evs (do_sync addr s)" "watch_run addr flag n0 evs (do_recv s)"
proof -
  show "watch_run addr flag n0 evs (do_take s)"
    using assms watch_run.take_batch [OF assms] by (simp add: do_take_def)
  show "watch_run addr flag n0 evs (do_item addr s)"
    using assms watch_run.item [OF assms, of _ _ True] by (auto simp: do_item_def split: list.splits prod.splits)
  show "watch_run addr flag n0 evs (do_sync addr s)"
    using assms watch_run.answer_sync [OF assms] by (auto simp: do_sync_def split: list.splits sum.splits option.splits prod.splits)
  show "watch_run addr flag n0 evs (do_recv s)"
    using assms watch_run.recv_notify [OF assms] watch_run.recv_rsp [OF assms]
    by (auto simp: do_recv_def split: list.splits watch_msg.splits prod.splits)
qed

definition demo_watch :: watch_sys where
  "demo_watch = \<lparr>sy_notifier = addWatcher [] 255 newWatcherNotifier, sy_client = NewWatcher, sy_down = [], sy_up = []\<rparr>"

definition demo_change :: pdEvent where
  "demo_change = \<lparr>pe_Event = EventCellCreated, pe_Body = None\<rparr>"

definition demo_done :: watch_sys where
  "demo_done = do_recv (do_sync [] (do_recv (do_item [] (do_take
     (demo_watch\<lparr>sy_notifier := wn_notify [[]] demo_change (sy_notifier demo_watch)\<rparr>)))))"

lemma demo_done_run: "watch_run [] 255 newWatcherNotifier [demo_change] demo_done"
proof -
  have "watch_run [] 255 newWatcherNotifier [] demo_watch"
    unfolding demo_watch_def by (rule watch_run.register)
  moreover have "set [[]] = dom (wn_watchers (sy_notifier demo_watch))"
    by (auto simp: demo_watch_def addWatcher_def newWatcherNotifier_def wn_resetTimeout_def notifyWithoutLock_def Let_def
        PutOrUpdate_all open_queue_def Queue_New_def put_state_def newWatcherState_def notifies_PutOrUpdate_def
        split: prod.splits if_splits)
  ultimately have "watch_run [] 255 newWatcherNotifier ([] @ [demo_change])
      (demo_watch\<lparr>sy_notifier := wn_notify [[]] demo_change (sy_notifier demo_watch)\<rparr>)"
    by (intro watch_run.event) auto
  then show ?thesis unfolding demo_done_def by (simp add: watch_run_do)
qed

theorem watcher_delivers_witness:
  "real_events (subscription 255 (init_event # [demo_change])) = cw_delivered (sy_client demo_done) \<and>
   cw_delivered (sy_client demo_done) = [init_event, demo_change]"
proof -
  have quiet: "sy_down demo_done = [] \<and> sy_up demo_done = [] \<and> pending [] (sy_notifier demo_done) = []"
    by code_simp
  have del: "cw_delivered (sy_client demo_done) = [init_event, demo_change]"
    by code_simp
  obtain rest where "real_events (subscription 255 (init_event # [demo_change])) = cw_delivered (sy_client demo_done) @ rest"
    "sy_down demo_done = [] \<and> sy_up demo_done = [] \<and> pending [] (sy_notifier demo_done) = [] \<longrightarrow> rest = []"
    using watcher_delivers [OF demo_done_run]
    by (auto simp: newWatcherNotifier_def pending_def open_queue_def Queue_New_def addr_ok_def)
  with quiet del show ?thesis by simp
qed

text \<open>The notifications a client reads on a connection, with the requests it sends.\<close>

fun client_reads :: "u64 list \<Rightarrow> Watcher \<Rightarrow> u64 list \<times> Watcher" where
  "client_reads [] c = ([], c)"
| "client_reads (o' # os) c =
     (case cw_onNotify o' c of (reqs, c) \<Rightarrow> case client_reads os c of (reqs', c) \<Rightarrow> (reqs @ reqs', c))"

lemma syncing_reads: "cw_syncing c \<Longrightarrow> client_reads os c = (reqs, c') \<Longrightarrow> reqs = [] \<and> cw_delivered c' = cw_delivered c \<and> cw_syncing c'"
proof (induction os arbitrary: c reqs)
  case (Cons o' os)
  obtain r1 c1 where s1: "cw_onNotify o' c = (r1, c1)" by (cases "cw_onNotify o' c")
  obtain r2 where s2: "client_reads os c1 = (r2, c')" "reqs = r1 @ r2"
    using Cons.prems(2) s1 by (auto split: prod.splits)
  have "r1 = [] \<and> cw_syncing c1 \<and> cw_delivered c1 = cw_delivered c"
    using s1 Cons.prems(1) by (auto simp: cw_onNotify_def cw_sync_def split: if_splits)
  then show ?case using Cons.IH [OF _ s2(1)] s2(2) by simp
qed simp

text \<open>C37: a client whose connection breaks between its request and the answer is stuck.  The new
  connection resets its offset but not the flag that a request is under way, so that whatever
  notifications it then reads it sends no request and delivers nothing.\<close>

theorem lost_answer_stalls:
  assumes "\<not> cw_syncing c" "cw_sync c = (sent, c1)" "client_reads os (cw_connect c1) = (reqs, c')"
  shows "sent = [cw_localOffset c] \<and> reqs = [] \<and> cw_delivered c' = cw_delivered c \<and> cw_syncing c'"
proof -
  have c1: "sent = [cw_localOffset c]" "c1 = c\<lparr>cw_syncing := True\<rparr>" using assms(1,2) by (auto simp: cw_sync_def)
  have "cw_syncing (cw_connect c1)" by (simp add: c1 cw_connect_def)
  from syncing_reads [OF this assms(3)] show ?thesis by (simp add: c1 cw_connect_def)
qed

theorem lost_answer_stalls_witness:
  "fst (client_reads [1, 2, 3] (cw_connect (snd (cw_sync NewWatcher)))) = []"
proof -
  have "client_reads [1, 2, 3] (cw_connect (snd (cw_sync NewWatcher))) =
      (fst (client_reads [1, 2, 3] (cw_connect (snd (cw_sync NewWatcher)))), snd (client_reads [1, 2, 3] (cw_connect (snd (cw_sync NewWatcher)))))"
    by simp
  from lost_answer_stalls [OF _ _ this, of NewWatcher "[0]"] show ?thesis
    by (simp add: NewWatcher_def cw_sync_def)
qed

text \<open>A heartbeat resumes a watcher that timed out: it is ready, and its queue is new.\<close>

lemma resumed_state:
  assumes "wn_watchers n addr = Some st"
  shows "wn_watchers (snd (wn_watcherHeartbeat addr offset (watcherTimeout addr n))) addr =
    Some (st\<lparr>ws_timer := True, ws_state := W_ready, ws_q := NewOffsetQueue, ws_last := 0\<rparr>)"
  using assms
  by (simp add: watcherTimeout_def wn_pause_def wn_watcherHeartbeat_def wn_resume_def wn_resetTimeout_def put_state_def
      ws_pause_def ws_reset_def isPause_def Let_def)

lemma notify_state:
  assumes "wn_watchers n addr = Some st" "isReady st" "MatchEvent (pe_Event e) (ws_EventFlag st)"
  shows "wn_watchers (wn_notify [addr] e n) addr = Some (st\<lparr>ws_q := snd (OQ_Add (ws_q st) e)\<rparr>)"
  using assms
  by (simp add: wn_notify_def notifyWithoutLock_def notifies_PutOrUpdate_def put_state_def case_prod_beta Let_def)

lemma sync_state:
  assumes "wn_watchers n addr = Some st" "isReady st" "OQ_Get (ws_q st) offset = Inr (v, ws_q st)"
  shows "\<exists>n'. wn_sync addr offset n = Inr (Some v, n') \<and> wn_watchers n' addr = Some st"
  using assms by (cases v) (simp add: wn_sync_def put_state_def)

text \<open>C38: a pause breaks the once-only delivery.  Whatever the state of the notifier, a watcher that
  timed out and resumed with a heartbeat has a queue without the empty event that a registration puts first.  The
  first event after the resumption gets offset 0, and an answer with it leaves the client at offset 0: its next
  request is answered with the same event again, and a client that takes the two answers passes it on twice.  A
  request with the offset of before the pause, read after the watcher has resumed, panics the server.\<close>

theorem pause_breaks_delivery:
  assumes "wn_watchers n addr = Some st"
    and "MatchEvent (pe_Event e1) (ws_EventFlag st)" "MatchEvent (pe_Event e2) (ws_EventFlag st)"
    and "0 < pe_Event e1" "0 < pe_Event e2" "0 < old"
    and "n1 = snd (wn_watcherHeartbeat addr offset (watcherTimeout addr n))"
    and "c1 = snd (cw_onRsp [e1] 0 c)"
  shows "\<exists>n2 n3. wn_sync addr 0 (wn_notify [addr] e1 n1) = Inr (Some ([e1], 0), n2) \<and> cw_localOffset c1 = 0 \<and>
    wn_sync addr (cw_localOffset c1) (wn_notify [addr] e2 n2) = Inr (Some ([e1, e2], 1), n3) \<and>
    cw_delivered (snd (cw_onRsp [e1, e2] 1 c1)) = cw_delivered c @ [e1, e1, e2] \<and>
    wn_sync addr old n1 = Inl Panic"
proof -
  define st1 where "st1 = st\<lparr>ws_timer := True, ws_state := W_ready, ws_q := NewOffsetQueue, ws_last := 0\<rparr>"
  define st2 where "st2 = st1\<lparr>ws_q := snd (OQ_Add (ws_q st1) e1)\<rparr>"
  define st3 where "st3 = st2\<lparr>ws_q := snd (OQ_Add (ws_q st2) e2)\<rparr>"
  note defs = st1_def st2_def st3_def OQ_Add_def NewOffsetQueue_def getMaxOffset0_def OQ_Get_def Let_def
  have w1: "wn_watchers n1 addr = Some st1"
    unfolding assms(7) st1_def by (rule resumed_state [OF assms(1)])
  have r: "isReady st1" "isReady st2" "isReady st3" by (simp_all add: defs isReady_def)
  have m: "MatchEvent (pe_Event e1) (ws_EventFlag st1)" "MatchEvent (pe_Event e2) (ws_EventFlag st2)"
    using assms(2,3) by (simp_all add: st1_def st2_def)
  have "wn_watchers (wn_notify [addr] e1 n1) addr = Some st2" unfolding st2_def by (rule notify_state [OF w1 r(1) m(1)])
  from sync_state [OF this r(2), of 0 "([e1], 0)"]
  obtain n2 where 2: "wn_sync addr 0 (wn_notify [addr] e1 n1) = Inr (Some ([e1], 0), n2)" "wn_watchers n2 addr = Some st2"
    by (auto simp: defs)
  have "wn_watchers (wn_notify [addr] e2 n2) addr = Some st3" unfolding st3_def by (rule notify_state [OF 2(2) r(2) m(2)])
  from sync_state [OF this r(3), of 0 "([e1, e2], 1)"]
  obtain n3 where 3: "wn_sync addr 0 (wn_notify [addr] e2 n2) = Inr (Some ([e1, e2], 1), n3)"
    by (auto simp: defs)
  have "wn_sync addr old n1 = Inl Panic" using w1 r(1) assms(6) by (simp add: wn_sync_def defs)
  moreover have "cw_localOffset c1 = 0" "cw_delivered (snd (cw_onRsp [e1, e2] 1 c1)) = cw_delivered c @ [e1, e1, e2]"
    using assms(4,5) by (simp_all add: assms(8) cw_onRsp_def cw_sync_def doNotify_def Let_def)
  ultimately show ?thesis using 2(1) 3 by simp
qed

definition demo_up :: pdEvent where
  "demo_up = \<lparr>pe_Event = EventStoreUp, pe_Body = None\<rparr>"

theorem pause_breaks_delivery_witness:
  "cw_delivered (snd (cw_onRsp [demo_change, demo_up] 1 (snd (cw_onRsp [demo_change] 0 NewWatcher)))) =
     [demo_change, demo_change, demo_up] \<and>
   wn_sync [] 2 (snd (wn_watcherHeartbeat [] 0 (watcherTimeout [] (addWatcher [] 255 newWatcherNotifier)))) = Inl Panic"
proof -
  have "case wn_watchers (addWatcher [] 255 newWatcherNotifier) [] of None \<Rightarrow> False | Some st \<Rightarrow> ws_EventFlag st = 255"
    by code_simp
  then obtain st where st: "wn_watchers (addWatcher [] 255 newWatcherNotifier) [] = Some st" "ws_EventFlag st = 255"
    by (auto split: option.splits)
  have m: "MatchEvent (pe_Event demo_change) (ws_EventFlag st)" "MatchEvent (pe_Event demo_up) (ws_EventFlag st)"
    "0 < pe_Event demo_change" "0 < pe_Event demo_up" "0 < (2 :: u64)" "cw_delivered NewWatcher = []"
    by (simp_all add: st(2) MatchEvent_def demo_change_def demo_up_def NewWatcher_def)
  show ?thesis
    using pause_breaks_delivery [OF st(1) m(1-5) refl refl, of 0 NewWatcher] m(6) by auto
qed

end
