(* ===== verification/Store_Index.thy ===== *)
theory Store_Index
  imports Apply_Delegate Strconv "HOL-Library.AList"
begin

text \<open>
  \<^verbatim>\<open>pkg/raftstore/store_index.go\<close> and \<^verbatim>\<open>AllocateDocID\<close> of \<^verbatim>\<open>peer.go\<close>: the secondary indices of a
  store.  Every cell has an indexer, a parameter of the model.  A document number leads to its key
  through the key-value engine of driver 1, and a key to its document through the index information
  that the data engine keeps beside it.  An error leaves the changes made before it in place, so
  every operation returns the state together with its error.
\<close>

subsection \<open>Index definitions and documents\<close>

datatype FieldType =
    FT_Text | FT_Uint8 | FT_Uint16 | FT_Uint32 | FT_Uint64 | FT_Float32 | FT_Float64 | FT_Invalid

record FieldDef =
  fd_Name :: string
  fd_Type :: FieldType

record IndexDef =
  id_Name :: string
  id_KeyPattern :: string
  id_Fields :: "FieldDef list"

record UintProp =
  up_Name :: string
  up_Val :: u64
  up_ValLen :: nat
  up_IsFloat :: bool

record StrProp =
  sp_Name :: string
  sp_Val :: string

record DocumentWithIdx =
  dw_Index :: string
  dw_DocID :: u64
  dw_UintProps :: "UintProp list"
  dw_StrProps :: "StrProp list"

record KeyMetaVal =
  km_IdxName :: string
  km_DocID :: u64
  km_CellID :: u64

datatype IndexRequest =
    IdxSplit u64 u64
  | IdxDestroy u64
  | IdxRebuild u64
  | IdxUnknown

datatype ixError = ErrIdxNotExist | IxErr string | IxPanic

subsection \<open>What the code relies on\<close>

text \<open>The indexer of \<^verbatim>\<open>github.com/deepfabric/indexer\<close>, regular expressions and the conversions of
  floating point numbers.\<close>

record 'i indexEnv =
  xe_New :: "u64 \<Rightarrow> ixError + 'i"
  xe_CreateIndex :: "DocumentWithIdx \<Rightarrow> 'i \<Rightarrow> ixError + 'i"
  xe_DestroyIndex :: "string \<Rightarrow> 'i \<Rightarrow> ixError + 'i"
  xe_Insert :: "DocumentWithIdx \<Rightarrow> 'i \<Rightarrow> ixError + 'i"
  xe_Del :: "string \<Rightarrow> u64 \<Rightarrow> 'i \<Rightarrow> ixError + 'i"
  xe_Sync :: "'i \<Rightarrow> ixError + 'i"
  xe_Destroy :: "'i \<Rightarrow> ixError + 'i"
  xe_Open :: "'i \<Rightarrow> ixError + 'i"
  xe_GetDocIDFragList :: "'i \<Rightarrow> u64 list"
  xe_Match :: "string \<Rightarrow> bytes \<Rightarrow> bool"
  xe_parse32 :: "string \<Rightarrow> ixError + 32 word"
  xe_parse64 :: "string \<Rightarrow> ixError + u64"

text \<open>\<^verbatim>\<open>pilosa.SliceWidth\<close>, a power of two.\<close>

definition SliceWidth :: u64 where
  "SliceWidth = 2 ^ 20"

text \<open>The part of \<^verbatim>\<open>Store\<close> that the indices use.  \<open>xi_pdIDs\<close> are the answers of the placement driver
  to \<^verbatim>\<open>AllocID\<close>, none for a failed call; \<open>xi_keys\<close> the keys each data engine holds, in order.\<close>

record 'i IndexStore =
  xi_engines :: nat
  xi_indices :: "(string \<times> IndexDef) list"
  xi_reExps :: "(string \<times> string) list"
  xi_docProts :: "string \<rightharpoonup> DocumentWithIdx"
  xi_persisted :: "(string \<times> IndexDef) list"
  xi_indexers :: "u64 \<rightharpoonup> 'i"
  xi_kv :: "bytes KVTree"
  xi_queue :: "IndexRequest list"
  xi_keys :: "nat \<Rightarrow> bytes list"
  xi_info :: "nat \<Rightarrow> bytes \<rightharpoonup> KeyMetaVal"
  xi_hash :: "nat \<Rightarrow> bytes \<Rightarrow> (bytes \<times> bytes) list"
  xi_cells :: "(u64 \<times> Cell) list"
  xi_nextDocID :: "u64 \<Rightarrow> u64"
  xi_pdIDs :: "u64 option list"

definition xi_driver :: "'i IndexStore \<Rightarrow> u64 \<Rightarrow> nat" where
  "xi_driver s cellID = driver_index (xi_engines s) cellID"

definition SetIndexInfo :: "u64 \<Rightarrow> bytes \<Rightarrow> KeyMetaVal option \<Rightarrow> 'i IndexStore \<Rightarrow> 'i IndexStore" where
  "SetIndexInfo cellID key mv s =
     s\<lparr>xi_info := (xi_info s)(xi_driver s cellID := (xi_info s (xi_driver s cellID))(key := mv))\<rparr>"

text \<open>The information is part of the record of a key, so a key that has some exists.\<close>

definition GetIndexInfo :: "u64 \<Rightarrow> bytes \<Rightarrow> 'i IndexStore \<Rightarrow> ixError + KeyMetaVal option" where
  "GetIndexInfo cellID key s =
     (case xi_info s (xi_driver s cellID) key of
        None \<Rightarrow> if List.member (xi_keys s (xi_driver s cellID)) key then Inr None
                else Inl (IxErr ''key does not exist'')
      | Some mv \<Rightarrow> Inr (Some mv))"

definition put_indexer :: "u64 \<Rightarrow> 'i \<Rightarrow> 'i IndexStore \<Rightarrow> 'i IndexStore" where
  "put_indexer cellID ix s = s\<lparr>xi_indexers := (xi_indexers s)(cellID \<mapsto> ix)\<rparr>"

subsection \<open>Converting definitions and hashes to documents\<close>

fun prot_field :: "FieldDef \<Rightarrow> DocumentWithIdx \<Rightarrow> ixError + DocumentWithIdx" where
  "prot_field f doc =
     (let u = (\<lambda>n fl. Inr (doc\<lparr>dw_UintProps := dw_UintProps doc @
                 [\<lparr>up_Name = fd_Name f, up_Val = 0, up_ValLen = n, up_IsFloat = fl\<rparr>]\<rparr>))
      in case fd_Type f of
           FT_Text \<Rightarrow> Inr (doc\<lparr>dw_StrProps := dw_StrProps doc @ [\<lparr>sp_Name = fd_Name f, sp_Val = []\<rparr>]\<rparr>)
         | FT_Uint8 \<Rightarrow> u 1 False
         | FT_Uint16 \<Rightarrow> u 2 False
         | FT_Uint32 \<Rightarrow> u 4 False
         | FT_Uint64 \<Rightarrow> u 8 False
         | FT_Float32 \<Rightarrow> u 4 True
         | FT_Float64 \<Rightarrow> u 8 True
         | FT_Invalid \<Rightarrow> Inl (IxErr ''invalid field type''))"

fun prot_fields :: "FieldDef list \<Rightarrow> DocumentWithIdx \<Rightarrow> ixError + DocumentWithIdx" where
  "prot_fields [] doc = Inr doc"
| "prot_fields (f # fs) doc =
     (case prot_field f doc of Inl e \<Rightarrow> Inl e | Inr doc \<Rightarrow> prot_fields fs doc)"

definition newDoc :: "IndexDef \<Rightarrow> u64 \<Rightarrow> DocumentWithIdx" where
  "newDoc idxDef docID = \<lparr>dw_Index = id_Name idxDef, dw_DocID = docID, dw_UintProps = [], dw_StrProps = []\<rparr>"

definition convertToDocProt :: "IndexDef \<Rightarrow> ixError + DocumentWithIdx" where
  "convertToDocProt idxDef = prot_fields (id_Fields idxDef) (newDoc idxDef 0)"

definition parse_value :: "'i indexEnv \<Rightarrow> FieldType \<Rightarrow> string \<Rightarrow> ixError + u64 \<times> nat \<times> bool" where
  "parse_value env t valS =
     (let u = (\<lambda>n. case ParseUint (lit valS) of
                     (v, None) \<Rightarrow> Inr (of_nat v, n, False)
                   | (_, Some _) \<Rightarrow> Inl (IxErr ''ParseUint''))
      in case t of
           FT_Uint8 \<Rightarrow> u 1
         | FT_Uint16 \<Rightarrow> u 2
         | FT_Uint32 \<Rightarrow> u 4
         | FT_Uint64 \<Rightarrow> u 8
         | FT_Float32 \<Rightarrow> (case Float32ToSortableUint64 (xe_parse32 env) valS of Inl e \<Rightarrow> Inl e | Inr v \<Rightarrow> Inr (v, 4, True))
         | FT_Float64 \<Rightarrow> (case Float64ToSortableUint64 (xe_parse64 env) valS of Inl e \<Rightarrow> Inl e | Inr v \<Rightarrow> Inr (v, 8, True))
         | _ \<Rightarrow> Inl (IxErr ''invalid field type''))"

fun doc_fields :: "'i indexEnv \<Rightarrow> FieldDef list \<Rightarrow> string \<Rightarrow> string \<Rightarrow> DocumentWithIdx \<Rightarrow> ixError + DocumentWithIdx" where
  "doc_fields env [] field valS doc = Inr doc"
| "doc_fields env (f # fs) field valS doc =
     (if fd_Name f \<noteq> field then doc_fields env fs field valS doc
      else if fd_Type f = FT_Text then
        doc_fields env fs field valS
          (doc\<lparr>dw_StrProps := dw_StrProps doc @ [\<lparr>sp_Name = fd_Name f, sp_Val = valS\<rparr>]\<rparr>)
      else case parse_value env (fd_Type f) valS of
             Inl e \<Rightarrow> Inl e
           | Inr (v, n, fl) \<Rightarrow>
               doc_fields env fs field valS
                 (doc\<lparr>dw_UintProps := dw_UintProps doc @
                   [\<lparr>up_Name = fd_Name f, up_Val = v, up_ValLen = n, up_IsFloat = fl\<rparr>]\<rparr>))"

fun doc_pairs :: "'i indexEnv \<Rightarrow> FieldDef list \<Rightarrow> string list \<Rightarrow> DocumentWithIdx \<Rightarrow> ixError + DocumentWithIdx" where
  "doc_pairs env fs [] doc = Inr doc"
| "doc_pairs env fs [_] doc = Inl IxPanic"
| "doc_pairs env fs (field # valS # pairs) doc =
     (case doc_fields env fs field valS doc of Inl e \<Rightarrow> Inl e | Inr doc \<Rightarrow> doc_pairs env fs pairs doc)"

definition convertToDocument :: "'i indexEnv \<Rightarrow> IndexDef \<Rightarrow> u64 \<Rightarrow> string list \<Rightarrow> ixError + DocumentWithIdx" where
  "convertToDocument env idxDef docID pairs = doc_pairs env (id_Fields idxDef) pairs (newDoc idxDef docID)"

subsection \<open>Indexers and document numbers\<close>

fun create_indices :: "'i indexEnv \<Rightarrow> IndexDef list \<Rightarrow> 'i \<Rightarrow> ixError + 'i" where
  "create_indices env [] ix = Inr ix"
| "create_indices env (d # ds) ix =
     (case convertToDocProt d of
        Inl e \<Rightarrow> Inl e
      | Inr docProt \<Rightarrow>
          (case xe_CreateIndex env docProt ix of Inl e \<Rightarrow> Inl e | Inr ix \<Rightarrow> create_indices env ds ix))"

definition GetIndexer :: "'i indexEnv \<Rightarrow> u64 \<Rightarrow> 'i IndexStore \<Rightarrow> (ixError + 'i) \<times> 'i IndexStore" where
  "GetIndexer env cellID s =
     (case xi_indexers s cellID of
        Some ix \<Rightarrow> (Inr ix, s)
      | None \<Rightarrow>
          (case xe_New env cellID of
             Inl e \<Rightarrow> (Inl e, s)
           | Inr ix \<Rightarrow>
               (case create_indices env (map snd (xi_indices s)) ix of
                  Inl e \<Rightarrow> (Inl e, s)
                | Inr ix \<Rightarrow> (Inr ix, put_indexer cellID ix s))))"

definition AllocateDocID :: "u64 \<Rightarrow> 'i IndexStore \<Rightarrow> (ixError + u64) \<times> 'i IndexStore" where
  "AllocateDocID cellID s =
     (if and (xi_nextDocID s cellID) (SliceWidth - 1) = 0 then
        (case xi_pdIDs s of
           Some i # ids \<Rightarrow>
             (let docID = i * SliceWidth
              in (Inr docID, s\<lparr>xi_nextDocID := (xi_nextDocID s)(cellID := docID + 1), xi_pdIDs := ids\<rparr>))
         | ids \<Rightarrow> (Inl (IxErr ''AllocID''), s\<lparr>xi_pdIDs := tl ids\<rparr>))
      else
        (let docID = xi_nextDocID s cellID
         in (Inr docID, s\<lparr>xi_nextDocID := (xi_nextDocID s)(cellID := docID + 1)\<rparr>)))"

definition clearDocIDKeys :: "'i indexEnv \<Rightarrow> 'i \<Rightarrow> 'i IndexStore \<Rightarrow> 'i IndexStore" where
  "clearDocIDKeys env ix s =
     s\<lparr>xi_kv := fold (\<lambda>num kv. KV_RangeDelete kv (getDocIDKey (num * SliceWidth))
                         (getDocIDKey (num * SliceWidth + SliceWidth))) (xe_GetDocIDFragList env ix) (xi_kv s)\<rparr>"

fun match_first :: "'i indexEnv \<Rightarrow> (string \<times> string) list \<Rightarrow> bytes \<Rightarrow> string" where
  "match_first env [] key = []"
| "match_first env ((name, reExp) # rs) key =
     (if xe_Match env reExp key then name else match_first env rs key)"

definition matchIndex :: "'i indexEnv \<Rightarrow> 'i IndexStore \<Rightarrow> bytes \<Rightarrow> string" where
  "matchIndex env s key = match_first env (xi_reExps s) key"

subsection \<open>One key\<close>

definition go_string :: "bytes \<Rightarrow> string" where
  "go_string b = map (\<lambda>w. char_of (unat w)) b"

text \<open>\<^verbatim>\<open>deleteIndexedKey\<close> returns whether the key had a document, and its error.\<close>

definition deleteIndexedKey ::
  "'i indexEnv \<Rightarrow> u64 \<Rightarrow> bytes \<Rightarrow> bool \<Rightarrow> bytes WriteBatch \<Rightarrow> 'i IndexStore \<Rightarrow>
   (bool \<times> ixError option \<times> bytes WriteBatch) \<times> 'i IndexStore" where
  "deleteIndexedKey env cellID dataKey isDel wb s =
     (case GetIndexInfo cellID dataKey s of
        Inl e \<Rightarrow> ((False, Some e, wb), s)
      | Inr None \<Rightarrow> ((False, None, wb), s)
      | Inr (Some mv) \<Rightarrow>
          (case GetIndexer env (km_CellID mv) s of
             (Inl e, s) \<Rightarrow> ((False, Some e, wb), s)
           | (Inr ix, s) \<Rightarrow>
               (case xe_Del env (km_IdxName mv) (km_DocID mv) ix of
                  Inl e \<Rightarrow> ((False, Some e, wb), s)
                | Inr ix \<Rightarrow>
                    (let s = put_indexer (km_CellID mv) ix s
                     in ((True, None, wb_Delete wb (getDocIDKey (km_DocID mv))),
                         if isDel then SetIndexInfo (km_CellID mv) dataKey None s else s)))))"

fun flat_pairs :: "(bytes \<times> bytes) list \<Rightarrow> string list" where
  "flat_pairs [] = []"
| "flat_pairs ((f, v) # ps) = go_string f # go_string v # flat_pairs ps"

text \<open>The first half of \<^verbatim>\<open>addIndexedKey\<close>: a number for the document.\<close>

definition doc_number ::
  "u64 \<Rightarrow> u64 \<Rightarrow> bytes \<Rightarrow> bytes WriteBatch \<Rightarrow> 'i IndexStore \<Rightarrow> (ixError + u64 \<times> bytes WriteBatch) \<times> 'i IndexStore" where
  "doc_number cellID docID dataKey wb s =
     (if docID \<noteq> 0 then (Inr (docID, wb), s)
      else if map_of (xi_cells s) cellID = None then (Inl (IxErr ''cell not exist''), s)
      else case AllocateDocID cellID s of
             (Inl e, s) \<Rightarrow> (Inl e, s)
           | (Inr docID, s) \<Rightarrow> (Inr (docID, wb_Set wb (getDocIDKey docID) dataKey), s))"

text \<open>The second half: the document goes to the indexer of the cell.\<close>

definition insert_doc ::
  "'i indexEnv \<Rightarrow> u64 \<Rightarrow> string \<Rightarrow> u64 \<Rightarrow> bytes \<Rightarrow> string list \<Rightarrow> 'i IndexStore \<Rightarrow> ixError option \<times> 'i IndexStore" where
  "insert_doc env cellID idxName docID dataKey pairs s =
     (let pairs = (if pairs = [] then flat_pairs (xi_hash s (xi_driver s cellID) dataKey) else pairs)
      in case map_of (xi_indices s) idxName of
           None \<Rightarrow> (Some (IxErr ''index does not exist''), s)
         | Some idxDef \<Rightarrow>
             (case GetIndexer env cellID s of
                (Inl e, s) \<Rightarrow> (Some e, s)
              | (Inr ix, s) \<Rightarrow>
                  (case convertToDocument env idxDef docID pairs of
                     Inl e \<Rightarrow> (Some e, s)
                   | Inr doc \<Rightarrow>
                       (case xe_Insert env doc ix of
                          Inl ErrIdxNotExist \<Rightarrow> (None, s)
                        | Inl e \<Rightarrow> (Some e, s)
                        | Inr ix \<Rightarrow> (None, put_indexer cellID ix s)))))"

definition addIndexedKey ::
  "'i indexEnv \<Rightarrow> u64 \<Rightarrow> string \<Rightarrow> u64 \<Rightarrow> bytes \<Rightarrow> string list \<Rightarrow> bytes WriteBatch \<Rightarrow> 'i IndexStore \<Rightarrow>
   (ixError + bytes WriteBatch) \<times> 'i IndexStore" where
  "addIndexedKey env cellID idxName docID dataKey pairs wb s =
     (case doc_number cellID docID dataKey wb s of
        (Inl e, s) \<Rightarrow> (Inl e, s)
      | (Inr (docID, wb), s) \<Rightarrow>
          (case insert_doc env cellID idxName docID dataKey pairs
                  (SetIndexInfo cellID dataKey
                     (Some \<lparr>km_IdxName = idxName, km_DocID = docID, km_CellID = cellID\<rparr>) s) of
             (Some e, s) \<Rightarrow> (Inl e, s)
           | (None, s) \<Rightarrow> (Inr wb, s)))"

definition kv_Write :: "bytes WriteBatch \<Rightarrow> 'i IndexStore \<Rightarrow> 'i IndexStore" where
  "kv_Write wb s = s\<lparr>xi_kv := driver_Write (xi_kv s) wb\<rparr>"

definition handleIdxKeyReq :: "'i indexEnv \<Rightarrow> IndexKeyRequest \<Rightarrow> 'i IndexStore \<Rightarrow> ixError option \<times> 'i IndexStore" where
  "handleIdxKeyReq env req s =
     (case ik_CmdArgs req of
        [] \<Rightarrow> (Some IxPanic, s)
      | key # args \<Rightarrow>
          (case deleteIndexedKey env (ik_CellID req) key (ik_IsDel req) [] s of
             ((changed, err, wb), s) \<Rightarrow>
               if ik_IsDel req then
                 (case err of Some e \<Rightarrow> (Some e, s) | None \<Rightarrow> (None, kv_Write wb s))
               else
                 (case addIndexedKey env (ik_CellID req) (ik_IdxName req) 0 key
                         (if changed then [] else map go_string args) wb s of
                    (Inl e, s) \<Rightarrow> (Some e, s)
                  | (Inr wb, s) \<Rightarrow> (None, kv_Write wb s))))"

subsection \<open>The queue of cell requests\<close>

text \<open>\<^verbatim>\<open>ScanIndexInfo\<close> runs a handler on the keys of a range, with their index information, and returns
  its first error; \<open>skipEmpty\<close> leaves out keys without information.\<close>

fun scan_keys ::
  "(bytes \<Rightarrow> KeyMetaVal option \<Rightarrow> 'a \<times> 's \<Rightarrow> (ixError option \<times> 'a \<times> 's)) \<Rightarrow>
   (bytes \<times> KeyMetaVal option) list \<Rightarrow> 'a \<times> 's \<Rightarrow> ixError option \<times> 'a \<times> 's" where
  "scan_keys h [] x = (None, x)"
| "scan_keys h ((key, info) # ks) x =
     (case h key info x of
        (err, x) \<Rightarrow> (case scan_keys h ks x of (err', x) \<Rightarrow> (case err of None \<Rightarrow> (err', x) | Some e \<Rightarrow> (Some e, x))))"

definition ScanIndexInfo ::
  "u64 \<Rightarrow> bytes \<Rightarrow> bytes \<Rightarrow> bool \<Rightarrow>
   (bytes \<Rightarrow> KeyMetaVal option \<Rightarrow> 'a \<times> 'i IndexStore \<Rightarrow> (ixError option \<times> 'a \<times> 'i IndexStore)) \<Rightarrow>
   'a \<times> 'i IndexStore \<Rightarrow> ixError option \<times> 'a \<times> 'i IndexStore" where
  "ScanIndexInfo cellID start stop skipEmpty h x =
     (let s = snd x; i = xi_driver s cellID;
          ks = filter (\<lambda>k. bytesCompare start k \<le> 0 \<and> bytesCompare k stop < 0) (xi_keys s i)
      in scan_keys h (filter (\<lambda>(k, info). skipEmpty \<longrightarrow> info \<noteq> None) (map (\<lambda>k. (k, xi_info s i k)) ks)) x)"

definition split_key ::
  "'i indexEnv \<Rightarrow> u64 \<Rightarrow> u64 \<Rightarrow> bytes \<Rightarrow> KeyMetaVal option \<Rightarrow> bytes WriteBatch \<times> 'i IndexStore \<Rightarrow>
   ixError option \<times> bytes WriteBatch \<times> 'i IndexStore" where
  "split_key env cellIDL cellIDR dataKey info x =
     (let (wb, s) = x
      in case info of
           None \<Rightarrow> (None, wb, s)
         | Some mv \<Rightarrow>
             if km_CellID mv = cellIDR then (None, wb, s)
             else if km_IdxName mv = [] then (None, wb, s)
             else if map_of (xi_indices s) (km_IdxName mv) = None then (None, wb, s)
             else
               (case xi_indexers s cellIDL of
                  None \<Rightarrow> (Some IxPanic, wb, s)
                | Some idxerL \<Rightarrow>
                    (case xe_Del env (km_IdxName mv) (km_DocID mv) idxerL of
                       Inl e \<Rightarrow> (Some e, wb, s)
                     | Inr idxerL \<Rightarrow>
                         (case addIndexedKey env cellIDR (km_IdxName mv) (km_DocID mv) dataKey [] wb
                                 (put_indexer cellIDL idxerL s) of
                            (Inl e, s) \<Rightarrow> (Some e, wb, s)
                          | (Inr wb, s) \<Rightarrow> (None, wb, s)))))"

text \<open>The cell requests return the cells whose indexers are to be synced.\<close>

definition indexSplitCell ::
  "'i indexEnv \<Rightarrow> u64 \<Rightarrow> u64 \<Rightarrow> bytes WriteBatch \<Rightarrow> 'i IndexStore \<Rightarrow>
   (ixError option \<times> u64 list) \<times> bytes WriteBatch \<times> 'i IndexStore" where
  "indexSplitCell env cellIDL cellIDR wb s =
     (case (map_of (xi_cells s) cellIDL, map_of (xi_cells s) cellIDR) of
        (Some _, Some cellR) \<Rightarrow>
          (case (encStartKey cellR, encEndKey cellR) of
             (Inr start, Inr stop) \<Rightarrow>
               (case GetIndexer env cellIDL s of
                  (Inl e, s) \<Rightarrow> ((Some e, []), wb, s)
                | (Inr _, s) \<Rightarrow>
                    (case GetIndexer env cellIDR s of
                       (Inl e, s) \<Rightarrow> ((Some e, []), wb, s)
                     | (Inr _, s) \<Rightarrow>
                         (case ScanIndexInfo cellIDL start stop True (split_key env cellIDL cellIDR) (wb, s) of
                            (err, wb, s) \<Rightarrow> ((err, [cellIDL]), wb, s))))
           | _ \<Rightarrow> ((Some IxPanic, []), wb, s))
      | _ \<Rightarrow> ((None, []), wb, s))"

definition destroy_key ::
  "bytes \<Rightarrow> KeyMetaVal option \<Rightarrow> bytes WriteBatch \<times> 'i IndexStore \<Rightarrow> ixError option \<times> bytes WriteBatch \<times> 'i IndexStore" where
  "destroy_key dataKey info x =
     (let (wb, s) = x
      in case info of None \<Rightarrow> (None, wb, s) | Some mv \<Rightarrow> (None, wb_Delete wb (getDocIDKey (km_DocID mv)), s))"

definition indexDestroyCell ::
  "'i indexEnv \<Rightarrow> u64 \<Rightarrow> bytes WriteBatch \<Rightarrow> 'i IndexStore \<Rightarrow>
   (ixError option \<times> u64 list) \<times> bytes WriteBatch \<times> 'i IndexStore" where
  "indexDestroyCell env cellID wb s =
     (case map_of (xi_cells s) cellID of
        None \<Rightarrow> ((None, []), wb, s)
      | Some cell \<Rightarrow>
          (case (encStartKey cell, encEndKey cell) of
             (Inr start, Inr stop) \<Rightarrow>
               (case GetIndexer env cellID s of
                  (Inl e, s) \<Rightarrow> ((Some e, []), wb, s)
                | (Inr ix, s) \<Rightarrow>
                    (let s = clearDocIDKeys env ix (s\<lparr>xi_indexers := (xi_indexers s)(cellID := None)\<rparr>)
                     in case xe_Destroy env ix of
                          Inl e \<Rightarrow> ((Some e, []), wb, s)
                        | Inr _ \<Rightarrow>
                            (case ScanIndexInfo cellID start stop True destroy_key (wb, s) of
                               (err, wb, s) \<Rightarrow> ((err, []), wb, s))))
           | _ \<Rightarrow> ((Some IxPanic, []), wb, s)))"

definition rebuild_key ::
  "'i indexEnv \<Rightarrow> u64 \<Rightarrow> bytes \<Rightarrow> KeyMetaVal option \<Rightarrow> bytes WriteBatch \<times> 'i IndexStore \<Rightarrow>
   ixError option \<times> bytes WriteBatch \<times> 'i IndexStore" where
  "rebuild_key env cellID dataKey info x =
     (let (wb, s) = x;
          wb = (case info of None \<Rightarrow> wb | Some mv \<Rightarrow> wb_Delete wb (getDocIDKey (km_DocID mv)))
      in case getOriginKey dataKey of
           Inl _ \<Rightarrow> (Some IxPanic, wb, s)
         | Inr key \<Rightarrow>
             if matchIndex env s key = [] then (None, wb, s)
             else case addIndexedKey env cellID (matchIndex env s key) 0 dataKey [] wb s of
                    (Inl e, s) \<Rightarrow> (Some e, wb, s)
                  | (Inr wb, s) \<Rightarrow> (None, wb, s))"

definition indexRebuildCell ::
  "'i indexEnv \<Rightarrow> u64 \<Rightarrow> bytes WriteBatch \<Rightarrow> 'i IndexStore \<Rightarrow>
   (ixError option \<times> u64 list) \<times> bytes WriteBatch \<times> 'i IndexStore" where
  "indexRebuildCell env cellID wb s =
     (case map_of (xi_cells s) cellID of
        None \<Rightarrow> ((None, []), wb, s)
      | Some cell \<Rightarrow>
          (case (encStartKey cell, encEndKey cell) of
             (Inr start, Inr stop) \<Rightarrow>
               (case GetIndexer env cellID s of
                  (Inl e, s) \<Rightarrow> ((Some e, []), wb, s)
                | (Inr ix, s) \<Rightarrow>
                    (let s = clearDocIDKeys env ix s
                     in case xe_Destroy env ix of
                          Inl e \<Rightarrow> ((Some e, []), wb, s)
                        | Inr ix \<Rightarrow>
                            (case xe_Open env ix of
                               Inl e \<Rightarrow> ((Some e, []), wb, put_indexer cellID ix s)
                             | Inr ix \<Rightarrow>
                                 (case ScanIndexInfo cellID start stop False (rebuild_key env cellID)
                                         (wb, put_indexer cellID ix s) of
                                    (err, wb, s) \<Rightarrow> ((err, []), wb, s)))))
           | _ \<Rightarrow> ((Some IxPanic, []), wb, s)))"

fun sync_indexers :: "'i indexEnv \<Rightarrow> u64 list \<Rightarrow> 'i IndexStore \<Rightarrow> ixError option \<times> 'i IndexStore" where
  "sync_indexers env [] s = (None, s)"
| "sync_indexers env (c # cs) s =
     (case xi_indexers s c of
        None \<Rightarrow> sync_indexers env cs s
      | Some ix \<Rightarrow>
          (case xe_Sync env ix of
             Inl e \<Rightarrow> (Some e, s)
           | Inr ix \<Rightarrow> sync_indexers env cs (put_indexer c ix s)))"

text \<open>One turn of the queue: the request stays at its head until it has been handled.\<close>

definition handleIdxReqQueue :: "'i indexEnv \<Rightarrow> 'i IndexStore \<Rightarrow> (ixError + bool) \<times> 'i IndexStore" where
  "handleIdxReqQueue env s =
     (case xi_queue s of
        [] \<Rightarrow> (Inr True, s)
      | req # _ \<Rightarrow>
          (case (case req of
                   IdxDestroy c \<Rightarrow> indexDestroyCell env c [] s
                 | IdxRebuild c \<Rightarrow> indexRebuildCell env c [] s
                 | IdxSplit l r \<Rightarrow> indexSplitCell env l r [] s
                 | IdxUnknown \<Rightarrow> ((Some (IxErr ''unknown idxReq type''), []), [], s)) of
             ((Some e, _), _, s) \<Rightarrow> (Inl e, s)
           | ((None, dirty), wb, s) \<Rightarrow>
               (case sync_indexers env dirty (kv_Write wb s) of
                  (Some e, s) \<Rightarrow> (Inl e, s)
                | (None, s) \<Rightarrow> (Inr False, s\<lparr>xi_queue := tl (xi_queue s)\<rparr>))))"

subsection \<open>Changes of the index definitions\<close>

definition diffIndices ::
  "(string \<times> IndexDef) list \<Rightarrow> (string \<times> IndexDef) list \<Rightarrow> IndexDef list \<times> IndexDef list" where
  "diffIndices indices indicesNew =
     (map snd (filter (\<lambda>(name, cur). map_of indicesNew name \<noteq> Some cur) indices), map snd indicesNew)"

text \<open>A step on the indexers of all replicates; an error is logged and the next replicate is tried.\<close>

fun each_indexer :: "'i indexEnv \<Rightarrow> ('i \<Rightarrow> ixError + 'i) \<Rightarrow> u64 list \<Rightarrow> 'i IndexStore \<Rightarrow> 'i IndexStore" where
  "each_indexer env f [] s = s"
| "each_indexer env f (c # cs) s =
     (case GetIndexer env c s of
        (Inl _, s) \<Rightarrow> each_indexer env f cs s
      | (Inr ix, s) \<Rightarrow>
          (case f ix of
             Inl _ \<Rightarrow> each_indexer env f cs s
           | Inr ix \<Rightarrow> each_indexer env f cs (put_indexer c ix s)))"

fun delete_indices :: "'i indexEnv \<Rightarrow> IndexDef list \<Rightarrow> 'i IndexStore \<Rightarrow> 'i IndexStore" where
  "delete_indices env [] s = s"
| "delete_indices env (d # ds) s =
     (let s = each_indexer env (xe_DestroyIndex env (id_Name d)) (map fst (xi_cells s)) s
      in delete_indices env ds (s\<lparr>xi_docProts := (xi_docProts s)(id_Name d := None)\<rparr>))"

fun add_indices :: "'i indexEnv \<Rightarrow> IndexDef list \<Rightarrow> 'i IndexStore \<Rightarrow> ixError option \<times> 'i IndexStore" where
  "add_indices env [] s = (None, s)"
| "add_indices env (d # ds) s =
     (case convertToDocProt d of
        Inl e \<Rightarrow> (Some e, s)
      | Inr docProt \<Rightarrow>
          (let s = each_indexer env (xe_CreateIndex env docProt) (map fst (xi_cells s)) s
           in add_indices env ds (s\<lparr>xi_docProts := (xi_docProts s)(id_Name d \<mapsto> docProt)\<rparr>)))"

text \<open>The maps of the new definitions are written with the names of the answer; two maps are equal
  when they agree on every name.\<close>

definition same_indices :: "(string \<times> IndexDef) list \<Rightarrow> (string \<times> IndexDef) list \<Rightarrow> bool" where
  "same_indices a b \<longleftrightarrow>
     list_all (\<lambda>n. map_of a n = map_of b n) (map fst a @ map fst b)"

definition HandleIndicesChange :: "'i indexEnv \<Rightarrow> IndexDef list \<Rightarrow> 'i IndexStore \<Rightarrow> ixError option \<times> 'i IndexStore" where
  "HandleIndicesChange env rspIndices s =
     (let indicesNew = fold (\<lambda>d m. AList.update (id_Name d) d m) rspIndices [];
          (toDelete, toCreate) = diffIndices (xi_indices s) indicesNew;
          changeIndices = (\<not> same_indices (xi_indices s) indicesNew)
      in case add_indices env toCreate (delete_indices env toDelete s) of
           (Some e, s) \<Rightarrow> (Some e, s)
         | (None, s) \<Rightarrow>
             (None, if changeIndices
                    then s\<lparr>xi_reExps := map (\<lambda>(n, d). (n, id_KeyPattern d)) indicesNew, xi_indices := indicesNew,
                            xi_persisted := indicesNew\<rparr>
                    else s))"

end
