(* ===== verification/Store_Index_Props.thy ===== *)
theory Store_Index_Props
  imports Store_Index
begin

text \<open>
  The numbers of documents.  A cell takes them from a slice of its own and asks the placement driver for the
  identifier of a new slice when it is used up.
\<close>

subsection \<open>Document numbers\<close>

definition slice_no :: "u64 \<Rightarrow> nat" where
  "slice_no d = unat d div 2 ^ 20"

definition inside :: "u64 \<Rightarrow> bool" where
  "inside d \<longleftrightarrow> unat d mod 2 ^ 20 \<noteq> 0"

definition future_ids :: "'i IndexStore \<Rightarrow> u64 list" where
  "future_ids s = List.map_filter id (xi_pdIDs s)"

text \<open>The numbers that may still be given: the rest of the slices in use, and the slices of
  identifiers that the placement driver has not given yet.\<close>

definition unused :: "'i IndexStore \<Rightarrow> u64 \<Rightarrow> bool" where
  "unused s d \<longleftrightarrow>
     (\<exists>c. inside (xi_nextDocID s c) \<and> slice_no d = slice_no (xi_nextDocID s c) \<and> xi_nextDocID s c \<le> d) \<or>
     (\<exists>i\<in>set (future_ids s). slice_no d = unat i)"

definition alloc_ok :: "'i IndexStore \<Rightarrow> bool" where
  "alloc_ok s \<longleftrightarrow>
     distinct (future_ids s) \<and> (\<forall>i\<in>set (future_ids s). 0 < i \<and> unat i < 2 ^ 44) \<and>
     (\<forall>c. inside (xi_nextDocID s c) \<longrightarrow> slice_no (xi_nextDocID s c) \<notin> unat ` set (future_ids s) \<and>
        0 < slice_no (xi_nextDocID s c)) \<and>
     (\<forall>c c'. inside (xi_nextDocID s c) \<longrightarrow> inside (xi_nextDocID s c') \<longrightarrow>
        slice_no (xi_nextDocID s c) = slice_no (xi_nextDocID s c') \<longrightarrow> c = c')"

lemma slice_mask: "and d (SliceWidth - 1) = 0 \<longleftrightarrow> \<not> inside d"
proof -
  have "SliceWidth - 1 = mask 20"
    by (simp add: SliceWidth_def mask_eq_exp_minus_1)
  then have "and d (SliceWidth - 1) = take_bit 20 d"
    by (simp add: take_bit_eq_mask)
  moreover have "unat (take_bit 20 d) = unat d mod 2 ^ 20"
    by (simp add: unsigned_take_bit_eq) (simp add: take_bit_eq_mod)
  ultimately show ?thesis
    by (metis inside_def unat_eq_zero)
qed

lemma unat_start:
  assumes "unat i < 2 ^ 44"
  shows "unat (i * SliceWidth) = unat i * 2 ^ 20"
proof -
  have "unat (SliceWidth :: u64) = 2 ^ 20"
    by (simp add: SliceWidth_def)
  then show ?thesis
    using assms by (simp add: unat_word_ariths)
qed

lemma slice_start: "unat i < 2 ^ 44 \<Longrightarrow> slice_no (i * SliceWidth) = unat i"
  by (simp add: slice_no_def unat_start)

lemma next_inside:
  assumes "inside (d + 1)"
  shows "slice_no (d + 1) = slice_no d" "unat (d + 1) = unat d + 1"
proof -
  have "d + 1 \<noteq> 0"
    using assms by (auto simp: inside_def)
  then show u: "unat (d + 1) = unat d + 1"
    by (metis Suc_eq_plus1 add.commute unatSuc)
  show "slice_no (d + 1) = slice_no d"
    using assms u by (simp add: slice_no_def inside_def div_Suc)
qed

lemma future_ids_Cons [simp]:
  "xi_pdIDs s = Some i # ids \<Longrightarrow> future_ids s = i # List.map_filter id ids"
  by (simp add: future_ids_def List.map_filter_def)

lemma alloc_new_slice:
  assumes ok: "alloc_ok s" and ids: "xi_pdIDs s = Some i # ids" and c: "\<not> inside (xi_nextDocID s c)"
    and s': "s' = s\<lparr>xi_nextDocID := (xi_nextDocID s)(c := i * SliceWidth + 1), xi_pdIDs := ids\<rparr>"
  shows "unused s (i * SliceWidth)" "\<not> unused s' (i * SliceWidth)" "alloc_ok s'"
    "unused s' d' \<Longrightarrow> unused s d'"
proof -
  have i: "0 < i" "unat i < 2 ^ 44" "i \<notin> set (List.map_filter id ids)"
    using ok ids by (auto simp: alloc_ok_def)
  have f: "future_ids s = i # List.map_filter id ids" "future_ids s' = List.map_filter id ids"
    using ids by (simp_all add: s' future_ids_def List.map_filter_def)
  have u: "unat (i * SliceWidth + 1) = unat i * 2 ^ 20 + 1"
    using unat_start [OF i(2)] i(2) by (simp add: unat_word_ariths(1))
  have m: "(unat i * 2 ^ 20 + 1) mod 2 ^ 20 = 1 mod (2 ^ 20 :: nat)"
    "(unat i * 2 ^ 20 + 1) div 2 ^ 20 = unat i + 1 div (2 ^ 20 :: nat)"
    by (rule mod_mult_self3, rule div_mult_self3, simp)
  then have n: "inside (i * SliceWidth + 1)" "slice_no (i * SliceWidth + 1) = unat i"
    unfolding inside_def slice_no_def u by (simp_all only: m) simp_all
  have lt: "i * SliceWidth < i * SliceWidth + 1"
    using u unat_start [OF i(2)] by (simp add: word_less_nat_alt)
  have pos: "0 < unat i"
    using i(1) by (simp add: word_gt_0 unat_gt_0)
  show "unused s (i * SliceWidth)"
    using f i slice_start by (auto simp: unused_def)
  have old: "slice_no (xi_nextDocID s c') \<noteq> unat i" if "inside (xi_nextDocID s c')" for c'
    using ok that f by (auto simp: alloc_ok_def)
  have old: "inside (xi_nextDocID s c') \<Longrightarrow> slice_no (xi_nextDocID s c') = unat i \<Longrightarrow> False"
    "inside (xi_nextDocID s c') \<Longrightarrow> unat i = slice_no (xi_nextDocID s c') \<Longrightarrow> False" for c'
    using old by auto
  have new: "unat i = unat j \<Longrightarrow> j \<in> set (List.map_filter id ids) \<Longrightarrow> False" for j
    using i(3) word_unat_eq_iff [of j i] by auto
  show "\<not> unused s' (i * SliceWidth)"
    using lt n slice_start [OF i(2)] unfolding unused_def f(2)
    by (auto simp: s' leD dest: old new split: if_splits)
  show "alloc_ok s'"
    using ok n f i old pos unfolding alloc_ok_def
    by (auto simp: s' f(2) [unfolded s'] dest: new split: if_splits)
  show "unused s d'" if "unused s' d'"
    using that n f unfolding unused_def by (auto simp: s' f(2) [unfolded s'] split: if_splits)
qed

lemma alloc_same_slice:
  assumes ok: "alloc_ok s" and c: "inside (xi_nextDocID s c)"
    and s': "s' = s\<lparr>xi_nextDocID := (xi_nextDocID s)(c := xi_nextDocID s c + 1)\<rparr>"
  shows "unused s (xi_nextDocID s c)" "\<not> unused s' (xi_nextDocID s c)" "alloc_ok s'"
    "unused s' d' \<Longrightarrow> unused s d'"
proof -
  let ?d = "xi_nextDocID s c"
  have f: "future_ids s' = future_ids s"
    by (simp add: s' future_ids_def)
  have lt: "?d < ?d + 1" if "inside (?d + 1)"
    using next_inside(2) [OF that] by (simp add: word_less_nat_alt)
  have le: "?d \<le> d'" if "?d + 1 \<le> d'" "inside (?d + 1)" for d'
    using lt [OF that(2)] that(1) by simp
  have d: "slice_no ?d \<notin> unat ` set (future_ids s)" "0 < slice_no ?d"
    "\<And>c'. inside (xi_nextDocID s c') \<Longrightarrow> slice_no (xi_nextDocID s c') = slice_no ?d \<Longrightarrow> c' = c"
    using ok c by (auto simp: alloc_ok_def)
  show "unused s ?d"
    using c by (auto simp: unused_def)
  show "\<not> unused s' ?d"
    using lt d f by (auto simp: unused_def s' leD dest: sym split: if_splits)
  show "alloc_ok s'"
    using ok d next_inside(1) [of ?d] unfolding alloc_ok_def
    by (auto simp: s' f [unfolded s'] dest: sym split: if_splits)
  show "unused s d'" if "unused s' d'"
    using that c le next_inside(1) [of ?d] unfolding unused_def
    by (auto simp: s' f [unfolded s'] split: if_splits)
qed

lemma AllocateDocID_unused:
  assumes "alloc_ok s" "AllocateDocID c s = (Inr d, s')"
  shows "unused s d" "\<not> unused s' d" "alloc_ok s'" "\<And>d'. unused s' d' \<Longrightarrow> unused s d'"
proof -
  have "unused s d \<and> \<not> unused s' d \<and> alloc_ok s' \<and> (\<forall>d'. unused s' d' \<longrightarrow> unused s d')"
  proof (cases "inside (xi_nextDocID s c)")
    case True
    then have d: "d = xi_nextDocID s c" and s': "s' = s\<lparr>xi_nextDocID := (xi_nextDocID s)(c := xi_nextDocID s c + 1)\<rparr>"
      using assms(2) by (auto simp: AllocateDocID_def slice_mask Let_def)
    then show ?thesis
      using alloc_same_slice [OF assms(1) True s'] d by simp
  next
    case False
    then obtain i ids where ids: "xi_pdIDs s = Some i # ids" and d: "d = i * SliceWidth"
      and s': "s' = s\<lparr>xi_nextDocID := (xi_nextDocID s)(c := i * SliceWidth + 1), xi_pdIDs := ids\<rparr>"
      using assms(2) by (auto simp: AllocateDocID_def slice_mask Let_def split: list.splits option.splits)
    then show ?thesis
      using alloc_new_slice [OF assms(1) ids False s'] d by simp
  qed
  then show "unused s d" "\<not> unused s' d" "alloc_ok s'" "\<And>d'. unused s' d' \<Longrightarrow> unused s d'"
    by blast+
qed

lemma AllocateDocID_error:
  assumes "alloc_ok s" "AllocateDocID c s = (Inl e, s')"
  shows "alloc_ok s'" "unused s' d \<Longrightarrow> unused s d"
proof -
  have a: "\<not> inside (xi_nextDocID s c)" "s' = s\<lparr>xi_pdIDs := tl (xi_pdIDs s)\<rparr>"
    "future_ids s' = future_ids s"
    using assms(2) by (auto simp: AllocateDocID_def slice_mask Let_def future_ids_def List.map_filter_def
      split: list.splits option.splits if_splits)
  show "alloc_ok s'"
    using assms(1) a(3) by (simp add: alloc_ok_def a(2))
  show "unused s' d \<Longrightarrow> unused s d"
    using a(3) by (simp add: unused_def a(2))
qed

fun alloc_run :: "u64 list \<Rightarrow> 'i IndexStore \<Rightarrow> u64 list" where
  "alloc_run [] s = []"
| "alloc_run (c # cs) s =
     (case AllocateDocID c s of
        (Inl _, s) \<Rightarrow> alloc_run cs s
      | (Inr d, s) \<Rightarrow> d # alloc_run cs s)"

lemma alloc_run_unused: "alloc_ok s \<Longrightarrow> d \<in> set (alloc_run cs s) \<Longrightarrow> unused s d"
proof (induction cs arbitrary: s)
  case (Cons c cs)
  obtain r s' where r: "AllocateDocID c s = (r, s')"
    by fastforce
  show ?case
  proof (cases r)
    case (Inl e)
    then have "d \<in> set (alloc_run cs s')"
      using Cons.prems(2) r by simp
    then show ?thesis
      using Cons.IH AllocateDocID_error [OF Cons.prems(1)] r Inl by blast
  next
    case (Inr d')
    note a = AllocateDocID_unused [OF Cons.prems(1) r [unfolded Inr]]
    have "d = d' \<or> d \<in> set (alloc_run cs s')"
      using Cons.prems(2) r Inr by simp
    then show ?thesis
      using Cons.IH [OF a(3)] a(1,4) by blast
  qed
qed simp

text \<open>C39: the document numbers that the cells of a store allocate, in whatever order they ask, are
  all different, as long as the placement driver gives every identifier once and none of them
  reaches \<open>2 ^ 44\<close>.\<close>

theorem doc_ids_unique: "alloc_ok s \<Longrightarrow> distinct (alloc_run cs s)"
proof (induction cs arbitrary: s)
  case (Cons c cs)
  obtain r s' where r: "AllocateDocID c s = (r, s')"
    by fastforce
  show ?case
  proof (cases r)
    case (Inl e)
    then show ?thesis
      using Cons.IH AllocateDocID_error(1) [OF Cons.prems(1)] r by simp
  next
    case (Inr d)
    note a = AllocateDocID_unused [OF Cons.prems(1) r [unfolded Inr]]
    have "d \<notin> set (alloc_run cs s')"
      using alloc_run_unused [OF a(3)] a(2) by blast
    then show ?thesis
      using Cons.IH [OF a(3)] r Inr by simp
  qed
qed simp

definition demo_index :: "(string \<times> u64) list IndexStore" where
  "demo_index = \<lparr>xi_engines = 1, xi_indices = [], xi_reExps = [], xi_docProts = Map.empty, xi_persisted = [],
     xi_indexers = Map.empty, xi_kv = [], xi_queue = [], xi_keys = (\<lambda>_. []), xi_info = (\<lambda>_. Map.empty),
     xi_hash = (\<lambda>_ _. []), xi_cells = [], xi_nextDocID = (\<lambda>_. 0), xi_pdIDs = [Some 1, None, Some 2]\<rparr>"

lemma demo_alloc_ok: "alloc_ok demo_index"
  by (simp add: alloc_ok_def demo_index_def future_ids_def List.map_filter_def inside_def)

theorem doc_ids_unique_witness:
  "alloc_ok demo_index \<and> alloc_run [7, 8, 8, 7] demo_index = [2 ^ 20, 2 ^ 21, 2 ^ 20 + 1] \<and>
   distinct (alloc_run [7, 8, 8, 7] demo_index)"
proof -
  have "alloc_run [7, 8, 8, 7] demo_index = [2 ^ 20, 2 ^ 21, 2 ^ 20 + 1]"
    by (simp add: demo_index_def AllocateDocID_def SliceWidth_def)
  then show ?thesis
    using doc_ids_unique [OF demo_alloc_ok, of "[7, 8, 8, 7]"] demo_alloc_ok by simp
qed

end
