(* ===== verification/Spec2Isabelle.thy ===== *)
theory Spec2Isabelle
  imports Cell_Tree Bytes_Util Offset_Queue Job_Machine Restart Raft_Store_Ranges Pd_Cluster_Props Redis_Props
    Util_Heap Pd_Watch_Props Store_Index_Props
begin

text \<open>
  A verification development for elasticell, a distributed key-value store.
\<close>

end
